(* ===== verification/Prelude.thy ===== *)
theory Prelude
  imports Main "HOL-Library.AList" "HOL-Library.List_Lexorder" "HOL-Library.Char_ord"
    "HOL-Library.Word" "HOL-Library.Sublist" "HOL-Library.Signed_Division"
begin

text \<open>
  Shared vocabulary of the development: Go maps and string sets with an explicit
  iteration order, Go's 64-bit durations and saturating time differences, the fact
  collections, and the locales for invariants of transition systems that the master
  and the slave instantiate.
\<close>

named_theorems consts_simps \<open>the string constants of the protocol, unfolded\<close>
named_theorems server_defs \<open>the definitions of the master's critical sections\<close>
named_theorems frame_simps \<open>fields an operation leaves unchanged\<close>

section \<open>Go maps\<close>

text \<open>
  A Go map is an association list without repeated keys; the order of the list is the
  order in which one \<open>range\<close> loop visits it. Go does not fix that order, and
  every theorem is stated for an arbitrary list, so it holds for each of them.
\<close>

type_synonym ('k, 'v) gomap = "('k \<times> 'v) list"

abbreviation mput :: "'k \<Rightarrow> 'v \<Rightarrow> ('k, 'v) gomap \<Rightarrow> ('k, 'v) gomap" where
  "mput \<equiv> AList.update"

abbreviation mdel :: "'k \<Rightarrow> ('k, 'v) gomap \<Rightarrow> ('k, 'v) gomap" where
  "mdel \<equiv> AList.delete"

abbreviation mkeys :: "('k, 'v) gomap \<Rightarrow> 'k list" where
  "mkeys m \<equiv> map fst m"

text \<open>Writing through a pointer stored in the map (\<open>m[k].field = ...\<close>).\<close>

definition madjust :: "'k \<Rightarrow> ('v \<Rightarrow> 'v) \<Rightarrow> ('k, 'v) gomap \<Rightarrow> ('k, 'v) gomap" where
  "madjust k f m = map (\<lambda>(k', v). (k', if k' = k then f v else v)) m"

text \<open>A \<open>map[string]struct\<close> used as a set; inserting a member is a no-op.\<close>

definition sput :: "'a \<Rightarrow> 'a list \<Rightarrow> 'a list" where
  "sput x xs = (if x \<in> set xs then xs else xs @ [x])"

definition sputs :: "'a list \<Rightarrow> 'a list \<Rightarrow> 'a list" where
  "sputs ys xs = fold sput ys xs"

lemmas gomap_conv [simp] = update_conv' delete_conv'

declare map_of_eq_Some_iff [simp del]

lemma mkeys_mput: "set (mkeys (mput k v m)) = insert k (set (mkeys m))"
  using dom_update [of k v m] by simp

lemma mkeys_mdel: "set (mkeys (mdel k m)) = set (mkeys m) - {k}"
  by (simp add: delete_keys flip: set_map)

lemma map_of_None_keys: "map_of m k = None \<longleftrightarrow> k \<notin> set (mkeys m)"
  by (simp add: map_of_eq_None_iff)

lemma map_of_Some_keys: "map_of m k = Some v \<Longrightarrow> k \<in> set (mkeys m)"
  using map_of_None_keys [of m k] by auto

lemma keys_map_of_Some: "k \<in> set (mkeys m) \<Longrightarrow> \<exists>v. map_of m k = Some v"
  using map_of_None_keys [of m k] by (cases "map_of m k") auto

lemma keys_iff_Some: "k \<in> set (mkeys m) \<longleftrightarrow> (\<exists>v. map_of m k = Some v)"
  using keys_map_of_Some map_of_Some_keys by metis

lemma map_of_map_val: "map_of (map (\<lambda>(k, v). (k, f k v)) m) k = map_option (f k) (map_of m k)"
  by (induction m) auto

lemma mkeys_map_val [simp]: "map (fst \<circ> (\<lambda>(k, v). (k, f k v))) m = mkeys m"
  by (induction m) auto

lemma mkeys_madjust [simp]: "mkeys (madjust k f m) = mkeys m"
  by (simp add: madjust_def)

lemma map_of_madjust:
  "map_of (madjust k f m) k' = (if k' = k then map_option f (map_of m k) else map_of m k')"
  using map_of_map_val [of "\<lambda>k' v. if k' = k then f v else v" m k']
  by (auto simp: madjust_def option.map_ident)

lemma length_madjust [simp]: "length (madjust k f m) = length m"
  by (simp add: madjust_def)

lemma set_sput [simp]: "set (sput x xs) = insert x (set xs)"
  by (auto simp: sput_def)

lemma distinct_sput [simp]: "distinct (sput x xs) = distinct xs"
  by (auto simp: sput_def)

lemma set_sputs [simp]: "set (sputs ys xs) = set ys \<union> set xs"
  by (induction ys arbitrary: xs) (auto simp: sputs_def)

lemma distinct_sputs [simp]: "distinct (sputs ys xs) = distinct xs"
  by (induction ys arbitrary: xs) (auto simp: sputs_def)

section \<open>Time and durations\<close>

text \<open>
  A \<open>time.Time\<close> is the number of nanoseconds since Go's zero time, so the zero
  value is \<open>0\<close>. A \<open>time.Duration\<close> is an \<open>int64\<close> of nanoseconds: products wrap, and
  \<open>Time.Sub\<close> saturates at the ends of the range.
\<close>

type_synonym time = int
type_synonym duration = int

definition minDuration :: duration where "minDuration = - (2 ^ 63)"
definition maxDuration :: duration where "maxDuration = 2 ^ 63 - 1"

definition wrap64 :: "int \<Rightarrow> int" where
  "wrap64 x = signed_take_bit 63 x"

definition time_Sub :: "time \<Rightarrow> time \<Rightarrow> duration" where
  "time_Sub a b = max minDuration (min maxDuration (a - b))"

definition time_Add :: "time \<Rightarrow> duration \<Rightarrow> time" where
  "time_Add t d = t + d"

definition nanosecond :: duration where "nanosecond = 1"
definition millisecond :: duration where "millisecond = 1000000"
definition second :: duration where "second = 1000000000"
definition minute :: duration where "minute = 60000000000"

lemmas duration_units = nanosecond_def millisecond_def second_def minute_def

lemma wrap64_id: "minDuration \<le> x \<Longrightarrow> x \<le> maxDuration \<Longrightarrow> wrap64 x = x"
  by (simp add: wrap64_def minDuration_def maxDuration_def signed_take_bit_int_eq_self_iff)

lemma wrap64_range: "minDuration \<le> wrap64 x \<and> wrap64 x \<le> maxDuration"
  using signed_take_bit_int_greater_eq_minus_exp [of 63 x] signed_take_bit_int_less_exp [of 63 x]
  by (simp add: wrap64_def minDuration_def maxDuration_def)

lemma time_Sub_ge_iff:
  "minDuration < d \<Longrightarrow> d \<le> maxDuration \<Longrightarrow> d \<le> time_Sub a b \<longleftrightarrow> d \<le> a - b"
  by (auto simp: time_Sub_def le_max_iff_disj)

lemma time_Sub_self: "time_Sub a a = 0"
  by (simp add: time_Sub_def minDuration_def maxDuration_def)

section \<open>Invariants of transition systems\<close>

text \<open>
  Both programs are transition systems whose steps are the critical sections their
  goroutines run under a mutex. An invariant that holds initially and is kept by every
  step holds after any interleaving of steps; a reflexive transitive relation that every
  step respects relates the ends of any run.
\<close>

locale transition_system =
  fixes init :: "'s \<Rightarrow> bool" and step :: "'s \<Rightarrow> 's \<Rightarrow> bool" and inv :: "'s \<Rightarrow> bool"
  assumes init_inv: "init s \<Longrightarrow> inv s"
    and step_inv: "inv s \<Longrightarrow> step s t \<Longrightarrow> inv t"
begin

lemma run_keeps_inv: "step\<^sup>*\<^sup>* s t \<Longrightarrow> inv s \<Longrightarrow> inv t"
  by (induction rule: rtranclp_induct) (auto intro: step_inv)

lemma reachable_inv: "init s \<Longrightarrow> step\<^sup>*\<^sup>* s t \<Longrightarrow> inv t"
  by (blast intro: run_keeps_inv init_inv)

end

locale ordered_transition_system = transition_system +
  fixes le :: "'s \<Rightarrow> 's \<Rightarrow> bool"
  assumes le_refl: "le s s"
    and le_trans: "le s t \<Longrightarrow> le t u \<Longrightarrow> le s u"
    and step_le: "inv s \<Longrightarrow> step s t \<Longrightarrow> le s t"
begin

lemma run_le: "step\<^sup>*\<^sup>* s t \<Longrightarrow> inv s \<Longrightarrow> le s t"
proof (induction rule: rtranclp_induct)
  case base
  show ?case by (rule le_refl)
next
  case (step t u)
  from step.hyps(1) step.prems have "inv t" by (rule run_keeps_inv)
  with step.hyps(2) have "le t u" by (blast intro: step_le)
  with step.IH [OF step.prems] show ?case by (rule le_trans)
qed

end

section \<open>Counters with a label\<close>

text \<open>\<open>WithLabelValues(label).Inc()\<close>\<close>

definition count_of :: "'l \<Rightarrow> ('l, nat) gomap \<Rightarrow> nat" where
  "count_of label m = (case map_of m label of None \<Rightarrow> 0 | Some k \<Rightarrow> k)"

definition inc_label :: "'l \<Rightarrow> ('l, nat) gomap \<Rightarrow> ('l, nat) gomap" where
  "inc_label label m = mput label (Suc (count_of label m)) m"

lemma inc_label_total: "distinct (mkeys m) \<Longrightarrow> sum_list (map snd (inc_label l m)) = Suc (sum_list (map snd m))"
proof (induction m)
  case (Cons x m)
  obtain k v where x: "x = (k, v)" by (cases x)
  show ?case
  proof (cases "k = l")
    case False
    then show ?thesis using Cons by (simp add: x inc_label_def count_of_def)
  qed (simp add: x inc_label_def count_of_def)
qed (simp add: inc_label_def count_of_def)

lemma count_inc_label: "count_of k (inc_label l m) = count_of k m + (if k = l then 1 else 0)"
  by (simp add: inc_label_def count_of_def)

section \<open>Lists\<close>

lemma distinct_subseq: "subseq xs ys \<Longrightarrow> distinct ys \<Longrightarrow> distinct xs"
  by (induction rule: list_emb.induct) (auto dest: list_emb_set)

lemma subseq_subset: "subseq xs ys \<Longrightarrow> set xs \<subseteq> set ys"
  by (induction rule: list_emb.induct) auto

lemma distinct_map_filter: "distinct (map f xs) \<Longrightarrow> distinct (map f (filter P xs))"
  by (induction xs) auto

lemma filter_set_eq: "(\<And>x. x \<in> set xs \<Longrightarrow> P x = Q x) \<Longrightarrow> filter P xs = filter Q xs"
  by (rule filter_cong) auto

lemma set_map_fst_filter: "set (map fst (filter P m)) \<subseteq> set (map fst m)"
  by auto

lemma map_of_filter_Some:
  "distinct (map fst m) \<Longrightarrow> map_of m k = Some v \<Longrightarrow> P (k, v) \<Longrightarrow> map_of (filter P m) k = Some v"
proof -
  assume d: "distinct (map fst m)" and "map_of m k = Some v" and p: "P (k, v)"
  then have "(k, v) \<in> set (filter P m)" by (auto dest: map_of_SomeD)
  moreover from d have "distinct (map fst (filter P m))" by (rule distinct_map_filter)
  ultimately show ?thesis by (simp add: map_of_eq_Some_iff)
qed

lemma map_of_filter_SomeD:
  "distinct (map fst m) \<Longrightarrow> map_of (filter P m) k = Some v \<Longrightarrow> map_of m k = Some v \<and> P (k, v)"
  by (auto dest!: map_of_SomeD simp: map_of_eq_Some_iff)

lemma length_filter_keys:
  "distinct (map fst m) \<Longrightarrow> distinct vs \<Longrightarrow> set vs \<subseteq> set (map fst m) \<Longrightarrow>
    length (filter (\<lambda>(k, v). k \<notin> set vs) m) = length m - length vs"
proof -
  assume d: "distinct (map fst m)" and v: "distinct vs" "set vs \<subseteq> set (map fst m)"
  have "length (filter (\<lambda>(k, v). k \<notin> set vs) m) = length (filter (\<lambda>k. k \<notin> set vs) (map fst m))"
    by (simp add: filter_map comp_def case_prod_unfold)
  also have "\<dots> = card (set (map fst m) - set vs)"
    using d by (simp only: distinct_length_filter set_diff_eq Int_def mem_Collect_eq conj_commute)
  also have "\<dots> = length m - length vs"
    using d v by (simp add: card_Diff_subset distinct_card flip: set_map)
  finally show ?thesis .
qed

lemma take_le_drop_key:
  "x \<in> set (take k (sort_key f xs)) \<Longrightarrow> y \<in> set (drop k (sort_key f xs)) \<Longrightarrow> f x \<le> f y"
  using sorted_append [of "map f (take k (sort_key f xs))" "map f (drop k (sort_key f xs))"]
  by (force simp flip: map_append)

end
