(* ===== verification/Config.thy ===== *)
theory Config
  imports GoStrings
begin

text \<open>
  \<open>internal/config\<close>: the configuration structs of the master and the slave.
\<close>

section \<open>Structs\<close>

record TLSConfig =
  tls_Enabled :: bool
  tls_Disabled :: bool
  tls_CertFile :: string
  tls_KeyFile :: string
  tls_CAFile :: string
  tls_ServerName :: string
  tls_RequireClientCert :: bool
  tls_InsecureSkipVerify :: bool
  tls_BindNodeIDToCert :: bool

record AdminTLSConfig =
  at_CertFile :: string
  at_KeyFile :: string

record ShutdownPolicyWhen =
  pw_ChargeBelow :: int
  pw_RuntimeBelow :: int
  pw_LowBattery :: bool
  pw_UPSUnreachableFor :: duration

record ShutdownPolicyTarget =
  pt_All :: bool
  pt_Tags :: "string list"
  pt_NodeIDs :: "string list"

record ShutdownPolicySpec =
  pol_Name :: string
  pol_When :: ShutdownPolicyWhen
  pol_Duration :: duration
  pol_Target :: ShutdownPolicyTarget
  pol_Reason :: string

text \<open>The command is a slice whose nil value the loader tells from an empty list.\<close>

record LocalShutdownConfig =
  lc_Enabled :: bool
  lc_Command :: "string list option"
  lc_CommandTimeout :: duration
  lc_MaxWait :: duration
  lc_EmergencyRuntimeMinutes :: int
  lc_UnreachableAfter :: duration

record SNMPStateVar =
  sv_OID :: string
  sv_Values :: "int list"

record SNMPValueVar =
  vv_OID :: string
  vv_Unit :: string

record SNMPConfig =
  sn_Target :: string
  sn_Port :: "16 word"
  sn_Version :: string
  sn_TimeoutSeconds :: int
  sn_Community :: string
  sn_Username :: string
  sn_SecurityLevel :: string
  sn_AuthProtocol :: string
  sn_AuthPassphrase :: string
  sn_PrivProtocol :: string
  sn_PrivPassphrase :: string
  sn_Profile :: string
  sn_OnBattery :: "SNMPStateVar option"
  sn_Charge :: "SNMPValueVar option"
  sn_Runtime :: "SNMPValueVar option"

record NUTConfig =
  nu_Host :: string
  nu_Port :: "16 word"
  nu_UPS :: string
  nu_TimeoutSeconds :: int

record MasterConfig =
  mc_ListenAddr :: string
  mc_AdminListenAddr :: string
  mc_AdminToken :: string
  mc_AdminTLS :: AdminTLSConfig
  mc_PublicAddr :: string
  mc_InstallRepo :: string
  mc_InstallCAFile :: string
  mc_StateFile :: string
  mc_EnrollmentTokens :: "string list"
  mc_Enrollment :: string
  mc_PollInterval :: duration
  mc_CommandTimeout :: duration
  mc_OfflineAfter :: duration
  mc_DryRun :: bool
  mc_LogUPSStatus :: bool
  mc_TLS :: TLSConfig
  mc_LocalShutdown :: LocalShutdownConfig
  mc_ShutdownPolicies :: "ShutdownPolicySpec list"
  mc_SNMP :: SNMPConfig
  mc_NUT :: NUTConfig

record SlaveConfig =
  sc_NodeID :: string
  sc_MasterAddr :: string
  sc_Token :: string
  sc_Tags :: "string list option"
  sc_StateFile :: string
  sc_MetricsListenAddr :: string
  sc_ReconnectInterval :: duration
  sc_DryRun :: bool
  sc_TLS :: TLSConfig
  sc_ShutdownCommand :: "string list"
  sc_ShutdownCommandTimeout :: duration

text \<open>\<open>UsesNUT\<close>: the UPS is read from a NUT upsd instead of SNMP.\<close>

definition UsesNUT :: "MasterConfig \<Rightarrow> bool" where
  "UsesNUT c = (nu_Host (mc_NUT c) \<noteq> [])"

text \<open>The elements of a slice that may be nil.\<close>

definition slice :: "'a list option \<Rightarrow> 'a list" where
  "slice s = (case s of None \<Rightarrow> [] | Some xs \<Rightarrow> xs)"

lemma slice_simps [simp]: "slice None = []" "slice (Some xs) = xs"
  by (simp_all add: slice_def)

definition EnrollmentOpen :: string where [consts_simps]: "EnrollmentOpen = ''open''"
definition EnrollmentClosed :: string where [consts_simps]: "EnrollmentClosed = ''closed''"

definition RuntimeUnitMinutes :: string where [consts_simps]: "RuntimeUnitMinutes = ''minutes''"
definition RuntimeUnitSeconds :: string where [consts_simps]: "RuntimeUnitSeconds = ''seconds''"
definition RuntimeUnitTimeTicks :: string where [consts_simps]: "RuntimeUnitTimeTicks = ''timeticks''"

definition zero_TLS :: TLSConfig where
  "zero_TLS = \<lparr>tls_Enabled = False, tls_Disabled = False, tls_CertFile = [], tls_KeyFile = [],
    tls_CAFile = [], tls_ServerName = [], tls_RequireClientCert = False,
    tls_InsecureSkipVerify = False, tls_BindNodeIDToCert = False\<rparr>"

end
