(* ===== verification/Protocol.thy ===== *)
theory Protocol
  imports GoStrings
begin

text \<open>
  \<open>internal/protocol\<close>: the message structs both programs exchange, the status, phase and
  trigger constants, and the line framing of \<open>wire.go\<close> with its size limit.
\<close>

section \<open>Constants\<close>

definition TypeRegister :: string where [consts_simps]: "TypeRegister = ''register''"
definition TypeRegisterAck :: string where [consts_simps]: "TypeRegisterAck = ''register_ack''"
definition TypePing :: string where [consts_simps]: "TypePing = ''ping''"
definition TypePong :: string where [consts_simps]: "TypePong = ''pong''"
definition TypeShutdown :: string where [consts_simps]: "TypeShutdown = ''shutdown''"
definition TypeShutdownAck :: string where [consts_simps]: "TypeShutdownAck = ''shutdown_ack''"
definition TypeError :: string where [consts_simps]: "TypeError = ''error''"
definition TypeTokenStored :: string where [consts_simps]: "TypeTokenStored = ''token_stored''"

definition StatusAccepted :: string where [consts_simps]: "StatusAccepted = ''accepted''"
definition StatusExecuting :: string where [consts_simps]: "StatusExecuting = ''executing''"
definition StatusExecuted :: string where [consts_simps]: "StatusExecuted = ''executed''"
definition StatusFailed :: string where [consts_simps]: "StatusFailed = ''failed''"
definition StatusTimeout :: string where [consts_simps]: "StatusTimeout = ''timeout''"
definition StatusSimulated :: string where [consts_simps]: "StatusSimulated = ''simulated''"

definition PhaseIdle :: string where [consts_simps]: "PhaseIdle = ''idle''"
definition PhaseWaitingRemote :: string where [consts_simps]: "PhaseWaitingRemote = ''waiting_remote''"
definition PhaseWaitExpired :: string where [consts_simps]: "PhaseWaitExpired = ''wait_expired''"
definition PhaseEmergency :: string where [consts_simps]: "PhaseEmergency = ''emergency''"
definition PhaseExecuting :: string where [consts_simps]: "PhaseExecuting = ''executing''"
definition PhaseCompleted :: string where [consts_simps]: "PhaseCompleted = ''completed''"
definition PhaseFailed :: string where [consts_simps]: "PhaseFailed = ''failed''"

definition TriggerRemoteComplete :: string where
  [consts_simps]: "TriggerRemoteComplete = ''remote_complete''"
definition TriggerWaitExpired :: string where
  [consts_simps]: "TriggerWaitExpired = ''wait_expired''"
definition TriggerEmergencyRuntime :: string where
  [consts_simps]: "TriggerEmergencyRuntime = ''emergency_runtime''"
definition TriggerUPSUnreachable :: string where
  [consts_simps]: "TriggerUPSUnreachable = ''ups_unreachable''"
definition TriggerLowBattery :: string where
  [consts_simps]: "TriggerLowBattery = ''low_battery''"

definition NodeStateOnline :: string where [consts_simps]: "NodeStateOnline = ''online''"
definition NodeStateOffline :: string where [consts_simps]: "NodeStateOffline = ''offline''"
definition NodeStateNeverSeen :: string where [consts_simps]: "NodeStateNeverSeen = ''never_seen''"

definition UPSSourceSNMP :: string where [consts_simps]: "UPSSourceSNMP = ''snmp''"
definition UPSSourceNUT :: string where [consts_simps]: "UPSSourceNUT = ''nut''"

text \<open>The constants of one enumeration are pairwise different.\<close>

lemma status_neq [simp]:
  "StatusAccepted \<noteq> StatusExecuting" "StatusAccepted \<noteq> StatusExecuted"
    "StatusAccepted \<noteq> StatusFailed" "StatusAccepted \<noteq> StatusTimeout"
    "StatusAccepted \<noteq> StatusSimulated" "StatusExecuting \<noteq> StatusAccepted"
    "StatusExecuting \<noteq> StatusExecuted" "StatusExecuting \<noteq> StatusFailed"
    "StatusExecuting \<noteq> StatusTimeout" "StatusExecuting \<noteq> StatusSimulated"
    "StatusExecuted \<noteq> StatusAccepted" "StatusExecuted \<noteq> StatusExecuting"
    "StatusExecuted \<noteq> StatusFailed" "StatusExecuted \<noteq> StatusTimeout"
    "StatusExecuted \<noteq> StatusSimulated" "StatusFailed \<noteq> StatusAccepted"
    "StatusFailed \<noteq> StatusExecuting" "StatusFailed \<noteq> StatusExecuted"
    "StatusFailed \<noteq> StatusTimeout" "StatusFailed \<noteq> StatusSimulated"
    "StatusTimeout \<noteq> StatusAccepted" "StatusTimeout \<noteq> StatusExecuting"
    "StatusTimeout \<noteq> StatusExecuted" "StatusTimeout \<noteq> StatusFailed"
    "StatusTimeout \<noteq> StatusSimulated" "StatusSimulated \<noteq> StatusAccepted"
    "StatusSimulated \<noteq> StatusExecuting" "StatusSimulated \<noteq> StatusExecuted"
    "StatusSimulated \<noteq> StatusFailed" "StatusSimulated \<noteq> StatusTimeout"
  by (simp_all add: consts_simps)

lemma phase_neq [simp]:
  "PhaseIdle \<noteq> PhaseWaitingRemote" "PhaseIdle \<noteq> PhaseWaitExpired"
    "PhaseIdle \<noteq> PhaseEmergency" "PhaseIdle \<noteq> PhaseExecuting"
    "PhaseIdle \<noteq> PhaseCompleted" "PhaseIdle \<noteq> PhaseFailed"
    "PhaseWaitingRemote \<noteq> PhaseIdle" "PhaseWaitingRemote \<noteq> PhaseWaitExpired"
    "PhaseWaitingRemote \<noteq> PhaseEmergency"
    "PhaseWaitingRemote \<noteq> PhaseExecuting"
    "PhaseWaitingRemote \<noteq> PhaseCompleted" "PhaseWaitingRemote \<noteq> PhaseFailed"
    "PhaseWaitExpired \<noteq> PhaseIdle" "PhaseWaitExpired \<noteq> PhaseWaitingRemote"
    "PhaseWaitExpired \<noteq> PhaseEmergency" "PhaseWaitExpired \<noteq> PhaseExecuting"
    "PhaseWaitExpired \<noteq> PhaseCompleted" "PhaseWaitExpired \<noteq> PhaseFailed"
    "PhaseEmergency \<noteq> PhaseIdle" "PhaseEmergency \<noteq> PhaseWaitingRemote"
    "PhaseEmergency \<noteq> PhaseWaitExpired" "PhaseEmergency \<noteq> PhaseExecuting"
    "PhaseEmergency \<noteq> PhaseCompleted" "PhaseEmergency \<noteq> PhaseFailed"
    "PhaseExecuting \<noteq> PhaseIdle" "PhaseExecuting \<noteq> PhaseWaitingRemote"
    "PhaseExecuting \<noteq> PhaseWaitExpired" "PhaseExecuting \<noteq> PhaseEmergency"
    "PhaseExecuting \<noteq> PhaseCompleted" "PhaseExecuting \<noteq> PhaseFailed"
    "PhaseCompleted \<noteq> PhaseIdle" "PhaseCompleted \<noteq> PhaseWaitingRemote"
    "PhaseCompleted \<noteq> PhaseWaitExpired" "PhaseCompleted \<noteq> PhaseEmergency"
    "PhaseCompleted \<noteq> PhaseExecuting" "PhaseCompleted \<noteq> PhaseFailed"
    "PhaseFailed \<noteq> PhaseIdle" "PhaseFailed \<noteq> PhaseWaitingRemote"
    "PhaseFailed \<noteq> PhaseWaitExpired" "PhaseFailed \<noteq> PhaseEmergency"
    "PhaseFailed \<noteq> PhaseExecuting" "PhaseFailed \<noteq> PhaseCompleted"
  by (simp_all add: consts_simps)

lemma trigger_neq [simp]:
  "TriggerRemoteComplete \<noteq> TriggerWaitExpired"
    "TriggerRemoteComplete \<noteq> TriggerEmergencyRuntime"
    "TriggerRemoteComplete \<noteq> TriggerUPSUnreachable"
    "TriggerRemoteComplete \<noteq> TriggerLowBattery" "TriggerRemoteComplete \<noteq> []"
    "TriggerWaitExpired \<noteq> TriggerRemoteComplete"
    "TriggerWaitExpired \<noteq> TriggerEmergencyRuntime"
    "TriggerWaitExpired \<noteq> TriggerUPSUnreachable"
    "TriggerWaitExpired \<noteq> TriggerLowBattery" "TriggerWaitExpired \<noteq> []"
    "TriggerEmergencyRuntime \<noteq> TriggerRemoteComplete"
    "TriggerEmergencyRuntime \<noteq> TriggerWaitExpired"
    "TriggerEmergencyRuntime \<noteq> TriggerUPSUnreachable"
    "TriggerEmergencyRuntime \<noteq> TriggerLowBattery"
    "TriggerEmergencyRuntime \<noteq> []"
    "TriggerUPSUnreachable \<noteq> TriggerRemoteComplete"
    "TriggerUPSUnreachable \<noteq> TriggerWaitExpired"
    "TriggerUPSUnreachable \<noteq> TriggerEmergencyRuntime"
    "TriggerUPSUnreachable \<noteq> TriggerLowBattery" "TriggerUPSUnreachable \<noteq> []"
    "TriggerLowBattery \<noteq> TriggerRemoteComplete"
    "TriggerLowBattery \<noteq> TriggerWaitExpired"
    "TriggerLowBattery \<noteq> TriggerEmergencyRuntime"
    "TriggerLowBattery \<noteq> TriggerUPSUnreachable" "TriggerLowBattery \<noteq> []"
    "[] \<noteq> TriggerRemoteComplete" "[] \<noteq> TriggerWaitExpired"
    "[] \<noteq> TriggerEmergencyRuntime" "[] \<noteq> TriggerUPSUnreachable"
    "[] \<noteq> TriggerLowBattery"
  by (simp_all add: consts_simps)

lemma type_neq [simp]:
  "TypeRegister \<noteq> TypeRegisterAck" "TypeRegister \<noteq> TypePing"
    "TypeRegister \<noteq> TypePong" "TypeRegister \<noteq> TypeShutdown"
    "TypeRegister \<noteq> TypeShutdownAck" "TypeRegister \<noteq> TypeError"
    "TypeRegister \<noteq> TypeTokenStored" "TypeRegisterAck \<noteq> TypeRegister"
    "TypeRegisterAck \<noteq> TypePing" "TypeRegisterAck \<noteq> TypePong"
    "TypeRegisterAck \<noteq> TypeShutdown" "TypeRegisterAck \<noteq> TypeShutdownAck"
    "TypeRegisterAck \<noteq> TypeError" "TypeRegisterAck \<noteq> TypeTokenStored"
    "TypePing \<noteq> TypeRegister" "TypePing \<noteq> TypeRegisterAck"
    "TypePing \<noteq> TypePong" "TypePing \<noteq> TypeShutdown"
    "TypePing \<noteq> TypeShutdownAck" "TypePing \<noteq> TypeError"
    "TypePing \<noteq> TypeTokenStored" "TypePong \<noteq> TypeRegister"
    "TypePong \<noteq> TypeRegisterAck" "TypePong \<noteq> TypePing"
    "TypePong \<noteq> TypeShutdown" "TypePong \<noteq> TypeShutdownAck"
    "TypePong \<noteq> TypeError" "TypePong \<noteq> TypeTokenStored"
    "TypeShutdown \<noteq> TypeRegister" "TypeShutdown \<noteq> TypeRegisterAck"
    "TypeShutdown \<noteq> TypePing" "TypeShutdown \<noteq> TypePong"
    "TypeShutdown \<noteq> TypeShutdownAck" "TypeShutdown \<noteq> TypeError"
    "TypeShutdown \<noteq> TypeTokenStored" "TypeShutdownAck \<noteq> TypeRegister"
    "TypeShutdownAck \<noteq> TypeRegisterAck" "TypeShutdownAck \<noteq> TypePing"
    "TypeShutdownAck \<noteq> TypePong" "TypeShutdownAck \<noteq> TypeShutdown"
    "TypeShutdownAck \<noteq> TypeError" "TypeShutdownAck \<noteq> TypeTokenStored"
    "TypeError \<noteq> TypeRegister" "TypeError \<noteq> TypeRegisterAck"
    "TypeError \<noteq> TypePing" "TypeError \<noteq> TypePong"
    "TypeError \<noteq> TypeShutdown" "TypeError \<noteq> TypeShutdownAck"
    "TypeError \<noteq> TypeTokenStored" "TypeTokenStored \<noteq> TypeRegister"
    "TypeTokenStored \<noteq> TypeRegisterAck" "TypeTokenStored \<noteq> TypePing"
    "TypeTokenStored \<noteq> TypePong" "TypeTokenStored \<noteq> TypeShutdown"
    "TypeTokenStored \<noteq> TypeShutdownAck" "TypeTokenStored \<noteq> TypeError"
  by (simp_all add: consts_simps)

section \<open>Messages\<close>

text \<open>
  A pointer field that may be nil is an option. A slice is a list; where the code tells a
  nil slice from an empty one (the tags of a registration), it is an option of a list.
\<close>

record RegisterMessage =
  rg_NodeID :: string
  rg_Hostname :: string
  rg_Token :: string
  rg_Tags :: "string list option"
  rg_DryRun :: bool
  rg_ShutdownReady :: "bool option"

record RegisterAckMessage =
  ra_Accepted :: bool
  ra_Message :: string
  ra_IssuedToken :: string

record ShutdownTarget =
  tgt_All :: bool
  tgt_NodeIDs :: "string list"
  tgt_Tags :: "string list"

record ShutdownMessage =
  sm_CommandID :: string
  sm_Reason :: string
  sm_DryRun :: bool
  sm_IssuedAt :: time
  sm_Target :: ShutdownTarget

record ShutdownAckMessage =
  ack_CommandID :: string
  ack_NodeID :: string
  ack_Status :: string
  ack_Message :: string
  ack_AckedAt :: time

record ShutdownRequest =
  rq_Reason :: string
  rq_NodeIDs :: "string list"
  rq_Tags :: "string list"
  rq_DryRun :: "bool option"
  rq_TimeoutSeconds :: "int option"

record CommandSummary =
  su_CommandID :: string
  su_Reason :: string
  su_DryRun :: bool
  su_IssuedAt :: time
  su_TimeoutAt :: "time option"
  su_Target :: ShutdownTarget
  su_Targeted :: nat
  su_Acknowledged :: nat
  su_Executing :: nat
  su_Executed :: nat
  su_Simulated :: nat
  su_Failed :: nat
  su_Timeout :: nat
  su_Outstanding :: nat
  su_Complete :: bool
  su_CompletedAt :: "time option"
  su_LastNodeUpdates :: "ShutdownAckMessage list"

record UPSStatusView =
  uv_Source :: string
  uv_Target :: string
  uv_OnBattery :: "bool option"
  uv_LowBattery :: "bool option"
  uv_BatteryCharge :: "int option"
  uv_RuntimeMinutes :: "int option"
  uv_LastSuccessAt :: "time option"
  uv_LastError :: string
  uv_LastErrorAt :: "time option"

record EpisodeStatus =
  es_StartedAt :: time
  es_CommandID :: string
  es_FiredPolicies :: "string list"

record LocalShutdownStatus =
  lv_Enabled :: bool
  lv_Phase :: string
  lv_CommandID :: string
  lv_StartedAt :: "time option"
  lv_DeadlineAt :: "time option"
  lv_Trigger :: string
  lv_LastRebroadcastAt :: "time option"
  lv_LastError :: string
  lv_CommandReady :: "bool option"

text \<open>
  The loosely typed \<open>Data\<close> of an envelope is given by what \<open>DecodePayload\<close> makes of it
  for each destination struct: \<open>Inl\<close> the decoding error or \<open>Inr\<close> the message. Every
  theorem about a received envelope therefore holds whatever the peer sent.
\<close>

record Envelope =
  env_Type :: string
  as_register :: "string + RegisterMessage"
  as_register_ack :: "string + RegisterAckMessage"
  as_shutdown :: "string + ShutdownMessage"
  as_shutdown_ack :: "string + ShutdownAckMessage"
  as_error :: "string + string"

text \<open>The messages the two programs send.\<close>

datatype message =
    Register RegisterMessage
  | RegisterAck RegisterAckMessage
  | Ping time
  | Pong time
  | Shutdown ShutdownMessage
  | ShutdownAck ShutdownAckMessage
  | ErrorMsg string
  | TokenStored

section \<open>Framing\<close>

definition MaxEnvelopeBytes :: nat where "MaxEnvelopeBytes = 2 ^ 20"

abbreviation newline :: char where "newline \<equiv> CHR 0x0A"

datatype wire_error = EOF | ErrEnvelopeTooLarge | DecodeEnvelope string

text \<open>
  The reader is the list of bytes the peer will deliver before it closes the connection;
  \<open>ReadByte\<close> fails with EOF at its end. The result carries the bytes left unread.
\<close>

fun readLimitedLine :: "nat \<Rightarrow> string \<Rightarrow> string \<Rightarrow> wire_error + (string \<times> string)" where
  "readLimitedLine maxlen buf [] = Inl EOF"
| "readLimitedLine maxlen buf (b # rest) =
    (if b = newline then Inr (buf, rest)
     else if length buf \<ge> maxlen then Inl ErrEnvelopeTooLarge
     else readLimitedLine maxlen (buf @ [b]) rest)"

text \<open>
  \<open>encoding/json\<close> is a parameter: \<open>marshal\<close> renders an envelope as one JSON text and
  \<open>unmarshal\<close> reads one back.
\<close>

definition ReadEnvelope ::
  "(string \<Rightarrow> string + 'e) \<Rightarrow> string \<Rightarrow> wire_error + ('e \<times> string)" where
  "ReadEnvelope unmarshal reader =
    (case readLimitedLine MaxEnvelopeBytes [] reader of
       Inl e \<Rightarrow> Inl e
     | Inr (line, rest) \<Rightarrow>
         (case unmarshal line of
            Inl e \<Rightarrow> Inl (DecodeEnvelope e)
          | Inr env \<Rightarrow> Inr (env, rest)))"

text \<open>\<open>json.Encoder.Encode\<close> writes the JSON text and a newline; \<open>Flush\<close> sends it.\<close>

definition WriteEnvelope :: "('e \<Rightarrow> string) \<Rightarrow> 'e \<Rightarrow> string" where
  "WriteEnvelope marshal env = marshal env @ [newline]"

text \<open>Reading every frame of a stream, as the two read loops do.\<close>

function read_frames :: "(string \<Rightarrow> string + 'e) \<Rightarrow> string \<Rightarrow> 'e list \<times> wire_error" where
  "read_frames unmarshal reader =
    (case ReadEnvelope unmarshal reader of
       Inl e \<Rightarrow> ([], e)
     | Inr (env, rest) \<Rightarrow>
         (case read_frames unmarshal rest of (es, e) \<Rightarrow> (env # es, e)))"
  by pat_completeness auto

lemma readLimitedLine_shorter:
  "readLimitedLine n buf s = Inr (line, rest) \<Longrightarrow> length rest < length s"
  by (induction n buf s rule: readLimitedLine.induct) (auto split: if_splits)

lemma ReadEnvelope_shorter:
  "ReadEnvelope f s = Inr (env, rest) \<Longrightarrow> length rest < length s"
  by (auto simp: ReadEnvelope_def dest: readLimitedLine_shorter split: sum.splits)

termination read_frames
  by (relation "measure (\<lambda>(f, s). length s)") (auto dest: ReadEnvelope_shorter)

declare read_frames.simps [simp del]

text \<open>The bytes before the first newline, within the limit, are the frame.\<close>

lemma readLimitedLine_gen:
  "length buf \<le> n \<Longrightarrow> readLimitedLine n buf s =
    (let line = takeWhile (\<lambda>b. b \<noteq> newline) s in
     if n < length buf + length line then Inl ErrEnvelopeTooLarge
     else if newline \<notin> set s then Inl EOF
     else Inr (buf @ line, drop (Suc (length line)) s))"
proof (induction n buf s rule: readLimitedLine.induct)
  case (1 n buf)
  then show ?case by simp
next
  case (2 n buf b rest)
  then show ?case by (auto simp: Let_def)
qed

lemma readLimitedLine_frame:
  "newline \<notin> set line \<Longrightarrow> length line \<le> n \<Longrightarrow>
    readLimitedLine n [] (line @ newline # rest) = Inr (line, rest)"
proof -
  assume "newline \<notin> set line" and "length line \<le> n"
  moreover from this have "takeWhile (\<lambda>b. b \<noteq> newline) (line @ newline # rest) = line"
    by (auto simp: takeWhile_append)
  ultimately show ?thesis by (simp add: readLimitedLine_gen)
qed

lemma ReadEnvelope_WriteEnvelope:
  "unmarshal (marshal env) = Inr env \<Longrightarrow> newline \<notin> set (marshal env) \<Longrightarrow>
    length (marshal env) \<le> MaxEnvelopeBytes \<Longrightarrow>
    ReadEnvelope unmarshal (WriteEnvelope marshal env @ rest) = Inr (env, rest)"
  by (simp add: ReadEnvelope_def WriteEnvelope_def readLimitedLine_frame)

lemma ReadEnvelope_Nil: "ReadEnvelope f [] = Inl EOF"
  by (simp add: ReadEnvelope_def)

text \<open>
  A frame of more than \<open>MaxEnvelopeBytes\<close> bytes is refused, a stream that ends before
  a newline is an end of file, and otherwise exactly the bytes up to the first newline are
  returned; so the buffer never holds more than the limit.
\<close>

theorem readLimitedLine_correct:
  "readLimitedLine MaxEnvelopeBytes [] s =
    (let line = takeWhile (\<lambda>b. b \<noteq> newline) s in
     if MaxEnvelopeBytes < length line then Inl ErrEnvelopeTooLarge
     else if newline \<notin> set s then Inl EOF
     else Inr (line, drop (Suc (length line)) s))"
  by (simp add: readLimitedLine_gen Let_def)

text \<open>
  C20. What one side writes the other side reads: from the concatenation of any number of
  written envelopes \<open>read_frames\<close> recovers exactly those envelopes in order and then sees
  the end of the stream, provided the JSON codec round-trips, its output has no raw newline
  (as \<open>encoding/json\<close> guarantees) and each text fits the limit.
\<close>

theorem wire_roundtrip:
  assumes codec: "\<And>e. unmarshal (marshal e) = Inr e"
    and no_newline: "\<And>e. newline \<notin> set (marshal e)"
    and fits: "\<And>e. e \<in> set es \<Longrightarrow> length (marshal e) \<le> MaxEnvelopeBytes"
  shows "read_frames unmarshal (concat (map (WriteEnvelope marshal) es)) = (es, EOF)"
  using fits
proof (induction es)
  case Nil
  show ?case by (simp add: read_frames.simps [of _ "[]"] ReadEnvelope_Nil)
next
  case (Cons e es)
  from Cons.prems have "length (marshal e) \<le> MaxEnvelopeBytes" by simp
  from ReadEnvelope_WriteEnvelope [of unmarshal marshal e, OF codec no_newline this]
  have "ReadEnvelope unmarshal (concat (map (WriteEnvelope marshal) (e # es)))
      = Inr (e, concat (map (WriteEnvelope marshal) es))" by simp
  with Cons show ?case by (subst read_frames.simps) simp
qed

text \<open>A codec for one-bit envelopes satisfies the hypotheses.\<close>

theorem wire_roundtrip_witness:
  "read_frames (\<lambda>s. if s = ''1'' then Inr True else if s = ''0'' then Inr False else Inl s)
     (concat (map (WriteEnvelope (\<lambda>b. if b then ''1'' else ''0'')) [True, False])) =
   ([True, False], EOF)"
  by (rule wire_roundtrip) (auto simp: MaxEnvelopeBytes_def)

end
