(* ===== verification/Policy.thy ===== *)
theory Policy
  imports Config Protocol
begin

text \<open>
  \<open>internal/master/policy.go\<close> and the target algebra of \<open>internal/master/episode.go\<close>:
  which policies a reading satisfies, the target and reason of the policies that fire
  together, and how a command's target grows.
\<close>

section \<open>Definitions\<close>

record UPSStatus =
  ups_OnBattery :: bool
  ups_LowBattery :: bool
  ups_BatteryCharge :: "int option"
  ups_RuntimeMinutes :: "int option"

record PolicyMatch =
  pm_Names :: "string list"
  pm_Reason :: string
  pm_All :: bool
  pm_Tags :: "string list"
  pm_NodeIDs :: "string list"

definition sortedKeys :: "string list \<Rightarrow> string list" where
  "sortedKeys s = (if s = [] then [] else sort_Strings s)"

definition buildPolicyReason :: "ShutdownPolicySpec list \<Rightarrow> string list \<Rightarrow> string" where
  "buildPolicyReason policies names =
    (let byName = fold (\<lambda>p m. mput (pol_Name p) (pol_Reason p) m) policies [];
         part = (\<lambda>n. let reason = (case map_of byName n of None \<Rightarrow> [] | Some r \<Rightarrow> r)
                     in if reason = [] then n else reason)
     in Join (map part names) ''; '')"

text \<open>One round of the loop of \<open>buildPolicyMatch\<close> over (All, tag set, node set).\<close>

fun match_policy ::
  "string list \<Rightarrow> ShutdownPolicySpec \<Rightarrow> bool \<times> string list \<times> string list \<Rightarrow> bool \<times> string list \<times> string list"
where
  "match_policy names p (al, tagSet, nodeSet) =
    (if pol_Name p \<notin> set names then (al, tagSet, nodeSet)
     else (al \<or> pt_All (pol_Target p),
           sputs (pt_Tags (pol_Target p)) tagSet,
           sputs (pt_NodeIDs (pol_Target p)) nodeSet))"

definition buildPolicyMatch :: "ShutdownPolicySpec list \<Rightarrow> string list \<Rightarrow> PolicyMatch" where
  "buildPolicyMatch policies names =
    (case fold (match_policy names) policies (False, [], []) of (al, tagSet, nodeSet) \<Rightarrow>
      \<lparr>pm_Names = names, pm_Reason = buildPolicyReason policies names, pm_All = al,
       pm_Tags = sortedKeys tagSet, pm_NodeIDs = sortedKeys nodeSet\<rparr>)"

definition policyMatches :: "UPSStatus \<Rightarrow> ShutdownPolicyWhen \<Rightarrow> bool" where
  "policyMatches status w =
    (if pw_UPSUnreachableFor w > 0 then False
     else if pw_ChargeBelow w > 0 \<and>
        (case ups_BatteryCharge status of None \<Rightarrow> True | Some c \<Rightarrow> c > pw_ChargeBelow w) then False
     else if pw_RuntimeBelow w > 0 \<and>
        (case ups_RuntimeMinutes status of None \<Rightarrow> True | Some r \<Rightarrow> r > pw_RuntimeBelow w) then False
     else if pw_LowBattery w \<and> \<not> ups_LowBattery status then False
     else True)"

definition policy_Target :: "PolicyMatch \<Rightarrow> ShutdownTarget" where
  "policy_Target m =
    (if pm_All m then \<lparr>tgt_All = True, tgt_NodeIDs = [], tgt_Tags = []\<rparr>
     else \<lparr>tgt_All = False, tgt_NodeIDs = pm_NodeIDs m, tgt_Tags = pm_Tags m\<rparr>)"

definition sortedUnion :: "string list \<Rightarrow> string list \<Rightarrow> string list" where
  "sortedUnion a b = sortedKeys (sputs b (sputs a []))"

definition mergeShutdownTargets :: "ShutdownTarget \<Rightarrow> ShutdownTarget \<Rightarrow> ShutdownTarget" where
  "mergeShutdownTargets a b =
    (if tgt_All a \<or> tgt_All b then \<lparr>tgt_All = True, tgt_NodeIDs = [], tgt_Tags = []\<rparr>
     else \<lparr>tgt_All = False, tgt_NodeIDs = sortedUnion (tgt_NodeIDs a) (tgt_NodeIDs b),
           tgt_Tags = sortedUnion (tgt_Tags a) (tgt_Tags b)\<rparr>)"

definition targetMatchesNode :: "ShutdownTarget \<Rightarrow> string \<Rightarrow> string list \<Rightarrow> bool" where
  "targetMatchesNode target nodeID tags =
    (tgt_All target \<or> nodeID \<in> set (tgt_NodeIDs target) \<or>
     list_ex (\<lambda>tag. tag \<in> set (tgt_Tags target)) tags)"

section \<open>Lemmas\<close>

text \<open>The node set a configured policy means, independent of how targets are combined.\<close>

definition policy_covers :: "ShutdownPolicySpec \<Rightarrow> string \<Rightarrow> string list \<Rightarrow> bool" where
  "policy_covers p nodeID tags \<longleftrightarrow>
     pt_All (pol_Target p) \<or> nodeID \<in> set (pt_NodeIDs (pol_Target p)) \<or>
     (\<exists>t \<in> set tags. t \<in> set (pt_Tags (pol_Target p)))"

lemma set_sortedKeys [simp]: "set (sortedKeys xs) = set xs"
  by (simp add: sortedKeys_def)

lemma set_sortedUnion [simp]: "set (sortedUnion a b) = set a \<union> set b"
  by (auto simp: sortedUnion_def)

lemma sorted_sortedUnion: "sorted (sortedUnion a b) \<and> distinct (sortedUnion a b)"
  by (simp add: sortedUnion_def sortedKeys_def)

lemma fold_match_policy:
  "fold (match_policy names) ps (al, ts, ns) = (al', ts', ns') \<Longrightarrow>
     al' = (al \<or> (\<exists>p \<in> set ps. pol_Name p \<in> set names \<and> pt_All (pol_Target p))) \<and>
     set ts' = set ts \<union> (\<Union>p \<in> {p \<in> set ps. pol_Name p \<in> set names}. set (pt_Tags (pol_Target p))) \<and>
     set ns' = set ns \<union> (\<Union>p \<in> {p \<in> set ps. pol_Name p \<in> set names}. set (pt_NodeIDs (pol_Target p)))"
proof (induction ps arbitrary: al ts ns)
  case (Cons p ps)
  show ?case
  proof (cases "pol_Name p \<in> set names")
    case True
    with Cons.prems have "fold (match_policy names) ps (al \<or> pt_All (pol_Target p),
      sputs (pt_Tags (pol_Target p)) ts, sputs (pt_NodeIDs (pol_Target p)) ns) = (al', ts', ns')"
      by simp
    from Cons.IH [OF this] True show ?thesis by auto
  next
    case False
    with Cons.prems have "fold (match_policy names) ps (al, ts, ns) = (al', ts', ns')" by simp
    from Cons.IH [OF this] False show ?thesis by auto
  qed
qed simp

lemma merge_matches:
  "targetMatchesNode (mergeShutdownTargets a b) n tags \<longleftrightarrow>
     targetMatchesNode a n tags \<or> targetMatchesNode b n tags"
  by (auto simp: mergeShutdownTargets_def targetMatchesNode_def list_ex_iff)

lemma merge_All: "tgt_All (mergeShutdownTargets a b) \<longleftrightarrow> tgt_All a \<or> tgt_All b"
  by (simp add: mergeShutdownTargets_def)

lemma policy_Target_matches:
  "targetMatchesNode (policy_Target (buildPolicyMatch ps names)) n tags \<longleftrightarrow>
     (\<exists>p \<in> set ps. pol_Name p \<in> set names \<and> policy_covers p n tags)"
proof -
  obtain al ts ns where f: "fold (match_policy names) ps (False, [], []) = (al, ts, ns)"
    by (cases "fold (match_policy names) ps (False, [], [])") auto
  from fold_match_policy [OF f] show ?thesis
    by (auto simp: buildPolicyMatch_def f policy_Target_def targetMatchesNode_def policy_covers_def
        list_ex_iff split: if_splits)
qed

text \<open>
  C19. The target built for a set of policies that fire together covers a node exactly when
  one of those policies, as configured, covers it (all nodes, its node id, or one of its
  tags); and widening a command's target by it adds exactly those nodes and loses none.
\<close>

theorem policy_target_exact:
  "targetMatchesNode (mergeShutdownTargets t (policy_Target (buildPolicyMatch ps names))) n tags \<longleftrightarrow>
     targetMatchesNode t n tags \<or>
     (\<exists>p \<in> set ps. pol_Name p \<in> set names \<and> policy_covers p n tags)"
  by (simp add: merge_matches policy_Target_matches)

text \<open>
  A reading satisfies a policy exactly when the policy is not an unreachability policy
  and every configured threshold is reported and reached: a value the UPS does not report
  never satisfies a condition on it.
\<close>

theorem policyMatches_iff:
  "policyMatches status w \<longleftrightarrow>
     pw_UPSUnreachableFor w \<le> 0 \<and>
     (pw_ChargeBelow w \<le> 0 \<or> (\<exists>c. ups_BatteryCharge status = Some c \<and> c \<le> pw_ChargeBelow w)) \<and>
     (pw_RuntimeBelow w \<le> 0 \<or> (\<exists>r. ups_RuntimeMinutes status = Some r \<and> r \<le> pw_RuntimeBelow w)) \<and>
     (pw_LowBattery w = False \<or> ups_LowBattery status)"
  by (auto simp: policyMatches_def split: option.splits)

end
