(* ===== verification/Registry.thy ===== *)
theory Registry
  imports GoStrings
begin

text \<open>
  \<open>internal/master/registry.go\<close> and the connection-independent part of
  \<open>internal/master/client.go\<close>: the table of live connections by node id.
\<close>

text \<open>
  A \<open>*Client\<close> is identified by its connection number \<open>cl_conn\<close>: two pointers are equal
  exactly when their connection numbers are.
\<close>

record Client =
  cl_conn :: nat
  cl_NodeID :: string
  cl_Hostname :: string
  cl_Tags :: "string list option"
  cl_lastSeen :: time

type_synonym registry = "(string, Client) gomap"

definition NewRegistry :: registry where
  "NewRegistry = []"

text \<open>\<open>Set\<close> also closes the connection it replaces: the second component.\<close>

definition reg_Set :: "Client \<Rightarrow> registry \<Rightarrow> registry \<times> nat list" where
  "reg_Set client r =
    (let closed = (case map_of r (cl_NodeID client) of
        Some existing \<Rightarrow> [cl_conn existing]
      | None \<Rightarrow> [])
     in (mput (cl_NodeID client) client r, closed))"

definition reg_Remove :: "string \<Rightarrow> registry \<Rightarrow> registry" where
  "reg_Remove nodeID r = mdel nodeID r"

definition reg_RemoveIfMatch :: "string \<Rightarrow> nat \<Rightarrow> registry \<Rightarrow> registry" where
  "reg_RemoveIfMatch nodeID conn r =
    (case map_of r nodeID of
       None \<Rightarrow> r
     | Some current \<Rightarrow> if cl_conn current \<noteq> conn then r else mdel nodeID r)"

definition reg_Get :: "string \<Rightarrow> registry \<Rightarrow> Client option" where
  "reg_Get nodeID r = map_of r nodeID"

definition reg_List :: "registry \<Rightarrow> Client list" where
  "reg_List r = map snd r"

text \<open>\<open>client.Touch()\<close> through whatever table still holds the pointer.\<close>

definition reg_Touch :: "nat \<Rightarrow> time \<Rightarrow> registry \<Rightarrow> registry" where
  "reg_Touch conn now r =
    map (\<lambda>(k, c). (k, if cl_conn c = conn then c\<lparr>cl_lastSeen := now\<rparr> else c)) r"

text \<open>Every entry is stored under its own, non-empty node id.\<close>

definition registry_inv :: "registry \<Rightarrow> bool" where
  "registry_inv r \<longleftrightarrow>
     distinct (mkeys r) \<and> (\<forall>(k, c) \<in> set r. cl_NodeID c = k \<and> k \<noteq> [])"

section \<open>The interface\<close>

text \<open>
  What the connection handlers rely on: registering makes the client the one found under
  its id and touches no other id, and a handler that ends removes its own entry only.
\<close>

locale connection_table =
  fixes insert_client :: "Client \<Rightarrow> 't \<Rightarrow> 't"
    and cleanup :: "string \<Rightarrow> nat \<Rightarrow> 't \<Rightarrow> 't"
    and find_client :: "string \<Rightarrow> 't \<Rightarrow> Client option"
    and wf :: "'t \<Rightarrow> bool"
  assumes find_insert: "find_client n (insert_client c t) =
      (if n = cl_NodeID c then Some c else find_client n t)"
    and find_cleanup: "find_client n (cleanup m conn t) =
      (if n = m \<and> (\<exists>c. find_client n t = Some c \<and> cl_conn c = conn) then None else find_client n t)"
    and wf_insert: "wf t \<Longrightarrow> cl_NodeID c \<noteq> [] \<Longrightarrow> wf (insert_client c t)"
    and wf_cleanup: "wf t \<Longrightarrow> wf (cleanup n conn t)"
begin

text \<open>The cleanup of a superseded connection never removes its successor.\<close>

lemma stale_cleanup:
  "cl_conn c \<noteq> old \<Longrightarrow>
    find_client (cl_NodeID c) (cleanup (cl_NodeID c) old (insert_client c t)) = Some c"
  by (simp add: find_insert find_cleanup)

lemma own_cleanup:
  "find_client (cl_NodeID c) (cleanup (cl_NodeID c) (cl_conn c) (insert_client c t)) = None"
  by (simp add: find_insert find_cleanup)

lemma other_cleanup: "n \<noteq> m \<Longrightarrow> find_client n (cleanup m conn t) = find_client n t"
  by (simp add: find_cleanup)

end

lemma set_mput_subset: "set (mput k v m) \<subseteq> insert (k, v) (set m)"
  by (induction m) auto

lemma set_mdel_subset: "set (mdel k m) \<subseteq> set m"
  by (auto simp: AList.delete_eq)

lemma registry_inv_Set:
  "registry_inv r \<Longrightarrow> cl_NodeID c \<noteq> [] \<Longrightarrow> registry_inv (fst (reg_Set c r))"
  using set_mput_subset [of "cl_NodeID c" c r]
  by (fastforce simp: registry_inv_def reg_Set_def Let_def distinct_update)

lemma registry_inv_Remove: "registry_inv r \<Longrightarrow> registry_inv (reg_Remove n r)"
  using set_mdel_subset [of n r]
  by (fastforce simp: registry_inv_def reg_Remove_def distinct_delete)

lemma registry_inv_RemoveIfMatch: "registry_inv r \<Longrightarrow> registry_inv (reg_RemoveIfMatch n conn r)"
  using registry_inv_Remove [of r n]
  by (auto simp: reg_RemoveIfMatch_def reg_Remove_def split: option.splits)

lemma registry_inv_Touch: "registry_inv r \<Longrightarrow> registry_inv (reg_Touch conn now r)"
  by (auto simp: registry_inv_def reg_Touch_def)

interpretation registry: connection_table
  "\<lambda>c r. fst (reg_Set c r)" reg_RemoveIfMatch reg_Get registry_inv
proof unfold_locales
  show "reg_Get n (fst (reg_Set c t)) = (if n = cl_NodeID c then Some c else reg_Get n t)" for n c t
    by (simp add: reg_Set_def reg_Get_def Let_def)
  show "reg_Get n (reg_RemoveIfMatch m conn t) =
      (if n = m \<and> (\<exists>c. reg_Get n t = Some c \<and> cl_conn c = conn) then None else reg_Get n t)"
    for n m conn t
    by (auto simp: reg_Get_def reg_RemoveIfMatch_def split: option.splits)
qed (auto intro: registry_inv_Set registry_inv_RemoveIfMatch)

text \<open>
  When a node reconnects, \<open>Set\<close> closes the connection it replaces, and the deferred
  \<open>RemoveIfMatch\<close> of the old handler, whenever it runs, leaves the new client registered;
  the new handler's own cleanup does remove it.
\<close>

theorem reconnect_cleanup_safe:
  assumes "reg_Get (cl_NodeID c) r = Some old" and "cl_conn c \<noteq> cl_conn old"
  shows "cl_conn old \<in> set (snd (reg_Set c r)) \<and>
    reg_Get (cl_NodeID c) (reg_RemoveIfMatch (cl_NodeID c) (cl_conn old) (fst (reg_Set c r))) = Some c \<and>
    reg_Get (cl_NodeID c) (reg_RemoveIfMatch (cl_NodeID c) (cl_conn c) (fst (reg_Set c r))) = None"
proof -
  from assms(1) have "cl_conn old \<in> set (snd (reg_Set c r))"
    by (simp add: reg_Set_def reg_Get_def Let_def)
  with registry.stale_cleanup [OF assms(2)] registry.own_cleanup show ?thesis by blast
qed

definition demo_client :: "nat \<Rightarrow> Client" where
  "demo_client n = \<lparr>cl_conn = n, cl_NodeID = ''web-01'', cl_Hostname = ''web'', cl_Tags = None,
     cl_lastSeen = 0\<rparr>"

theorem reconnect_cleanup_safe_witness:
  "reg_Get ''web-01'' (reg_RemoveIfMatch ''web-01'' 1
     (fst (reg_Set (demo_client 2) [(''web-01'', demo_client 1)]))) = Some (demo_client 2)"
  using reconnect_cleanup_safe [of "demo_client 2" "[(''web-01'', demo_client 1)]" "demo_client 1"]
  by (simp add: demo_client_def reg_Get_def)

end
