(* ===== verification/Directory.thy ===== *)
theory Directory
  imports GoStrings
begin

text \<open>
  \<open>internal/master/directory.go\<close>: what the master knows about every node it has seen or
  been told to expect.
\<close>

record NodeMeta =
  nm_NodeID :: string
  nm_Hostname :: string
  nm_Tags :: "string list option"
  nm_FirstSeen :: "time option"
  nm_LastSeen :: "time option"
  nm_Expected :: bool
  nm_DryRun :: bool
  nm_ShutdownReady :: "bool option"

type_synonym directory = "(string, NodeMeta) gomap"

definition NewNodeDirectory :: directory where
  "NewNodeDirectory = []"

text \<open>\<open>append([]string(nil), tags...)\<close>: a copy, which is nil when there is nothing to copy.\<close>

definition copy_slice :: "'a list option \<Rightarrow> 'a list option" where
  "copy_slice s = (case s of None \<Rightarrow> None | Some [] \<Rightarrow> None | Some xs \<Rightarrow> Some xs)"

definition new_meta :: "string \<Rightarrow> NodeMeta" where
  "new_meta nodeID = \<lparr>nm_NodeID = nodeID, nm_Hostname = [], nm_Tags = None, nm_FirstSeen = None,
     nm_LastSeen = None, nm_Expected = False, nm_DryRun = False, nm_ShutdownReady = None\<rparr>"

definition meta_or_new :: "string \<Rightarrow> directory \<Rightarrow> NodeMeta" where
  "meta_or_new nodeID d = (case map_of d nodeID of None \<Rightarrow> new_meta nodeID | Some meta \<Rightarrow> meta)"

text \<open>The shared tail of \<open>Observe\<close> and \<open>SetExpected\<close>: non-empty values replace old ones.\<close>

definition set_names :: "string \<Rightarrow> string list option \<Rightarrow> NodeMeta \<Rightarrow> NodeMeta" where
  "set_names hostname tags meta =
    (let meta1 = (if hostname \<noteq> [] then meta\<lparr>nm_Hostname := hostname\<rparr> else meta)
     in if tags \<noteq> None then meta1\<lparr>nm_Tags := copy_slice tags\<rparr> else meta1)"

definition dir_Observe ::
  "string \<Rightarrow> string \<Rightarrow> string list option \<Rightarrow> time \<Rightarrow> directory \<Rightarrow> directory" where
  "dir_Observe nodeID hostname tags now d =
    (let meta = meta_or_new nodeID d;
         meta1 = (if nm_FirstSeen meta = None then meta\<lparr>nm_FirstSeen := Some now\<rparr> else meta);
         meta2 = meta1\<lparr>nm_LastSeen := Some now\<rparr>
     in mput nodeID (set_names hostname tags meta2) d)"

definition dir_SetSlaveInfo :: "string \<Rightarrow> bool \<Rightarrow> bool option \<Rightarrow> directory \<Rightarrow> directory" where
  "dir_SetSlaveInfo nodeID dryRun shutdownReady d =
    madjust nodeID (\<lambda>meta. meta\<lparr>nm_DryRun := dryRun, nm_ShutdownReady := shutdownReady\<rparr>) d"

definition dir_Touch :: "string \<Rightarrow> time \<Rightarrow> directory \<Rightarrow> directory" where
  "dir_Touch nodeID now d = madjust nodeID (\<lambda>meta. meta\<lparr>nm_LastSeen := Some now\<rparr>) d"

definition dir_SetExpected ::
  "string \<Rightarrow> string \<Rightarrow> string list option \<Rightarrow> directory \<Rightarrow> directory" where
  "dir_SetExpected nodeID hostname tags d =
    (let meta = (meta_or_new nodeID d)\<lparr>nm_Expected := True\<rparr>
     in mput nodeID (set_names hostname tags meta) d)"

definition dir_UnsetExpected :: "string \<Rightarrow> directory \<Rightarrow> bool \<times> directory" where
  "dir_UnsetExpected nodeID d =
    (case map_of d nodeID of
       None \<Rightarrow> (False, d)
     | Some _ \<Rightarrow> (True, madjust nodeID (\<lambda>meta. meta\<lparr>nm_Expected := False\<rparr>) d))"

datatype delete_result = DeleteOK | DeleteNotFound | DeleteRefusedSeen

definition dir_Delete :: "string \<Rightarrow> directory \<Rightarrow> delete_result \<times> directory" where
  "dir_Delete nodeID d =
    (case map_of d nodeID of
       None \<Rightarrow> (DeleteNotFound, d)
     | Some meta \<Rightarrow>
         if nm_FirstSeen meta \<noteq> None then (DeleteRefusedSeen, d)
         else (DeleteOK, mdel nodeID d))"

text \<open>\<open>copyMeta\<close>: a deep copy; only an empty, non-nil tag slice changes (to nil).\<close>

definition copyMeta :: "NodeMeta \<Rightarrow> NodeMeta" where
  "copyMeta m = (if nm_Tags m \<noteq> None then m\<lparr>nm_Tags := copy_slice (nm_Tags m)\<rparr> else m)"

definition dir_Get :: "string \<Rightarrow> directory \<Rightarrow> NodeMeta option" where
  "dir_Get nodeID d = map_option copyMeta (map_of d nodeID)"

definition dir_List :: "directory \<Rightarrow> NodeMeta list" where
  "dir_List d = map (\<lambda>(k, v). copyMeta v) d"

definition dir_replaceAll :: "directory \<Rightarrow> directory \<Rightarrow> directory" where
  "dir_replaceAll metas d = map (\<lambda>(k, v). (k, copyMeta v)) metas"

definition dir_snapshotForPersist :: "directory \<Rightarrow> directory" where
  "dir_snapshotForPersist d = map (\<lambda>(k, v). (k, copyMeta v)) d"

section \<open>Invariant\<close>

text \<open>
  Entries sit under their own id, no stored tag slice is empty, and a node that was seen
  first was also seen last.
\<close>

definition directory_inv :: "directory \<Rightarrow> bool" where
  "directory_inv d \<longleftrightarrow> distinct (mkeys d) \<and>
     (\<forall>(k, m) \<in> set d. nm_NodeID m = k \<and> nm_Tags m \<noteq> Some [] \<and>
        (nm_FirstSeen m = None \<longleftrightarrow> nm_LastSeen m = None))"

definition meta_ok :: "string \<Rightarrow> NodeMeta \<Rightarrow> bool" where
  "meta_ok k m \<longleftrightarrow> nm_NodeID m = k \<and> nm_Tags m \<noteq> Some [] \<and>
     (nm_FirstSeen m = None \<longleftrightarrow> nm_LastSeen m = None)"

text \<open>Every operation is an insertion, an adjustment or a deletion of one entry.\<close>

lemma directory_inv_alt:
  "directory_inv d \<longleftrightarrow> distinct (mkeys d) \<and> (\<forall>(k, m) \<in> set d. meta_ok k m)"
  by (simp add: directory_inv_def meta_ok_def)

lemma directory_inv_mput:
  "directory_inv d \<Longrightarrow> meta_ok k m \<Longrightarrow> directory_inv (mput k m d)"
proof -
  have "set (mput k m d) \<subseteq> insert (k, m) (set d)" by (induction d) auto
  then show "directory_inv d \<Longrightarrow> meta_ok k m \<Longrightarrow> ?thesis"
    by (fastforce simp: directory_inv_alt distinct_update)
qed

lemma directory_inv_madjust:
  "directory_inv d \<Longrightarrow> (\<And>m. meta_ok k m \<Longrightarrow> map_of d k = Some m \<Longrightarrow> meta_ok k (f m)) \<Longrightarrow>
    directory_inv (madjust k f d)"
  by (fastforce simp: directory_inv_alt madjust_def map_of_eq_Some_iff)

lemma directory_inv_mdel: "directory_inv d \<Longrightarrow> directory_inv (mdel k d)"
  by (auto simp: directory_inv_alt AList.delete_eq intro: distinct_map_filter)

lemma meta_ok_lookup: "directory_inv d \<Longrightarrow> map_of d k = Some m \<Longrightarrow> meta_ok k m"
  by (auto simp: directory_inv_alt dest!: map_of_SomeD)

lemma meta_ok_or_new: "directory_inv d \<Longrightarrow> meta_ok k (meta_or_new k d)"
  by (auto simp: meta_or_new_def new_meta_def meta_ok_def dest: meta_ok_lookup split: option.splits)

lemma copy_slice_not_empty: "copy_slice s \<noteq> Some []"
  by (auto simp: copy_slice_def split: option.splits list.splits)

lemma meta_ok_set_names: "meta_ok k m \<Longrightarrow> meta_ok k (set_names h t m)"
  by (simp add: meta_ok_def set_names_def Let_def copy_slice_not_empty)

lemma copyMeta_id: "meta_ok k m \<Longrightarrow> copyMeta m = m"
  by (cases m; cases "nm_Tags m")
    (auto simp: copyMeta_def copy_slice_def meta_ok_def split: list.splits)

lemma directory_inv_New: "directory_inv NewNodeDirectory"
  by (simp add: directory_inv_def NewNodeDirectory_def)

lemma directory_inv_Observe: "directory_inv d \<Longrightarrow> directory_inv (dir_Observe n h t now d)"
  unfolding dir_Observe_def Let_def
  by (intro directory_inv_mput meta_ok_set_names)
    (auto simp: meta_ok_def dest: meta_ok_or_new [of d n])

lemma directory_inv_SetExpected: "directory_inv d \<Longrightarrow> directory_inv (dir_SetExpected n h t d)"
  unfolding dir_SetExpected_def Let_def
  by (intro directory_inv_mput meta_ok_set_names)
    (auto simp: meta_ok_def dest: meta_ok_or_new [of d n])

text \<open>\<open>Touch\<close> is only called for nodes that were observed, which keeps the two times in step.\<close>

lemma directory_inv_Touch:
  "directory_inv d \<Longrightarrow> (\<And>m. map_of d n = Some m \<Longrightarrow> nm_FirstSeen m \<noteq> None) \<Longrightarrow>
    directory_inv (dir_Touch n now d)"
  unfolding dir_Touch_def by (rule directory_inv_madjust) (auto simp: meta_ok_def)

lemma directory_inv_others:
  "directory_inv d \<Longrightarrow> directory_inv (dir_SetSlaveInfo n dr ready d)"
  "directory_inv d \<Longrightarrow> directory_inv (snd (dir_UnsetExpected n d))"
  "directory_inv d \<Longrightarrow> directory_inv (snd (dir_Delete n d))"
  by (auto simp: dir_SetSlaveInfo_def dir_UnsetExpected_def dir_Delete_def meta_ok_def
      intro: directory_inv_madjust directory_inv_mdel split: option.splits)

lemma snapshotForPersist_id: "directory_inv d \<Longrightarrow> dir_snapshotForPersist d = d"
  unfolding dir_snapshotForPersist_def
  by (rule map_idI) (auto simp: directory_inv_alt copyMeta_id)

lemma replaceAll_id: "directory_inv metas \<Longrightarrow> dir_replaceAll metas d = metas"
  unfolding dir_replaceAll_def
  by (rule map_idI) (auto simp: directory_inv_alt copyMeta_id)

section \<open>Steps\<close>

inductive directory_step :: "directory \<Rightarrow> directory \<Rightarrow> bool" where
  Observe: "directory_step d (dir_Observe n h t now d)"
| SetSlaveInfo: "directory_step d (dir_SetSlaveInfo n dr ready d)"
| Touch: "map_of d n = Some m \<Longrightarrow> nm_FirstSeen m \<noteq> None \<Longrightarrow> directory_step d (dir_Touch n now d)"
| SetExpected: "directory_step d (dir_SetExpected n h t d)"
| UnsetExpected: "directory_step d (snd (dir_UnsetExpected n d))"
| Delete: "directory_step d (snd (dir_Delete n d))"

text \<open>A node that was seen stays in the directory with the time it was first seen.\<close>

definition seen_le :: "directory \<Rightarrow> directory \<Rightarrow> bool" where
  "seen_le d d' \<longleftrightarrow> (\<forall>n m t. map_of d n = Some m \<longrightarrow> nm_FirstSeen m = Some t \<longrightarrow>
     (\<exists>m'. map_of d' n = Some m' \<and> nm_FirstSeen m' = Some t))"

lemma FirstSeen_set_names [simp]: "nm_FirstSeen (set_names h t m) = nm_FirstSeen m"
  by (simp add: set_names_def Let_def)

lemma directory_step_inv: "directory_inv d \<Longrightarrow> directory_step d d' \<Longrightarrow> directory_inv d'"
  by (erule directory_step.cases)
    (auto intro: directory_inv_Observe directory_inv_SetExpected directory_inv_Touch directory_inv_others)

lemma directory_step_seen: "directory_step d d' \<Longrightarrow> seen_le d d'"
  by (erule directory_step.cases)
    (auto simp: seen_le_def dir_Observe_def dir_SetSlaveInfo_def dir_Touch_def dir_SetExpected_def
      dir_UnsetExpected_def dir_Delete_def meta_or_new_def map_of_madjust Let_def
      split: option.splits)

lemma seen_le_trans: "seen_le a b \<Longrightarrow> seen_le b c \<Longrightarrow> seen_le a c"
  by (fastforce simp: seen_le_def)

interpretation node_directory: ordered_transition_system
  "\<lambda>d. d = NewNodeDirectory" directory_step directory_inv seen_le
proof unfold_locales
  show "seen_le d d" for d by (simp add: seen_le_def)
qed (auto intro: directory_step_inv directory_step_seen directory_inv_New seen_le_trans)

text \<open>
  Through any sequence of directory operations from an empty directory, a node that has
  been seen is never forgotten and keeps its first-seen time: deletion is refused for it.
\<close>

theorem seen_node_never_forgotten:
  assumes "directory_step\<^sup>*\<^sup>* NewNodeDirectory d" and "directory_step\<^sup>*\<^sup>* d d'"
    and "dir_Get n d = Some m" and "nm_FirstSeen m = Some t"
  shows "(\<exists>m'. dir_Get n d' = Some m' \<and> nm_FirstSeen m' = Some t) \<and>
    dir_Delete n d' = (DeleteRefusedSeen, d')"
proof -
  have inv: "directory_inv d" using assms(1) by (rule node_directory.reachable_inv [OF refl])
  with assms(2) have le: "seen_le d d'" by (rule node_directory.run_le)
  have "nm_FirstSeen (copyMeta x) = nm_FirstSeen x" for x by (simp add: copyMeta_def)
  then show ?thesis
    using le assms(3,4) by (fastforce simp: seen_le_def dir_Get_def dir_Delete_def)
qed

theorem seen_node_never_forgotten_witness:
  "dir_Delete ''n1'' (dir_SetExpected ''n1'' [] None (dir_Observe ''n1'' ''h'' None 5 NewNodeDirectory)) =
    (DeleteRefusedSeen, dir_SetExpected ''n1'' [] None (dir_Observe ''n1'' ''h'' None 5 NewNodeDirectory))"
proof -
  let ?d = "dir_Observe ''n1'' ''h'' None 5 NewNodeDirectory"
  have "directory_step\<^sup>*\<^sup>* NewNodeDirectory ?d"
    and "directory_step\<^sup>*\<^sup>* ?d (dir_SetExpected ''n1'' [] None ?d)"
    by (auto intro: directory_step.intros)
  moreover obtain m where "dir_Get ''n1'' ?d = Some m" "nm_FirstSeen m = Some 5"
    by (simp add: dir_Get_def dir_Observe_def NewNodeDirectory_def meta_or_new_def new_meta_def
        set_names_def Let_def copyMeta_def)
  ultimately show ?thesis using seen_node_never_forgotten by blast
qed

end
