(* ===== verification/Security.thy ===== *)
theory Security
  imports GoStrings
begin

text \<open>
  \<open>internal/security/auth.go\<close>: token comparison by digest. The digest function (hex
  SHA-256) is the parameter \<open>H\<close>; where a theorem needs that different tokens have different
  digests it says so.
\<close>

unbundle bit_operations_syntax

text \<open>\<open>subtle.ConstantTimeCompare\<close>: 1 when the contents are equal, otherwise 0.\<close>

definition ConstantTimeCompare :: "string \<Rightarrow> string \<Rightarrow> int" where
  "ConstantTimeCompare x y = (if length x \<noteq> length y then 0 else if x = y then 1 else 0)"

fun match_loop :: "string list \<Rightarrow> string \<Rightarrow> int \<Rightarrow> int" where
  "match_loop [] candidateHash matched = matched"
| "match_loop (hash # hashes) candidateHash matched =
    match_loop hashes candidateHash (matched OR ConstantTimeCompare hash candidateHash)"

definition MatchToken :: "(string \<Rightarrow> string) \<Rightarrow> string list \<Rightarrow> string \<Rightarrow> bool" where
  "MatchToken H hashes candidate =
    (if candidate = [] then False else match_loop hashes (H candidate) 0 = 1)"

definition hashTokens :: "(string \<Rightarrow> string) \<Rightarrow> string list \<Rightarrow> string list" where
  "hashTokens H tokens = map H tokens"

lemma match_loop_flag:
  "m = 0 \<or> m = 1 \<Longrightarrow>
    match_loop hs c m = (if m = 1 \<or> c \<in> set hs then 1 else 0)"
proof (induction hs arbitrary: m)
  case (Cons h hs)
  have "m OR ConstantTimeCompare h c = (if m = 1 \<or> h = c then 1 else 0)"
    using Cons.prems by (auto simp: ConstantTimeCompare_def)
  with Cons.IH [of "m OR ConstantTimeCompare h c"] show ?case by auto
qed auto

lemma MatchToken_iff: "MatchToken H hashes c \<longleftrightarrow> c \<noteq> [] \<and> H c \<in> set hashes"
  using match_loop_flag [of 0 hashes "H c"] by (simp add: MatchToken_def)

end
