(* ===== verification/Store.thy ===== *)
theory Store
  imports Prelude
begin

text \<open>
  The state file protocol that the master (\<open>internal/master/state.go\<close>) and the slave
  (\<open>internal/slave/state.go\<close>) share: a snapshot is taken and numbered under
  \<open>commandMu\<close>, and written later under \<open>persistMu\<close>, where a snapshot older than the one on
  disk is dropped. \<open>atomicfile.WriteFile\<close> replaces the file or leaves it as it was.
\<close>

record 'a store =
  persistSeq :: nat
  persistedSeq :: nat
  disk :: "'a option"

text \<open>\<open>s.persistSeq++\<close> in \<open>snapshotStateLocked\<close>.\<close>

definition store_next :: "'a store \<Rightarrow> 'a store" where
  "store_next st = st\<lparr>persistSeq := Suc (persistSeq st)\<rparr>"

text \<open>
  The body of \<open>persistState\<close> after the nil check; \<open>ok\<close> tells whether
  \<open>atomicfile.WriteFile\<close> succeeds.
\<close>

definition store_write :: "bool \<Rightarrow> nat \<Rightarrow> 'a \<Rightarrow> 'a store \<Rightarrow> 'a store" where
  "store_write ok seq content st =
    (if seq \<le> persistedSeq st then st
     else if \<not> ok then st
     else st\<lparr>persistedSeq := seq, disk := Some content\<rparr>)"

section \<open>Interleavings of snapshots and writers\<close>

text \<open>
  Several goroutines run at once: each takes a snapshot and becomes a pending writer; the
  pending writers reach \<open>persistMu\<close> in any order, and each write succeeds or fails. The
  ghost field \<open>history\<close> lists the content of every snapshot, in order.
\<close>

record 'a writers =
  wst :: "'a store"
  history :: "'a list"
  pending :: "(nat \<times> 'a) list"

inductive writer_step :: "'a writers \<Rightarrow> 'a writers \<Rightarrow> bool" where
  take_snapshot: "writer_step w
     (w\<lparr>wst := store_next (wst w), history := history w @ [c],
        pending := pending w @ [(Suc (persistSeq (wst w)), c)]\<rparr>)"
| disk_write: "(seq, c) \<in> set (pending w) \<Longrightarrow> writer_step w
     (w\<lparr>wst := store_write ok seq c (wst w), pending := remove1 (seq, c) (pending w)\<rparr>)"

inductive_cases writer_stepE: "writer_step w w'"

definition writers_init :: "'a writers \<Rightarrow> bool" where
  "writers_init w \<longleftrightarrow> persistSeq (wst w) = 0 \<and> persistedSeq (wst w) = 0 \<and> history w = [] \<and> pending w = []"

text \<open>The file holds the snapshot \<open>persistedSeq\<close> names; pending writers carry theirs.\<close>

definition writers_inv :: "'a writers \<Rightarrow> bool" where
  "writers_inv w \<longleftrightarrow>
     persistSeq (wst w) = length (history w) \<and>
     persistedSeq (wst w) \<le> persistSeq (wst w) \<and>
     (0 < persistedSeq (wst w) \<longrightarrow> disk (wst w) = Some (history w ! (persistedSeq (wst w) - 1))) \<and>
     (\<forall>(seq, c) \<in> set (pending w). 0 < seq \<and> seq \<le> persistSeq (wst w) \<and> c = history w ! (seq - 1))"

definition writers_le :: "'a writers \<Rightarrow> 'a writers \<Rightarrow> bool" where
  "writers_le w w' \<longleftrightarrow>
     persistedSeq (wst w) \<le> persistedSeq (wst w') \<and> (\<exists>cs. history w' = history w @ cs)"

lemma store_next_simps [simp]:
  "persistSeq (store_next s) = Suc (persistSeq s)"
  "persistedSeq (store_next s) = persistedSeq s" "disk (store_next s) = disk s"
  by (simp_all add: store_next_def)

lemma persistSeq_store_write [simp]: "persistSeq (store_write ok seq c s) = persistSeq s"
  by (simp add: store_write_def)

lemma persistedSeq_store_write:
  "persistedSeq (store_write ok seq c s) = (if ok then max seq (persistedSeq s) else persistedSeq s)"
  by (auto simp: store_write_def max_def)

lemma store_write_mono: "persistedSeq s \<le> persistedSeq (store_write ok seq c s)"
  by (simp add: persistedSeq_store_write)

lemma disk_store_write:
  "disk (store_write ok seq c s) = (if ok \<and> persistedSeq s < seq then Some c else disk s)"
  by (simp add: store_write_def)

lemma writers_init_inv: "writers_init w \<Longrightarrow> writers_inv w"
  by (simp add: writers_init_def writers_inv_def)

lemma writers_step_inv: "writers_inv w \<Longrightarrow> writer_step w w' \<Longrightarrow> writers_inv w'"
proof (erule writer_stepE)
  fix c
  assume "writers_inv w" and "w' = w\<lparr>wst := store_next (wst w), history := history w @ [c],
    pending := pending w @ [(Suc (persistSeq (wst w)), c)]\<rparr>"
  then show "writers_inv w'"
    by (force simp: writers_inv_def nth_append)
next
  fix seq c ok
  assume inv: "writers_inv w" and pend: "(seq, c) \<in> set (pending w)"
    and w': "w' = w\<lparr>wst := store_write ok seq c (wst w), pending := remove1 (seq, c) (pending w)\<rparr>"
  from inv pend have "0 < seq" "seq \<le> persistSeq (wst w)" "c = history w ! (seq - 1)"
    by (auto simp: writers_inv_def)
  with inv w' show "writers_inv w'"
    by (auto simp: writers_inv_def persistedSeq_store_write disk_store_write max_def
        dest!: set_remove1_subset [THEN subsetD])
qed

lemma writers_step_le: "writer_step w w' \<Longrightarrow> writers_le w w'"
  by (erule writer_stepE) (auto simp: writers_le_def store_write_mono)

interpretation writers: ordered_transition_system writers_init writer_step writers_inv writers_le
proof unfold_locales
  show "writers_le w w" for w :: "'a writers" by (simp add: writers_le_def)
  show "writers_le u v \<Longrightarrow> writers_le v w \<Longrightarrow> writers_le u w" for u v w :: "'a writers"
    by (auto simp: writers_le_def)
qed (auto intro: writers_init_inv writers_step_inv writers_step_le)

text \<open>
  C18. However the snapshots and the delayed disk writes of concurrent goroutines interleave,
  and whichever writes fail, the state file holds the content of one snapshot, the one
  \<open>persistedSeq\<close> numbers, and a later state of the file is never an older snapshot.
\<close>

theorem slow_writer_never_clobbers:
  assumes "writers_init w0" and "writer_step\<^sup>*\<^sup>* w0 w" and "writer_step\<^sup>*\<^sup>* w w'"
    and "0 < persistedSeq (wst w)"
  shows "persistedSeq (wst w) \<le> persistedSeq (wst w') \<and>
    persistedSeq (wst w') \<le> length (history w') \<and>
    disk (wst w') = Some (history w' ! (persistedSeq (wst w') - 1))"
proof -
  from assms(1,2) have inv: "writers_inv w" by (rule writers.reachable_inv)
  from assms(3) inv have "persistedSeq (wst w) \<le> persistedSeq (wst w')"
    by (auto dest: writers.run_le simp: writers_le_def)
  moreover from assms(3) inv have "writers_inv w'" by (rule writers.run_keeps_inv)
  ultimately show ?thesis using assms(4) by (auto simp: writers_inv_def)
qed

text \<open>A run with two snapshots whose writes arrive in the wrong order.\<close>

definition demo_writers :: "nat writers list" where
  "demo_writers =
    [\<lparr>wst = \<lparr>persistSeq = 0, persistedSeq = 0, disk = None\<rparr>, history = [], pending = []\<rparr>,
     \<lparr>wst = \<lparr>persistSeq = 1, persistedSeq = 0, disk = None\<rparr>, history = [10], pending = [(1, 10)]\<rparr>,
     \<lparr>wst = \<lparr>persistSeq = 2, persistedSeq = 0, disk = None\<rparr>, history = [10, 20],
       pending = [(1, 10), (2, 20)]\<rparr>,
     \<lparr>wst = \<lparr>persistSeq = 2, persistedSeq = 2, disk = Some 20\<rparr>, history = [10, 20],
       pending = [(1, 10)]\<rparr>,
     \<lparr>wst = \<lparr>persistSeq = 2, persistedSeq = 2, disk = Some 20\<rparr>, history = [10, 20], pending = []\<rparr>]"

lemma demo_steps:
  "writer_step (demo_writers ! 0) (demo_writers ! 1)"
  "writer_step (demo_writers ! 1) (demo_writers ! 2)"
  "writer_step (demo_writers ! 2) (demo_writers ! 3)"
  "writer_step (demo_writers ! 3) (demo_writers ! 4)"
  using take_snapshot [of "demo_writers ! 0" 10] take_snapshot [of "demo_writers ! 1" 20]
    disk_write [of 2 20 "demo_writers ! 2" True] disk_write [of 1 10 "demo_writers ! 3" True]
  by (simp_all add: demo_writers_def store_next_def store_write_def numeral_2_eq_2)

theorem slow_writer_never_clobbers_witness:
  "persistedSeq (wst (demo_writers ! 3)) \<le> persistedSeq (wst (demo_writers ! 4)) \<and>
   persistedSeq (wst (demo_writers ! 4)) \<le> length (history (demo_writers ! 4)) \<and>
   disk (wst (demo_writers ! 4)) =
     Some (history (demo_writers ! 4) ! (persistedSeq (wst (demo_writers ! 4)) - 1))"
proof (rule slow_writer_never_clobbers [of "demo_writers ! 0"])
  show "writers_init (demo_writers ! 0)" by (simp add: writers_init_def demo_writers_def)
  show "writer_step\<^sup>*\<^sup>* (demo_writers ! 0) (demo_writers ! 3)"
    using demo_steps(1-3) by (meson converse_rtranclp_into_rtranclp rtranclp.rtrancl_refl)
  show "writer_step\<^sup>*\<^sup>* (demo_writers ! 3) (demo_writers ! 4)"
    using demo_steps(4) by blast
  show "0 < persistedSeq (wst (demo_writers ! 3))" by (simp add: demo_writers_def)
qed

end
