(* ===== verification/Server.thy ===== *)
theory Server
  imports Policy Registry Directory Security Store
begin

text \<open>
  The master's state (\<open>internal/master/server.go\<close>), the classification of shutdown statuses
  (\<open>status_class.go\<close>), the predicates on a command, and the snapshot and write of the state
  file (\<open>state.go\<close>).
\<close>

section \<open>State\<close>

record shutdownCommandState =
  cm_Message :: ShutdownMessage
  cm_TargetNodes :: "string list"
  cm_NodeUpdates :: "(string, ShutdownAckMessage) gomap"
  cm_TimeoutAt :: "time option"
  cm_CompletedAt :: "time option"
  cm_ReplayDisabled :: bool
  cm_Auto :: bool

record localShutdownState =
  ls_Phase :: string
  ls_CommandID :: string
  ls_StartedAt :: "time option"
  ls_DeadlineAt :: "time option"
  ls_Trigger :: string
  ls_LastRebroadcastAt :: "time option"
  ls_LastError :: string
  ls_LastAttemptAt :: "time option"
  ls_DryRun :: bool

record autoEpisode =
  ep_StartedAt :: time
  ep_CommandID :: string
  ep_FiredPolicies :: "string list"
  ep_MasterPoweredOff :: bool
  ep_matchSince :: "(string, time) gomap"

record persistedState =
  ps_ActiveCommand :: string
  ps_Episode :: "autoEpisode option"
  ps_LocalShutdown :: "localShutdownState option"
  ps_Commands :: "(string, shutdownCommandState) gomap"
  ps_Nodes :: directory
  ps_NodeTokens :: "(string, string) gomap"

text \<open>
  What the master does to the outside, in order: a message handed to a connection, a
  connection closed, the state file replaced, the local shutdown command started.
\<close>

datatype effect =
    Sent nat message
  | Closed nat
  | Wrote persistedState
  | Ran "string list" string bool

text \<open>
  The fields of \<open>Server\<close>, with three parts of the environment: \<open>hashToken\<close> is
  \<open>security.HashToken\<close>, \<open>writeOK n\<close> tells whether writing snapshot \<open>n\<close> succeeds and
  \<open>sendOK c\<close> whether a send on connection \<open>c\<close> does. \<open>effects\<close> is the trace.
\<close>

record Server =
  cfg :: MasterConfig
  registry :: registry
  directory :: directory
  shutdownIssued :: bool
  ready :: bool
  upsConfirmed :: bool
  startedAt :: time
  commands :: "(string, shutdownCommandState) gomap"
  activeCommand :: string
  episode :: "autoEpisode option"
  lastNodeRetryAt :: time
  localShutdown :: "localShutdownState option"
  localCommandReady :: "bool option"
  upsStatus :: "UPSStatusView option"
  upsMissingWarned :: "string list"
  stateStore :: "persistedState store"
  conns :: "nat list"
  nodeTokens :: "(string, string) gomap"
  enrollmentHashes :: "string list"
  hashToken :: "string \<Rightarrow> string"
  writeOK :: "nat \<Rightarrow> bool"
  sendOK :: "nat \<Rightarrow> bool"
  effects :: "effect list"

section \<open>Status classes\<close>

record shutdownStatusClass =
  k_complete :: bool
  k_final :: bool
  k_replayDone :: bool
  k_reportable :: bool

definition no_class :: shutdownStatusClass where
  "no_class = \<lparr>k_complete = False, k_final = False, k_replayDone = False, k_reportable = False\<rparr>"

definition shutdownStatusClasses :: "(string, shutdownStatusClass) gomap" where
  "shutdownStatusClasses =
    [(StatusAccepted, no_class\<lparr>k_reportable := True\<rparr>),
     (StatusExecuting, no_class\<lparr>k_reportable := True\<rparr>),
     (StatusExecuted, \<lparr>k_complete = True, k_final = True, k_replayDone = True, k_reportable = True\<rparr>),
     (StatusSimulated, \<lparr>k_complete = True, k_final = True, k_replayDone = True, k_reportable = True\<rparr>),
     (StatusFailed, \<lparr>k_complete = True, k_final = True, k_replayDone = False, k_reportable = True\<rparr>),
     (StatusTimeout, \<lparr>k_complete = True, k_final = False, k_replayDone = False, k_reportable = False\<rparr>)]"

definition statusClass :: "string \<Rightarrow> shutdownStatusClass" where
  "statusClass status =
    (case map_of shutdownStatusClasses status of None \<Rightarrow> no_class | Some k \<Rightarrow> k)"

definition isCompleteShutdownStatus :: "string \<Rightarrow> bool" where
  "isCompleteShutdownStatus status = k_complete (statusClass status)"

definition isFinalShutdownStatus :: "string \<Rightarrow> bool" where
  "isFinalShutdownStatus status = k_final (statusClass status)"

definition isReplayDoneStatus :: "string \<Rightarrow> bool" where
  "isReplayDoneStatus status = k_replayDone (statusClass status)"

definition isReportableShutdownStatus :: "string \<Rightarrow> bool" where
  "isReportableShutdownStatus status = k_reportable (statusClass status)"

section \<open>Predicates on a command\<close>

definition node_status :: "shutdownCommandState \<Rightarrow> string \<Rightarrow> string option" where
  "node_status c n = map_option ack_Status (map_of (cm_NodeUpdates c) n)"

definition commandComplete :: "shutdownCommandState \<Rightarrow> bool" where
  "commandComplete c =
    (list_all (\<lambda>n. case node_status c n of None \<Rightarrow> False | Some s \<Rightarrow> isCompleteShutdownStatus s)
       (cm_TargetNodes c) \<and> cm_TargetNodes c \<noteq> [])"

definition remoteShutdownFinished :: "shutdownCommandState \<Rightarrow> bool" where
  "remoteShutdownFinished c =
    (list_all (\<lambda>n. case node_status c n of None \<Rightarrow> False | Some s \<Rightarrow> isFinalShutdownStatus s)
       (cm_TargetNodes c) \<and> cm_TargetNodes c \<noteq> [])"

definition commandHasRepairableTimeout :: "shutdownCommandState \<Rightarrow> bool" where
  "commandHasRepairableTimeout c =
    list_ex (\<lambda>n. node_status c n = Some StatusTimeout) (cm_TargetNodes c)"

definition shouldReplayShutdownForNode :: "shutdownCommandState option \<Rightarrow> string \<Rightarrow> bool" where
  "shouldReplayShutdownForNode command n =
    (case command of
       None \<Rightarrow> False
     | Some c \<Rightarrow>
         if cm_ReplayDisabled c then False
         else if n \<notin> set (cm_TargetNodes c) then False
         else (case node_status c n of
             Some s \<Rightarrow> \<not> isReplayDoneStatus s
           | None \<Rightarrow> True))"

definition shouldReplaceShutdownUpdate :: "ShutdownAckMessage \<Rightarrow> ShutdownAckMessage \<Rightarrow> bool" where
  "shouldReplaceShutdownUpdate existing next_update = (\<not> isReplayDoneStatus (ack_Status existing))"

definition replayableNodeIDs :: "shutdownCommandState \<Rightarrow> string list" where
  "replayableNodeIDs c = filter (shouldReplayShutdownForNode (Some c)) (cm_TargetNodes c)"

section \<open>Targets and sends\<close>

definition selectTargets :: "ShutdownTarget \<Rightarrow> Server \<Rightarrow> Client list" where
  "selectTargets target s =
    filter (\<lambda>c. targetMatchesNode target (cl_NodeID c) (slice (cl_Tags c))) (reg_List (registry s))"

definition buildTargetNodeSet :: "Client list \<Rightarrow> string list" where
  "buildTargetNodeSet targets = sputs (filter (\<lambda>n. n \<noteq> []) (map cl_NodeID targets)) []"

definition emit :: "effect list \<Rightarrow> Server \<Rightarrow> Server" where
  "emit es s = s\<lparr>effects := effects s @ es\<rparr>"

text \<open>\<open>client.Send\<close>: the message goes to the connection; the result is the error.\<close>

definition client_Send :: "nat \<Rightarrow> message \<Rightarrow> Server \<Rightarrow> bool \<times> Server" where
  "client_Send conn m s = (\<not> sendOK s conn, emit [Sent conn m] s)"

text \<open>All sends run concurrently and are awaited; the result is whether any failed.\<close>

definition sendShutdown :: "ShutdownMessage \<Rightarrow> Client list \<Rightarrow> Server \<Rightarrow> bool \<times> Server" where
  "sendShutdown m clients s =
    (list_ex (\<lambda>c. \<not> sendOK s (cl_conn c)) clients,
     emit (map (\<lambda>c. Sent (cl_conn c) (Shutdown m)) clients) s)"

definition replayShutdownToNodes :: "ShutdownMessage \<Rightarrow> string list \<Rightarrow> Server \<Rightarrow> Server" where
  "replayShutdownToNodes m nodeIDs s =
    emit (map (\<lambda>c. Sent (cl_conn c) (Shutdown m))
      (filter (\<lambda>c. cl_NodeID c \<in> set nodeIDs) (reg_List (registry s)))) s"

section \<open>Snapshots\<close>

text \<open>Only the phases a restart can resume are written to disk.\<close>

definition resumable_phases :: "string list" where
  "resumable_phases = [PhaseWaitingRemote, PhaseWaitExpired, PhaseEmergency, PhaseFailed]"

definition persistedLocalShutdownState :: "localShutdownState option \<Rightarrow> localShutdownState option" where
  "persistedLocalShutdownState state =
    (case state of
       None \<Rightarrow> None
     | Some l \<Rightarrow> if ls_Phase l \<in> set resumable_phases then Some l else None)"

text \<open>The JSON of an episode has no \<open>matchSince\<close>: the field is not exported.\<close>

definition persistedEpisode :: "autoEpisode option \<Rightarrow> autoEpisode option" where
  "persistedEpisode e = map_option (\<lambda>e. e\<lparr>ep_matchSince := []\<rparr>) e"

definition persisted_of :: "Server \<Rightarrow> persistedState" where
  "persisted_of s = \<lparr>ps_ActiveCommand = activeCommand s, ps_Episode = persistedEpisode (episode s),
     ps_LocalShutdown = persistedLocalShutdownState (localShutdown s), ps_Commands = commands s,
     ps_Nodes = dir_snapshotForPersist (directory s), ps_NodeTokens = nodeTokens s\<rparr>"

definition snapshotStateLocked :: "Server \<Rightarrow> Server \<times> (nat \<times> persistedState) option" where
  "snapshotStateLocked s =
    (if mc_StateFile (cfg s) = [] then (s, None)
     else let s' = s\<lparr>stateStore := store_next (stateStore s)\<rparr>
          in (s', Some (persistSeq (stateStore s'), persisted_of s)))"

definition persistState :: "(nat \<times> persistedState) option \<Rightarrow> Server \<Rightarrow> Server" where
  "persistState snapshot s =
    (case snapshot of
       None \<Rightarrow> s
     | Some (seq, content) \<Rightarrow>
         let written = (seq > persistedSeq (stateStore s) \<and> writeOK s seq);
             s' = s\<lparr>stateStore := store_write (writeOK s seq) seq content (stateStore s)\<rparr>
         in if written then emit [Wrote content] s' else s')"

text \<open>Snapshot under the lock, unlock, write: the tail of almost every operation.\<close>

definition saveState :: "Server \<Rightarrow> Server" where
  "saveState s = (case snapshotStateLocked s of (s', snapshot) \<Rightarrow> persistState snapshot s')"

section \<open>Frame lemmas\<close>

text \<open>Emitting effects, writing the state file and sending change nothing else.\<close>

lemma emit_frame [simp, frame_simps]:
  "cfg (emit es s) = cfg s" "registry (emit es s) = registry s"
  "directory (emit es s) = directory s" "shutdownIssued (emit es s) = shutdownIssued s"
  "ready (emit es s) = ready s" "upsConfirmed (emit es s) = upsConfirmed s"
  "startedAt (emit es s) = startedAt s" "commands (emit es s) = commands s"
  "activeCommand (emit es s) = activeCommand s" "episode (emit es s) = episode s"
  "lastNodeRetryAt (emit es s) = lastNodeRetryAt s" "localShutdown (emit es s) = localShutdown s"
  "localCommandReady (emit es s) = localCommandReady s" "upsStatus (emit es s) = upsStatus s"
  "upsMissingWarned (emit es s) = upsMissingWarned s" "stateStore (emit es s) = stateStore s"
  "conns (emit es s) = conns s" "nodeTokens (emit es s) = nodeTokens s"
  "enrollmentHashes (emit es s) = enrollmentHashes s" "hashToken (emit es s) = hashToken s"
  "writeOK (emit es s) = writeOK s" "sendOK (emit es s) = sendOK s"
  by (simp_all add: emit_def)

lemma effects_emit [simp]: "effects (emit es s) = effects s @ es"
  by (simp add: emit_def)

lemma emit_Nil [simp]: "emit [] s = s"
  by (simp add: emit_def)

lemma snapshot_frame [simp, frame_simps]:
  "cfg (fst (snapshotStateLocked s)) = cfg s"
  "registry (fst (snapshotStateLocked s)) = registry s"
  "directory (fst (snapshotStateLocked s)) = directory s"
  "shutdownIssued (fst (snapshotStateLocked s)) = shutdownIssued s"
  "ready (fst (snapshotStateLocked s)) = ready s"
  "upsConfirmed (fst (snapshotStateLocked s)) = upsConfirmed s"
  "startedAt (fst (snapshotStateLocked s)) = startedAt s"
  "commands (fst (snapshotStateLocked s)) = commands s"
  "activeCommand (fst (snapshotStateLocked s)) = activeCommand s"
  "episode (fst (snapshotStateLocked s)) = episode s"
  "lastNodeRetryAt (fst (snapshotStateLocked s)) = lastNodeRetryAt s"
  "localShutdown (fst (snapshotStateLocked s)) = localShutdown s"
  "localCommandReady (fst (snapshotStateLocked s)) = localCommandReady s"
  "upsStatus (fst (snapshotStateLocked s)) = upsStatus s"
  "upsMissingWarned (fst (snapshotStateLocked s)) = upsMissingWarned s"
  "conns (fst (snapshotStateLocked s)) = conns s"
  "nodeTokens (fst (snapshotStateLocked s)) = nodeTokens s"
  "enrollmentHashes (fst (snapshotStateLocked s)) = enrollmentHashes s"
  "hashToken (fst (snapshotStateLocked s)) = hashToken s"
  "writeOK (fst (snapshotStateLocked s)) = writeOK s"
  "sendOK (fst (snapshotStateLocked s)) = sendOK s"
  "effects (fst (snapshotStateLocked s)) = effects s"
  by (simp_all add: snapshotStateLocked_def Let_def)

lemma persistState_frame [simp, frame_simps]:
  "cfg (persistState w s) = cfg s" "registry (persistState w s) = registry s"
  "directory (persistState w s) = directory s"
  "shutdownIssued (persistState w s) = shutdownIssued s" "ready (persistState w s) = ready s"
  "upsConfirmed (persistState w s) = upsConfirmed s" "startedAt (persistState w s) = startedAt s"
  "commands (persistState w s) = commands s" "activeCommand (persistState w s) = activeCommand s"
  "episode (persistState w s) = episode s"
  "lastNodeRetryAt (persistState w s) = lastNodeRetryAt s"
  "localShutdown (persistState w s) = localShutdown s"
  "localCommandReady (persistState w s) = localCommandReady s"
  "upsStatus (persistState w s) = upsStatus s"
  "upsMissingWarned (persistState w s) = upsMissingWarned s" "conns (persistState w s) = conns s"
  "nodeTokens (persistState w s) = nodeTokens s"
  "enrollmentHashes (persistState w s) = enrollmentHashes s"
  "hashToken (persistState w s) = hashToken s" "writeOK (persistState w s) = writeOK s"
  "sendOK (persistState w s) = sendOK s"
  by (simp_all add: persistState_def Let_def split: option.split)

lemma saveState_frame [simp, frame_simps]:
  "cfg (saveState s) = cfg s" "registry (saveState s) = registry s"
  "directory (saveState s) = directory s" "shutdownIssued (saveState s) = shutdownIssued s"
  "ready (saveState s) = ready s" "upsConfirmed (saveState s) = upsConfirmed s"
  "startedAt (saveState s) = startedAt s" "commands (saveState s) = commands s"
  "activeCommand (saveState s) = activeCommand s" "episode (saveState s) = episode s"
  "lastNodeRetryAt (saveState s) = lastNodeRetryAt s"
  "localShutdown (saveState s) = localShutdown s"
  "localCommandReady (saveState s) = localCommandReady s" "upsStatus (saveState s) = upsStatus s"
  "upsMissingWarned (saveState s) = upsMissingWarned s" "conns (saveState s) = conns s"
  "nodeTokens (saveState s) = nodeTokens s" "enrollmentHashes (saveState s) = enrollmentHashes s"
  "hashToken (saveState s) = hashToken s" "writeOK (saveState s) = writeOK s"
  "sendOK (saveState s) = sendOK s"
  by (simp_all add: saveState_def snapshotStateLocked_def Let_def split: prod.split)

lemma sendShutdown_frame [simp, frame_simps]:
  "cfg (snd (sendShutdown m cs s)) = cfg s" "registry (snd (sendShutdown m cs s)) = registry s"
  "directory (snd (sendShutdown m cs s)) = directory s"
  "shutdownIssued (snd (sendShutdown m cs s)) = shutdownIssued s"
  "ready (snd (sendShutdown m cs s)) = ready s"
  "upsConfirmed (snd (sendShutdown m cs s)) = upsConfirmed s"
  "startedAt (snd (sendShutdown m cs s)) = startedAt s"
  "commands (snd (sendShutdown m cs s)) = commands s"
  "activeCommand (snd (sendShutdown m cs s)) = activeCommand s"
  "episode (snd (sendShutdown m cs s)) = episode s"
  "lastNodeRetryAt (snd (sendShutdown m cs s)) = lastNodeRetryAt s"
  "localShutdown (snd (sendShutdown m cs s)) = localShutdown s"
  "localCommandReady (snd (sendShutdown m cs s)) = localCommandReady s"
  "upsStatus (snd (sendShutdown m cs s)) = upsStatus s"
  "upsMissingWarned (snd (sendShutdown m cs s)) = upsMissingWarned s"
  "stateStore (snd (sendShutdown m cs s)) = stateStore s"
  "conns (snd (sendShutdown m cs s)) = conns s"
  "nodeTokens (snd (sendShutdown m cs s)) = nodeTokens s"
  "enrollmentHashes (snd (sendShutdown m cs s)) = enrollmentHashes s"
  "hashToken (snd (sendShutdown m cs s)) = hashToken s"
  "writeOK (snd (sendShutdown m cs s)) = writeOK s"
  "sendOK (snd (sendShutdown m cs s)) = sendOK s"
  by (simp_all add: sendShutdown_def)

lemma client_Send_frame [simp, frame_simps]:
  "cfg (snd (client_Send c m s)) = cfg s" "registry (snd (client_Send c m s)) = registry s"
  "directory (snd (client_Send c m s)) = directory s"
  "shutdownIssued (snd (client_Send c m s)) = shutdownIssued s"
  "ready (snd (client_Send c m s)) = ready s"
  "upsConfirmed (snd (client_Send c m s)) = upsConfirmed s"
  "startedAt (snd (client_Send c m s)) = startedAt s"
  "commands (snd (client_Send c m s)) = commands s"
  "activeCommand (snd (client_Send c m s)) = activeCommand s"
  "episode (snd (client_Send c m s)) = episode s"
  "lastNodeRetryAt (snd (client_Send c m s)) = lastNodeRetryAt s"
  "localShutdown (snd (client_Send c m s)) = localShutdown s"
  "localCommandReady (snd (client_Send c m s)) = localCommandReady s"
  "upsStatus (snd (client_Send c m s)) = upsStatus s"
  "upsMissingWarned (snd (client_Send c m s)) = upsMissingWarned s"
  "stateStore (snd (client_Send c m s)) = stateStore s"
  "conns (snd (client_Send c m s)) = conns s"
  "nodeTokens (snd (client_Send c m s)) = nodeTokens s"
  "enrollmentHashes (snd (client_Send c m s)) = enrollmentHashes s"
  "hashToken (snd (client_Send c m s)) = hashToken s"
  "writeOK (snd (client_Send c m s)) = writeOK s" "sendOK (snd (client_Send c m s)) = sendOK s"
  by (simp_all add: client_Send_def)

lemma replay_frame [simp, frame_simps]:
  "cfg (replayShutdownToNodes m ns s) = cfg s"
  "registry (replayShutdownToNodes m ns s) = registry s"
  "directory (replayShutdownToNodes m ns s) = directory s"
  "shutdownIssued (replayShutdownToNodes m ns s) = shutdownIssued s"
  "ready (replayShutdownToNodes m ns s) = ready s"
  "upsConfirmed (replayShutdownToNodes m ns s) = upsConfirmed s"
  "startedAt (replayShutdownToNodes m ns s) = startedAt s"
  "commands (replayShutdownToNodes m ns s) = commands s"
  "activeCommand (replayShutdownToNodes m ns s) = activeCommand s"
  "episode (replayShutdownToNodes m ns s) = episode s"
  "lastNodeRetryAt (replayShutdownToNodes m ns s) = lastNodeRetryAt s"
  "localShutdown (replayShutdownToNodes m ns s) = localShutdown s"
  "localCommandReady (replayShutdownToNodes m ns s) = localCommandReady s"
  "upsStatus (replayShutdownToNodes m ns s) = upsStatus s"
  "upsMissingWarned (replayShutdownToNodes m ns s) = upsMissingWarned s"
  "stateStore (replayShutdownToNodes m ns s) = stateStore s"
  "conns (replayShutdownToNodes m ns s) = conns s"
  "nodeTokens (replayShutdownToNodes m ns s) = nodeTokens s"
  "enrollmentHashes (replayShutdownToNodes m ns s) = enrollmentHashes s"
  "hashToken (replayShutdownToNodes m ns s) = hashToken s"
  "writeOK (replayShutdownToNodes m ns s) = writeOK s"
  "sendOK (replayShutdownToNodes m ns s) = sendOK s"
  by (simp_all add: replayShutdownToNodes_def)

section \<open>Effects of a save\<close>

text \<open>Saving appends at most the write of exactly the state being saved.\<close>

lemma effects_saveState:
  "effects (saveState s) =
    effects s @ (if mc_StateFile (cfg s) \<noteq> [] \<and> persistedSeq (stateStore s) \<le> persistSeq (stateStore s) \<and>
        writeOK s (Suc (persistSeq (stateStore s))) then [Wrote (persisted_of s)] else [])"
  by (auto simp: saveState_def snapshotStateLocked_def persistState_def Let_def)

definition is_write :: "effect \<Rightarrow> bool" where
  "is_write e \<longleftrightarrow> (\<exists>p. e = Wrote p)"

lemma is_write_simps [simp]:
  "is_write (Wrote p)" "\<not> is_write (Sent c m)" "\<not> is_write (Closed c)" "\<not> is_write (Ran a t d)"
  by (simp_all add: is_write_def)

text \<open>The effects other than writes of the state file.\<close>

definition actions :: "Server \<Rightarrow> effect list" where
  "actions s = filter (\<lambda>e. \<not> is_write e) (effects s)"

lemma actions_saveState [simp]: "actions (saveState s) = actions s"
  by (simp add: actions_def effects_saveState)

lemma actions_persistState [simp]: "actions (persistState w s) = actions s"
  by (simp add: actions_def persistState_def Let_def split: option.split)

lemma actions_emit [simp]: "actions (emit es s) = actions s @ filter (\<lambda>e. \<not> is_write e) es"
  by (simp add: actions_def)

lemma actions_sendShutdown [simp]:
  "actions (snd (sendShutdown m cs s)) = actions s @ map (\<lambda>c. Sent (cl_conn c) (Shutdown m)) cs"
  by (simp add: sendShutdown_def filter_id_conv)

lemma actions_client_Send [simp]: "actions (snd (client_Send c m s)) = actions s @ [Sent c m]"
  by (simp add: client_Send_def)

lemma actions_replay [simp]:
  "actions (replayShutdownToNodes m ns s) = actions s @
     map (\<lambda>c. Sent (cl_conn c) (Shutdown m)) (filter (\<lambda>c. cl_NodeID c \<in> set ns) (reg_List (registry s)))"
  by (simp add: replayShutdownToNodes_def filter_id_conv)

lemma actions_update:
  "effects s' = effects s \<Longrightarrow> actions s' = actions s"
  by (simp add: actions_def)

section \<open>Status classes as an interface\<close>

text \<open>
  What the command state machine relies on in the status table: a confirmed outcome is
  final, a final one is complete, and the master's own verdict \<open>timeout\<close> completes a node
  without being final, confirmed or reportable by a slave.
\<close>

locale status_classification =
  fixes complete final replay_done reportable :: "string \<Rightarrow> bool" and timed_out :: string
  assumes done_final: "replay_done x \<Longrightarrow> final x"
    and final_complete: "final x \<Longrightarrow> complete x"
    and final_reportable: "final x \<Longrightarrow> reportable x"
    and timeout_complete: "complete timed_out"
    and timeout_not_final: "\<not> final timed_out"
    and timeout_not_reportable: "\<not> reportable timed_out"
begin

lemma timeout_not_done: "\<not> replay_done timed_out"
  using done_final timeout_not_final by blast

lemma all_final_all_complete:
  "list_all (\<lambda>n. case f n of None \<Rightarrow> False | Some x \<Rightarrow> final x) ns \<Longrightarrow>
    list_all (\<lambda>n. case f n of None \<Rightarrow> False | Some x \<Rightarrow> complete x) ns"
  by (auto simp: list_all_iff dest: final_complete split: option.splits)

lemma all_final_no_timeout:
  "list_all (\<lambda>n. case f n of None \<Rightarrow> False | Some x \<Rightarrow> final x) ns \<Longrightarrow> n \<in> set ns \<Longrightarrow>
    f n \<noteq> Some timed_out"
  using timeout_not_final by (fastforce simp: list_all_iff)

lemma reported_not_timeout: "reportable x \<Longrightarrow> x \<noteq> timed_out"
  using timeout_not_reportable by blast

end

lemmas status_class_defs = isCompleteShutdownStatus_def isFinalShutdownStatus_def
  isReplayDoneStatus_def isReportableShutdownStatus_def statusClass_def shutdownStatusClasses_def
  no_class_def

interpretation status: status_classification isCompleteShutdownStatus isFinalShutdownStatus
  isReplayDoneStatus isReportableShutdownStatus StatusTimeout
  by unfold_locales (auto simp: status_class_defs split: if_splits)

lemma status_values [simp]:
  "isReplayDoneStatus StatusExecuted" "isReplayDoneStatus StatusSimulated"
  "\<not> isReplayDoneStatus StatusFailed" "\<not> isReplayDoneStatus StatusTimeout"
  "\<not> isReplayDoneStatus StatusAccepted" "\<not> isReplayDoneStatus StatusExecuting"
  "isCompleteShutdownStatus StatusTimeout" "isCompleteShutdownStatus StatusFailed"
  "\<not> isFinalShutdownStatus StatusTimeout" "isFinalShutdownStatus StatusFailed"
  by (simp_all add: status_class_defs)

lemma finished_complete: "remoteShutdownFinished c \<Longrightarrow> commandComplete c"
  by (auto simp: remoteShutdownFinished_def commandComplete_def intro: status.all_final_all_complete)

lemma finished_no_timeout: "remoteShutdownFinished c \<Longrightarrow> \<not> commandHasRepairableTimeout c"
  by (auto simp: remoteShutdownFinished_def commandHasRepairableTimeout_def list_ex_iff
      dest: status.all_final_no_timeout)

section \<open>Command invariant\<close>

text \<open>
  A command is stored under its own id, tracks each node once, has updates of tracked nodes
  only, and every update is filed under the node and the command it reports on.
\<close>

definition command_inv :: "string \<Rightarrow> shutdownCommandState \<Rightarrow> bool" where
  "command_inv cid c \<longleftrightarrow> sm_CommandID (cm_Message c) = cid \<and> cid \<noteq> [] \<and>
     distinct (cm_TargetNodes c) \<and> [] \<notin> set (cm_TargetNodes c) \<and>
     distinct (mkeys (cm_NodeUpdates c)) \<and> set (mkeys (cm_NodeUpdates c)) \<subseteq> set (cm_TargetNodes c) \<and>
     (\<forall>n u. map_of (cm_NodeUpdates c) n = Some u \<longrightarrow> ack_NodeID u = n \<and> ack_CommandID u = cid)"

definition commands_inv :: "(string, shutdownCommandState) gomap \<Rightarrow> bool" where
  "commands_inv m \<longleftrightarrow> distinct (mkeys m) \<and> (\<forall>cid c. map_of m cid = Some c \<longrightarrow> command_inv cid c)"

lemma commands_inv_mput:
  "commands_inv m \<Longrightarrow> command_inv cid c \<Longrightarrow> commands_inv (mput cid c m)"
  by (auto simp: commands_inv_def distinct_update)

lemma commands_inv_madjust:
  "commands_inv m \<Longrightarrow> (\<And>c. map_of m cid = Some c \<Longrightarrow> command_inv cid c \<Longrightarrow> command_inv cid (f c)) \<Longrightarrow>
    commands_inv (madjust cid f m)"
  by (auto simp: commands_inv_def map_of_madjust split: if_splits)

lemma commands_inv_filter: "commands_inv m \<Longrightarrow> commands_inv (filter P m)"
  by (auto simp: commands_inv_def dest: map_of_filter_SomeD intro: distinct_map_filter)

lemma commands_inv_lookup: "commands_inv m \<Longrightarrow> map_of m cid = Some c \<Longrightarrow> command_inv cid c"
  by (simp add: commands_inv_def)

lemma commands_inv_nonempty: "commands_inv m \<Longrightarrow> map_of m [] = None"
  by (cases "map_of m []") (auto simp: commands_inv_def command_inv_def)

lemma set_buildTargetNodeSet: "set (buildTargetNodeSet cs) = {cl_NodeID c |c. c \<in> set cs \<and> cl_NodeID c \<noteq> []}"
  by (auto simp: buildTargetNodeSet_def)

lemma distinct_buildTargetNodeSet: "distinct (buildTargetNodeSet cs)"
  by (simp add: buildTargetNodeSet_def)

section \<open>A concrete master\<close>

text \<open>
  Two policies, as in the shipped example: shed the nodes tagged \<open>dev\<close> below 50% charge,
  shut everything down below 20 minutes of runtime. Local shutdown is enabled. The witnesses
  of the theorems run on this master.
\<close>

definition example_policies :: "ShutdownPolicySpec list" where
  "example_policies =
    [\<lparr>pol_Name = ''dev'', pol_When = \<lparr>pw_ChargeBelow = 50, pw_RuntimeBelow = 0, pw_LowBattery = False,
        pw_UPSUnreachableFor = 0\<rparr>, pol_Duration = 0,
      pol_Target = \<lparr>pt_All = False, pt_Tags = [''dev''], pt_NodeIDs = []\<rparr>, pol_Reason = ''shed''\<rparr>,
     \<lparr>pol_Name = ''all'', pol_When = \<lparr>pw_ChargeBelow = 0, pw_RuntimeBelow = 20, pw_LowBattery = False,
        pw_UPSUnreachableFor = 0\<rparr>, pol_Duration = 0,
      pol_Target = \<lparr>pt_All = True, pt_Tags = [], pt_NodeIDs = []\<rparr>, pol_Reason = ''low''\<rparr>]"

definition example_config :: MasterConfig where
  "example_config = \<lparr>mc_ListenAddr = '':9000'', mc_AdminListenAddr = ''127.0.0.1:9001'',
     mc_AdminToken = ''admin'', mc_AdminTLS = \<lparr>at_CertFile = [], at_KeyFile = []\<rparr>, mc_PublicAddr = [],
     mc_InstallRepo = [], mc_InstallCAFile = [], mc_StateFile = ''state.json'',
     mc_EnrollmentTokens = [''enroll''], mc_Enrollment = EnrollmentOpen, mc_PollInterval = 10 * second,
     mc_CommandTimeout = 30 * second, mc_OfflineAfter = 45 * second, mc_DryRun = False,
     mc_LogUPSStatus = False, mc_TLS = zero_TLS,
     mc_LocalShutdown = \<lparr>lc_Enabled = True, lc_Command = Some [''shutdown''], lc_CommandTimeout = 2 * minute,
       lc_MaxWait = 15 * minute, lc_EmergencyRuntimeMinutes = 15, lc_UnreachableAfter = 15 * minute\<rparr>,
     mc_ShutdownPolicies = example_policies,
     mc_SNMP = \<lparr>sn_Target = ''ups'', sn_Port = 161, sn_Version = ''2c'', sn_TimeoutSeconds = 2,
       sn_Community = ''public'', sn_Username = [], sn_SecurityLevel = [], sn_AuthProtocol = [],
       sn_AuthPassphrase = [], sn_PrivProtocol = [], sn_PrivPassphrase = [], sn_Profile = ''ups-mib'',
       sn_OnBattery = None, sn_Charge = None, sn_Runtime = None\<rparr>,
     mc_NUT = \<lparr>nu_Host = [], nu_Port = 0, nu_UPS = [], nu_TimeoutSeconds = 0\<rparr>\<rparr>"

definition example_client :: "nat \<Rightarrow> string \<Rightarrow> string list \<Rightarrow> Client" where
  "example_client conn nodeID tags = \<lparr>cl_conn = conn, cl_NodeID = nodeID, cl_Hostname = nodeID,
     cl_Tags = Some tags, cl_lastSeen = 1\<rparr>"

definition example_server :: Server where
  "example_server = \<lparr>cfg = example_config,
     registry = [(''web'', example_client 1 ''web'' [''prod'']), (''ci'', example_client 2 ''ci'' [''dev''])],
     directory = [], shutdownIssued = False, ready = True, upsConfirmed = False, startedAt = 0,
     commands = [], activeCommand = [], episode = None, lastNodeRetryAt = 0, localShutdown = None,
     localCommandReady = None, upsStatus = None, upsMissingWarned = [],
     stateStore = \<lparr>persistSeq = 0, persistedSeq = 0, disk = None\<rparr>, conns = [1, 2], nodeTokens = [],
     enrollmentHashes = [''enroll''], hashToken = id, writeOK = (\<lambda>_. True), sendOK = (\<lambda>_. True),
     effects = []\<rparr>"

definition example_reading :: UPSStatus where
  "example_reading = \<lparr>ups_OnBattery = True, ups_LowBattery = False, ups_BatteryCharge = Some 40,
     ups_RuntimeMinutes = Some 60\<rparr>"

lemmas example_defs = example_server_def example_config_def example_policies_def example_client_def
  example_reading_def zero_TLS_def duration_units

end
