(* ===== verification/Ups.thy ===== *)
theory Ups
  imports Server
begin

text \<open>
  \<open>internal/master/ups.go\<close>: the record of the latest UPS polls and what is derived from it.
\<close>

section \<open>Definitions\<close>

text \<open>\<open>NUTConfig.Address\<close>: the NUT notation of the UPS, \<open>ups@host:port\<close>.\<close>

definition NUT_Address :: "NUTConfig \<Rightarrow> string" where
  "NUT_Address c = nu_UPS c @ ''@'' @ nu_Host c @ '':'' @ show_nat (unat (nu_Port c))"

definition upsSource :: "Server \<Rightarrow> string" where
  "upsSource s = (if UsesNUT (cfg s) then UPSSourceNUT else UPSSourceSNMP)"

definition upsTarget :: "Server \<Rightarrow> string" where
  "upsTarget s = (if UsesNUT (cfg s) then NUT_Address (mc_NUT (cfg s)) else sn_Target (mc_SNMP (cfg s)))"

definition empty_view :: UPSStatusView where
  "empty_view = \<lparr>uv_Source = [], uv_Target = [], uv_OnBattery = None, uv_LowBattery = None,
     uv_BatteryCharge = None, uv_RuntimeMinutes = None, uv_LastSuccessAt = None, uv_LastError = [],
     uv_LastErrorAt = None\<rparr>"

definition view_or_empty :: "Server \<Rightarrow> UPSStatusView" where
  "view_or_empty s = (case upsStatus s of None \<Rightarrow> empty_view | Some v \<Rightarrow> v)"

definition warnMissingUPSVarsLocked :: "UPSStatus \<Rightarrow> Server \<Rightarrow> Server" where
  "warnMissingUPSVarsLocked status s =
    (let missing = [(''battery.charge'', ups_BatteryCharge status = None),
                    (''battery.runtime'', ups_RuntimeMinutes status = None)]
     in s\<lparr>upsMissingWarned :=
          sputs (map fst (filter (\<lambda>(name, isAbsent). isAbsent) missing)) (upsMissingWarned s)\<rparr>)"

definition recordUPSSuccess :: "UPSStatus \<Rightarrow> time \<Rightarrow> Server \<Rightarrow> Server" where
  "recordUPSSuccess status polledAt s =
    (let v = (view_or_empty s)\<lparr>
           uv_Source := upsSource s, uv_Target := upsTarget s,
           uv_OnBattery := Some (ups_OnBattery status),
           uv_LowBattery := (if UsesNUT (cfg s) then Some (ups_LowBattery status) else None),
           uv_BatteryCharge := ups_BatteryCharge status,
           uv_RuntimeMinutes := ups_RuntimeMinutes status,
           uv_LastSuccessAt := Some polledAt, uv_LastError := [], uv_LastErrorAt := None\<rparr>
     in warnMissingUPSVarsLocked status (s\<lparr>upsStatus := Some v\<rparr>))"

definition recordUPSError :: "string \<Rightarrow> time \<Rightarrow> Server \<Rightarrow> Server" where
  "recordUPSError err polledAt s =
    s\<lparr>upsStatus := Some ((view_or_empty s)\<lparr>uv_Source := upsSource s, uv_Target := upsTarget s,
        uv_LastError := err, uv_LastErrorAt := Some polledAt\<rparr>)\<rparr>"

definition currentUPSStatus :: "Server \<Rightarrow> UPSStatusView option" where
  "currentUPSStatus s =
    (case upsStatus s of
       None \<Rightarrow> (if upsTarget s = [] then None
                else Some (empty_view\<lparr>uv_Source := upsSource s, uv_Target := upsTarget s\<rparr>))
     | Some v \<Rightarrow> Some v)"

definition upsSilentFor :: "time \<Rightarrow> Server \<Rightarrow> duration option" where
  "upsSilentFor now s =
    (case currentUPSStatus s of
       None \<Rightarrow> None
     | Some view \<Rightarrow>
        (case uv_LastErrorAt view of
           None \<Rightarrow> None
         | Some errAt \<Rightarrow>
            (case uv_LastSuccessAt view of
               None \<Rightarrow> Some (time_Sub now (startedAt s))
             | Some okAt \<Rightarrow>
                 if \<not> errAt > okAt then None else Some (time_Sub now okAt))))"

definition latestSuccessfulUPSStatus :: "Server \<Rightarrow> UPSStatus option" where
  "latestSuccessfulUPSStatus s =
    (case currentUPSStatus s of
       None \<Rightarrow> None
     | Some view \<Rightarrow>
        (case uv_LastSuccessAt view of
           None \<Rightarrow> None
         | Some okAt \<Rightarrow>
            if (case uv_LastErrorAt view of None \<Rightarrow> False | Some errAt \<Rightarrow> \<not> okAt > errAt) then None
            else Some \<lparr>ups_OnBattery = (uv_OnBattery view = Some True),
                       ups_LowBattery = (uv_LowBattery view = Some True),
                       ups_BatteryCharge = uv_BatteryCharge view,
                       ups_RuntimeMinutes = uv_RuntimeMinutes view\<rparr>))"

section \<open>Lemmas\<close>

lemma recordUPSSuccess_frame [simp, frame_simps]:
  "cfg (recordUPSSuccess st at s) = cfg s" "registry (recordUPSSuccess st at s) = registry s"
  "directory (recordUPSSuccess st at s) = directory s"
  "shutdownIssued (recordUPSSuccess st at s) = shutdownIssued s"
  "ready (recordUPSSuccess st at s) = ready s"
  "upsConfirmed (recordUPSSuccess st at s) = upsConfirmed s"
  "startedAt (recordUPSSuccess st at s) = startedAt s"
  "commands (recordUPSSuccess st at s) = commands s"
  "activeCommand (recordUPSSuccess st at s) = activeCommand s"
  "episode (recordUPSSuccess st at s) = episode s"
  "lastNodeRetryAt (recordUPSSuccess st at s) = lastNodeRetryAt s"
  "localShutdown (recordUPSSuccess st at s) = localShutdown s"
  "localCommandReady (recordUPSSuccess st at s) = localCommandReady s"
  "stateStore (recordUPSSuccess st at s) = stateStore s"
  "conns (recordUPSSuccess st at s) = conns s"
  "nodeTokens (recordUPSSuccess st at s) = nodeTokens s"
  "enrollmentHashes (recordUPSSuccess st at s) = enrollmentHashes s"
  "hashToken (recordUPSSuccess st at s) = hashToken s"
  "writeOK (recordUPSSuccess st at s) = writeOK s" "sendOK (recordUPSSuccess st at s) = sendOK s"
  "effects (recordUPSSuccess st at s) = effects s"
  by (simp_all add: recordUPSSuccess_def warnMissingUPSVarsLocked_def Let_def)

lemma recordUPSError_frame [simp, frame_simps]:
  "cfg (recordUPSError e at s) = cfg s" "registry (recordUPSError e at s) = registry s"
  "directory (recordUPSError e at s) = directory s"
  "shutdownIssued (recordUPSError e at s) = shutdownIssued s"
  "ready (recordUPSError e at s) = ready s"
  "upsConfirmed (recordUPSError e at s) = upsConfirmed s"
  "startedAt (recordUPSError e at s) = startedAt s"
  "commands (recordUPSError e at s) = commands s"
  "activeCommand (recordUPSError e at s) = activeCommand s"
  "episode (recordUPSError e at s) = episode s"
  "lastNodeRetryAt (recordUPSError e at s) = lastNodeRetryAt s"
  "localShutdown (recordUPSError e at s) = localShutdown s"
  "localCommandReady (recordUPSError e at s) = localCommandReady s"
  "upsMissingWarned (recordUPSError e at s) = upsMissingWarned s"
  "stateStore (recordUPSError e at s) = stateStore s" "conns (recordUPSError e at s) = conns s"
  "nodeTokens (recordUPSError e at s) = nodeTokens s"
  "enrollmentHashes (recordUPSError e at s) = enrollmentHashes s"
  "hashToken (recordUPSError e at s) = hashToken s" "writeOK (recordUPSError e at s) = writeOK s"
  "sendOK (recordUPSError e at s) = sendOK s" "effects (recordUPSError e at s) = effects s"
  by (simp_all add: recordUPSError_def)

lemma silent_after_success: "upsSilentFor now (recordUPSSuccess status at s) = None"
  by (simp add: recordUPSSuccess_def warnMissingUPSVarsLocked_def Let_def upsSilentFor_def
      currentUPSStatus_def)

lemma latest_after_success:
  "latestSuccessfulUPSStatus (recordUPSSuccess status at s) =
    Some (status\<lparr>ups_LowBattery := UsesNUT (cfg s) \<and> ups_LowBattery status\<rparr>)"
  by (cases status) (simp add: recordUPSSuccess_def warnMissingUPSVarsLocked_def Let_def
      latestSuccessfulUPSStatus_def currentUPSStatus_def)

lemma silent_after_error:
  "upsSilentFor now (recordUPSError err at s) =
    (case uv_LastSuccessAt (view_or_empty s) of
       None \<Rightarrow> Some (time_Sub now (startedAt s))
     | Some okAt \<Rightarrow> if at \<le> okAt then None else Some (time_Sub now okAt))"
  by (simp add: upsSilentFor_def recordUPSError_def currentUPSStatus_def not_less split: option.split)

lemma latest_after_error:
  "(\<And>okAt. uv_LastSuccessAt (view_or_empty s) = Some okAt \<Longrightarrow> okAt \<le> at) \<Longrightarrow>
    latestSuccessfulUPSStatus (recordUPSError err at s) = None"
  by (fastforce simp: latestSuccessfulUPSStatus_def recordUPSError_def currentUPSStatus_def
      split: option.split)

text \<open>Polls of increasing time, as the polling loop makes them.\<close>

definition record_poll :: "(string + UPSStatus) \<times> time \<Rightarrow> Server \<Rightarrow> Server" where
  "record_poll p s = (case p of
     (Inl err, at) \<Rightarrow> recordUPSError err at s
   | (Inr status, at) \<Rightarrow> recordUPSSuccess status at s)"

lemma LastSuccessAt_success: "uv_LastSuccessAt (view_or_empty (recordUPSSuccess st at s)) = Some at"
  by (simp add: recordUPSSuccess_def warnMissingUPSVarsLocked_def Let_def view_or_empty_def)

lemma LastSuccessAt_error:
  "uv_LastSuccessAt (view_or_empty (recordUPSError e at s)) = uv_LastSuccessAt (view_or_empty s)"
  by (simp add: recordUPSError_def view_or_empty_def)

lemma LastSuccessAt_errors:
  "(\<And>p. p \<in> set ps \<Longrightarrow> \<exists>e at. p = (Inl e, at)) \<Longrightarrow>
    uv_LastSuccessAt (view_or_empty (fold record_poll ps s)) = uv_LastSuccessAt (view_or_empty s)"
proof (induction ps arbitrary: s)
  case (Cons p ps)
  from Cons.prems [of p] obtain e at where "p = (Inl e, at)" by auto
  with Cons show ?case by (simp add: record_poll_def LastSuccessAt_error)
qed simp

text \<open>
  Silence is measured from the last successful poll: after a success at time \<open>t0\<close> and
  then only failed polls, the last of them at \<open>t1 > t0\<close>, the UPS counts as silent for exactly
  the time since \<open>t0\<close> and no reading is offered; right after the success it counted as not
  silent and the reading offered was that poll's, with the low-battery flag only where the
  source reports one.
\<close>

theorem silence_counts_from_last_success:
  assumes "t0 < t1" and "\<And>p. p \<in> set ps \<Longrightarrow> \<exists>e at. p = (Inl e, at)"
  shows "upsSilentFor now (recordUPSSuccess status t0 s) = None \<and>
    latestSuccessfulUPSStatus (recordUPSSuccess status t0 s) =
      Some (status\<lparr>ups_LowBattery := UsesNUT (cfg s) \<and> ups_LowBattery status\<rparr>) \<and>
    upsSilentFor now (recordUPSError err t1 (fold record_poll ps (recordUPSSuccess status t0 s))) =
      Some (time_Sub now t0) \<and>
    latestSuccessfulUPSStatus
      (recordUPSError err t1 (fold record_poll ps (recordUPSSuccess status t0 s))) = None"
proof -
  let ?s = "fold record_poll ps (recordUPSSuccess status t0 s)"
  have "uv_LastSuccessAt (view_or_empty ?s) = Some t0"
    using LastSuccessAt_errors [OF assms(2)] by (simp add: LastSuccessAt_success)
  with assms(1) have "upsSilentFor now (recordUPSError err t1 ?s) = Some (time_Sub now t0)"
    and "latestSuccessfulUPSStatus (recordUPSError err t1 ?s) = None"
    by (simp add: silent_after_error, intro latest_after_error) simp
  then show ?thesis by (simp add: silent_after_success latest_after_success)
qed

theorem silence_counts_from_last_success_witness:
  "upsSilentFor 90 (recordUPSError ''eof'' 20 (fold record_poll [(Inl ''timeout'', 10)]
     (recordUPSSuccess example_reading 5 example_server))) = Some (time_Sub 90 5)"
  using silence_counts_from_last_success [of 5 20 "[(Inl ''timeout'', 10)]" 90 example_reading
      example_server "''eof''"] by auto

end
