(* ===== verification/LocalShutdown.thy ===== *)
theory LocalShutdown
  imports Ups
begin

text \<open>
  \<open>internal/master/local_shutdown.go\<close> and the arming of a local shutdown from
  \<open>internal/master/episode.go\<close>: when and how the master powers itself off.
\<close>

section \<open>Definitions\<close>

definition shutdownRetryInterval :: duration where
  "shutdownRetryInterval = 30 * second"

definition reopenCommandLocked :: "time \<Rightarrow> Server \<Rightarrow> shutdownCommandState \<Rightarrow> shutdownCommandState" where
  "reopenCommandLocked now s c =
    (let timeoutAt = time_Add now (mc_CommandTimeout (cfg s))
     in c\<lparr>cm_CompletedAt := None,
          cm_TimeoutAt := (case cm_TimeoutAt c of
              None \<Rightarrow> Some timeoutAt
            | Some t \<Rightarrow> if t < timeoutAt then Some timeoutAt else Some t)\<rparr>)"

definition armLocalShutdownLocked :: "shutdownCommandState \<Rightarrow> time \<Rightarrow> Server \<Rightarrow> Server" where
  "armLocalShutdownLocked c now s =
    (if \<not> lc_Enabled (mc_LocalShutdown (cfg s)) \<or> \<not> tgt_All (sm_Target (cm_Message c)) then s
     else if (case localShutdown s of
         None \<Rightarrow> False
       | Some current \<Rightarrow> ls_Phase current = PhaseExecuting \<or>
           ls_CommandID current = sm_CommandID (cm_Message c) \<or>
           (ls_CommandID current = [] \<and> episode s \<noteq> None)) then s
     else s\<lparr>localShutdown := Some
        \<lparr>ls_Phase = PhaseWaitingRemote, ls_CommandID = sm_CommandID (cm_Message c),
         ls_StartedAt = Some now,
         ls_DeadlineAt = Some (time_Add now (lc_MaxWait (mc_LocalShutdown (cfg s)))),
         ls_Trigger = [], ls_LastRebroadcastAt = None, ls_LastError = [], ls_LastAttemptAt = None,
         ls_DryRun = sm_DryRun (cm_Message c)\<rparr>\<rparr>)"

definition emergencyRuntimeReached :: "UPSStatus option \<Rightarrow> Server \<Rightarrow> bool" where
  "emergencyRuntimeReached u s =
    (case u of
       None \<Rightarrow> False
     | Some st \<Rightarrow> ups_OnBattery st \<and>
         (case ups_RuntimeMinutes st of
            None \<Rightarrow> False
          | Some r \<Rightarrow> r \<ge> 0 \<and> r < lc_EmergencyRuntimeMinutes (mc_LocalShutdown (cfg s))))"

definition emergencyTrigger :: "UPSStatus option \<Rightarrow> time \<Rightarrow> Server \<Rightarrow> string" where
  "emergencyTrigger u now s =
    (if emergencyRuntimeReached u s then TriggerEmergencyRuntime
     else if (case u of None \<Rightarrow> False | Some st \<Rightarrow> ups_OnBattery st \<and> ups_LowBattery st)
       then TriggerLowBattery
     else (let unreachableAfter = lc_UnreachableAfter (mc_LocalShutdown (cfg s))
           in case upsSilentFor now s of
                None \<Rightarrow> []
              | Some silentFor \<Rightarrow>
                  if unreachableAfter > 0 \<and> silentFor \<ge> unreachableAfter then TriggerUPSUnreachable
                  else []))"

definition awaitingReadingAfterPowerOffLocked :: "Server \<Rightarrow> bool" where
  "awaitingReadingAfterPowerOffLocked s =
    (case episode s of None \<Rightarrow> False | Some e \<Rightarrow> ep_MasterPoweredOff e \<and> \<not> upsConfirmed s)"

definition localShutdownBelongsToEpisodeLocked :: "Server \<Rightarrow> bool" where
  "localShutdownBelongsToEpisodeLocked s =
    (case episode s of
       None \<Rightarrow> False
     | Some e \<Rightarrow> (case localShutdown s of
         None \<Rightarrow> False
       | Some l \<Rightarrow> ls_CommandID l = ep_CommandID e \<or> ls_CommandID l = []))"

definition localShutdownTerminal :: "string \<Rightarrow> bool" where
  "localShutdownTerminal phase = (phase = PhaseExecuting \<or> phase = PhaseCompleted)"

text \<open>
  The runner: \<open>exec\<close> starts the command under a time limit (0 for none) and returns the
  error, if any.
\<close>

definition runLocalShutdownCommand ::
  "(duration \<Rightarrow> string list \<Rightarrow> string option) \<Rightarrow> Server \<Rightarrow> string list \<Rightarrow> string \<Rightarrow> bool \<Rightarrow> string option"
where
  "runLocalShutdownCommand exec s command trigger dryRun =
    (if command = [] then Some ''local shutdown command is empty''
     else if dryRun then None
     else exec (if lc_CommandTimeout (mc_LocalShutdown (cfg s)) > 0
                then lc_CommandTimeout (mc_LocalShutdown (cfg s)) else 0) command)"

text \<open>
  \<open>beginLocalShutdownExecution\<close> has two critical sections around the run of the command.
  The first claims the local shutdown and returns whether it is a dry run, or nothing when
  there is none to start.
\<close>

definition beginLocalShutdownClaim :: "string \<Rightarrow> string \<Rightarrow> time \<Rightarrow> Server \<Rightarrow> bool option \<times> Server" where
  "beginLocalShutdownClaim commandID trigger attemptAt s =
    (case localShutdown s of
       None \<Rightarrow> (None, s)
     | Some l \<Rightarrow>
        if ls_CommandID l \<noteq> commandID \<or> localShutdownTerminal (ls_Phase l) then (None, s)
        else let l' = l\<lparr>ls_Phase := PhaseExecuting, ls_Trigger := trigger, ls_LastError := [],
                        ls_LastAttemptAt := Some attemptAt\<rparr>;
                 dryRun = ls_DryRun l';
                 e' = (if \<not> dryRun then map_option (\<lambda>e. e\<lparr>ep_MasterPoweredOff := True\<rparr>) (episode s)
                       else episode s)
             in (Some dryRun, saveState (s\<lparr>localShutdown := Some l', episode := e'\<rparr>)))"

definition beginLocalShutdownFinish :: "string \<Rightarrow> string option \<Rightarrow> Server \<Rightarrow> Server" where
  "beginLocalShutdownFinish commandID err s =
    (case localShutdown s of
       None \<Rightarrow> s
     | Some l \<Rightarrow>
        if ls_CommandID l \<noteq> commandID then s
        else (case err of
            Some msg \<Rightarrow> saveState (s\<lparr>
                localShutdown := Some (l\<lparr>ls_Phase := PhaseFailed, ls_LastError := msg\<rparr>),
                episode := map_option (\<lambda>e. e\<lparr>ep_MasterPoweredOff := False\<rparr>) (episode s)\<rparr>)
          | None \<Rightarrow> saveState (s\<lparr>
                localShutdown := Some (l\<lparr>ls_Phase := PhaseCompleted, ls_LastError := []\<rparr>)\<rparr>)))"

definition beginLocalShutdownExecution ::
  "(string list \<Rightarrow> string \<Rightarrow> bool \<Rightarrow> string option) \<Rightarrow> string \<Rightarrow> string \<Rightarrow> time \<Rightarrow> Server \<Rightarrow> Server" where
  "beginLocalShutdownExecution runner commandID trigger attemptAt s =
    (let command = slice (lc_Command (mc_LocalShutdown (cfg s)))
     in case beginLocalShutdownClaim commandID trigger attemptAt s of
          (None, s1) \<Rightarrow> s1
        | (Some dryRun, s1) \<Rightarrow>
            beginLocalShutdownFinish commandID (runner command trigger dryRun)
              (emit [Ran command trigger dryRun] s1))"

text \<open>What the locked part of \<open>evaluateLocalShutdown\<close> decides to do after unlocking.\<close>

record local_decision =
  ld_commandID :: string
  ld_trigger :: string
  ld_replay :: "ShutdownMessage option"
  ld_replayNodes :: "string list"

definition no_decision :: local_decision where
  "no_decision = \<lparr>ld_commandID = [], ld_trigger = [], ld_replay = None, ld_replayNodes = []\<rparr>"

definition decide :: "string \<Rightarrow> string \<Rightarrow> local_decision" where
  "decide commandID trigger = no_decision\<lparr>ld_commandID := commandID, ld_trigger := trigger\<rparr>"

text \<open>The emergency in force: unreachability is ignored until a rebooted master reads the UPS.\<close>

definition effectiveEmergency :: "UPSStatus option \<Rightarrow> time \<Rightarrow> Server \<Rightarrow> string" where
  "effectiveEmergency u now s =
    (let emergency = emergencyTrigger u now s
     in if emergency = TriggerUPSUnreachable \<and> awaitingReadingAfterPowerOffLocked s then []
        else emergency)"

text \<open>The branch for no usable local shutdown: an emergency starts its own.\<close>

definition startEmergency :: "time \<Rightarrow> string \<Rightarrow> bool \<Rightarrow> Server \<Rightarrow> Server \<times> local_decision" where
  "startEmergency now emergency trusted s =
    (case episode s of
       None \<Rightarrow> (s, no_decision)
     | Some e \<Rightarrow>
        if \<not> trusted \<or> emergency = [] then (s, no_decision)
        else let state = \<lparr>ls_Phase = PhaseEmergency, ls_CommandID = ep_CommandID e,
                   ls_StartedAt = Some now, ls_DeadlineAt = None, ls_Trigger = emergency,
                   ls_LastRebroadcastAt = None, ls_LastError = [], ls_LastAttemptAt = None,
                   ls_DryRun = mc_DryRun (cfg s)\<rparr>
             in (case map_of (commands s) (ep_CommandID e) of
                   None \<Rightarrow> (saveState (s\<lparr>localShutdown := Some state\<rparr>),
                            decide (ep_CommandID e) emergency)
                 | Some c \<Rightarrow>
                     (saveState (s\<lparr>localShutdown := Some (state\<lparr>ls_DryRun := sm_DryRun (cm_Message c),
                         ls_LastRebroadcastAt := Some now\<rparr>)\<rparr>),
                      (decide (ep_CommandID e) emergency)\<lparr>ld_replay := Some (cm_Message c),
                         ld_replayNodes := replayableNodeIDs c\<rparr>)))"

text \<open>The branch for a local shutdown waiting for the remote nodes.\<close>

definition waitForRemote ::
  "time \<Rightarrow> string \<Rightarrow> localShutdownState \<Rightarrow> shutdownCommandState option \<Rightarrow> Server \<Rightarrow> Server \<times> local_decision"
where
  "waitForRemote now emergency l command s =
    (case command of
       None \<Rightarrow> (saveState (s\<lparr>localShutdown := None\<rparr>), no_decision)
     | Some c \<Rightarrow>
        if cm_ReplayDisabled c then (saveState (s\<lparr>localShutdown := None\<rparr>), no_decision)
        else if remoteShutdownFinished c then
          (saveState (s\<lparr>localShutdown := Some (l\<lparr>ls_Trigger := TriggerRemoteComplete\<rparr>)\<rparr>),
           decide (ls_CommandID l) TriggerRemoteComplete)
        else if emergency \<noteq> [] then
          (saveState (s\<lparr>localShutdown := Some (l\<lparr>ls_Phase := PhaseEmergency, ls_Trigger := emergency,
              ls_LastRebroadcastAt := Some now\<rparr>)\<rparr>),
           (decide (ls_CommandID l) emergency)\<lparr>ld_replay := Some (cm_Message c),
              ld_replayNodes := replayableNodeIDs c\<rparr>)
        else if (case ls_DeadlineAt l of None \<Rightarrow> False | Some d \<Rightarrow> \<not> now < d) then
          (saveState (s\<lparr>localShutdown := Some (l\<lparr>ls_Phase := PhaseWaitExpired,
              ls_Trigger := TriggerWaitExpired\<rparr>)\<rparr>),
           decide (ls_CommandID l) TriggerWaitExpired)
        else (s, no_decision))"

definition advanceLocalShutdown ::
  "time \<Rightarrow> string \<Rightarrow> bool \<Rightarrow> localShutdownState \<Rightarrow> Server \<Rightarrow> Server \<times> local_decision" where
  "advanceLocalShutdown now emergency trusted l s =
    (let command = map_of (commands s) (ls_CommandID l)
     in if (case command of None \<Rightarrow> True | Some c \<Rightarrow> cm_Auto c) \<and> \<not> trusted then (s, no_decision)
        else if ls_Phase l = PhaseWaitingRemote then waitForRemote now emergency l command s
        else if ls_Phase l = PhaseWaitExpired then (s, decide (ls_CommandID l) TriggerWaitExpired)
        else if ls_Phase l = PhaseEmergency then (s, decide (ls_CommandID l) (ls_Trigger l))
        else if ls_Phase l = PhaseFailed then
          (if (case ls_LastAttemptAt l of
                 None \<Rightarrow> True
               | Some a \<Rightarrow> time_Sub now a \<ge> shutdownRetryInterval)
           then (s, decide (ls_CommandID l) (ls_Trigger l)) else (s, no_decision))
        else (s, no_decision))"

definition evaluateLocalShutdownLocked ::
  "time \<Rightarrow> UPSStatus option \<Rightarrow> Server \<Rightarrow> Server \<times> local_decision" where
  "evaluateLocalShutdownLocked now u s =
    (let emergency = effectiveEmergency u now s;
         trusted = (upsConfirmed s \<or> emergency = TriggerUPSUnreachable);
         s1 = (if emergency = TriggerUPSUnreachable \<and> episode s \<noteq> None
               then s\<lparr>upsConfirmed := True\<rparr> else s)
     in case localShutdown s1 of
          None \<Rightarrow> startEmergency now emergency trusted s1
        | Some l \<Rightarrow>
            if episode s1 \<noteq> None \<and> trusted \<and> emergency \<noteq> [] \<and> ls_Phase l \<noteq> PhaseExecuting \<and>
               \<not> localShutdownBelongsToEpisodeLocked s1
            then startEmergency now emergency trusted s1
            else advanceLocalShutdown now emergency trusted l s1)"

definition evaluateLocalShutdown ::
  "(string list \<Rightarrow> string \<Rightarrow> bool \<Rightarrow> string option) \<Rightarrow> time \<Rightarrow> time \<Rightarrow> UPSStatus option \<Rightarrow> Server \<Rightarrow> Server" where
  "evaluateLocalShutdown runner attemptAt now u s =
    (if \<not> lc_Enabled (mc_LocalShutdown (cfg s)) then s
     else case evaluateLocalShutdownLocked now u s of (s1, d) \<Rightarrow>
       let s2 = (case ld_replay d of
             None \<Rightarrow> s1
           | Some m \<Rightarrow> if ld_replayNodes d \<noteq> [] then replayShutdownToNodes m (ld_replayNodes d) s1 else s1)
       in if ld_trigger d \<noteq> []
          then beginLocalShutdownExecution runner (ld_commandID d) (ld_trigger d) attemptAt s2
          else s2)"

definition localShutdownStatusLocked :: "Server \<Rightarrow> LocalShutdownStatus option" where
  "localShutdownStatusLocked s =
    (if \<not> lc_Enabled (mc_LocalShutdown (cfg s)) then None
     else let status = \<lparr>lv_Enabled = True, lv_Phase = PhaseIdle, lv_CommandID = [], lv_StartedAt = None,
                lv_DeadlineAt = None, lv_Trigger = [], lv_LastRebroadcastAt = None, lv_LastError = [],
                lv_CommandReady = localCommandReady s\<rparr>
          in Some (case localShutdown s of
               None \<Rightarrow> status
             | Some l \<Rightarrow> status\<lparr>lv_Phase := ls_Phase l, lv_CommandID := ls_CommandID l,
                 lv_StartedAt := ls_StartedAt l, lv_DeadlineAt := ls_DeadlineAt l,
                 lv_Trigger := ls_Trigger l, lv_LastRebroadcastAt := ls_LastRebroadcastAt l,
                 lv_LastError := ls_LastError l\<rparr>))"

end
