(* ===== verification/Shutdown.thy ===== *)
theory Shutdown
  imports LocalShutdown
begin

text \<open>
  \<open>internal/master/shutdown.go\<close>: issuing a manual command, timing commands out, pruning
  finished ones, recording what the slaves report, and replaying a command to a node that
  reconnects.
\<close>

section \<open>Definitions\<close>

definition maxManualTimeoutSeconds :: int where "maxManualTimeoutSeconds = 24 * 60 * 60"
definition maxRetainedCompletedCommands :: nat where "maxRetainedCompletedCommands = 200"

text \<open>\<open>stamp\<close> is the formatted UTC time and \<open>rnd\<close> the four random bytes.\<close>

definition newCommandID :: "string \<Rightarrow> string \<Rightarrow> string" where
  "newCommandID stamp rnd = ''shutdown-'' @ stamp @ ''-'' @ hex_encode rnd"

text \<open>\<open>clone\<close> is a deep copy; copies of values are equal to them.\<close>

definition clone :: "shutdownCommandState option \<Rightarrow> shutdownCommandState option" where
  "clone c = (case c of
     None \<Rightarrow> None
   | Some c \<Rightarrow> Some \<lparr>cm_Message = cm_Message c, cm_TargetNodes = cm_TargetNodes c,
       cm_NodeUpdates = cm_NodeUpdates c, cm_TimeoutAt = cm_TimeoutAt c,
       cm_CompletedAt = cm_CompletedAt c, cm_ReplayDisabled = cm_ReplayDisabled c,
       cm_Auto = cm_Auto c\<rparr>)"

definition zero_summary :: CommandSummary where
  "zero_summary = \<lparr>su_CommandID = [], su_Reason = [], su_DryRun = False, su_IssuedAt = 0,
     su_TimeoutAt = None, su_Target = \<lparr>tgt_All = False, tgt_NodeIDs = [], tgt_Tags = []\<rparr>,
     su_Targeted = 0, su_Acknowledged = 0, su_Executing = 0, su_Executed = 0, su_Simulated = 0,
     su_Failed = 0, su_Timeout = 0, su_Outstanding = 0, su_Complete = False, su_CompletedAt = None,
     su_LastNodeUpdates = []\<rparr>"

text \<open>One round of the counting loop of \<open>summarizeCommand\<close>.\<close>

definition count_node ::
  "shutdownCommandState \<Rightarrow> string \<Rightarrow> CommandSummary \<Rightarrow> CommandSummary" where
  "count_node c n su =
    (case map_of (cm_NodeUpdates c) n of
       None \<Rightarrow> su\<lparr>su_Outstanding := Suc (su_Outstanding su)\<rparr>
     | Some update \<Rightarrow>
        let su1 = su\<lparr>su_LastNodeUpdates := su_LastNodeUpdates su @ [update],
                     su_Acknowledged := Suc (su_Acknowledged su)\<rparr>;
            st = ack_Status update
        in if st = StatusAccepted then su1
           else if st = StatusExecuting then su1\<lparr>su_Executing := Suc (su_Executing su1)\<rparr>
           else if st = StatusExecuted then su1\<lparr>su_Executed := Suc (su_Executed su1)\<rparr>
           else if st = StatusSimulated then su1\<lparr>su_Simulated := Suc (su_Simulated su1)\<rparr>
           else if st = StatusFailed then su1\<lparr>su_Failed := Suc (su_Failed su1)\<rparr>
           else if st = StatusTimeout then su1\<lparr>su_Timeout := Suc (su_Timeout su1)\<rparr>
           else su1)"

definition summarizeCommand :: "shutdownCommandState option \<Rightarrow> CommandSummary" where
  "summarizeCommand command =
    (case command of
       None \<Rightarrow> zero_summary
     | Some c \<Rightarrow>
        let base = zero_summary\<lparr>su_CommandID := sm_CommandID (cm_Message c),
              su_Reason := sm_Reason (cm_Message c), su_DryRun := sm_DryRun (cm_Message c),
              su_IssuedAt := sm_IssuedAt (cm_Message c), su_Target := sm_Target (cm_Message c),
              su_Targeted := length (cm_TargetNodes c), su_TimeoutAt := cm_TimeoutAt c\<rparr>;
            counted = fold (count_node c) (cm_TargetNodes c) base
        in counted\<lparr>su_LastNodeUpdates := sort_key ack_NodeID (su_LastNodeUpdates counted),
             su_Complete := commandComplete c, su_CompletedAt := cm_CompletedAt c\<rparr>)"

definition commandSummary :: "string \<Rightarrow> Server \<Rightarrow> CommandSummary" where
  "commandSummary commandID s = summarizeCommand (clone (map_of (commands s) commandID))"

datatype trigger_error = TimeoutTooLong | NoTargetNodes | ShutdownAlreadyActive

text \<open>
  \<open>TriggerShutdown\<close>: \<open>now\<close> is the clock and \<open>cid\<close> the id \<open>newCommandID\<close> draws. The result is
  an error, or the message, its summary and whether a delivery failed.
\<close>

definition request_timeout :: "ShutdownRequest \<Rightarrow> MasterConfig \<Rightarrow> duration option" where
  "request_timeout request c =
    (case rq_TimeoutSeconds request of
       None \<Rightarrow> Some (mc_CommandTimeout c)
     | Some secs \<Rightarrow>
        if secs > 0 then (if secs > maxManualTimeoutSeconds then None else Some (wrap64 (secs * second)))
        else Some (mc_CommandTimeout c))"

definition manual_message :: "ShutdownRequest \<Rightarrow> time \<Rightarrow> string \<Rightarrow> Server \<Rightarrow> ShutdownMessage" where
  "manual_message request now cid s =
    \<lparr>sm_CommandID = cid,
     sm_Reason = (let reason = TrimSpace (rq_Reason request)
                  in if reason = [] then ''shutdown requested'' else reason),
     sm_DryRun = (case rq_DryRun request of None \<Rightarrow> mc_DryRun (cfg s) | Some d \<Rightarrow> d),
     sm_IssuedAt = now,
     sm_Target = \<lparr>tgt_All = (rq_NodeIDs request = [] \<and> rq_Tags request = []),
       tgt_NodeIDs = rq_NodeIDs request, tgt_Tags = rq_Tags request\<rparr>\<rparr>"

definition TriggerShutdown ::
  "ShutdownRequest \<Rightarrow> time \<Rightarrow> string \<Rightarrow> Server \<Rightarrow>
    (trigger_error + ShutdownMessage \<times> CommandSummary \<times> bool) \<times> Server" where
  "TriggerShutdown request now cid s =
    (case request_timeout request (cfg s) of
       None \<Rightarrow> (Inl TimeoutTooLong, s)
     | Some timeout \<Rightarrow>
        let message = manual_message request now cid s;
            targets = selectTargets (sm_Target message) s
        in if targets = [] then (Inl NoTargetNodes, s)
           else if activeCommand s \<noteq> [] then (Inl ShutdownAlreadyActive, s)
           else let command = \<lparr>cm_Message = message, cm_TargetNodes = buildTargetNodeSet targets,
                      cm_NodeUpdates = [], cm_TimeoutAt = Some (time_Add now timeout),
                      cm_CompletedAt = None, cm_ReplayDisabled = False, cm_Auto = False\<rparr>;
                    s1 = s\<lparr>commands := mput cid command (commands s), activeCommand := cid\<rparr>;
                    s2 = (armLocalShutdownLocked command now s1)\<lparr>shutdownIssued := True\<rparr>
                in case sendShutdown message targets (saveState s2) of (err, s3) \<Rightarrow>
                     (Inr (message, commandSummary cid s3, err), s3))"

text \<open>The inner loop of \<open>markTimedOutCommands\<close>: nodes without a complete status time out.\<close>

definition timeout_ack :: "time \<Rightarrow> string \<Rightarrow> string \<Rightarrow> ShutdownAckMessage" where
  "timeout_ack now commandID nodeID = \<lparr>ack_CommandID = commandID, ack_NodeID = nodeID,
     ack_Status = StatusTimeout,
     ack_Message = ''command timed out waiting for terminal status'', ack_AckedAt = now\<rparr>"

definition node_complete :: "(string, ShutdownAckMessage) gomap \<Rightarrow> string \<Rightarrow> bool" where
  "node_complete m n =
    (case map_of m n of None \<Rightarrow> False | Some u \<Rightarrow> isCompleteShutdownStatus (ack_Status u))"

definition time_out_nodes ::
  "time \<Rightarrow> string \<Rightarrow> shutdownCommandState \<Rightarrow> shutdownCommandState" where
  "time_out_nodes now commandID c =
    c\<lparr>cm_NodeUpdates := fold
        (\<lambda>n m. if node_complete m n then m else mput n (timeout_ack now commandID n) m)
        (cm_TargetNodes c) (cm_NodeUpdates c)\<rparr>"

definition command_due :: "time \<Rightarrow> shutdownCommandState \<Rightarrow> bool" where
  "command_due now c =
    (cm_CompletedAt c = None \<and> (case cm_TimeoutAt c of None \<Rightarrow> False | Some t \<Rightarrow> \<not> now < t))"

definition mark_command :: "time \<Rightarrow> string \<Rightarrow> shutdownCommandState \<Rightarrow> shutdownCommandState" where
  "mark_command now commandID c =
    (if \<not> command_due now c then c
     else let c1 = time_out_nodes now commandID c
          in if commandComplete c1 then c1\<lparr>cm_CompletedAt := Some now\<rparr> else c1)"

text \<open>Whether the round of the loop for this command sets \<open>changed\<close>.\<close>

definition mark_changes :: "time \<Rightarrow> string \<Rightarrow> shutdownCommandState \<Rightarrow> bool" where
  "mark_changes now commandID c =
    (command_due now c \<and>
      (list_ex (\<lambda>n. \<not> node_complete (cm_NodeUpdates c) n) (cm_TargetNodes c) \<or>
       commandComplete (time_out_nodes now commandID c)))"

text \<open>The active command is released when it just completed, is manual and has no timeout.\<close>

definition mark_releases :: "time \<Rightarrow> Server \<Rightarrow> bool" where
  "mark_releases now s =
    (case map_of (commands s) (activeCommand s) of
       None \<Rightarrow> False
     | Some c \<Rightarrow> command_due now c \<and>
         (let c1 = time_out_nodes now (activeCommand s) c
          in commandComplete c1 \<and> \<not> cm_Auto c1 \<and> \<not> commandHasRepairableTimeout c1))"

definition prune_candidates :: "Server \<Rightarrow> (string \<times> time) list" where
  "prune_candidates s =
    map (\<lambda>(id, c). (id, the (cm_CompletedAt c)))
      (filter (\<lambda>(id, c). cm_CompletedAt c \<noteq> None \<and> id \<noteq> activeCommand s \<and>
          (case localShutdown s of None \<Rightarrow> True | Some l \<Rightarrow> ls_CommandID l \<noteq> id)) (commands s))"

definition pruneCompletedCommandsLocked :: "Server \<Rightarrow> bool \<times> Server" where
  "pruneCompletedCommandsLocked s =
    (if length (commands s) \<le> maxRetainedCompletedCommands then (False, s)
     else let excess = length (commands s) - maxRetainedCompletedCommands;
              candidates = sort_key snd (prune_candidates s);
              n = min excess (length candidates);
              victims = map fst (take n candidates)
          in (n > 0, s\<lparr>commands := filter (\<lambda>(id, c). id \<notin> set victims) (commands s)\<rparr>))"

definition markTimedOutCommands :: "time \<Rightarrow> Server \<Rightarrow> Server" where
  "markTimedOutCommands now s =
    (let changed = list_ex (\<lambda>(cid, c). mark_changes now cid c) (commands s);
         s1 = s\<lparr>commands := map (\<lambda>(cid, c). (cid, mark_command now cid c)) (commands s)\<rparr>;
         s2 = (if mark_releases now s then s1\<lparr>activeCommand := [], shutdownIssued := False\<rparr> else s1)
     in case pruneCompletedCommandsLocked s2 of (pruned, s3) \<Rightarrow>
          if changed \<or> pruned then saveState s3 else s3)"

text \<open>The command after an update has been stored and its completion noted.\<close>

definition ack_command :: "time \<Rightarrow> ShutdownAckMessage \<Rightarrow> shutdownCommandState \<Rightarrow> shutdownCommandState" where
  "ack_command now update c =
    (let c1 = c\<lparr>cm_NodeUpdates := mput (ack_NodeID update) update (cm_NodeUpdates c)\<rparr>
     in if commandComplete c1 then c1\<lparr>cm_CompletedAt := Some now\<rparr> else c1)"

text \<open>
  Whether the completed command stops being the active one, and whether the local shutdown
  that waits for it is to be started; \<open>c\<close> is the command after the update.
\<close>

definition ack_releases :: "ShutdownAckMessage \<Rightarrow> shutdownCommandState \<Rightarrow> Server \<Rightarrow> bool" where
  "ack_releases update c s = (commandComplete c \<and> activeCommand s = ack_CommandID update \<and>
     \<not> cm_Auto c \<and> \<not> commandHasRepairableTimeout c)"

definition ack_starts :: "ShutdownAckMessage \<Rightarrow> shutdownCommandState \<Rightarrow> Server \<Rightarrow> bool" where
  "ack_starts update c s = (remoteShutdownFinished c \<and>
     (case localShutdown s of
        None \<Rightarrow> False
      | Some l \<Rightarrow> ls_CommandID l = ack_CommandID update \<and> ls_Phase l = PhaseWaitingRemote))"

definition ack_state :: "ShutdownAckMessage \<Rightarrow> shutdownCommandState \<Rightarrow> Server \<Rightarrow> Server" where
  "ack_state update c s =
    (let s1 = s\<lparr>commands := madjust (ack_CommandID update) (\<lambda>_. c) (commands s)\<rparr>;
         s2 = (if ack_releases update c s then s1\<lparr>activeCommand := [], shutdownIssued := False\<rparr> else s1)
     in if ack_starts update c s
        then s2\<lparr>localShutdown := map_option (\<lambda>l. l\<lparr>ls_Trigger := TriggerRemoteComplete\<rparr>) (localShutdown s)\<rparr>
        else s2)"

text \<open>
  \<open>recordShutdownUpdate\<close> up to the unlock and the write; the flag tells whether the local
  shutdown is to be started.
\<close>

definition recordShutdownUpdateLocked ::
  "time \<Rightarrow> ShutdownAckMessage \<Rightarrow> Server \<Rightarrow> bool \<times> Server" where
  "recordShutdownUpdateLocked now update s =
    (case map_of (commands s) (ack_CommandID update) of
       None \<Rightarrow> (False, s)
     | Some command \<Rightarrow>
        if ack_NodeID update \<notin> set (cm_TargetNodes command) then (False, s)
        else if (case map_of (cm_NodeUpdates command) (ack_NodeID update) of
            Some existing \<Rightarrow> \<not> shouldReplaceShutdownUpdate existing update
          | None \<Rightarrow> False) then (False, s)
        else let c = ack_command now update command
             in (ack_starts update c s, saveState (ack_state update c s)))"

definition recordShutdownUpdate ::
  "(string list \<Rightarrow> string \<Rightarrow> bool \<Rightarrow> string option) \<Rightarrow> time \<Rightarrow> time \<Rightarrow> ShutdownAckMessage \<Rightarrow> Server \<Rightarrow> Server"
where
  "recordShutdownUpdate runner attemptAt now update s =
    (case recordShutdownUpdateLocked now update s of (start, s1) \<Rightarrow>
       if start then beginLocalShutdownExecution runner (ack_CommandID update) TriggerRemoteComplete attemptAt s1
       else s1)"

definition ResetActiveCommand :: "Server \<Rightarrow> Server" where
  "ResetActiveCommand s =
    (let disable = (\<lambda>c. c\<lparr>cm_ReplayDisabled := True\<rparr>);
         s1 = s\<lparr>commands := madjust (activeCommand s) disable (commands s)\<rparr>;
         s2 = (case episode s1 of
             None \<Rightarrow> s1
           | Some e \<Rightarrow> s1\<lparr>commands := madjust (ep_CommandID e) disable (commands s1),
                          episode := Some (e\<lparr>ep_CommandID := []\<rparr>)\<rparr>);
         s3 = (case localShutdown s2 of
             None \<Rightarrow> s2
           | Some l \<Rightarrow> if ls_Phase l \<noteq> PhaseExecuting then s2\<lparr>localShutdown := None\<rparr> else s2)
     in saveState (s3\<lparr>activeCommand := [], shutdownIssued := False\<rparr>))"

definition latestNodeUpdate ::
  "string \<Rightarrow> (string, shutdownCommandState) gomap \<Rightarrow> ShutdownAckMessage option" where
  "latestNodeUpdate nodeID cs =
    fold (\<lambda>(_, c) latest.
      case map_of (cm_NodeUpdates c) nodeID of
        None \<Rightarrow> latest
      | Some update \<Rightarrow> (case latest of
          None \<Rightarrow> Some update
        | Some l \<Rightarrow> if ack_AckedAt update > ack_AckedAt l then Some update else Some l)) cs None"

definition replayableShutdownForNode :: "Client \<Rightarrow> time \<Rightarrow> Server \<Rightarrow> ShutdownMessage option \<times> Server" where
  "replayableShutdownForNode client now s =
    (case map_of (commands s) (activeCommand s) of
       None \<Rightarrow> (None, s)
     | Some command \<Rightarrow>
        if cm_Auto command \<and> \<not> upsConfirmed s then (None, s)
        else let adopt = (\<not> cm_ReplayDisabled command \<and>
                   targetMatchesNode (sm_Target (cm_Message command)) (cl_NodeID client) (slice (cl_Tags client)) \<and>
                   cl_NodeID client \<notin> set (cm_TargetNodes command));
                 c1 = (if adopt then reopenCommandLocked now s
                         (command\<lparr>cm_TargetNodes := sput (cl_NodeID client) (cm_TargetNodes command)\<rparr>)
                       else command);
                 s1 = (if adopt then saveState (s\<lparr>commands :=
                         madjust (activeCommand s) (\<lambda>_. c1) (commands s)\<rparr>) else s)
             in (if shouldReplayShutdownForNode (Some c1) (cl_NodeID client)
                 then (Some (cm_Message c1), s1) else (None, s1)))"

definition replayPendingShutdown :: "Client \<Rightarrow> time \<Rightarrow> Server \<Rightarrow> bool \<times> Server" where
  "replayPendingShutdown client now s =
    (case replayableShutdownForNode client now s of
       (None, s1) \<Rightarrow> (False, s1)
     | (Some message, s1) \<Rightarrow> client_Send (cl_conn client) (Shutdown message) s1)"

end
