(* ===== verification/Episode.thy ===== *)
theory Episode
  imports Shutdown
begin

text \<open>
  \<open>internal/master/episode.go\<close> with the poll and watcher loops that drive it
  (\<open>evaluateUPS\<close> of \<open>ups.go\<close>, \<open>runCommandWatcher\<close> of \<open>local_shutdown.go\<close>): one on-battery
  period, the policies that fire in it and the single command they share.
\<close>

section \<open>Definitions\<close>

definition episode_status :: "autoEpisode option \<Rightarrow> EpisodeStatus option" where
  "episode_status e = map_option (\<lambda>e. \<lparr>es_StartedAt = ep_StartedAt e, es_CommandID = ep_CommandID e,
     es_FiredPolicies = ep_FiredPolicies e\<rparr>) e"

definition startEpisodeIfNeeded :: "time \<Rightarrow> Server \<Rightarrow> Server" where
  "startEpisodeIfNeeded at s =
    (case episode s of
       Some _ \<Rightarrow> s
     | None \<Rightarrow> saveState (s\<lparr>episode := Some \<lparr>ep_StartedAt = at, ep_CommandID = [], ep_FiredPolicies = [],
         ep_MasterPoweredOff = False, ep_matchSince = []\<rparr>\<rparr>))"

text \<open>The part of \<open>endEpisodeOnLinePower\<close> for a running episode.\<close>

definition closeEpisode :: "autoEpisode \<Rightarrow> Server \<Rightarrow> Server" where
  "closeEpisode e s =
    (let cid = ep_CommandID e;
         s1 = (case map_of (commands s) cid of
             None \<Rightarrow> s
           | Some _ \<Rightarrow>
              let s' = s\<lparr>commands := madjust cid (\<lambda>c. c\<lparr>cm_ReplayDisabled := True\<rparr>) (commands s)\<rparr>
              in if activeCommand s' = cid then s'\<lparr>activeCommand := [], shutdownIssued := False\<rparr> else s');
         s2 = (if localShutdownBelongsToEpisodeLocked s1 \<and>
                  (case localShutdown s1 of None \<Rightarrow> False | Some l \<Rightarrow> ls_Phase l \<noteq> PhaseExecuting)
               then s1\<lparr>localShutdown := None\<rparr> else s1)
     in s2\<lparr>episode := None\<rparr>)"

definition endEpisodeOnLinePower :: "Server \<Rightarrow> Server" where
  "endEpisodeOnLinePower s =
    (let s1 = (case episode s of None \<Rightarrow> s | Some e \<Rightarrow> closeEpisode e s);
         release = (activeCommand s1 \<noteq> [] \<and>
           (case map_of (commands s1) (activeCommand s1) of
              None \<Rightarrow> False
            | Some c \<Rightarrow> \<not> cm_Auto c \<and> commandComplete c));
         s2 = (if release then s1\<lparr>activeCommand := [], shutdownIssued := False\<rparr> else s1)
     in if episode s \<noteq> None \<or> release then saveState s2 else s2)"

definition supersedeManualCommandLocked :: "Server \<Rightarrow> Server" where
  "supersedeManualCommandLocked s =
    (case map_of (commands s) (activeCommand s) of
       None \<Rightarrow> s
     | Some command \<Rightarrow>
        if cm_Auto command then s
        else let s1 = s\<lparr>commands := madjust (activeCommand s) (\<lambda>c. c\<lparr>cm_ReplayDisabled := True\<rparr>) (commands s)\<rparr>;
                 s2 = (case localShutdown s1 of
                     None \<Rightarrow> s1
                   | Some l \<Rightarrow> if ls_CommandID l = activeCommand s1 \<and> \<not> localShutdownTerminal (ls_Phase l)
                              then s1\<lparr>localShutdown := None\<rparr> else s1)
             in s2\<lparr>activeCommand := []\<rparr>)"

fun adopt_clients :: "Client list \<Rightarrow> string list \<Rightarrow> Client list \<times> string list" where
  "adopt_clients [] targets = ([], targets)"
| "adopt_clients (c # cs) targets =
    (if cl_NodeID c \<in> set targets then adopt_clients cs targets
     else (case adopt_clients cs (sput (cl_NodeID c) targets) of (adopted, t) \<Rightarrow> (c # adopted, t)))"

definition adoptMatchingClientsLocked ::
  "shutdownCommandState \<Rightarrow> time \<Rightarrow> Server \<Rightarrow> Client list \<times> shutdownCommandState" where
  "adoptMatchingClientsLocked command now s =
    (case adopt_clients (selectTargets (sm_Target (cm_Message command)) s) (cm_TargetNodes command) of
       (adopted, t) \<Rightarrow>
         let c1 = command\<lparr>cm_TargetNodes := t\<rparr>
         in (adopted, if adopted \<noteq> [] then reopenCommandLocked now s c1 else c1))"

text \<open>The two ways \<open>applyPolicyMatch\<close> acts: widen the episode command or create it.\<close>

definition widenEpisodeCommand ::
  "shutdownCommandState \<Rightarrow> ShutdownTarget \<Rightarrow> string \<Rightarrow> time \<Rightarrow> Server \<Rightarrow> shutdownCommandState \<times> Client list \<times> Server"
where
  "widenEpisodeCommand existing target reason now s =
    (let m = cm_Message existing;
         c1 = existing\<lparr>cm_Message := m\<lparr>sm_Target := mergeShutdownTargets (sm_Target m) target,
                sm_Reason := sm_Reason m @ ''; '' @ reason\<rparr>\<rparr>
     in case adoptMatchingClientsLocked c1 now s of (toSend, c2) \<Rightarrow>
        let s1 = s\<lparr>commands := madjust (sm_CommandID m) (\<lambda>_. c2) (commands s)\<rparr>;
            s2 = (if \<not> tgt_All (sm_Target m) \<and> tgt_All (sm_Target (cm_Message c2))
                  then armLocalShutdownLocked c2 now s1 else s1)
        in (c2, toSend, s2))"

definition createEpisodeCommand ::
  "autoEpisode \<Rightarrow> ShutdownTarget \<Rightarrow> string \<Rightarrow> time \<Rightarrow> string \<Rightarrow> Server \<Rightarrow> shutdownCommandState \<times> Client list \<times> Server"
where
  "createEpisodeCommand e target reason now cid s =
    (let s0 = supersedeManualCommandLocked s;
         message = \<lparr>sm_CommandID = cid, sm_Reason = reason, sm_DryRun = mc_DryRun (cfg s0),
           sm_IssuedAt = now, sm_Target = target\<rparr>;
         toSend = selectTargets target s0;
         command = \<lparr>cm_Message = message, cm_TargetNodes = buildTargetNodeSet toSend,
           cm_NodeUpdates = [], cm_TimeoutAt = Some (time_Add now (mc_CommandTimeout (cfg s0))),
           cm_CompletedAt = None, cm_ReplayDisabled = False, cm_Auto = True\<rparr>;
         s1 = s0\<lparr>commands := mput cid command (commands s0), activeCommand := cid,
                 episode := Some (e\<lparr>ep_CommandID := cid\<rparr>), lastNodeRetryAt := now\<rparr>;
         s2 = (if tgt_All target then armLocalShutdownLocked command now s1 else s1)
     in (command, toSend, s2))"

text \<open>
  \<open>applyPolicyMatch\<close>; \<open>cid\<close> is the id \<open>newCommandID\<close> draws when a command is created.
\<close>

definition applyPolicyMatch :: "PolicyMatch \<Rightarrow> time \<Rightarrow> string \<Rightarrow> Server \<Rightarrow> Server" where
  "applyPolicyMatch pm now cid s =
    (case episode s of
       None \<Rightarrow> s
     | Some e \<Rightarrow>
        let fired = filter (\<lambda>name. name \<notin> set (ep_FiredPolicies e)) (pm_Names pm)
        in if fired = [] then s
           else let reason = buildPolicyReason (mc_ShutdownPolicies (cfg s)) fired;
                    target = policy_Target pm
                in case (case map_of (commands s) (ep_CommandID e) of
                      Some existing \<Rightarrow> widenEpisodeCommand existing target reason now s
                    | None \<Rightarrow> createEpisodeCommand e target reason now cid s)
                   of (command, toSend, s1) \<Rightarrow>
                     let s2 = s1\<lparr>episode := map_option
                           (\<lambda>e. e\<lparr>ep_FiredPolicies := ep_FiredPolicies e @ fired\<rparr>) (episode s1),
                           shutdownIssued := True\<rparr>
                     in snd (sendShutdown (cm_Message command) toSend (saveState s2)))"

text \<open>
  One round of the policy loop of \<open>evaluateEpisodePolicies\<close> over the debounce timers, the
  due policies and whether an unreachability policy vouches for the episode.
\<close>

fun eval_policy ::
  "UPSStatus option \<Rightarrow> duration \<Rightarrow> time \<Rightarrow> string list \<Rightarrow> ShutdownPolicySpec \<Rightarrow>
   (string, time) gomap \<times> string list \<times> bool \<Rightarrow> (string, time) gomap \<times> string list \<times> bool" where
  "eval_policy reading silentFor now firedPolicies p (ms, due, unreachableFired) =
    (let fired = (pol_Name p \<in> set firedPolicies);
         unreachableFor = pw_UPSUnreachableFor (pol_When p)
     in if unreachableFor > 0 then
          (if reading = None \<and> silentFor \<ge> unreachableFor
           then (ms, if \<not> fired then due @ [pol_Name p] else due, True)
           else (ms, due, unreachableFired))
        else if fired then (ms, due, unreachableFired)
        else (case reading of
            None \<Rightarrow> (ms, due, unreachableFired)
          | Some r \<Rightarrow>
              if \<not> policyMatches r (pol_When p) then (mdel (pol_Name p) ms, due, unreachableFired)
              else let since = (case map_of ms (pol_Name p) of None \<Rightarrow> now | Some t \<Rightarrow> t);
                       ms1 = (case map_of ms (pol_Name p) of None \<Rightarrow> mput (pol_Name p) now ms | Some _ \<Rightarrow> ms)
                   in (ms1, if time_Sub now since \<ge> pol_Duration p then due @ [pol_Name p] else due,
                       unreachableFired)))"

text \<open>The locked part: the new debounce timers and the policies that are due.\<close>

definition evaluateEpisodePoliciesLocked :: "UPSStatus option \<Rightarrow> time \<Rightarrow> Server \<Rightarrow> Server \<times> string list" where
  "evaluateEpisodePoliciesLocked reading now s =
    (if reading = None \<and> upsSilentFor now s = None then (s, [])
     else let silentFor = (case reading of
              Some _ \<Rightarrow> 0
            | None \<Rightarrow> (case upsSilentFor now s of None \<Rightarrow> 0 | Some d \<Rightarrow> d))
     in case episode s of
       None \<Rightarrow> (s, [])
     | Some e \<Rightarrow>
        if reading = None \<and> awaitingReadingAfterPowerOffLocked s then (s, [])
        else case fold (eval_policy reading silentFor now (ep_FiredPolicies e))
                 (mc_ShutdownPolicies (cfg s)) (ep_matchSince e, [], False) of
          (ms, due, unreachableFired) \<Rightarrow>
            let s1 = s\<lparr>episode := Some (e\<lparr>ep_matchSince := ms\<rparr>)\<rparr>
            in (if unreachableFired then s1\<lparr>upsConfirmed := True\<rparr> else s1, due))"

definition evaluateEpisodePolicies :: "UPSStatus option \<Rightarrow> time \<Rightarrow> string \<Rightarrow> Server \<Rightarrow> Server" where
  "evaluateEpisodePolicies reading now cid s =
    (case evaluateEpisodePoliciesLocked reading now s of (s1, due) \<Rightarrow>
       if due \<noteq> []
       then applyPolicyMatch (buildPolicyMatch (mc_ShutdownPolicies (cfg s)) due) now cid s1
       else s1)"

definition retryEpisodeShutdown :: "time \<Rightarrow> Server \<Rightarrow> Server" where
  "retryEpisodeShutdown now s =
    (case episode s of
       None \<Rightarrow> s
     | Some e \<Rightarrow>
        if \<not> upsConfirmed s \<or> time_Sub now (lastNodeRetryAt s) < shutdownRetryInterval then s
        else (case map_of (commands s) (ep_CommandID e) of
            None \<Rightarrow> s
          | Some command \<Rightarrow>
             if cm_ReplayDisabled command then s
             else let failed = filter (\<lambda>n. node_status command n = Some StatusFailed \<or>
                        node_status command n = Some StatusTimeout) (cm_TargetNodes command)
                  in case adoptMatchingClientsLocked command now s of (adopted, c1) \<Rightarrow>
                     let nodeIDs = sputs (map cl_NodeID adopted) failed
                     in if nodeIDs = [] then s
                        else let c2 = reopenCommandLocked now s c1;
                                 s1 = s\<lparr>lastNodeRetryAt := now,
                                        commands := madjust (ep_CommandID e) (\<lambda>_. c2) (commands s)\<rparr>
                             in replayShutdownToNodes (cm_Message c2) nodeIDs (saveState s1)))"

section \<open>The loops\<close>

text \<open>One poll: \<open>result\<close> is what \<open>upsReader\<close> returned.\<close>

definition evaluateUPS :: "time \<Rightarrow> string + UPSStatus \<Rightarrow> string \<Rightarrow> Server \<Rightarrow> Server" where
  "evaluateUPS polledAt result cid s =
    (case result of
       Inl err \<Rightarrow> evaluateEpisodePolicies None polledAt cid (recordUPSError err polledAt s)
     | Inr status \<Rightarrow>
        let s1 = recordUPSSuccess status polledAt s
        in if \<not> ups_OnBattery status
           then (endEpisodeOnLinePower s1)\<lparr>upsConfirmed := True\<rparr>
           else evaluateEpisodePolicies (Some status) polledAt cid
                  ((startEpisodeIfNeeded polledAt s1)\<lparr>upsConfirmed := True\<rparr>))"

text \<open>One tick of \<open>runCommandWatcher\<close>.\<close>

definition watcherTick ::
  "(string list \<Rightarrow> string \<Rightarrow> bool \<Rightarrow> string option) \<Rightarrow> time \<Rightarrow> time \<Rightarrow> Server \<Rightarrow> Server" where
  "watcherTick runner attemptAt now s =
    (let s1 = markTimedOutCommands now s;
         s2 = retryEpisodeShutdown now s1
     in evaluateLocalShutdown runner attemptAt now (latestSuccessfulUPSStatus s2) s2)"

end
