(* ===== verification/Core.thy ===== *)
theory Core
  imports Episode
begin

text \<open>
  The invariant of the master's command state and its preservation by every critical section
  of \<open>shutdown.go\<close>, \<open>episode.go\<close> and \<open>local_shutdown.go\<close>.
\<close>

section \<open>The invariant\<close>

text \<open>The active command exists and may be replayed.\<close>

definition active_ok :: "(string, shutdownCommandState) gomap \<Rightarrow> string \<Rightarrow> bool" where
  "active_ok cmds active \<longleftrightarrow>
     active = [] \<or> (\<exists>c. map_of cmds active = Some c \<and> \<not> cm_ReplayDisabled c)"

definition no_auto :: "(string, shutdownCommandState) gomap \<Rightarrow> string \<Rightarrow> bool" where
  "no_auto cmds active \<longleftrightarrow> (\<forall>c. map_of cmds active = Some c \<longrightarrow> \<not> cm_Auto c)"

text \<open>
  The command of an episode is the active command, an active automatic command belongs to
  the episode, and no policy is recorded as fired twice.
\<close>

definition episode_ok ::
  "(string, shutdownCommandState) gomap \<Rightarrow> string \<Rightarrow> autoEpisode option \<Rightarrow> bool" where
  "episode_ok cmds active ep \<longleftrightarrow>
     (case ep of
        None \<Rightarrow> no_auto cmds active
      | Some e \<Rightarrow> distinct (ep_FiredPolicies e) \<and>
          (if ep_CommandID e = [] then no_auto cmds active
           else active = ep_CommandID e \<and> (\<exists>c. map_of cmds active = Some c \<and> cm_Auto c)))"

definition known_phases :: "string list" where
  "known_phases = [PhaseWaitingRemote, PhaseWaitExpired, PhaseEmergency, PhaseExecuting,
     PhaseCompleted, PhaseFailed]"

text \<open>
  A local shutdown exists only when enabled, is in a known phase, knows its trigger once it
  left the waiting phase, and is a dry run exactly when the command it follows is one (the
  configuration's setting when it follows none).
\<close>

definition local_state_ok ::
  "MasterConfig \<Rightarrow> (string, shutdownCommandState) gomap \<Rightarrow> localShutdownState \<Rightarrow> bool" where
  "local_state_ok cf cmds l \<longleftrightarrow>
     lc_Enabled (mc_LocalShutdown cf) \<and> ls_Phase l \<in> set known_phases \<and>
     (ls_Phase l \<noteq> PhaseWaitingRemote \<longrightarrow> ls_Trigger l \<noteq> []) \<and>
     (case map_of cmds (ls_CommandID l) of
        None \<Rightarrow> ls_CommandID l = [] \<and> ls_DryRun l = mc_DryRun cf
      | Some c \<Rightarrow> ls_DryRun l = sm_DryRun (cm_Message c))"

definition local_ok ::
  "MasterConfig \<Rightarrow> (string, shutdownCommandState) gomap \<Rightarrow> localShutdownState option \<Rightarrow> bool" where
  "local_ok cf cmds ls \<longleftrightarrow> (\<forall>l. ls = Some l \<longrightarrow> local_state_ok cf cmds l)"

definition core_ok ::
  "MasterConfig \<Rightarrow> (string, shutdownCommandState) gomap \<Rightarrow> string \<Rightarrow> autoEpisode option \<Rightarrow>
    localShutdownState option \<Rightarrow> bool" where
  "core_ok cf cmds active ep ls \<longleftrightarrow>
     commands_inv cmds \<and> active_ok cmds active \<and> episode_ok cmds active ep \<and> local_ok cf cmds ls"

definition tokens_ok :: "(string, string) gomap \<Rightarrow> bool" where
  "tokens_ok t \<longleftrightarrow> distinct (mkeys t)"

definition disk_ok :: "MasterConfig \<Rightarrow> persistedState store \<Rightarrow> bool" where
  "disk_ok cf st \<longleftrightarrow> (\<forall>p. disk st = Some p \<longrightarrow>
     core_ok cf (ps_Commands p) (ps_ActiveCommand p) (ps_Episode p) (ps_LocalShutdown p) \<and>
     directory_inv (ps_Nodes p) \<and> tokens_ok (ps_NodeTokens p))"

definition server_inv :: "Server \<Rightarrow> bool" where
  "server_inv s \<longleftrightarrow>
     core_ok (cfg s) (commands s) (activeCommand s) (episode s) (localShutdown s) \<and>
     shutdownIssued s = (activeCommand s \<noteq> []) \<and>
     registry_inv (registry s) \<and> directory_inv (directory s) \<and> tokens_ok (nodeTokens s) \<and>
     disk_ok (cfg s) (stateStore s)"

lemmas core_defs = core_ok_def active_ok_def episode_ok_def local_ok_def no_auto_def

section \<open>Saving\<close>

lemma local_ok_persisted: "local_ok cf cmds ls \<Longrightarrow> local_ok cf cmds (persistedLocalShutdownState ls)"
  by (auto simp: local_ok_def persistedLocalShutdownState_def split: option.splits if_splits)

lemma episode_ok_persisted: "episode_ok cmds a ep \<Longrightarrow> episode_ok cmds a (persistedEpisode ep)"
  by (auto simp: episode_ok_def persistedEpisode_def split: option.splits)

lemma disk_ok_next [simp]: "disk_ok cf (store_next st) = disk_ok cf st"
  by (simp add: disk_ok_def)

lemma disk_ok_write:
  "disk_ok cf st \<Longrightarrow> core_ok cf (ps_Commands p) (ps_ActiveCommand p) (ps_Episode p) (ps_LocalShutdown p) \<Longrightarrow>
    directory_inv (ps_Nodes p) \<Longrightarrow> tokens_ok (ps_NodeTokens p) \<Longrightarrow> disk_ok cf (store_write ok seq p st)"
  by (auto simp: disk_ok_def disk_store_write)

lemma stateStore_saveState:
  "stateStore (saveState s) =
    (if mc_StateFile (cfg s) = [] then stateStore s
     else store_write (writeOK s (Suc (persistSeq (stateStore s)))) (Suc (persistSeq (stateStore s)))
       (persisted_of s) (store_next (stateStore s)))"
  by (simp add: saveState_def snapshotStateLocked_def persistState_def Let_def)

lemma server_inv_saveState [intro]: "server_inv s \<Longrightarrow> server_inv (saveState s)"
  by (auto simp: server_inv_def stateStore_saveState persisted_of_def snapshotForPersist_id core_ok_def
      intro!: disk_ok_write local_ok_persisted episode_ok_persisted)

lemma server_inv_emit [simp]: "server_inv (emit es s) = server_inv s"
  by (simp add: server_inv_def)

lemma server_inv_upsConfirmed [simp]: "server_inv (s\<lparr>upsConfirmed := b\<rparr>) = server_inv s"
  by (simp add: server_inv_def)

lemma server_inv_sendShutdown [simp]: "server_inv (snd (sendShutdown m cs s)) = server_inv s"
  by (simp add: sendShutdown_def)

lemma server_inv_replay [simp]: "server_inv (replayShutdownToNodes m ns s) = server_inv s"
  by (simp add: replayShutdownToNodes_def)

section \<open>Commands that evolve\<close>

text \<open>
  Most steps change a command without touching its identity, its kind, whether it is a dry
  run or whether it may be replayed.
\<close>

definition evolves :: "string \<Rightarrow> shutdownCommandState \<Rightarrow> shutdownCommandState \<Rightarrow> bool" where
  "evolves cid c c' \<longleftrightarrow> command_inv cid c' \<and> cm_Auto c' = cm_Auto c \<and>
     sm_DryRun (cm_Message c') = sm_DryRun (cm_Message c) \<and> cm_ReplayDisabled c' = cm_ReplayDisabled c"

lemma evolves_refl: "command_inv cid c \<Longrightarrow> evolves cid c c"
  by (simp add: evolves_def)

lemma core_ok_evolves:
  assumes "core_ok cf m a ep ls" and keys: "distinct (mkeys m')"
    and dom: "\<And>cid. map_of m cid = None \<longleftrightarrow> map_of m' cid = None"
    and ev: "\<And>cid c c'. map_of m cid = Some c \<Longrightarrow> map_of m' cid = Some c' \<Longrightarrow> evolves cid c c'"
  shows "core_ok cf m' a ep ls"
proof -
  have some: "\<exists>c'. map_of m' cid = Some c' \<and> evolves cid c c'" if "map_of m cid = Some c" for cid c
    using that dom [of cid] ev [of cid c] by (cases "map_of m' cid") auto
  have bwd: "\<exists>c. map_of m cid = Some c \<and> evolves cid c c'" if "map_of m' cid = Some c'" for cid c'
    using that dom [of cid] ev [of cid _ c'] by (cases "map_of m cid") auto
  have "commands_inv m'"
    using keys bwd by (auto simp: commands_inv_def evolves_def)
  moreover have "active_ok m' a"
    using assms(1) some by (force simp: core_ok_def active_ok_def evolves_def)
  moreover have noauto: "no_auto m a \<Longrightarrow> no_auto m' a"
    using bwd by (fastforce simp: no_auto_def evolves_def)
  have "episode_ok m' a ep"
    using assms(1) noauto some
    by (fastforce simp: core_ok_def episode_ok_def evolves_def split: option.splits if_splits)
  moreover have "local_ok cf m' ls"
    unfolding local_ok_def local_state_ok_def
  proof (intro allI impI conjI)
    fix l assume ls: "ls = Some l"
    with assms(1) have l: "local_state_ok cf m l" by (simp add: core_ok_def local_ok_def)
    then show "lc_Enabled (mc_LocalShutdown cf)" "ls_Phase l \<in> set known_phases"
      "ls_Phase l \<noteq> PhaseWaitingRemote \<Longrightarrow> ls_Trigger l \<noteq> []"
      by (auto simp: local_state_ok_def)
    show "case map_of m' (ls_CommandID l) of
        None \<Rightarrow> ls_CommandID l = [] \<and> ls_DryRun l = mc_DryRun cf
      | Some c \<Rightarrow> ls_DryRun l = sm_DryRun (cm_Message c)"
      using l dom [of "ls_CommandID l"] bwd [of "ls_CommandID l"]
      by (auto simp: local_state_ok_def evolves_def split: option.splits)
  qed
  ultimately show ?thesis by (simp add: core_ok_def)
qed

lemma core_ok_madjust:
  assumes "core_ok cf m a ep ls"
    and "\<And>c. map_of m cid = Some c \<Longrightarrow> command_inv cid c \<Longrightarrow> evolves cid c (f c)"
  shows "core_ok cf (madjust cid f m) a ep ls"
proof (rule core_ok_evolves [OF assms(1)])
  from assms(1) have inv: "commands_inv m" by (simp add: core_ok_def)
  then show "distinct (mkeys (madjust cid f m))" by (simp add: commands_inv_def)
  show "map_of m k = None \<longleftrightarrow> map_of (madjust cid f m) k = None" for k
    by (simp add: map_of_madjust)
  show "evolves k c c'" if "map_of m k = Some c" "map_of (madjust cid f m) k = Some c'" for k c c'
    using that assms(2) commands_inv_lookup [OF inv]
    by (auto simp: map_of_madjust evolves_refl split: if_splits)
qed

text \<open>Disabling the replay of a command that is (or is about to be) no longer active.\<close>

lemma commands_inv_disable:
  "commands_inv m \<Longrightarrow> commands_inv (madjust cid (\<lambda>c. c\<lparr>cm_ReplayDisabled := True\<rparr>) m)"
  by (rule commands_inv_madjust) (auto simp: command_inv_def)

lemma local_ok_disable:
  "local_ok cf m ls \<Longrightarrow> local_ok cf (madjust cid (\<lambda>c. c\<lparr>cm_ReplayDisabled := True\<rparr>) m) ls"
  by (auto simp: local_ok_def local_state_ok_def map_of_madjust split: option.splits if_splits)

lemma no_auto_Nil: "commands_inv m \<Longrightarrow> no_auto m []"
  by (simp add: no_auto_def commands_inv_nonempty)

lemma episode_ok_released:
  "commands_inv m \<Longrightarrow> episode_ok m' a ep \<Longrightarrow> (\<And>e. ep = Some e \<Longrightarrow> ep_CommandID e = []) \<Longrightarrow>
    episode_ok m [] ep"
  by (auto simp: episode_ok_def no_auto_Nil split: option.splits)

lemma local_ok_None [simp]: "local_ok cf m None"
  by (simp add: local_ok_def)

section \<open>Local shutdown\<close>

abbreviation core :: "Server \<Rightarrow> bool" where
  "core s \<equiv> core_ok (cfg s) (commands s) (activeCommand s) (episode s) (localShutdown s)"

lemma arm_frame [simp, frame_simps]:
  "cfg (armLocalShutdownLocked c now s) = cfg s"
  "registry (armLocalShutdownLocked c now s) = registry s"
  "directory (armLocalShutdownLocked c now s) = directory s"
  "shutdownIssued (armLocalShutdownLocked c now s) = shutdownIssued s"
  "ready (armLocalShutdownLocked c now s) = ready s"
  "upsConfirmed (armLocalShutdownLocked c now s) = upsConfirmed s"
  "startedAt (armLocalShutdownLocked c now s) = startedAt s"
  "commands (armLocalShutdownLocked c now s) = commands s"
  "activeCommand (armLocalShutdownLocked c now s) = activeCommand s"
  "episode (armLocalShutdownLocked c now s) = episode s"
  "lastNodeRetryAt (armLocalShutdownLocked c now s) = lastNodeRetryAt s"
  "localCommandReady (armLocalShutdownLocked c now s) = localCommandReady s"
  "upsStatus (armLocalShutdownLocked c now s) = upsStatus s"
  "upsMissingWarned (armLocalShutdownLocked c now s) = upsMissingWarned s"
  "stateStore (armLocalShutdownLocked c now s) = stateStore s"
  "conns (armLocalShutdownLocked c now s) = conns s"
  "nodeTokens (armLocalShutdownLocked c now s) = nodeTokens s"
  "enrollmentHashes (armLocalShutdownLocked c now s) = enrollmentHashes s"
  "hashToken (armLocalShutdownLocked c now s) = hashToken s"
  "writeOK (armLocalShutdownLocked c now s) = writeOK s"
  "sendOK (armLocalShutdownLocked c now s) = sendOK s"
  "effects (armLocalShutdownLocked c now s) = effects s"
  by (simp_all add: armLocalShutdownLocked_def split: option.split)

lemma core_with_local:
  "core_ok cf m a ep ls \<Longrightarrow> local_ok cf m ls' \<Longrightarrow> core_ok cf m a ep ls'"
  by (simp add: core_ok_def)

lemma core_arm:
  assumes "core s" and "map_of (commands s) (sm_CommandID (cm_Message c)) = Some c'"
    and "sm_DryRun (cm_Message c') = sm_DryRun (cm_Message c)"
  shows "core (armLocalShutdownLocked c now s)"
proof -
  have "local_ok (cfg s) (commands s) (localShutdown (armLocalShutdownLocked c now s))"
    using assms
    by (auto simp: armLocalShutdownLocked_def core_ok_def local_ok_def local_state_ok_def known_phases_def
        split: option.splits)
  with assms(1) show ?thesis by (simp add: core_with_local)
qed

lemma server_inv_core: "server_inv s \<Longrightarrow> core s"
  by (simp add: server_inv_def)

lemma server_inv_local:
  "server_inv s \<Longrightarrow> local_ok (cfg s) (commands s) ls \<Longrightarrow> server_inv (s\<lparr>localShutdown := ls\<rparr>)"
  by (simp add: server_inv_def core_ok_def)

lemma local_state_ok_lookup:
  "server_inv s \<Longrightarrow> localShutdown s = Some l \<Longrightarrow> local_state_ok (cfg s) (commands s) l"
  by (simp add: server_inv_def core_ok_def local_ok_def)

lemma local_state_ok_phase:
  "local_state_ok cf m l \<Longrightarrow> ph \<in> set known_phases \<Longrightarrow> tr \<noteq> [] \<Longrightarrow>
    ls_Phase l' = ph \<Longrightarrow> ls_Trigger l' = tr \<Longrightarrow> ls_CommandID l' = ls_CommandID l \<Longrightarrow>
    ls_DryRun l' = ls_DryRun l \<Longrightarrow> local_state_ok cf m l'"
  by (auto simp: local_state_ok_def split: option.splits)

lemma episode_ok_map:
  "episode_ok m a ep \<Longrightarrow> (\<And>e. ep_FiredPolicies (f e) = ep_FiredPolicies e) \<Longrightarrow>
    (\<And>e. ep_CommandID (f e) = ep_CommandID e) \<Longrightarrow> episode_ok m a (map_option f ep)"
  by (auto simp: episode_ok_def split: option.splits)

lemma server_inv_poweredOff:
  "server_inv s \<Longrightarrow> server_inv (s\<lparr>episode := map_option (\<lambda>e. e\<lparr>ep_MasterPoweredOff := b\<rparr>) (episode s)\<rparr>)"
  by (auto simp: server_inv_def core_ok_def intro: episode_ok_map)

lemma server_inv_claim:
  assumes "server_inv s" and "trigger \<noteq> []"
  shows "server_inv (snd (beginLocalShutdownClaim cid trigger at s))"
proof (cases "localShutdown s")
  case None
  with assms show ?thesis by (simp add: beginLocalShutdownClaim_def)
next
  case (Some l)
  let ?l = "l\<lparr>ls_Phase := PhaseExecuting, ls_Trigger := trigger, ls_LastError := [],
    ls_LastAttemptAt := Some at\<rparr>"
  have "local_ok (cfg s) (commands s) (Some ?l)"
    using local_state_ok_lookup [OF assms(1) Some] assms(2)
    by (auto simp: local_ok_def known_phases_def intro: local_state_ok_phase)
  from server_inv_local [OF assms(1) this] have "server_inv (s\<lparr>localShutdown := Some ?l\<rparr>)" .
  from this server_inv_poweredOff [OF this, of True] show ?thesis
    using Some assms(1) by (auto simp: beginLocalShutdownClaim_def Let_def)
qed

lemma server_inv_finish:
  assumes "server_inv s" and "\<And>l. localShutdown s = Some l \<Longrightarrow> ls_Trigger l \<noteq> []"
  shows "server_inv (beginLocalShutdownFinish cid err s)"
proof (cases "localShutdown s")
  case None
  with assms show ?thesis by (simp add: beginLocalShutdownFinish_def)
next
  case (Some l)
  have ok: "local_ok (cfg s) (commands s) (Some (l\<lparr>ls_Phase := ph, ls_LastError := msg\<rparr>))"
    if "ph \<in> set known_phases" for ph msg
    using local_state_ok_lookup [OF assms(1) Some] assms(2) [OF Some] that
    by (auto simp: local_ok_def intro: local_state_ok_phase)
  have inv: "server_inv (s\<lparr>localShutdown := Some (l\<lparr>ls_Phase := ph, ls_LastError := msg\<rparr>)\<rparr>)"
    if "ph \<in> set known_phases" for ph msg
    using server_inv_local [OF assms(1) ok [OF that]] .
  then have "server_inv (s\<lparr>localShutdown := Some (l\<lparr>ls_Phase := PhaseFailed, ls_LastError := msg\<rparr>),
      episode := map_option (\<lambda>e. e\<lparr>ep_MasterPoweredOff := False\<rparr>) (episode s)\<rparr>)" for msg
    using server_inv_poweredOff [OF inv [of PhaseFailed msg], of False] by (simp add: known_phases_def)
  with inv [of PhaseCompleted "[]"] show ?thesis
    using Some assms(1)
    by (auto simp: beginLocalShutdownFinish_def known_phases_def split: option.splits)
qed

lemma episode_command:
  "server_inv s \<Longrightarrow> episode s = Some e \<Longrightarrow> map_of (commands s) (ep_CommandID e) = None \<Longrightarrow>
    ep_CommandID e = []"
  by (auto simp: server_inv_def core_ok_def episode_ok_def split: if_splits)

lemma episode_command_Some:
  "server_inv s \<Longrightarrow> episode s = Some e \<Longrightarrow> map_of (commands s) (ep_CommandID e) = Some c \<Longrightarrow>
    activeCommand s = ep_CommandID e \<and> cm_Auto c \<and> \<not> cm_ReplayDisabled c"
  using commands_inv_nonempty [of "commands s"]
  by (auto simp: server_inv_def core_ok_def episode_ok_def active_ok_def split: if_splits)

lemma server_inv_startEmergency:
  assumes "server_inv s" and "lc_Enabled (mc_LocalShutdown (cfg s))"
  shows "server_inv (fst (startEmergency now em trusted s))"
  using assms episode_command [OF assms(1)]
  by (auto simp: startEmergency_def Let_def local_ok_def local_state_ok_def known_phases_def
      intro!: server_inv_saveState server_inv_local split: option.splits)

lemma local_ok_phase:
  "server_inv s \<Longrightarrow> localShutdown s = Some l \<Longrightarrow> ls_Phase l' \<in> set known_phases \<Longrightarrow>
    ls_Trigger l' \<noteq> [] \<Longrightarrow> ls_CommandID l' = ls_CommandID l \<Longrightarrow> ls_DryRun l' = ls_DryRun l \<Longrightarrow>
    local_ok (cfg s) (commands s) (Some l')"
  using local_state_ok_phase [OF local_state_ok_lookup] by (fastforce simp: local_ok_def)

lemma server_inv_waitForRemote:
  assumes "server_inv s" and "localShutdown s = Some l" and "ls_Phase l = PhaseWaitingRemote"
  shows "server_inv (fst (waitForRemote now em l command s))"
  using assms
  by (auto simp: waitForRemote_def known_phases_def split: option.splits
      intro!: server_inv_saveState server_inv_local local_ok_phase [of s l])

lemma server_inv_advance:
  "server_inv s \<Longrightarrow> localShutdown s = Some l \<Longrightarrow>
    server_inv (fst (advanceLocalShutdown now em trusted l s))"
  by (auto simp: advanceLocalShutdown_def Let_def server_inv_waitForRemote)

lemma server_inv_evaluateLocalLocked:
  "server_inv s \<Longrightarrow> lc_Enabled (mc_LocalShutdown (cfg s)) \<Longrightarrow>
    server_inv (fst (evaluateLocalShutdownLocked now u s))"
  by (auto simp: evaluateLocalShutdownLocked_def Let_def
      intro!: server_inv_startEmergency server_inv_advance split: option.splits)

section \<open>Manual commands, timeouts, updates\<close>

lemma server_inv_new_command:
  assumes inv: "server_inv s" and fresh: "cid \<notin> set (mkeys (commands s))" and "command_inv cid c"
    and "\<not> cm_ReplayDisabled c"
    and ep: "episode_ok (mput cid c (commands s)) cid ep'"
    and ls: "local_ok (cfg s) (commands s) ls'"
  shows "core_ok (cfg s) (mput cid c (commands s)) cid ep' ls'"
proof -
  from assms(1,3) have "commands_inv (mput cid c (commands s))"
    by (simp add: server_inv_def core_ok_def commands_inv_mput)
  moreover have "map_of (commands s) cid = None" using fresh by (simp add: map_of_None_keys)
  moreover from assms(3) have "cid \<noteq> []" by (simp add: command_inv_def)
  ultimately show ?thesis
    using assms
    by (auto simp: core_ok_def active_ok_def local_ok_def local_state_ok_def split: option.splits if_splits)
qed

lemma command_inv_new:
  "cid \<noteq> [] \<Longrightarrow> sm_CommandID m = cid \<Longrightarrow>
    command_inv cid \<lparr>cm_Message = m, cm_TargetNodes = buildTargetNodeSet cs, cm_NodeUpdates = [],
      cm_TimeoutAt = t, cm_CompletedAt = d, cm_ReplayDisabled = r, cm_Auto = a\<rparr>"
  by (auto simp: command_inv_def distinct_buildTargetNodeSet set_buildTargetNodeSet)

lemma episode_ok_manual:
  assumes "server_inv s" and "activeCommand s = []" and "cid \<noteq> []" and "\<not> cm_Auto c"
  shows "episode_ok (mput cid c (commands s)) cid (episode s)"
  using assms by (auto simp: server_inv_def core_ok_def episode_ok_def no_auto_def split: option.splits if_splits)

lemma server_inv_Trigger:
  assumes inv: "server_inv s" and "cid \<noteq> []" and fresh: "cid \<notin> set (mkeys (commands s))"
  shows "server_inv (snd (TriggerShutdown request now cid s))"
proof -
  let ?m = "manual_message request now cid s"
  let ?targets = "selectTargets (sm_Target ?m) s"
  have "server_inv ((armLocalShutdownLocked c now
      (s\<lparr>commands := mput cid c (commands s), activeCommand := cid\<rparr>))\<lparr>shutdownIssued := True\<rparr>)"
    if c: "c = \<lparr>cm_Message = ?m, cm_TargetNodes = buildTargetNodeSet ?targets, cm_NodeUpdates = [],
      cm_TimeoutAt = t, cm_CompletedAt = None, cm_ReplayDisabled = False, cm_Auto = False\<rparr>"
      and "activeCommand s = []" for c t
  proof -
    have ci: "command_inv cid c" and cid: "sm_CommandID (cm_Message c) = cid"
      unfolding c using assms(2) by (auto intro!: command_inv_new simp: manual_message_def)
    have "core_ok (cfg s) (mput cid c (commands s)) cid (episode s) (localShutdown s)"
      using inv that ci assms(2)
      by (intro server_inv_new_command [OF inv fresh ci] episode_ok_manual)
        (auto simp: server_inv_def core_ok_def)
    then have "core (armLocalShutdownLocked c now (s\<lparr>commands := mput cid c (commands s), activeCommand := cid\<rparr>))"
      by (intro core_arm [where c' = c]) (simp_all add: cid)
    with inv assms(2) show ?thesis by (simp add: server_inv_def)
  qed
  with inv show ?thesis
    by (auto simp: TriggerShutdown_def Let_def split: option.splits prod.splits)
      (metis server_inv_saveState server_inv_sendShutdown snd_conv)
qed

text \<open>The example master satisfies the invariant.\<close>

lemma example_inv: "server_inv example_server"
  by (simp add: example_defs server_inv_def core_ok_def commands_inv_def active_ok_def episode_ok_def
      no_auto_def local_ok_def registry_inv_def directory_inv_def tokens_ok_def disk_ok_def)

end
