(* ===== verification/CoreSteps.thy ===== *)
theory CoreSteps
  imports Core
begin

text \<open>
  The invariant of the master is kept by the timeout sweep, the pruning of old commands, the
  acknowledgements of the slaves, a reset, and the steps of an episode.
\<close>

section \<open>Timeouts\<close>

text \<open>The nodes the sweep times out, as a pointwise description of the loop.\<close>

lemma map_of_time_out_fold:
  "map_of (fold (\<lambda>n m. if node_complete m n then m else mput n (timeout_ack now cid n) m) ns m) k =
    (if k \<in> set ns \<and> \<not> node_complete m k then Some (timeout_ack now cid k) else map_of m k)"
proof (induction ns arbitrary: m)
  case (Cons n ns)
  have nc: "node_complete (mput n (timeout_ack now cid n) m) k =
      (if k = n then True else node_complete m k)"
    by (simp add: node_complete_def timeout_ack_def)
  show ?case
    by (auto simp: Cons.IH nc)
qed simp

lemma keys_time_out_fold:
  "set (mkeys (fold (\<lambda>n m. if node_complete m n then m else mput n (timeout_ack now cid n) m) ns m)) \<subseteq>
     set ns \<union> set (mkeys m)"
  by (auto simp: keys_iff_Some map_of_time_out_fold simp del: set_map split: if_splits)

lemma distinct_time_out_fold:
  "distinct (mkeys m) \<Longrightarrow>
    distinct (mkeys (fold (\<lambda>n m. if node_complete m n then m else mput n (timeout_ack now cid n) m) ns m))"
  by (induction ns arbitrary: m) (auto simp: distinct_update)

lemma node_update_time_out:
  "map_of (cm_NodeUpdates (time_out_nodes now cid c)) n =
    (if n \<in> set (cm_TargetNodes c) \<and> \<not> node_complete (cm_NodeUpdates c) n
     then Some (timeout_ack now cid n) else map_of (cm_NodeUpdates c) n)"
  by (simp add: time_out_nodes_def map_of_time_out_fold)

lemma time_out_nodes_frame [simp]:
  "cm_Message (time_out_nodes now cid c) = cm_Message c"
  "cm_TargetNodes (time_out_nodes now cid c) = cm_TargetNodes c"
  "cm_TimeoutAt (time_out_nodes now cid c) = cm_TimeoutAt c"
  "cm_CompletedAt (time_out_nodes now cid c) = cm_CompletedAt c"
  "cm_ReplayDisabled (time_out_nodes now cid c) = cm_ReplayDisabled c"
  "cm_Auto (time_out_nodes now cid c) = cm_Auto c"
  by (simp_all add: time_out_nodes_def)

lemma command_inv_time_out: "command_inv cid c \<Longrightarrow> command_inv cid (time_out_nodes now cid c)"
  using keys_time_out_fold [of now cid "cm_TargetNodes c" "cm_NodeUpdates c"]
  by (auto simp: command_inv_def node_update_time_out time_out_nodes_def timeout_ack_def
      distinct_time_out_fold map_of_time_out_fold)

text \<open>After the sweep every target has a complete status.\<close>

lemma commandComplete_time_out:
  "commandComplete (time_out_nodes now cid c) \<longleftrightarrow> cm_TargetNodes c \<noteq> []"
  by (auto simp: commandComplete_def node_status_def list_all_iff node_update_time_out node_complete_def
      timeout_ack_def split: option.splits if_splits)

lemma evolves_mark: "command_inv cid c \<Longrightarrow> evolves cid c (mark_command now cid c)"
  using command_inv_time_out [of cid c now]
  by (auto simp: evolves_def mark_command_def Let_def command_inv_def)

lemma core_mark:
  assumes "core_ok cf m a ep ls"
  shows "core_ok cf (map (\<lambda>(cid, c). (cid, mark_command now cid c)) m) a ep ls"
proof (rule core_ok_evolves [OF assms])
  from assms have inv: "commands_inv m" by (simp add: core_ok_def)
  then show "distinct (mkeys (map (\<lambda>(cid, c). (cid, mark_command now cid c)) m))"
    by (simp add: commands_inv_def)
  show "map_of m cid = None \<longleftrightarrow> map_of (map (\<lambda>(cid, c). (cid, mark_command now cid c)) m) cid = None" for cid
    by (simp add: map_of_map_val)
  show "evolves cid c c'" if "map_of m cid = Some c"
    "map_of (map (\<lambda>(cid, c). (cid, mark_command now cid c)) m) cid = Some c'" for cid c c'
    using that commands_inv_lookup [OF inv] by (auto simp: map_of_map_val intro: evolves_mark)
qed

text \<open>Releasing the active command is safe when it is not the episode's.\<close>

lemma core_release:
  assumes "core_ok cf m a ep ls" and "no_auto m a"
  shows "core_ok cf m [] ep ls"
proof -
  from assms have "commands_inv m" by (simp add: core_ok_def)
  from commands_inv_nonempty [OF this] assms show ?thesis
    by (auto simp: core_ok_def active_ok_def episode_ok_def no_auto_def split: option.splits if_splits)
qed

lemma no_auto_Some: "map_of m a = Some c \<Longrightarrow> no_auto m a \<longleftrightarrow> \<not> cm_Auto c"
  by (simp add: no_auto_def)

section \<open>Pruning\<close>

lemma prune_candidates_iff:
  "(cid, t) \<in> set (prune_candidates s) \<longleftrightarrow>
    (\<exists>c. (cid, c) \<in> set (commands s) \<and> cm_CompletedAt c = Some t \<and> cid \<noteq> activeCommand s \<and>
      (\<forall>l. localShutdown s = Some l \<longrightarrow> ls_CommandID l \<noteq> cid))"
  by (force simp: prune_candidates_def split: option.splits)

definition prune_victims :: "Server \<Rightarrow> string list" where
  "prune_victims s =
    (let candidates = sort_key snd (prune_candidates s)
     in map fst (take (min (length (commands s) - maxRetainedCompletedCommands) (length candidates)) candidates))"

lemma prune_commands:
  "snd (pruneCompletedCommandsLocked s) =
    s\<lparr>commands := filter (\<lambda>(id, c). id \<notin> set (prune_victims s)) (commands s)\<rparr>"
proof (cases "length (commands s) \<le> maxRetainedCompletedCommands")
  case True
  then have "prune_victims s = []" by (simp add: prune_victims_def Let_def)
  with True show ?thesis by (simp add: pruneCompletedCommandsLocked_def case_prod_beta)
next
  case False
  then show ?thesis by (simp add: pruneCompletedCommandsLocked_def prune_victims_def Let_def)
qed

lemma prune_victims_exempt:
  "cid \<in> set (prune_victims s) \<Longrightarrow> cid \<noteq> activeCommand s \<and>
    (\<forall>l. localShutdown s = Some l \<longrightarrow> ls_CommandID l \<noteq> cid)"
  using prune_candidates_iff [of cid _ s]
  by (auto simp: prune_victims_def Let_def dest!: in_set_takeD)

lemma episode_ok_cong: "map_of m' a = map_of m a \<Longrightarrow> episode_ok m' a ep = episode_ok m a ep"
  by (simp add: episode_ok_def no_auto_def split: option.split)

lemma core_ok_delete:
  assumes "core_ok cf m a ep ls" and keep: "P a" "\<And>l. ls = Some l \<Longrightarrow> P (ls_CommandID l)"
  shows "core_ok cf (filter (\<lambda>(id, c). P id) m) a ep ls"
proof -
  let ?m = "filter (\<lambda>(id, c). P id) m"
  from assms have inv: "commands_inv m" by (simp add: core_ok_def)
  then have d: "distinct (map fst m)" by (simp add: commands_inv_def)
  have look: "map_of ?m k = map_of m k" if "P k" for k
    using map_of_filter_Some [OF d, of k _ "\<lambda>(id, c). P id"] map_of_filter_SomeD [OF d, of "\<lambda>(id, c). P id" k] that
    by (cases "map_of m k"; cases "map_of ?m k") auto
  show ?thesis
    using assms look [OF keep(2)] episode_ok_cong [OF look [OF keep(1)]] look [OF keep(1)]
      commands_inv_filter [OF inv, of "\<lambda>(id, c). P id"]
    by (simp add: core_ok_def active_ok_def local_ok_def local_state_ok_def)
qed

lemma core_prune: "core s \<Longrightarrow> core (snd (pruneCompletedCommandsLocked s))"
  using prune_victims_exempt [of _ s] by (auto simp: prune_commands intro!: core_ok_delete)

lemma prune_frame [simp]:
  "cfg (snd (pruneCompletedCommandsLocked s)) = cfg s"
  "registry (snd (pruneCompletedCommandsLocked s)) = registry s"
  "directory (snd (pruneCompletedCommandsLocked s)) = directory s"
  "shutdownIssued (snd (pruneCompletedCommandsLocked s)) = shutdownIssued s"
  "activeCommand (snd (pruneCompletedCommandsLocked s)) = activeCommand s"
  "episode (snd (pruneCompletedCommandsLocked s)) = episode s"
  "localShutdown (snd (pruneCompletedCommandsLocked s)) = localShutdown s"
  "upsConfirmed (snd (pruneCompletedCommandsLocked s)) = upsConfirmed s"
  "stateStore (snd (pruneCompletedCommandsLocked s)) = stateStore s"
  "nodeTokens (snd (pruneCompletedCommandsLocked s)) = nodeTokens s"
  "effects (snd (pruneCompletedCommandsLocked s)) = effects s"
  by (simp_all add: prune_commands)

lemma server_inv_prune: "server_inv s \<Longrightarrow> server_inv (snd (pruneCompletedCommandsLocked s))"
  using core_prune [of s] by (simp add: server_inv_def)

lemma server_inv_markTimedOut:
  assumes "server_inv s"
  shows "server_inv (markTimedOutCommands now s)"
proof -
  let ?m = "map (\<lambda>(cid, c). (cid, mark_command now cid c)) (commands s)"
  let ?s1 = "s\<lparr>commands := ?m\<rparr>"
  have core: "core ?s1" using core_mark server_inv_core [OF assms] by simp
  have "no_auto ?m (activeCommand s)" if "mark_releases now s"
    using that
    by (auto simp: mark_releases_def Let_def no_auto_def map_of_map_val mark_command_def split: option.splits if_splits)
  with core_release [of "cfg s" ?m "activeCommand s"] core
  have "mark_releases now s \<Longrightarrow> core_ok (cfg s) ?m [] (episode s) (localShutdown s)" by simp
  then have "server_inv (if mark_releases now s then ?s1\<lparr>activeCommand := [], shutdownIssued := False\<rparr> else ?s1)"
    using assms core by (simp add: server_inv_def)
  from server_inv_prune [OF this] show ?thesis
    by (auto simp: markTimedOutCommands_def Let_def case_prod_beta)
qed

section \<open>Acknowledgements\<close>

lemma ack_command_frame [simp]:
  "cm_Message (ack_command now u c) = cm_Message c"
  "cm_TargetNodes (ack_command now u c) = cm_TargetNodes c"
  "cm_NodeUpdates (ack_command now u c) = mput (ack_NodeID u) u (cm_NodeUpdates c)"
  "cm_TimeoutAt (ack_command now u c) = cm_TimeoutAt c"
  "cm_ReplayDisabled (ack_command now u c) = cm_ReplayDisabled c"
  "cm_Auto (ack_command now u c) = cm_Auto c"
  by (simp_all add: ack_command_def Let_def)

lemma evolves_ack:
  "command_inv cid c \<Longrightarrow> ack_CommandID u = cid \<Longrightarrow> ack_NodeID u \<in> set (cm_TargetNodes c) \<Longrightarrow>
    evolves cid c (ack_command now u c)"
  using mkeys_mput [of "ack_NodeID u" u "cm_NodeUpdates c"]
  by (auto simp: evolves_def command_inv_def distinct_update simp del: set_map)

text \<open>When an acknowledgement is recorded at all.\<close>

definition ack_accepted :: "ShutdownAckMessage \<Rightarrow> shutdownCommandState \<Rightarrow> bool" where
  "ack_accepted update c \<longleftrightarrow> ack_NodeID update \<in> set (cm_TargetNodes c) \<and>
     (\<forall>u. map_of (cm_NodeUpdates c) (ack_NodeID update) = Some u \<longrightarrow> \<not> isReplayDoneStatus (ack_Status u))"

lemma commandComplete_CompletedAt [simp]:
  "commandComplete (c\<lparr>cm_CompletedAt := t\<rparr>) = commandComplete c"
  "remoteShutdownFinished (c\<lparr>cm_CompletedAt := t\<rparr>) = remoteShutdownFinished c"
  "commandHasRepairableTimeout (c\<lparr>cm_CompletedAt := t\<rparr>) = commandHasRepairableTimeout c"
  "node_status (c\<lparr>cm_CompletedAt := t\<rparr>) = node_status c"
  by (simp_all add: commandComplete_def remoteShutdownFinished_def commandHasRepairableTimeout_def
      node_status_def fun_eq_iff)

lemma recordShutdownUpdateLocked_alt:
  "recordShutdownUpdateLocked now update s =
    (case map_of (commands s) (ack_CommandID update) of
       None \<Rightarrow> (False, s)
     | Some c \<Rightarrow> if ack_accepted update c
         then (ack_starts update (ack_command now update c) s,
           saveState (ack_state update (ack_command now update c) s)) else (False, s))"
  by (auto simp: recordShutdownUpdateLocked_def ack_accepted_def shouldReplaceShutdownUpdate_def Let_def
      split: option.splits)

lemma local_ok_trigger:
  "local_ok cf m ls \<Longrightarrow> tr \<noteq> [] \<Longrightarrow> local_ok cf m (map_option (\<lambda>l. l\<lparr>ls_Trigger := tr\<rparr>) ls)"
  by (cases ls) (auto simp: local_ok_def local_state_ok_def split: option.splits)

lemma server_inv_ack_state:
  assumes inv: "server_inv s" and c: "map_of (commands s) (ack_CommandID u) = Some c"
    and acc: "ack_accepted u c"
  shows "server_inv (ack_state u (ack_command now u c) s)"
proof -
  let ?c = "ack_command now u c" let ?m = "madjust (ack_CommandID u) (\<lambda>_. ?c) (commands s)"
  have cmds: "commands_inv (commands s)" using inv by (simp add: server_inv_def core_ok_def)
  have core: "core_ok (cfg s) ?m (activeCommand s) (episode s) (localShutdown s)"
    using acc c commands_inv_lookup [OF cmds c] server_inv_core [OF inv]
    by (intro core_ok_madjust) (auto simp: ack_accepted_def intro: evolves_ack)
  have "no_auto ?m (activeCommand s)" if "ack_releases u ?c s"
    using that c by (auto simp: ack_releases_def no_auto_def map_of_madjust)
  then have rel: "core_ok (cfg s) ?m [] (episode s) (localShutdown s)" if "ack_releases u ?c s"
    using core_release [OF core] that by blast
  have ls: "local_ok (cfg s) ?m (map_option (\<lambda>l. l\<lparr>ls_Trigger := TriggerRemoteComplete\<rparr>) (localShutdown s))"
    using core by (auto simp: core_ok_def intro: local_ok_trigger)
  show ?thesis
    using inv core rel core_with_local [OF core ls] core_with_local [OF rel ls]
    by (simp add: ack_state_def server_inv_def Let_def)
qed

lemma server_inv_recordUpdate:
  "server_inv s \<Longrightarrow> server_inv (snd (recordShutdownUpdateLocked now u s))"
  by (auto simp: recordShutdownUpdateLocked_alt intro!: server_inv_saveState server_inv_ack_state
      split: option.splits)

section \<open>Reset\<close>

lemma server_inv_upd:
  "server_inv s \<Longrightarrow> cfg s' = cfg s \<Longrightarrow> registry s' = registry s \<Longrightarrow> directory s' = directory s \<Longrightarrow>
    nodeTokens s' = nodeTokens s \<Longrightarrow> stateStore s' = stateStore s \<Longrightarrow> core s' \<Longrightarrow>
    shutdownIssued s' = (activeCommand s' \<noteq> []) \<Longrightarrow> server_inv s'"
  by (simp add: server_inv_def)

lemma core_released:
  assumes "commands_inv m" and "episode_ok m' a ep" and "\<And>e. ep' = Some e \<Longrightarrow> ep_CommandID e = []"
    and "\<And>e. ep' = Some e \<Longrightarrow> distinct (ep_FiredPolicies e)" and "local_ok cf m ls"
  shows "core_ok cf m [] ep' ls"
  using assms by (auto simp: core_ok_def active_ok_def episode_ok_def no_auto_Nil split: option.splits)

lemma episode_distinct: "server_inv s \<Longrightarrow> episode s = Some e \<Longrightarrow> distinct (ep_FiredPolicies e)"
  by (auto simp: server_inv_def core_ok_def episode_ok_def)

lemma server_inv_reset: "server_inv s \<Longrightarrow> server_inv (ResetActiveCommand s)"
proof -
  assume inv: "server_inv s"
  let ?d = "\<lambda>c. c\<lparr>cm_ReplayDisabled := True\<rparr>"
  let ?m1 = "madjust (activeCommand s) ?d (commands s)"
  let ?m = "case episode s of None \<Rightarrow> ?m1 | Some e \<Rightarrow> madjust (ep_CommandID e) ?d ?m1"
  let ?ep = "map_option (\<lambda>e. e\<lparr>ep_CommandID := []\<rparr>) (episode s)"
  let ?ls = "case localShutdown s of None \<Rightarrow> None
    | Some l \<Rightarrow> if ls_Phase l \<noteq> PhaseExecuting then None else Some l"
  have "commands_inv (commands s)" "local_ok (cfg s) (commands s) (localShutdown s)"
    using inv by (simp_all add: server_inv_def core_ok_def)
  then have m: "commands_inv ?m" and "local_ok (cfg s) ?m (localShutdown s)"
    by (auto intro!: commands_inv_disable local_ok_disable split: option.split)
  then have ls: "local_ok (cfg s) ?m ?ls" by (auto simp: local_ok_def split: option.splits if_splits)
  have "core_ok (cfg s) ?m [] ?ep ?ls"
    using inv episode_distinct [OF inv]
    by (intro core_released [OF m _ _ _ ls, of "commands s" "activeCommand s" "episode s"])
      (auto simp: server_inv_def core_ok_def)
  then show ?thesis
    unfolding ResetActiveCommand_def Let_def
    by (intro server_inv_saveState server_inv_upd [OF inv]) (auto split: option.split)
qed

section \<open>Replay on reconnect\<close>

lemma reopen_frame [simp]:
  "cm_Message (reopenCommandLocked now s c) = cm_Message c"
  "cm_TargetNodes (reopenCommandLocked now s c) = cm_TargetNodes c"
  "cm_NodeUpdates (reopenCommandLocked now s c) = cm_NodeUpdates c"
  "cm_ReplayDisabled (reopenCommandLocked now s c) = cm_ReplayDisabled c"
  "cm_Auto (reopenCommandLocked now s c) = cm_Auto c"
  "cm_CompletedAt (reopenCommandLocked now s c) = None"
  by (simp_all add: reopenCommandLocked_def Let_def)

lemma command_inv_widen:
  "command_inv cid c \<Longrightarrow> sm_CommandID (cm_Message c') = sm_CommandID (cm_Message c) \<Longrightarrow>
    set (cm_TargetNodes c) \<subseteq> set (cm_TargetNodes c') \<Longrightarrow> distinct (cm_TargetNodes c') \<Longrightarrow>
    [] \<notin> set (cm_TargetNodes c') \<Longrightarrow> cm_NodeUpdates c' = cm_NodeUpdates c \<Longrightarrow> command_inv cid c'"
  by (auto simp: command_inv_def)

lemma server_inv_adjust:
  assumes "server_inv s"
    and "\<And>c. map_of (commands s) cid = Some c \<Longrightarrow> command_inv cid c \<Longrightarrow> evolves cid c (f c)"
  shows "server_inv (s\<lparr>commands := madjust cid f (commands s)\<rparr>)"
  using assms by (auto simp: server_inv_def intro!: core_ok_madjust)

lemma evolves_adopt:
  "command_inv cid c \<Longrightarrow> n \<noteq> [] \<Longrightarrow>
    evolves cid c (reopenCommandLocked now s (c\<lparr>cm_TargetNodes := sput n (cm_TargetNodes c)\<rparr>))"
  by (auto simp: evolves_def command_inv_def intro!: command_inv_widen [of cid c])

lemma server_inv_replayable:
  assumes "server_inv s" and "cl_NodeID client \<noteq> []"
  shows "server_inv (snd (replayableShutdownForNode client now s))"
  using assms
  by (auto simp: replayableShutdownForNode_def Let_def split: option.split
      intro!: server_inv_saveState server_inv_adjust intro: evolves_adopt)

lemma server_inv_client_Send [simp]: "server_inv (snd (client_Send c m s)) = server_inv s"
  by (simp add: client_Send_def)

lemma server_inv_replayPending:
  "server_inv s \<Longrightarrow> cl_NodeID client \<noteq> [] \<Longrightarrow> server_inv (snd (replayPendingShutdown client now s))"
  using server_inv_replayable [of s client now]
  by (auto simp: replayPendingShutdown_def split: option.split prod.split)

section \<open>Episodes\<close>

lemma server_inv_episode:
  "server_inv s \<Longrightarrow> episode_ok (commands s) (activeCommand s) ep \<Longrightarrow> server_inv (s\<lparr>episode := ep\<rparr>)"
  by (simp add: server_inv_def core_ok_def)

lemma server_inv_startEpisode: "server_inv s \<Longrightarrow> server_inv (startEpisodeIfNeeded at s)"
  using server_inv_core [of s]
  by (auto simp: startEpisodeIfNeeded_def core_ok_def episode_ok_def
      intro!: server_inv_saveState server_inv_episode split: option.splits)

lemma local_ok_cleared:
  "local_ok cf m ls \<Longrightarrow> local_ok cf m (if b then None else ls)"
  by simp

text \<open>Ending the episode: its command is disabled and no longer active.\<close>

lemma core_closeEpisode:
  assumes inv: "server_inv s" and ep: "episode s = Some e"
  shows "server_inv (closeEpisode e s)"
proof (cases "map_of (commands s) (ep_CommandID e)")
  case None
  with episode_command [OF inv ep] have "ep_CommandID e = []" by simp
  then have "core_ok (cfg s) (commands s) (activeCommand s) None ls" if "local_ok (cfg s) (commands s) ls" for ls
    using inv ep that by (simp add: server_inv_def core_ok_def episode_ok_def)
  then show ?thesis
    using None inv server_inv_core [OF inv]
    by (intro server_inv_upd [OF inv]) (auto simp: closeEpisode_def Let_def server_inv_def core_ok_def)
next
  case (Some c)
  with episode_command_Some [OF inv ep] have a: "activeCommand s = ep_CommandID e" by simp
  let ?m = "madjust (ep_CommandID e) (\<lambda>c. c\<lparr>cm_ReplayDisabled := True\<rparr>) (commands s)"
  have m: "commands_inv ?m" and ls: "local_ok (cfg s) ?m (localShutdown s)"
    using inv by (auto simp: server_inv_def core_ok_def intro: commands_inv_disable local_ok_disable)
  from inv have epok: "episode_ok (commands s) (activeCommand s) (episode s)"
    by (simp add: server_inv_def core_ok_def)
  have "core_ok (cfg s) ?m [] None ls" if "local_ok (cfg s) ?m ls" for ls
    by (rule core_released [OF m epok _ _ that]) simp_all
  with ls show ?thesis
    using Some a by (intro server_inv_upd [OF inv]) (simp_all add: closeEpisode_def Let_def)
qed

lemma server_inv_release:
  "server_inv s \<Longrightarrow> no_auto (commands s) (activeCommand s) \<Longrightarrow>
    server_inv (s\<lparr>activeCommand := [], shutdownIssued := False\<rparr>)"
  by (auto simp: server_inv_def intro: core_release)

lemma server_inv_endEpisode: "server_inv s \<Longrightarrow> server_inv (endEpisodeOnLinePower s)"
proof -
  assume inv: "server_inv s"
  let ?s1 = "case episode s of None \<Rightarrow> s | Some e \<Rightarrow> closeEpisode e s"
  have inv1: "server_inv ?s1"
    using inv core_closeEpisode by (auto split: option.split)
  then have "server_inv (?s1\<lparr>activeCommand := [], shutdownIssued := False\<rparr>)"
    if "map_of (commands ?s1) (activeCommand ?s1) = Some c" "\<not> cm_Auto c" for c
    using that by (intro server_inv_release) (simp_all add: no_auto_def)
  with inv1 show ?thesis
    unfolding endEpisodeOnLinePower_def Let_def
    by (auto intro!: server_inv_saveState split: option.splits)
qed

lemma server_inv_matchSince:
  "server_inv s \<Longrightarrow> episode s = Some e \<Longrightarrow> server_inv (s\<lparr>episode := Some (e\<lparr>ep_matchSince := ms\<rparr>)\<rparr>)"
  by (auto simp: core_ok_def episode_ok_def server_inv_def)

lemma server_inv_policiesLocked:
  "server_inv s \<Longrightarrow> server_inv (fst (evaluateEpisodePoliciesLocked reading now s))"
  by (auto simp: evaluateEpisodePoliciesLocked_def Let_def server_inv_matchSince split: option.split prod.split)

text \<open>
  Superseding leaves no active command, keeps the episode and the ids in use, and does not
  touch the automatic commands.
\<close>

lemma supersede_frame [simp]:
  "cfg (supersedeManualCommandLocked s) = cfg s"
  "registry (supersedeManualCommandLocked s) = registry s"
  "directory (supersedeManualCommandLocked s) = directory s"
  "episode (supersedeManualCommandLocked s) = episode s"
  "nodeTokens (supersedeManualCommandLocked s) = nodeTokens s"
  "stateStore (supersedeManualCommandLocked s) = stateStore s"
  "effects (supersedeManualCommandLocked s) = effects s"
  "upsConfirmed (supersedeManualCommandLocked s) = upsConfirmed s"
  "mkeys (commands (supersedeManualCommandLocked s)) = mkeys (commands s)"
  by (simp_all add: supersedeManualCommandLocked_def Let_def split: option.split)

lemma supersede_parts:
  assumes inv: "server_inv s"
  shows "commands_inv (commands (supersedeManualCommandLocked s))"
    and "local_ok (cfg s) (commands (supersedeManualCommandLocked s))
      (localShutdown (supersedeManualCommandLocked s))"
proof -
  let ?m = "madjust (activeCommand s) (\<lambda>c. c\<lparr>cm_ReplayDisabled := True\<rparr>) (commands s)"
  have c: "commands_inv (commands s)" and l: "local_ok (cfg s) (commands s) (localShutdown s)"
    using inv by (simp_all add: server_inv_def core_ok_def)
  with commands_inv_disable [OF c] local_ok_disable [OF l]
  show "commands_inv (commands (supersedeManualCommandLocked s))"
    and "local_ok (cfg s) (commands (supersedeManualCommandLocked s))
      (localShutdown (supersedeManualCommandLocked s))"
    by (auto simp: supersedeManualCommandLocked_def Let_def split: option.split)
qed

section \<open>Policies that fire\<close>

lemma adopt_clients_props:
  "adopt_clients cs ts = (adopted, ts') \<Longrightarrow>
    set ts' = set ts \<union> cl_NodeID ` set cs \<and> distinct ts' = distinct ts \<and>
    set adopted \<subseteq> set cs \<and> (\<forall>c \<in> set adopted. cl_NodeID c \<notin> set ts) \<and>
    cl_NodeID ` set adopted = cl_NodeID ` set cs - set ts"
proof (induction cs ts arbitrary: adopted ts' rule: adopt_clients.induct)
  case (2 c cs ts)
  show ?case
  proof (cases "cl_NodeID c \<in> set ts")
    case True
    with 2 show ?thesis by auto
  next
    case False
    then obtain a where a: "adopt_clients cs (sput (cl_NodeID c) ts) = (a, ts')" "adopted = c # a"
      using "2.prems" by (auto split: prod.splits)
    from "2.IH"(2) [OF False a(1)] a(2) False show ?thesis by auto
  qed
qed simp

lemma set_reg_List: "registry_inv r \<Longrightarrow> c \<in> set (reg_List r) \<Longrightarrow> cl_NodeID c \<noteq> []"
  by (auto simp: registry_inv_def reg_List_def)

lemma set_selectTargets:
  "c \<in> set (selectTargets t s) \<longleftrightarrow>
    c \<in> set (reg_List (registry s)) \<and> targetMatchesNode t (cl_NodeID c) (slice (cl_Tags c))"
  by (auto simp: selectTargets_def)

lemma adoptMatching_props:
  assumes "adoptMatchingClientsLocked c now s = (adopted, c')"
  shows "cm_Message c' = cm_Message c" "cm_NodeUpdates c' = cm_NodeUpdates c"
    "cm_Auto c' = cm_Auto c" "cm_ReplayDisabled c' = cm_ReplayDisabled c"
    "set (cm_TargetNodes c') = set (cm_TargetNodes c) \<union>
       cl_NodeID ` set (selectTargets (sm_Target (cm_Message c)) s)"
    "distinct (cm_TargetNodes c') = distinct (cm_TargetNodes c)"
    "cl_NodeID ` set adopted =
       cl_NodeID ` set (selectTargets (sm_Target (cm_Message c)) s) - set (cm_TargetNodes c)"
    "set adopted \<subseteq> set (selectTargets (sm_Target (cm_Message c)) s)"
    "cm_CompletedAt c' = (if adopted = [] then cm_CompletedAt c else None)"
  using assms adopt_clients_props [of "selectTargets (sm_Target (cm_Message c)) s" "cm_TargetNodes c"]
  by (auto simp: adoptMatchingClientsLocked_def Let_def split: prod.splits if_splits)

lemma command_inv_adoptMatching:
  assumes "command_inv cid c" and "registry_inv (registry s)"
    and "adoptMatchingClientsLocked c now s = (adopted, c')"
  shows "command_inv cid c'"
proof (rule command_inv_widen [OF assms(1)])
  show "[] \<notin> set (cm_TargetNodes c')"
    using assms(1) set_reg_List [OF assms(2)]
    by (auto simp: adoptMatching_props [OF assms(3)] command_inv_def set_selectTargets eq_commute [of "[]"])
qed (use assms(1) in \<open>auto simp: adoptMatching_props [OF assms(3)] command_inv_def\<close>)

text \<open>Widening the episode command.\<close>

lemma server_inv_widen:
  assumes inv: "server_inv s" and c: "map_of (commands s) cid = Some existing"
    and w: "widenEpisodeCommand existing target reason now s = (c2, toSend, s2)"
  shows "server_inv s2 \<and> map_of (commands s2) cid = Some c2 \<and> episode s2 = episode s \<and>
    activeCommand s2 = activeCommand s \<and> shutdownIssued s2 = shutdownIssued s"
proof -
  let ?m = "cm_Message existing"
  let ?c1 = "existing\<lparr>cm_Message := ?m\<lparr>sm_Target := mergeShutdownTargets (sm_Target ?m) target,
    sm_Reason := sm_Reason ?m @ ''; '' @ reason\<rparr>\<rparr>"
  let ?s1 = "s\<lparr>commands := madjust cid (\<lambda>_. c2) (commands s)\<rparr>"
  have ci: "command_inv cid existing" and reg: "registry_inv (registry s)"
    using inv c by (auto simp: server_inv_def core_ok_def dest: commands_inv_lookup)
  then have cid: "sm_CommandID ?m = cid" by (simp add: command_inv_def)
  from w have ad: "adoptMatchingClientsLocked ?c1 now s = (toSend, c2)"
    and s2: "s2 = ?s1 \<or> s2 = armLocalShutdownLocked c2 now ?s1"
    by (auto simp: widenEpisodeCommand_def Let_def cid split: prod.splits if_splits)
  have "command_inv cid ?c1" using ci by (simp add: command_inv_def)
  from command_inv_adoptMatching [OF this reg ad] have "evolves cid existing c2"
    by (simp add: evolves_def adoptMatching_props [OF ad])
  then have inv1: "server_inv ?s1" using c by (intro server_inv_adjust [OF inv]) auto
  have look: "map_of (commands ?s1) cid = Some c2" using c by (simp add: map_of_madjust)
  have "core (armLocalShutdownLocked c2 now ?s1)"
    by (rule core_arm [OF server_inv_core [OF inv1], where c' = c2])
      (simp_all add: adoptMatching_props [OF ad] cid look [simplified])
  then have "server_inv (armLocalShutdownLocked c2 now ?s1)"
    using inv1 by (intro server_inv_upd [OF inv1]) (simp_all add: server_inv_def)
  with inv1 look s2 show ?thesis by auto
qed

lemma server_inv_create:
  assumes inv: "server_inv s" and ep: "episode s = Some e" and cid: "cid \<noteq> []"
    and fresh: "cid \<notin> set (mkeys (commands s))"
    and w: "createEpisodeCommand e target reason now cid s = (c, toSend, s2)"
  shows "core s2 \<and> activeCommand s2 = cid \<and> episode s2 = Some (e\<lparr>ep_CommandID := cid\<rparr>) \<and>
    cfg s2 = cfg s \<and> registry s2 = registry s \<and> directory s2 = directory s \<and>
    nodeTokens s2 = nodeTokens s \<and> stateStore s2 = stateStore s \<and>
    map_of (commands s2) cid = Some c"
proof -
  let ?s0 = "supersedeManualCommandLocked s"
  let ?s1 = "?s0\<lparr>commands := mput cid c (commands ?s0), activeCommand := cid,
    episode := Some (e\<lparr>ep_CommandID := cid\<rparr>), lastNodeRetryAt := now\<rparr>"
  from w have ci: "command_inv cid c" and c: "cm_Auto c" "\<not> cm_ReplayDisabled c" "sm_CommandID (cm_Message c) = cid"
    using cid by (auto simp: createEpisodeCommand_def Let_def intro!: command_inv_new)
  from w have s2: "s2 = ?s1 \<or> s2 = armLocalShutdownLocked c now ?s1"
    by (auto simp: createEpisodeCommand_def Let_def split: if_splits)
  have "commands_inv (mput cid c (commands ?s0))"
    using supersede_parts(1) [OF inv] ci by (rule commands_inv_mput)
  moreover have "map_of (commands ?s0) cid = None"
    using fresh by (simp add: map_of_None_keys flip: set_map)
  then have "local_ok (cfg s) (mput cid c (commands ?s0)) (localShutdown ?s0)"
    using supersede_parts(2) [OF inv] cid
    by (auto simp: local_ok_def local_state_ok_def split: option.splits)
  ultimately have core: "core ?s1"
    using c cid episode_distinct [OF inv ep]
    by (simp add: core_ok_def active_ok_def episode_ok_def)
  moreover have "core (armLocalShutdownLocked c now ?s1)"
    by (rule core_arm [OF core, where c' = c]) (simp_all add: c)
  ultimately show ?thesis using s2 by auto
qed

lemma episode_ok_fired:
  "episode_ok m a (Some e) \<Longrightarrow> distinct names \<Longrightarrow> set names \<inter> set (ep_FiredPolicies e) = {} \<Longrightarrow>
    episode_ok m a (Some (e\<lparr>ep_FiredPolicies := ep_FiredPolicies e @ names\<rparr>))"
  by (auto simp: episode_ok_def)

lemma server_inv_fire:
  assumes "core s" and "episode s = Some e" and "activeCommand s \<noteq> []" and "distinct names"
    and "set names \<inter> set (ep_FiredPolicies e) = {}"
    and "registry_inv (registry s)" "directory_inv (directory s)" "tokens_ok (nodeTokens s)"
      "disk_ok (cfg s) (stateStore s)"
  shows "server_inv (s\<lparr>episode := map_option (\<lambda>e. e\<lparr>ep_FiredPolicies := ep_FiredPolicies e @ names\<rparr>) (episode s),
    shutdownIssued := True\<rparr>)"
  using assms by (auto simp: server_inv_def core_ok_def intro: episode_ok_fired)

lemma server_inv_apply:
  assumes inv: "server_inv s" and cid: "cid \<noteq> []" "cid \<notin> set (mkeys (commands s))"
    and names: "distinct (pm_Names pm)"
  shows "server_inv (applyPolicyMatch pm now cid s)"
proof (cases "episode s")
  case None
  with inv show ?thesis by (simp add: applyPolicyMatch_def)
next
  case (Some e)
  let ?fired = "filter (\<lambda>name. name \<notin> set (ep_FiredPolicies e)) (pm_Names pm)"
  let ?reason = "buildPolicyReason (mc_ShutdownPolicies (cfg s)) ?fired"
  let ?target = "policy_Target pm"
  have d: "distinct ?fired" "set ?fired \<inter> set (ep_FiredPolicies e) = {}" using names by auto
  obtain c toSend s1 where r: "(case map_of (commands s) (ep_CommandID e) of
      Some existing \<Rightarrow> widenEpisodeCommand existing ?target ?reason now s
    | None \<Rightarrow> createEpisodeCommand e ?target ?reason now cid s) = (c, toSend, s1)"
    by (metis prod_cases3)
  have "server_inv (s1\<lparr>episode := map_option
      (\<lambda>e. e\<lparr>ep_FiredPolicies := ep_FiredPolicies e @ ?fired\<rparr>) (episode s1), shutdownIssued := True\<rparr>)"
  proof (cases "map_of (commands s) (ep_CommandID e)")
    case None
    with r have "createEpisodeCommand e ?target ?reason now cid s = (c, toSend, s1)" by simp
    from server_inv_create [OF inv Some cid this] inv cid d show ?thesis
      by (intro server_inv_fire [where e = "e\<lparr>ep_CommandID := cid\<rparr>"]) (auto simp: server_inv_def)
  next
    case ex: (Some existing)
    with r have "widenEpisodeCommand existing ?target ?reason now s = (c, toSend, s1)" by simp
    from server_inv_widen [OF inv ex this] episode_command_Some [OF inv Some ex] Some d show ?thesis
      using commands_inv_nonempty [of "commands s1"]
      by (intro server_inv_fire) (auto simp: server_inv_def core_ok_def)
  qed
  then show ?thesis
    using inv by (auto simp: applyPolicyMatch_def Some r Let_def)
qed

section \<open>Retries\<close>

lemma server_inv_retry: "server_inv s \<Longrightarrow> server_inv (retryEpisodeShutdown now s)"
proof -
  assume inv: "server_inv s"
  have reg: "registry_inv (registry s)" using inv by (simp add: server_inv_def)
  have "server_inv (s\<lparr>lastNodeRetryAt := now,
      commands := madjust (ep_CommandID e) (\<lambda>_. reopenCommandLocked now s c1) (commands s)\<rparr>)"
    if c: "map_of (commands s) (ep_CommandID e) = Some c"
      and ad: "adoptMatchingClientsLocked c now s = (adopted, c1)" for e c c1 adopted
  proof -
    have "command_inv (ep_CommandID e) c"
      using inv c by (auto simp: server_inv_def core_ok_def dest: commands_inv_lookup)
    from command_inv_adoptMatching [OF this reg ad]
    have "evolves (ep_CommandID e) c (reopenCommandLocked now s c1)"
      by (auto simp: evolves_def adoptMatching_props [OF ad] command_inv_def)
    then have "server_inv (s\<lparr>commands := madjust (ep_CommandID e) (\<lambda>_. reopenCommandLocked now s c1) (commands s)\<rparr>)"
      using c by (intro server_inv_adjust [OF inv]) auto
    then show ?thesis by (simp add: server_inv_def)
  qed
  with inv show ?thesis
    by (auto simp: retryEpisodeShutdown_def Let_def intro!: server_inv_saveState split: option.split prod.split)
qed

end
