(* ===== verification/State.thy ===== *)
theory State
  imports CoreSteps
begin

text \<open>
  \<open>loadState\<close> of \<open>internal/master/state.go\<close> and \<open>NewServer\<close> of \<open>internal/master/server.go\<close>:
  starting the master from its state file.
\<close>

section \<open>Definitions\<close>

text \<open>
  What reading and decoding the state file gives. A file that cannot be used is renamed;
  \<open>renamed\<close> tells whether that worked.
\<close>

datatype state_file = NoFile | Unusable bool | Decoded persistedState

definition normalizeLoadedLocalShutdown :: "Server \<Rightarrow> Server" where
  "normalizeLoadedLocalShutdown s =
    (case localShutdown s of
       None \<Rightarrow> s\<lparr>localShutdown := None\<rparr>
     | Some l \<Rightarrow>
        if \<not> lc_Enabled (mc_LocalShutdown (cfg s)) then s\<lparr>localShutdown := None\<rparr>
        else if ls_Phase l \<notin> set resumable_phases then s\<lparr>localShutdown := None\<rparr>
        else if ls_CommandID l = [] then
          (if (case episode s of None \<Rightarrow> True | Some e \<Rightarrow> ep_CommandID e \<noteq> [])
           then s\<lparr>localShutdown := None\<rparr> else s)
        else (case map_of (commands s) (ls_CommandID l) of
            None \<Rightarrow> s\<lparr>localShutdown := None\<rparr>
          | Some c \<Rightarrow> if cm_ReplayDisabled c then s\<lparr>localShutdown := None\<rparr> else s))"

definition loadState :: "state_file \<Rightarrow> Server \<Rightarrow> Server" where
  "loadState content s =
    (if mc_StateFile (cfg s) = [] then s
     else case content of
       NoFile \<Rightarrow> s
     | Unusable renamed \<Rightarrow> s
     | Decoded state \<Rightarrow>
        let s1 = normalizeLoadedLocalShutdown (s\<lparr>commands := ps_Commands state,
              activeCommand := ps_ActiveCommand state, episode := ps_Episode state,
              localShutdown := persistedLocalShutdownState (ps_LocalShutdown state),
              shutdownIssued := (ps_ActiveCommand state \<noteq> [])\<rparr>)
        in s1\<lparr>directory := dir_replaceAll (ps_Nodes state) (directory s1), nodeTokens := ps_NodeTokens state\<rparr>)"

text \<open>What is on disk once the file has been read: an unusable file was moved away.\<close>

definition file_of_disk :: "persistedState option \<Rightarrow> state_file" where
  "file_of_disk d = (case d of None \<Rightarrow> NoFile | Some p \<Rightarrow> Decoded p)"

definition disk_of_file :: "state_file \<Rightarrow> persistedState option" where
  "disk_of_file content = (case content of Decoded p \<Rightarrow> Some p | _ \<Rightarrow> None)"

text \<open>
  \<open>NewServer\<close>: \<open>now\<close> is the clock, \<open>H\<close> is \<open>security.HashToken\<close>, and \<open>wok\<close> and \<open>sok\<close> are the
  environment's answers to writes and sends.
\<close>

definition empty_server ::
  "MasterConfig \<Rightarrow> time \<Rightarrow> (string \<Rightarrow> string) \<Rightarrow> (nat \<Rightarrow> bool) \<Rightarrow> (nat \<Rightarrow> bool) \<Rightarrow> state_file \<Rightarrow> Server" where
  "empty_server c now H wok sok content =
    \<lparr>cfg = c, registry = NewRegistry, directory = NewNodeDirectory, shutdownIssued = False,
     ready = False, upsConfirmed = False, startedAt = now, commands = [], activeCommand = [],
     episode = None, lastNodeRetryAt = 0, localShutdown = None, localCommandReady = None,
     upsStatus = None, upsMissingWarned = [],
     stateStore = \<lparr>persistSeq = 0, persistedSeq = 0, disk = disk_of_file content\<rparr>,
     conns = [], nodeTokens = [], enrollmentHashes = hashTokens H (mc_EnrollmentTokens c),
     hashToken = H, writeOK = wok, sendOK = sok, effects = []\<rparr>"

definition NewServer ::
  "MasterConfig \<Rightarrow> time \<Rightarrow> (string \<Rightarrow> string) \<Rightarrow> (nat \<Rightarrow> bool) \<Rightarrow> (nat \<Rightarrow> bool) \<Rightarrow> state_file \<Rightarrow> Server" where
  "NewServer c now H wok sok content =
    (let s = empty_server c now H wok sok content;
         s1 = (if upsTarget s \<noteq> []
               then s\<lparr>upsStatus := Some (empty_view\<lparr>uv_Source := upsSource s, uv_Target := upsTarget s\<rparr>)\<rparr>
               else s)
     in loadState content s1)"

section \<open>A started master satisfies the invariant\<close>

lemma normalize_frame [simp]:
  "cfg (normalizeLoadedLocalShutdown s) = cfg s"
  "registry (normalizeLoadedLocalShutdown s) = registry s"
  "directory (normalizeLoadedLocalShutdown s) = directory s"
  "shutdownIssued (normalizeLoadedLocalShutdown s) = shutdownIssued s"
  "ready (normalizeLoadedLocalShutdown s) = ready s"
  "upsConfirmed (normalizeLoadedLocalShutdown s) = upsConfirmed s"
  "startedAt (normalizeLoadedLocalShutdown s) = startedAt s"
  "commands (normalizeLoadedLocalShutdown s) = commands s"
  "activeCommand (normalizeLoadedLocalShutdown s) = activeCommand s"
  "episode (normalizeLoadedLocalShutdown s) = episode s"
  "lastNodeRetryAt (normalizeLoadedLocalShutdown s) = lastNodeRetryAt s"
  "upsStatus (normalizeLoadedLocalShutdown s) = upsStatus s"
  "stateStore (normalizeLoadedLocalShutdown s) = stateStore s"
  "nodeTokens (normalizeLoadedLocalShutdown s) = nodeTokens s"
  "hashToken (normalizeLoadedLocalShutdown s) = hashToken s"
  "effects (normalizeLoadedLocalShutdown s) = effects s"
  by (auto simp: normalizeLoadedLocalShutdown_def split: option.split)

lemma normalize_local:
  "localShutdown (normalizeLoadedLocalShutdown s) = None \<or>
    localShutdown (normalizeLoadedLocalShutdown s) = localShutdown s"
  by (auto simp: normalizeLoadedLocalShutdown_def split: option.split)

lemma core_normalize: "core s \<Longrightarrow> core (normalizeLoadedLocalShutdown s)"
  using normalize_local [of s] by (auto simp: core_ok_def)

lemma empty_server_simps [simp]:
  "cfg (empty_server c now H wok sok f) = c" "registry (empty_server c now H wok sok f) = NewRegistry"
  "directory (empty_server c now H wok sok f) = NewNodeDirectory"
  "commands (empty_server c now H wok sok f) = []" "activeCommand (empty_server c now H wok sok f) = []"
  "episode (empty_server c now H wok sok f) = None"
  "localShutdown (empty_server c now H wok sok f) = None"
  "shutdownIssued (empty_server c now H wok sok f) = False"
  "upsConfirmed (empty_server c now H wok sok f) = False"
  "nodeTokens (empty_server c now H wok sok f) = []"
  "effects (empty_server c now H wok sok f) = []"
  "stateStore (empty_server c now H wok sok f) = \<lparr>persistSeq = 0, persistedSeq = 0, disk = disk_of_file f\<rparr>"
  by (simp_all add: empty_server_def)

lemma server_inv_NewServer:
  assumes "disk_ok c \<lparr>persistSeq = 0, persistedSeq = 0, disk = disk_of_file content\<rparr>"
  shows "server_inv (NewServer c now H wok sok content)"
proof (cases "mc_StateFile c = []")
  case True
  then show ?thesis
    using assms
    by (auto simp: NewServer_def loadState_def Let_def server_inv_def core_ok_def commands_inv_def active_ok_def
        episode_ok_def no_auto_def registry_inv_def NewRegistry_def directory_inv_New tokens_ok_def)
next
  case False
  show ?thesis
  proof (cases content)
    case (Decoded p)
    let ?st = "\<lparr>persistSeq = 0, persistedSeq = 0, disk = Some p\<rparr>"
    have p: "core_ok c (ps_Commands p) (ps_ActiveCommand p) (ps_Episode p) (ps_LocalShutdown p)"
      "directory_inv (ps_Nodes p)" "tokens_ok (ps_NodeTokens p)" and d: "disk_ok c ?st"
      using assms Decoded by (auto simp: disk_ok_def disk_of_file_def)
    let ?load = "\<lambda>s :: Server. s\<lparr>commands := ps_Commands p, activeCommand := ps_ActiveCommand p, episode := ps_Episode p,
      localShutdown := persistedLocalShutdownState (ps_LocalShutdown p),
      shutdownIssued := (ps_ActiveCommand p \<noteq> [])\<rparr>"
    have "core (normalizeLoadedLocalShutdown (?load s))" if "cfg s = c" for s
      using p(1) that by (intro core_normalize) (simp add: core_ok_def local_ok_persisted)
    note core = this [unfolded core_ok_def, simplified]
    then show ?thesis
      using False Decoded p d
      by (simp add: NewServer_def loadState_def Let_def server_inv_def core_ok_def registry_inv_def
          NewRegistry_def replaceAll_id disk_of_file_def)
  qed (use assms in \<open>auto simp: NewServer_def loadState_def Let_def server_inv_def core_ok_def commands_inv_def
      active_ok_def episode_ok_def no_auto_def registry_inv_def NewRegistry_def directory_inv_New tokens_ok_def\<close>)
qed

section \<open>Restart\<close>

text \<open>
  The local shutdown a restart resumes: one that was still pending and whose command was not
  reset; an emergency without a command only while its episode has none either.
\<close>

definition resumed_local :: "Server \<Rightarrow> localShutdownState option" where
  "resumed_local s =
    (case localShutdown s of
       None \<Rightarrow> None
     | Some l \<Rightarrow>
        if ls_Phase l \<in> set resumable_phases \<and>
           (if ls_CommandID l = [] then (case episode s of None \<Rightarrow> False | Some e \<Rightarrow> ep_CommandID e = [])
            else (case map_of (commands s) (ls_CommandID l) of None \<Rightarrow> False | Some c \<Rightarrow> \<not> cm_ReplayDisabled c))
        then Some l else None)"

lemma disk_saveState:
  "mc_StateFile (cfg s) \<noteq> [] \<Longrightarrow> writeOK s (Suc (persistSeq (stateStore s))) \<Longrightarrow>
    persistedSeq (stateStore s) \<le> persistSeq (stateStore s) \<Longrightarrow>
    disk (stateStore (saveState s)) = Some (persisted_of s)"
  by (simp add: stateStore_saveState disk_store_write)

lemma local_after_load:
  assumes "server_inv s"
    and "cfg t = cfg s" "commands t = commands s" "episode t = persistedEpisode (episode s)"
    and "localShutdown t = persistedLocalShutdownState (persistedLocalShutdownState (localShutdown s))"
  shows "localShutdown (normalizeLoadedLocalShutdown t) = resumed_local s"
  using assms local_state_ok_lookup [OF assms(1)]
  by (auto simp: normalizeLoadedLocalShutdown_def resumed_local_def persistedLocalShutdownState_def
      persistedEpisode_def local_state_ok_def split: option.split)

text \<open>
  C16. A restart from a state file that was just saved brings back every command, the active
  command, the episode with its fired policies and its powered-off mark, the node directory,
  the node tokens and a local shutdown that was still pending; what it does not trust is the
  UPS: \<open>upsConfirmed\<close> is down, no debounce timer and no connection survives.
\<close>

theorem restart_restores_saved_state:
  assumes "server_inv s" and "mc_StateFile (cfg s) \<noteq> []"
    and "writeOK s (Suc (persistSeq (stateStore s)))"
    and "persistedSeq (stateStore s) \<le> persistSeq (stateStore s)"
    and "s' = NewServer (cfg s) now H wok sok (file_of_disk (disk (stateStore (saveState s))))"
  shows "commands s' = commands s \<and> activeCommand s' = activeCommand s \<and>
    shutdownIssued s' = shutdownIssued s \<and>
    episode s' = map_option (\<lambda>e. e\<lparr>ep_matchSince := []\<rparr>) (episode s) \<and>
    localShutdown s' = resumed_local s \<and> directory s' = directory s \<and> nodeTokens s' = nodeTokens s \<and>
    registry s' = [] \<and> upsConfirmed s' = False"
proof -
  have dir: "directory_inv (directory s)" and issued: "shutdownIssued s = (activeCommand s \<noteq> [])"
    using assms(1) by (simp_all add: server_inv_def)
  have disk: "disk (stateStore (saveState s)) = Some (persisted_of s)"
    using assms(2-4) by (rule disk_saveState)
  show ?thesis
    unfolding assms(5) disk NewServer_def loadState_def file_of_disk_def
    using assms(2) dir issued local_after_load [OF assms(1)]
    by (simp add: Let_def persisted_of_def replaceAll_id snapshotForPersist_id NewRegistry_def persistedEpisode_def)
qed

text \<open>A master restarts while a command it issued is outstanding.\<close>

definition example_request :: ShutdownRequest where
  "example_request = \<lparr>rq_Reason = [], rq_NodeIDs = [''web''], rq_Tags = [], rq_DryRun = None,
     rq_TimeoutSeconds = Some 60\<rparr>"

definition issued_server :: Server where
  "issued_server = snd (TriggerShutdown example_request 5 ''c1'' example_server)"

lemma issued_server_inv: "server_inv issued_server"
  unfolding issued_server_def by (rule server_inv_Trigger [OF example_inv]) (simp_all add: example_defs)

theorem restart_restores_saved_state_witness:
  "activeCommand (NewServer (cfg issued_server) 7 id (\<lambda>_. True) (\<lambda>_. True)
     (file_of_disk (disk (stateStore (saveState issued_server))))) = ''c1''"
proof -
  have "mc_StateFile (cfg issued_server) \<noteq> []" "writeOK issued_server (Suc (persistSeq (stateStore issued_server)))"
    "persistedSeq (stateStore issued_server) \<le> persistSeq (stateStore issued_server)"
    "activeCommand issued_server = ''c1''"
    by (simp_all add: issued_server_def TriggerShutdown_def request_timeout_def manual_message_def example_request_def
        example_defs maxManualTimeoutSeconds_def selectTargets_def targetMatchesNode_def reg_List_def Let_def
        armLocalShutdownLocked_def case_prod_beta stateStore_saveState persistedSeq_store_write)
  with restart_restores_saved_state [OF issued_server_inv _ _ _ refl] show ?thesis by simp
qed

end
