(* ===== verification/Enrollment.thy ===== *)
theory Enrollment
  imports State
begin

text \<open>
  \<open>internal/master/enrollment.go\<close>: per-node tokens. Only digests are stored; \<open>hashToken s\<close> is
  \<open>security.HashToken\<close> and random bytes are arguments.
\<close>

section \<open>Definitions\<close>

definition nodeTokenBytes :: nat where "nodeTokenBytes = 32"

text \<open>\<open>rnd\<close> is what \<open>rand.Read\<close> puts in the buffer of \<open>nodeTokenBytes\<close> bytes.\<close>

definition newNodeToken :: "string \<Rightarrow> string" where
  "newNodeToken rnd = hex_encode rnd"

datatype auth_error = errInvalidToken | errEnrollmentClosed

definition auth_message :: "auth_error \<Rightarrow> string" where
  "auth_message e = (case e of errInvalidToken \<Rightarrow> ''invalid token'' | errEnrollmentClosed \<Rightarrow> ''enrollment closed'')"

text \<open>The result is the token issued and the digest the decision rests on.\<close>

definition authenticateNode ::
  "string \<Rightarrow> string \<Rightarrow> string \<Rightarrow> Server \<Rightarrow> auth_error + (string \<times> string)" where
  "authenticateNode nodeID token rnd s =
    (case map_of (nodeTokens s) nodeID of
       Some hash \<Rightarrow>
         if \<not> MatchToken (hashToken s) [hash] token then Inl errInvalidToken else Inr ([], hash)
     | None \<Rightarrow>
         if mc_Enrollment (cfg s) = EnrollmentClosed then Inl errEnrollmentClosed
         else if \<not> MatchToken (hashToken s) (enrollmentHashes s) token then Inl errInvalidToken
         else Inr (newNodeToken rnd, []))"

text \<open>A lookup of a missing key gives Go's zero value.\<close>

definition token_hash :: "string \<Rightarrow> Server \<Rightarrow> string" where
  "token_hash nodeID s = (case map_of (nodeTokens s) nodeID of None \<Rightarrow> [] | Some h \<Rightarrow> h)"

definition registry_Set :: "Client \<Rightarrow> Server \<Rightarrow> Server" where
  "registry_Set client s =
    (case reg_Set client (registry s) of (r, closed) \<Rightarrow> emit (map Closed closed) (s\<lparr>registry := r\<rparr>))"

definition registerIfTokenUnchanged :: "Client \<Rightarrow> string \<Rightarrow> Server \<Rightarrow> bool \<times> Server" where
  "registerIfTokenUnchanged client tokenHash s =
    (if token_hash (cl_NodeID client) s \<noteq> tokenHash then (False, s) else (True, registry_Set client s))"

definition saveStateForDirectoryChange :: "Server \<Rightarrow> Server" where
  "saveStateForDirectoryChange s = saveState s"

definition confirmIssuedToken :: "string \<Rightarrow> string \<Rightarrow> Server \<Rightarrow> bool \<times> Server" where
  "confirmIssuedToken nodeID token s =
    (case map_of (nodeTokens s) nodeID of
       Some _ \<Rightarrow> (False, s)
     | None \<Rightarrow> (True, saveStateForDirectoryChange
         (s\<lparr>nodeTokens := mput nodeID (hashToken s token) (nodeTokens s)\<rparr>)))"

definition disconnectNode :: "string \<Rightarrow> Server \<Rightarrow> Server" where
  "disconnectNode nodeID s =
    (case reg_Get nodeID (registry s) of
       Some client \<Rightarrow> emit [Closed (cl_conn client)] s
     | None \<Rightarrow> s)"

definition issueNodeToken :: "string \<Rightarrow> string \<Rightarrow> Server \<Rightarrow> string \<times> Server" where
  "issueNodeToken nodeID rnd s =
    (let token = newNodeToken rnd;
         s1 = s\<lparr>nodeTokens := mput nodeID (hashToken s token) (nodeTokens s)\<rparr>
     in (token, disconnectNode nodeID (saveStateForDirectoryChange s1)))"

definition removeNodeToken :: "string \<Rightarrow> Server \<Rightarrow> bool \<times> Server" where
  "removeNodeToken nodeID s =
    (case map_of (nodeTokens s) nodeID of
       None \<Rightarrow> (False, s)
     | Some _ \<Rightarrow> (True, s\<lparr>nodeTokens := mdel nodeID (nodeTokens s)\<rparr>))"

definition isEnrolled :: "string \<Rightarrow> Server \<Rightarrow> bool" where
  "isEnrolled nodeID s = (map_of (nodeTokens s) nodeID \<noteq> None)"

definition nodeTokensSnapshot :: "Server \<Rightarrow> (string, string) gomap" where
  "nodeTokensSnapshot s = nodeTokens s"

definition handleRevokeToken :: "string \<Rightarrow> Server \<Rightarrow> nat \<times> Server" where
  "handleRevokeToken nodeID s =
    (case removeNodeToken nodeID s of
       (False, s1) \<Rightarrow> (404, s1)
     | (True, s1) \<Rightarrow> (204, disconnectNode nodeID (saveStateForDirectoryChange s1)))"

section \<open>Preservation\<close>

lemma tokens_ok_mput: "tokens_ok t \<Longrightarrow> tokens_ok (mput n h t)"
  by (simp add: tokens_ok_def distinct_update)

lemma tokens_ok_mdel: "tokens_ok t \<Longrightarrow> tokens_ok (mdel n t)"
  by (simp add: tokens_ok_def distinct_delete)

lemma server_inv_tokens: "server_inv s \<Longrightarrow> tokens_ok t \<Longrightarrow> server_inv (s\<lparr>nodeTokens := t\<rparr>)"
  by (simp add: server_inv_def)

lemma server_inv_disconnect [simp]: "server_inv (disconnectNode n s) = server_inv s"
  by (simp add: disconnectNode_def split: option.split)

lemma server_inv_tokens_ok: "server_inv s \<Longrightarrow> tokens_ok (nodeTokens s)"
  by (simp add: server_inv_def)

lemma server_inv_enrollment:
  assumes "server_inv s"
  shows "server_inv (snd (confirmIssuedToken n tok s))" "server_inv (snd (issueNodeToken n rnd s))"
    "server_inv (snd (removeNodeToken n s))" "server_inv (snd (handleRevokeToken n s))"
  using assms server_inv_tokens_ok [OF assms]
  by (auto simp: confirmIssuedToken_def issueNodeToken_def removeNodeToken_def handleRevokeToken_def Let_def
      saveStateForDirectoryChange_def intro!: server_inv_saveState server_inv_tokens tokens_ok_mput tokens_ok_mdel
      split: option.splits)

lemma server_inv_registry: "server_inv s \<Longrightarrow> registry_inv r \<Longrightarrow> server_inv (s\<lparr>registry := r\<rparr>)"
  by (simp add: server_inv_def)

lemma server_inv_registry_Set:
  "server_inv s \<Longrightarrow> cl_NodeID c \<noteq> [] \<Longrightarrow> server_inv (registry_Set c s)"
  using registry_inv_Set [of "registry s" c]
  by (auto simp: registry_Set_def server_inv_def split: prod.split)

lemma server_inv_registerIf:
  "server_inv s \<Longrightarrow> cl_NodeID c \<noteq> [] \<Longrightarrow> server_inv (snd (registerIfTokenUnchanged c h s))"
  by (simp add: registerIfTokenUnchanged_def server_inv_registry_Set)

section \<open>Lookups after each operation\<close>

lemma nodeTokens_confirm:
  "nodeTokens (snd (confirmIssuedToken n tok s)) =
    (if map_of (nodeTokens s) n = None then mput n (hashToken s tok) (nodeTokens s) else nodeTokens s)"
  by (auto simp: confirmIssuedToken_def saveStateForDirectoryChange_def split: option.split)

lemma disconnect_frame [simp]:
  "nodeTokens (disconnectNode n s) = nodeTokens s" "hashToken (disconnectNode n s) = hashToken s"
  "registry (disconnectNode n s) = registry s" "cfg (disconnectNode n s) = cfg s"
  by (simp_all add: disconnectNode_def split: option.split)

lemma nodeTokens_issue:
  "nodeTokens (snd (issueNodeToken n rnd s)) = mput n (hashToken s (newNodeToken rnd)) (nodeTokens s)"
  by (simp add: issueNodeToken_def Let_def saveStateForDirectoryChange_def)

lemma nodeTokens_revoke: "nodeTokens (snd (handleRevokeToken n s)) =
    (if map_of (nodeTokens s) n = None then nodeTokens s else mdel n (nodeTokens s))"
  by (simp add: handleRevokeToken_def removeNodeToken_def saveStateForDirectoryChange_def split: option.split)

text \<open>
  Authentication decides exactly as documented: an enrolled node is admitted only with a
  token whose digest is the one stored for it and is issued nothing; an unknown node is
  admitted only while enrollment is open and with an enrollment token, and is then issued a
  fresh token; everything else is refused.
\<close>

theorem authenticateNode_exact:
  "authenticateNode nodeID token rnd s =
    (case map_of (nodeTokens s) nodeID of
       Some h \<Rightarrow> if token \<noteq> [] \<and> hashToken s token = h then Inr ([], h) else Inl errInvalidToken
     | None \<Rightarrow>
         if mc_Enrollment (cfg s) = EnrollmentClosed then Inl errEnrollmentClosed
         else if token \<noteq> [] \<and> hashToken s token \<in> set (enrollmentHashes s)
           then Inr (hex_encode rnd, [])
         else Inl errInvalidToken)"
  by (auto simp: authenticateNode_def MatchToken_iff newNodeToken_def split: option.split)

text \<open>
  C17. A registration rests on the digest it was authenticated with: when a revocation or the
  issue of a new token for the node happens between \<open>authenticateNode\<close> and
  \<open>registerIfTokenUnchanged\<close>, the client is not put into the registry (given that distinct
  tokens have distinct, non-empty digests and the new token differs from the old one).
\<close>

theorem stale_authentication_refused:
  assumes auth: "authenticateNode (cl_NodeID client) token rnd s = Inr (issued, tokenHash)"
    and inj: "\<And>a b. hashToken s a = hashToken s b \<Longrightarrow> a = b"
    and nonempty: "\<And>a. hashToken s a \<noteq> []"
    and fresh: "newNodeToken rnd' \<noteq> token"
    and change: "s' = snd (issueNodeToken (cl_NodeID client) rnd' s) \<or>
      (isEnrolled (cl_NodeID client) s \<and> s' = snd (handleRevokeToken (cl_NodeID client) s))"
  shows "registerIfTokenUnchanged client tokenHash s' = (False, s')"
proof -
  have th: "tokenHash = token_hash (cl_NodeID client) s"
    and hash: "isEnrolled (cl_NodeID client) s \<Longrightarrow> tokenHash = hashToken s token"
    and new: "\<not> isEnrolled (cl_NodeID client) s \<Longrightarrow> tokenHash = []"
    using auth
    by (auto simp: authenticateNode_def token_hash_def isEnrolled_def MatchToken_iff split: option.splits if_splits)
  from change have "token_hash (cl_NodeID client) s' \<noteq> tokenHash"
  proof
    assume "s' = snd (issueNodeToken (cl_NodeID client) rnd' s)"
    then have "token_hash (cl_NodeID client) s' = hashToken s (newNodeToken rnd')"
      by (simp add: token_hash_def nodeTokens_issue)
    with hash new inj [of "newNodeToken rnd'" token] nonempty [of "newNodeToken rnd'"] fresh show ?thesis
      by (cases "isEnrolled (cl_NodeID client) s") auto
  next
    assume "isEnrolled (cl_NodeID client) s \<and> s' = snd (handleRevokeToken (cl_NodeID client) s)"
    with hash nonempty [of token] show ?thesis
      by (auto simp: token_hash_def nodeTokens_revoke isEnrolled_def)
  qed
  then show ?thesis by (simp add: registerIfTokenUnchanged_def)
qed

text \<open>An enrolling node is overtaken by the install script, which issues its own token.\<close>

definition prefixed_server :: Server where
  "prefixed_server = example_server\<lparr>hashToken := (\<lambda>t. CHR ''h'' # t), enrollmentHashes := [''henroll'']\<rparr>"

theorem stale_authentication_refused_witness:
  "fst (registerIfTokenUnchanged (example_client 5 ''db'' []) [] (snd (issueNodeToken ''db'' ''x'' prefixed_server)))
    = False"
proof -
  have "registerIfTokenUnchanged (example_client 5 ''db'' []) []
      (snd (issueNodeToken (cl_NodeID (example_client 5 ''db'' [])) ''x'' prefixed_server)) =
    (False, snd (issueNodeToken (cl_NodeID (example_client 5 ''db'' [])) ''x'' prefixed_server))"
    by (rule stale_authentication_refused [where token = "''enroll''" and rnd = "''r''" and s = prefixed_server
          and rnd' = "''x''" and issued = "hex_encode ''r''"])
      (simp_all add: authenticateNode_def MatchToken_iff prefixed_server_def example_defs EnrollmentOpen_def EnrollmentClosed_def
        newNodeToken_def hex_encode_def hex_byte_def hexdigit_def)
  then show ?thesis by (simp add: example_client_def)
qed

text \<open>
  A token issued at enrollment never replaces one the node got in the meantime: it is
  stored exactly when the node still has none, and then it is the one that authenticates
  the node from now on.
\<close>

theorem confirm_never_overwrites:
  "(if isEnrolled n s then confirmIssuedToken n token s = (False, s)
    else fst (confirmIssuedToken n token s) = True \<and>
      map_of (nodeTokens (snd (confirmIssuedToken n token s))) n = Some (hashToken s token) \<and>
      authenticateNode n t rnd (snd (confirmIssuedToken n token s)) =
        (if t \<noteq> [] \<and> hashToken s t = hashToken s token then Inr ([], hashToken s token)
         else Inl errInvalidToken))"
  by (auto simp: isEnrolled_def confirmIssuedToken_def saveStateForDirectoryChange_def authenticateNode_def
      MatchToken_iff split: option.split)

end
