(* ===== verification/Conn.thy ===== *)
theory Conn
  imports Enrollment
begin

text \<open>
  \<open>internal/master/conn.go\<close>: the life of one slave connection, split at the points where
  another goroutine can run.
\<close>

section \<open>Definitions\<close>

text \<open>What a read on the connection gives: the error text or an envelope.\<close>

definition readRegister :: "string + Envelope \<Rightarrow> string + RegisterMessage" where
  "readRegister r =
    (case r of
       Inl err \<Rightarrow> Inl err
     | Inr env \<Rightarrow>
        if env_Type env \<noteq> TypeRegister then Inl (''expected register message, got '' @ env_Type env)
        else (case as_register env of
            Inl err \<Rightarrow> Inl (''decode register payload: '' @ err)
          | Inr register \<Rightarrow>
             if rg_NodeID register = [] then Inl ''node_id is required''
             else if rg_Hostname register = [] then Inl ''hostname is required''
             else Inr register))"

text \<open>The identity of a certificate that the code reads.\<close>

record certificate =
  ct_CommonName :: string
  ct_DNSNames :: "string list"

definition matchCertIdentity :: "certificate list \<Rightarrow> string \<Rightarrow> bool" where
  "matchCertIdentity certs nodeID =
    (case certs of
       [] \<Rightarrow> True
     | leaf # _ \<Rightarrow> ct_CommonName leaf = nodeID \<or> list_ex (\<lambda>name. name = nodeID) (ct_DNSNames leaf))"

text \<open>\<open>peer\<close> is the chain of a TLS connection, or nothing for a plain one.\<close>

definition verifyPeerIdentity :: "certificate list option \<Rightarrow> string \<Rightarrow> bool \<Rightarrow> bool" where
  "verifyPeerIdentity peer nodeID enforce =
    (if \<not> enforce then True
     else case peer of None \<Rightarrow> True | Some certs \<Rightarrow> matchCertIdentity certs nodeID)"

text \<open>
  Where a handler is: before the register message, authenticated, in the registry, serving
  a node (with the token it issued and not yet stored), about to clean up, gone.
\<close>

datatype conn_phase =
    Handshake
  | Authenticated RegisterMessage string string
  | Joined RegisterMessage string
  | Serving string string
  | Finished string
  | Gone

definition reject :: "string \<Rightarrow> message" where
  "reject m = RegisterAck \<lparr>ra_Accepted = False, ra_Message = m, ra_IssuedToken = []\<rparr>"

definition send_to :: "nat \<Rightarrow> message \<Rightarrow> Server \<Rightarrow> Server" where
  "send_to conn m s = snd (client_Send conn m s)"

text \<open>\<open>handleConn\<close> up to the checks of the register message.\<close>

definition conn_handshake ::
  "nat \<Rightarrow> string + Envelope \<Rightarrow> certificate list option \<Rightarrow> string \<Rightarrow> Server \<Rightarrow> conn_phase \<times> Server" where
  "conn_handshake conn r peer rnd s =
    (case readRegister r of
       Inl err \<Rightarrow> (Finished [], send_to conn (ErrorMsg err) s)
     | Inr register \<Rightarrow>
        (case authenticateNode (rg_NodeID register) (rg_Token register) rnd s of
           Inl err \<Rightarrow> (Finished [], send_to conn (reject (auth_message err)) s)
         | Inr (issuedToken, tokenHash) \<Rightarrow>
            if \<not> verifyPeerIdentity peer (rg_NodeID register) (tls_BindNodeIDToCert (mc_TLS (cfg s)))
            then (Finished [], send_to conn (reject ''client certificate identity mismatch'') s)
            else (Authenticated register issuedToken tokenHash, s)))"

definition registered_client :: "nat \<Rightarrow> RegisterMessage \<Rightarrow> time \<Rightarrow> Client" where
  "registered_client conn register now = \<lparr>cl_conn = conn, cl_NodeID = rg_NodeID register,
     cl_Hostname = rg_Hostname register, cl_Tags = rg_Tags register, cl_lastSeen = now\<rparr>"

text \<open>Entering the registry.\<close>

definition conn_join ::
  "nat \<Rightarrow> RegisterMessage \<Rightarrow> string \<Rightarrow> string \<Rightarrow> time \<Rightarrow> Server \<Rightarrow> conn_phase \<times> Server" where
  "conn_join conn register issuedToken tokenHash now s =
    (case registerIfTokenUnchanged (registered_client conn register now) tokenHash s of
       (False, s1) \<Rightarrow> (Finished (rg_NodeID register), send_to conn (reject (auth_message errInvalidToken)) s1)
     | (True, s1) \<Rightarrow> (Joined register issuedToken, s1))"

text \<open>Directory, state file, acknowledgement and replay.\<close>

definition conn_welcome ::
  "nat \<Rightarrow> RegisterMessage \<Rightarrow> string \<Rightarrow> time \<Rightarrow> Server \<Rightarrow> conn_phase \<times> Server" where
  "conn_welcome conn register issuedToken now s =
    (let n = rg_NodeID register;
         d = dir_SetSlaveInfo n (rg_DryRun register) (rg_ShutdownReady register)
               (dir_Observe n (rg_Hostname register) (rg_Tags register) now (directory s));
         s1 = saveStateForDirectoryChange (s\<lparr>directory := d\<rparr>)
     in case client_Send conn (RegisterAck \<lparr>ra_Accepted = True, ra_Message = ''registered'',
              ra_IssuedToken = issuedToken\<rparr>) s1 of
          (True, s2) \<Rightarrow> (Finished n, s2)
        | (False, s2) \<Rightarrow>
            (case replayPendingShutdown (registered_client conn register now) now s2 of
               (True, s3) \<Rightarrow> (Finished n, s3)
             | (False, s3) \<Rightarrow> (Serving n issuedToken, s3)))"

datatype envelope_error = UnsupportedType | BadPayload string | SendFailed

text \<open>\<open>handleEnvelope\<close>: the error, if any. The acknowledgement is bound to the connection's node.\<close>

definition handleEnvelope ::
  "(string list \<Rightarrow> string \<Rightarrow> bool \<Rightarrow> string option) \<Rightarrow> time \<Rightarrow> time \<Rightarrow> nat \<Rightarrow> string \<Rightarrow> Envelope \<Rightarrow> Server \<Rightarrow>
    envelope_error option \<times> Server" where
  "handleEnvelope runner attemptAt now conn nodeID env s =
    (if env_Type env = TypePing then
       (let s1 = s\<lparr>registry := reg_Touch conn now (registry s)\<rparr>
        in case client_Send conn (Pong now) s1 of (err, s2) \<Rightarrow> (if err then Some SendFailed else None, s2))
     else if env_Type env = TypeShutdownAck then
       (case as_shutdown_ack env of
          Inl err \<Rightarrow> (Some (BadPayload err), s)
        | Inr ack0 \<Rightarrow>
           let ack = ack0\<lparr>ack_NodeID := nodeID\<rparr>
           in if \<not> isReportableShutdownStatus (ack_Status ack) then (None, s)
              else (None, recordShutdownUpdate runner attemptAt now ack s))
     else (Some UnsupportedType, s))"

text \<open>One round of the read loop.\<close>

definition conn_receive ::
  "(string list \<Rightarrow> string \<Rightarrow> bool \<Rightarrow> string option) \<Rightarrow> time \<Rightarrow> time \<Rightarrow> nat \<Rightarrow> string \<Rightarrow> string \<Rightarrow>
    string + Envelope \<Rightarrow> Server \<Rightarrow> conn_phase \<times> Server" where
  "conn_receive runner attemptAt now conn nodeID issuedToken r s =
    (case r of
       Inl err \<Rightarrow> (Finished nodeID, s)
     | Inr env \<Rightarrow>
        let s1 = s\<lparr>registry := reg_Touch conn now (registry s), directory := dir_Touch nodeID now (directory s)\<rparr>
        in if env_Type env = TypeTokenStored then
             (if issuedToken = [] then (Serving nodeID [], s1)
              else case confirmIssuedToken nodeID issuedToken s1 of
                  (False, s2) \<Rightarrow> (Finished nodeID, s2)
                | (True, s2) \<Rightarrow> (Serving nodeID [], s2))
           else (Serving nodeID issuedToken, snd (handleEnvelope runner attemptAt now conn nodeID env s1)))"

text \<open>The deferred cleanup; \<open>nodeID\<close> is empty when the client never got one.\<close>

definition conn_cleanup :: "nat \<Rightarrow> string \<Rightarrow> Server \<Rightarrow> Server" where
  "conn_cleanup conn nodeID s =
    (let s1 = (if nodeID \<noteq> [] then s\<lparr>registry := reg_RemoveIfMatch nodeID conn (registry s)\<rparr> else s)
     in emit [Closed conn] s1)"

text \<open>The whole handler when no other goroutine runs in between; \<open>reads\<close> ends with an error.\<close>

fun conn_loop ::
  "(string list \<Rightarrow> string \<Rightarrow> bool \<Rightarrow> string option) \<Rightarrow> time \<Rightarrow> nat \<Rightarrow> string \<Rightarrow> string \<Rightarrow>
    (time \<times> Envelope) list \<Rightarrow> Server \<Rightarrow> Server" where
  "conn_loop runner attemptAt conn nodeID issuedToken [] s =
    snd (conn_receive runner attemptAt attemptAt conn nodeID issuedToken (Inl ''EOF'') s)"
| "conn_loop runner attemptAt conn nodeID issuedToken ((now, env) # reads) s =
    (case conn_receive runner attemptAt now conn nodeID issuedToken (Inr env) s of
       (Serving n tok, s1) \<Rightarrow> conn_loop runner attemptAt conn n tok reads s1
     | (_, s1) \<Rightarrow> s1)"

definition handleConn ::
  "(string list \<Rightarrow> string \<Rightarrow> bool \<Rightarrow> string option) \<Rightarrow> time \<Rightarrow> nat \<Rightarrow> certificate list option \<Rightarrow> string \<Rightarrow>
    string + Envelope \<Rightarrow> time \<Rightarrow> (time \<times> Envelope) list \<Rightarrow> Server \<Rightarrow> Server" where
  "handleConn runner attemptAt conn peer rnd first now reads s =
    (case conn_handshake conn first peer rnd s of
       (Authenticated register issuedToken tokenHash, s1) \<Rightarrow>
         let n = rg_NodeID register
         in conn_cleanup conn n
           (case conn_join conn register issuedToken tokenHash now s1 of
              (Joined _ _, s2) \<Rightarrow>
                (case conn_welcome conn register issuedToken now s2 of
                   (Serving n tok, s3) \<Rightarrow> conn_loop runner attemptAt conn n tok reads s3
                 | (_, s3) \<Rightarrow> s3)
            | (_, s2) \<Rightarrow> s2)
     | (_, s1) \<Rightarrow> conn_cleanup conn [] s1)"

definition trackConn :: "nat \<Rightarrow> Server \<Rightarrow> Server" where
  "trackConn conn s = s\<lparr>conns := sput conn (conns s)\<rparr>"

definition untrackConn :: "nat \<Rightarrow> Server \<Rightarrow> Server" where
  "untrackConn conn s = s\<lparr>conns := filter (\<lambda>c. c \<noteq> conn) (conns s)\<rparr>"

definition closeActiveConns :: "Server \<Rightarrow> Server" where
  "closeActiveConns s = emit (map Closed (conns s)) s"

end
