(* ===== verification/AdminHttp.thy ===== *)
theory AdminHttp
  imports Conn
begin

text \<open>
  \<open>internal/master/admin_http.go\<close> and \<open>Status\<close> of \<open>internal/master/status.go\<close>: the admin API.
  A handler maps the decoded request and the state to the HTTP status, the body and the new
  state.
\<close>

section \<open>Status\<close>

record NodeStatus =
  ns_NodeID :: string
  ns_Hostname :: string
  ns_Tags :: "string list option"
  ns_State :: string
  ns_Expected :: bool
  ns_DryRun :: bool
  ns_ShutdownReady :: "bool option"
  ns_Enrolled :: bool
  ns_Connected :: bool
  ns_FirstSeen :: "time option"
  ns_LastSeen :: "time option"
  ns_LastShutdown :: "ShutdownAckMessage option"

record StatusResponse =
  sr_ShutdownIssued :: bool
  sr_ActiveCommand :: "CommandSummary option"
  sr_Episode :: "EpisodeStatus option"
  sr_UPS :: "UPSStatusView option"
  sr_LocalShutdown :: "LocalShutdownStatus option"
  sr_Nodes :: "NodeStatus list"

text \<open>The node ids \<open>Status\<close> lists: the directory's and those any command mentions, sorted.\<close>

definition known_nodes :: "Server \<Rightarrow> string list" where
  "known_nodes s =
    sort_Strings (fold (\<lambda>(_, c) ns. sputs (mkeys (cm_NodeUpdates c)) (sputs (cm_TargetNodes c) ns))
      (commands s) (sputs (map nm_NodeID (dir_List (directory s))) []))"

text \<open>The two indexes by node id that \<open>Status\<close> builds.\<close>

definition meta_by_id :: "Server \<Rightarrow> (string, NodeMeta) gomap" where
  "meta_by_id s = fold (\<lambda>meta m. mput (nm_NodeID meta) meta m) (dir_List (directory s)) []"

definition client_by_id :: "Server \<Rightarrow> (string, Client) gomap" where
  "client_by_id s = fold (\<lambda>c m. mput (cl_NodeID c) c m) (reg_List (registry s)) []"

definition LastSeen :: "Client \<Rightarrow> time" where
  "LastSeen c = cl_lastSeen c"

definition node_from_meta :: "string \<Rightarrow> Server \<Rightarrow> NodeStatus" where
  "node_from_meta nodeID s =
    (let node = \<lparr>ns_NodeID = nodeID, ns_Hostname = [], ns_Tags = None, ns_State = NodeStateNeverSeen,
           ns_Expected = False, ns_DryRun = False, ns_ShutdownReady = None,
           ns_Enrolled = (map_of (nodeTokensSnapshot s) nodeID \<noteq> None), ns_Connected = False,
           ns_FirstSeen = None, ns_LastSeen = None, ns_LastShutdown = None\<rparr>
     in case map_of (meta_by_id s) nodeID of
          None \<Rightarrow> node
        | Some meta \<Rightarrow> node\<lparr>ns_Hostname := nm_Hostname meta, ns_Tags := copy_slice (nm_Tags meta),
            ns_Expected := nm_Expected meta, ns_DryRun := nm_DryRun meta,
            ns_ShutdownReady := nm_ShutdownReady meta, ns_FirstSeen := nm_FirstSeen meta,
            ns_LastSeen := nm_LastSeen meta\<rparr>)"

definition add_client :: "Client option \<Rightarrow> NodeStatus \<Rightarrow> NodeStatus" where
  "add_client client node =
    (case client of
       None \<Rightarrow> node
     | Some c \<Rightarrow>
        let n1 = node\<lparr>ns_Connected := True, ns_LastSeen := Some (LastSeen c)\<rparr>;
            n2 = (if ns_Hostname n1 = [] then n1\<lparr>ns_Hostname := cl_Hostname c\<rparr> else n1)
        in if ns_Tags n2 = None then n2\<lparr>ns_Tags := copy_slice (cl_Tags c)\<rparr> else n2)"

definition node_state :: "time \<Rightarrow> duration \<Rightarrow> NodeStatus \<Rightarrow> string" where
  "node_state now offlineAfter node =
    (if ns_Connected node then NodeStateOnline
     else case ns_LastSeen node of
       None \<Rightarrow> NodeStateNeverSeen
     | Some t \<Rightarrow> if time_Sub now t \<le> offlineAfter then NodeStateOnline else NodeStateOffline)"

definition status_node :: "time \<Rightarrow> Server \<Rightarrow> string \<Rightarrow> NodeStatus" where
  "status_node now s nodeID =
    (let node = add_client (map_of (client_by_id s) nodeID) (node_from_meta nodeID s)
     in node\<lparr>ns_State := node_state now (mc_OfflineAfter (cfg s)) node,
             ns_LastShutdown := latestNodeUpdate nodeID (commands s)\<rparr>)"

definition Status :: "time \<Rightarrow> Server \<Rightarrow> StatusResponse" where
  "Status now s =
    \<lparr>sr_ShutdownIssued = shutdownIssued s,
     sr_ActiveCommand = (if activeCommand s \<noteq> []
       then Some (summarizeCommand (clone (map_of (commands s) (activeCommand s)))) else None),
     sr_Episode = episode_status (episode s), sr_UPS = currentUPSStatus s,
     sr_LocalShutdown = localShutdownStatusLocked s,
     sr_Nodes = map (status_node now s) (known_nodes s)\<rparr>"

section \<open>Handlers\<close>

datatype admin_body =
    ErrorBody string
  | PlainBody string
  | StatusBody StatusResponse
  | CommandBody ShutdownMessage CommandSummary bool
  | MessageBody string
  | NodeBody "NodeMeta option"
  | NoBody

type_synonym response = "nat \<times> admin_body"

definition handleHealthz :: "Server \<Rightarrow> response" where
  "handleHealthz s = (200, PlainBody ''ok'')"

definition handleReadyz :: "Server \<Rightarrow> response" where
  "handleReadyz s = (if ready s then (200, PlainBody ''ready'') else (503, PlainBody ''not ready''))"

text \<open>\<open>header\<close> is the value of the Authorization header (empty when absent).\<close>

definition requireAdminToken ::
  "string \<Rightarrow> (Server \<Rightarrow> response \<times> Server) \<Rightarrow> Server \<Rightarrow> response \<times> Server" where
  "requireAdminToken header next_handler s =
    (if mc_AdminToken (cfg s) = [] then ((503, ErrorBody ''admin token not configured''), s)
     else if \<not> HasPrefix header ''Bearer '' then ((401, ErrorBody ''missing bearer token''), s)
     else if \<not> MatchToken (hashToken s) [hashToken s (mc_AdminToken (cfg s))] (TrimPrefix header ''Bearer '')
       then ((401, ErrorBody ''invalid token''), s)
     else next_handler s)"

definition handleStatus :: "string \<Rightarrow> time \<Rightarrow> Server \<Rightarrow> response \<times> Server" where
  "handleStatus http_method now s =
    (if http_method \<noteq> ''GET'' then ((405, ErrorBody ''method not allowed''), s)
     else ((200, StatusBody (Status now s)), s))"

definition trigger_error_text :: "trigger_error \<Rightarrow> string" where
  "trigger_error_text e =
    (case e of
       TimeoutTooLong \<Rightarrow> ''timeout_seconds must not exceed '' @ Itoa maxManualTimeoutSeconds
     | NoTargetNodes \<Rightarrow> ''no target nodes matched request''
     | ShutdownAlreadyActive \<Rightarrow> ''shutdown already active'')"

definition handleManualShutdown ::
  "string \<Rightarrow> string + ShutdownRequest \<Rightarrow> time \<Rightarrow> string \<Rightarrow> Server \<Rightarrow> response \<times> Server" where
  "handleManualShutdown http_method body now cid s =
    (if http_method \<noteq> ''POST'' then ((405, ErrorBody ''method not allowed''), s)
     else case body of
       Inl err \<Rightarrow> ((400, ErrorBody (''decode request: '' @ err)), s)
     | Inr request \<Rightarrow>
        (case TriggerShutdown request now cid s of
           (Inl e, s1) \<Rightarrow> ((if e = ShutdownAlreadyActive then 409 else 400, ErrorBody (trigger_error_text e)), s1)
         | (Inr (message, summary, delivery_error), s1) \<Rightarrow>
             ((if delivery_error then 207 else 201, CommandBody message summary delivery_error), s1)))"

definition handleReset :: "string \<Rightarrow> Server \<Rightarrow> response \<times> Server" where
  "handleReset http_method s =
    (if http_method \<noteq> ''POST'' then ((405, ErrorBody ''method not allowed''), s)
     else ((200, MessageBody ''reset complete''), ResetActiveCommand s))"

record expectNodeRequest =
  en_NodeID :: string
  en_Hostname :: string
  en_Tags :: "string list option"

definition handleExpectNode :: "string + expectNodeRequest \<Rightarrow> Server \<Rightarrow> response \<times> Server" where
  "handleExpectNode body s =
    (case body of
       Inl err \<Rightarrow> ((400, ErrorBody (''decode body: '' @ err)), s)
     | Inr req \<Rightarrow>
        let nodeID = TrimSpace (en_NodeID req)
        in if nodeID = [] then ((400, ErrorBody ''node_id is required''), s)
           else let s1 = saveStateForDirectoryChange (s\<lparr>directory :=
                      dir_SetExpected nodeID (en_Hostname req) (en_Tags req) (directory s)\<rparr>)
                in ((200, NodeBody (dir_Get nodeID (directory s1))), s1))"

definition handleUnsetExpected :: "string \<Rightarrow> Server \<Rightarrow> response \<times> Server" where
  "handleUnsetExpected nodeID s =
    (if nodeID = [] then ((400, ErrorBody ''node_id is required''), s)
     else ((204, NoBody), saveStateForDirectoryChange
       (s\<lparr>directory := snd (dir_UnsetExpected nodeID (directory s))\<rparr>)))"

definition handleDeleteNode :: "string \<Rightarrow> Server \<Rightarrow> response \<times> Server" where
  "handleDeleteNode nodeID s =
    (if nodeID = [] then ((400, ErrorBody ''node_id is required''), s)
     else case dir_Delete nodeID (directory s) of
       (DeleteOK, d) \<Rightarrow> ((204, NoBody),
          saveStateForDirectoryChange (snd (removeNodeToken nodeID (s\<lparr>directory := d\<rparr>))))
     | (DeleteNotFound, d) \<Rightarrow> ((404, ErrorBody ''node not found''), s)
     | (DeleteRefusedSeen, d) \<Rightarrow> ((409, ErrorBody ''node has been seen; cannot delete''), s))"

text \<open>What handing out an install script changes: the node is expected and gets a new token.\<close>

definition install_node :: "string \<Rightarrow> string \<Rightarrow> Server \<Rightarrow> string \<times> Server" where
  "install_node nodeID rnd s =
    issueNodeToken nodeID rnd (s\<lparr>directory := dir_SetExpected nodeID [] None (directory s)\<rparr>)"

section \<open>Status reports the directory and the registry\<close>

lemma map_of_index:
  "(\<And>k v. (k, v) \<in> set m \<Longrightarrow> key v = k) \<Longrightarrow> distinct (mkeys m) \<Longrightarrow>
    map_of (fold (\<lambda>v acc. mput (key v) v acc) (map snd m) acc) n =
      (case map_of m n of None \<Rightarrow> map_of acc n | Some v \<Rightarrow> Some v)"
proof (induction m arbitrary: acc)
  case (Cons kv m)
  obtain k v where kv: "kv = (k, v)" by (cases kv)
  with Cons.prems have "key v = k" "map_of m k = None"
    by (auto simp: map_of_eq_None_iff)
  moreover have "map_of (fold (\<lambda>v acc. mput (key v) v acc) (map snd m) (mput k v acc)) n =
      (case map_of m n of None \<Rightarrow> map_of (mput k v acc) n | Some v \<Rightarrow> Some v)"
    using Cons.prems by (intro Cons.IH) auto
  ultimately show ?case by (auto simp: kv split: option.split)
qed simp

lemma map_of_client_by_id: "registry_inv (registry s) \<Longrightarrow> map_of (client_by_id s) n = reg_Get n (registry s)"
  using map_of_index [of "registry s" cl_NodeID "[]" n]
  by (fastforce simp: client_by_id_def reg_List_def reg_Get_def registry_inv_def split: option.splits)

lemma dir_List_inv: "directory_inv d \<Longrightarrow> dir_List d = map snd d"
  by (auto simp: dir_List_def directory_inv_alt copyMeta_id)

lemma map_of_meta_by_id:
  assumes inv: "directory_inv (directory s)"
  shows "map_of (meta_by_id s) n = map_of (directory s) n"
proof -
  have "map_of (fold (\<lambda>v acc. mput (nm_NodeID v) v acc) (map snd (directory s)) []) n =
      (case map_of (directory s) n of None \<Rightarrow> map_of [] n | Some v \<Rightarrow> Some v)"
    using inv by (intro map_of_index) (auto simp: directory_inv_def)
  then show ?thesis by (simp add: meta_by_id_def dir_List_inv [OF inv] split: option.splits)
qed

section \<open>Preservation\<close>

lemma server_inv_directory: "server_inv s \<Longrightarrow> directory_inv d \<Longrightarrow> server_inv (s\<lparr>directory := d\<rparr>)"
  by (simp add: server_inv_def)

lemma server_inv_directory_inv: "server_inv s \<Longrightarrow> directory_inv (directory s)"
  by (simp add: server_inv_def)

lemma server_inv_admin:
  assumes "server_inv s"
  shows "server_inv (snd (handleReset m s))" "server_inv (snd (handleExpectNode body s))"
    "server_inv (snd (handleUnsetExpected n s))" "server_inv (snd (handleDeleteNode n s))"
    "server_inv (snd (install_node n rnd s))" "server_inv (snd (handleStatus m now s))"
  using assms server_inv_directory_inv [OF assms] directory_inv_others(3) [of "directory s" n]
  by (auto simp: handleReset_def server_inv_reset handleExpectNode_def handleUnsetExpected_def
      handleDeleteNode_def install_node_def handleStatus_def saveStateForDirectoryChange_def Let_def
      intro!: server_inv_saveState server_inv_directory directory_inv_SetExpected directory_inv_others
        server_inv_enrollment split: sum.splits prod.splits delete_result.splits)

lemma server_inv_handleManualShutdown:
  "server_inv s \<Longrightarrow> cid \<noteq> [] \<Longrightarrow> cid \<notin> set (mkeys (commands s)) \<Longrightarrow>
    server_inv (snd (handleManualShutdown m body now cid s))"
  using server_inv_Trigger [of s cid _ now]
  by (auto simp: handleManualShutdown_def split: sum.splits prod.splits) (metis snd_conv)+

section \<open>Properties\<close>

lemma TrimPrefix_append: "HasPrefix h p \<Longrightarrow> h = p @ TrimPrefix h p"
  by (auto simp: HasPrefix_def TrimPrefix_def CutPrefix_def prefix_def)

lemma HasPrefix_append: "HasPrefix (p @ t) p \<and> TrimPrefix (p @ t) p = t"
  by (simp add: HasPrefix_def TrimPrefix_def CutPrefix_def)

text \<open>When a protected handler runs.\<close>

lemma requireAdminToken_exact:
  "requireAdminToken header next_handler s =
    (if mc_AdminToken (cfg s) \<noteq> [] \<and> (\<exists>t. header = ''Bearer '' @ t \<and> t \<noteq> [] \<and>
        hashToken s t = hashToken s (mc_AdminToken (cfg s))) then next_handler s
     else if mc_AdminToken (cfg s) = [] then ((503, ErrorBody ''admin token not configured''), s)
     else ((401, ErrorBody (if HasPrefix header ''Bearer '' then ''invalid token''
            else ''missing bearer token'')), s))"
proof (cases "HasPrefix header ''Bearer ''")
  case True
  from TrimPrefix_append [OF this] obtain t where "header = ''Bearer '' @ t" by blast
  then show ?thesis
    using HasPrefix_append [of "''Bearer ''" t] by (auto simp: requireAdminToken_def MatchToken_iff)
next
  case False
  then have "header \<noteq> ''Bearer '' @ t" for t using HasPrefix_append [of "''Bearer ''" t] by metis
  with False show ?thesis by (auto simp: requireAdminToken_def)
qed

text \<open>
  The status page calls a node online exactly when it has a live connection or was last
  seen no longer than \<open>offline_after\<close> ago, never seen exactly when it has neither a
  connection nor a last-seen time, and offline otherwise.
\<close>

theorem status_node_state:
  assumes "server_inv s"
  shows "ns_State (status_node now s n) =
    (if reg_Get n (registry s) \<noteq> None then NodeStateOnline
     else case map_of (directory s) n of
       None \<Rightarrow> NodeStateNeverSeen
     | Some meta \<Rightarrow> (case nm_LastSeen meta of
         None \<Rightarrow> NodeStateNeverSeen
       | Some t \<Rightarrow> if time_Sub now t \<le> mc_OfflineAfter (cfg s) then NodeStateOnline else NodeStateOffline))"
  using assms
  by (auto simp: server_inv_def status_node_def node_state_def add_client_def node_from_meta_def Let_def
      map_of_client_by_id map_of_meta_by_id split: option.splits)

theorem status_node_state_witness:
  "ns_State (status_node 9 example_server ''web'') = NodeStateOnline"
  using status_node_state [OF example_inv, of 9 "''web''"] by (simp add: example_defs reg_Get_def)

end
