(* ===== verification/Sections.thy ===== *)
theory Sections
  imports AdminHttp
begin

text \<open>
  What each critical section of the master leaves alone: a preorder on states that every
  section respects. It carries the monotonicity theorems over runs.
\<close>

section \<open>The preorder\<close>

text \<open>
  How one command may change: its identity, kind and dry-run flag are fixed, a disabled
  replay stays disabled, targets are only added, no node's report is dropped, and a confirmed
  outcome is never replaced.
\<close>

definition command_le :: "shutdownCommandState \<Rightarrow> shutdownCommandState \<Rightarrow> bool" where
  "command_le c c' \<longleftrightarrow>
     sm_CommandID (cm_Message c') = sm_CommandID (cm_Message c) \<and>
     sm_DryRun (cm_Message c') = sm_DryRun (cm_Message c) \<and>
     sm_IssuedAt (cm_Message c') = sm_IssuedAt (cm_Message c) \<and>
     cm_Auto c' = cm_Auto c \<and> (cm_ReplayDisabled c \<longrightarrow> cm_ReplayDisabled c') \<and>
     set (cm_TargetNodes c) \<subseteq> set (cm_TargetNodes c') \<and>
     (\<forall>n tags. targetMatchesNode (sm_Target (cm_Message c)) n tags \<longrightarrow>
        targetMatchesNode (sm_Target (cm_Message c')) n tags) \<and>
     (\<forall>n u. map_of (cm_NodeUpdates c) n = Some u \<longrightarrow>
        (\<exists>u'. map_of (cm_NodeUpdates c') n = Some u' \<and>
          (isReplayDoneStatus (ack_Status u) \<longrightarrow> u' = u)))"

lemma command_le_refl [simp]: "command_le c c"
  by (auto simp: command_le_def)

lemma command_le_trans: "command_le a b \<Longrightarrow> command_le b c \<Longrightarrow> command_le a c"
  unfolding command_le_def by (clarsimp, metis subset_trans)

text \<open>Commands of the later state are new or descend from a command of the earlier one.\<close>

definition commands_le ::
  "string set \<Rightarrow> (string, shutdownCommandState) gomap \<Rightarrow> (string, shutdownCommandState) gomap \<Rightarrow> bool" where
  "commands_le new m m' \<longleftrightarrow> (\<forall>cid c'. map_of m' cid = Some c' \<longrightarrow>
     cid \<in> new \<or> (\<exists>c. map_of m cid = Some c \<and> command_le c c'))"

lemma commands_le_refl [simp]: "commands_le new m m"
  by (auto simp: commands_le_def)

lemma commands_le_trans: "commands_le A a b \<Longrightarrow> commands_le B b c \<Longrightarrow> commands_le (A \<union> B) a c"
  unfolding commands_le_def by (meson UnI1 UnI2 command_le_trans)

lemma commands_le_madjust:
  "(\<And>c. map_of m cid = Some c \<Longrightarrow> command_le c (f c)) \<Longrightarrow> commands_le new m (madjust cid f m)"
  by (auto simp: commands_le_def map_of_madjust)

lemma commands_le_mput: "cid \<in> new \<Longrightarrow> commands_le new m (mput cid c m)"
  by (auto simp: commands_le_def)

lemma commands_le_filter: "distinct (mkeys m) \<Longrightarrow> commands_le new m (filter P m)"
  by (auto simp: commands_le_def dest: map_of_filter_SomeD)

text \<open>Which command's local shutdown is being executed.\<close>

definition exec_of :: "localShutdownState option \<Rightarrow> string option" where
  "exec_of ls = (case ls of
     None \<Rightarrow> None
   | Some l \<Rightarrow> if ls_Phase l = PhaseExecuting then Some (ls_CommandID l) else None)"

lemma exec_of_simps [simp]:
  "exec_of None = None"
  "exec_of (Some l) = (if ls_Phase l = PhaseExecuting then Some (ls_CommandID l) else None)"
  by (simp_all add: exec_of_def)

lemma exec_of_None: "exec_of ls = None \<longleftrightarrow> (\<forall>l. ls = Some l \<longrightarrow> ls_Phase l \<noteq> PhaseExecuting)"
  by (auto simp: exec_of_def split: option.split)

text \<open>
  A section keeps the configuration, the connections, the directory and the tokens, neither
  starts nor ends the execution of a local shutdown, and only appends to the trace.
\<close>

definition keeps :: "string set \<Rightarrow> Server \<Rightarrow> Server \<Rightarrow> bool" where
  "keeps new s s' \<longleftrightarrow>
     cfg s' = cfg s \<and> registry s' = registry s \<and> directory s' = directory s \<and>
     nodeTokens s' = nodeTokens s \<and> hashToken s' = hashToken s \<and>
     exec_of (localShutdown s') = exec_of (localShutdown s) \<and>
     commands_le new (commands s) (commands s')"

lemma keeps_refl [simp]: "keeps new s s"
  by (simp add: keeps_def)

lemma keeps_trans: "keeps A s t \<Longrightarrow> keeps A t u \<Longrightarrow> keeps A s u"
  using commands_le_trans [of A "commands s" "commands t" A "commands u"] by (auto simp: keeps_def)

lemma keeps_saveState [simp]: "keeps new s (saveState t) = keeps new s t"
  by (simp add: keeps_def)

lemma keeps_emit [simp]: "keeps new s (emit es t) = keeps new s t"
  by (simp add: keeps_def)

lemma keeps_sends [simp]:
  "keeps new s (snd (sendShutdown m cs t)) = keeps new s t"
  "keeps new s (replayShutdownToNodes m ns t) = keeps new s t"
  "keeps new s (snd (client_Send c msg t)) = keeps new s t"
  by (simp_all add: keeps_def)

section \<open>Every section respects it\<close>

lemma keeps_arm [simp]: "keeps new s (armLocalShutdownLocked c now t) = keeps new s t"
  by (auto simp: keeps_def armLocalShutdownLocked_def exec_of_def split: option.splits)

lemma keeps_Trigger: "keeps {cid} s (snd (TriggerShutdown request now cid s))"
proof -
  have "keeps {cid} s ((armLocalShutdownLocked c now (s\<lparr>commands := mput cid c (commands s),
      activeCommand := cid\<rparr>))\<lparr>shutdownIssued := True\<rparr>)" for c
    using keeps_arm [of "{cid}" s c now "s\<lparr>commands := mput cid c (commands s), activeCommand := cid\<rparr>"]
    by (simp add: keeps_def commands_le_mput)
  then show ?thesis
    by (auto simp: TriggerShutdown_def Let_def case_prod_beta split: option.split)
qed

lemma command_le_disable: "command_le c (c\<lparr>cm_ReplayDisabled := True\<rparr>)"
  by (auto simp: command_le_def)

lemma command_le_time_out: "command_le c (time_out_nodes now cid c)"
  using status.done_final status.final_complete
  by (auto simp: command_le_def node_update_time_out node_complete_def)

lemma command_le_CompletedAt: "command_le c c' \<Longrightarrow> command_le c (c'\<lparr>cm_CompletedAt := t\<rparr>)"
  by (simp add: command_le_def)

lemma command_le_mark: "command_le c (mark_command now cid c)"
  by (simp add: mark_command_def Let_def command_le_time_out command_le_CompletedAt)

lemma commands_le_mark: "commands_le new m (map (\<lambda>(cid, c). (cid, mark_command now cid c)) m)"
  by (auto simp: commands_le_def map_of_map_val command_le_mark)

lemma keeps_prune:
  "distinct (mkeys (commands t)) \<Longrightarrow> keeps new s t \<Longrightarrow> keeps new s (snd (pruneCompletedCommandsLocked t))"
  using commands_le_trans [of new "commands s" "commands t" new]
  by (auto simp: keeps_def prune_commands commands_le_filter)

lemma keeps_markTimedOut:
  assumes "distinct (mkeys (commands s))"
  shows "keeps new s (markTimedOutCommands now s)"
proof -
  let ?s1 = "s\<lparr>commands := map (\<lambda>(cid, c). (cid, mark_command now cid c)) (commands s)\<rparr>"
  let ?s2 = "if mark_releases now s then ?s1\<lparr>activeCommand := [], shutdownIssued := False\<rparr> else ?s1"
  have "keeps new s ?s2" by (simp add: keeps_def commands_le_mark)
  then have "keeps new s (snd (pruneCompletedCommandsLocked ?s2))"
    using assms by (intro keeps_prune) (auto simp: case_prod_beta comp_def)
  then show ?thesis
    by (auto simp: markTimedOutCommands_def Let_def case_prod_beta)
qed

lemma command_le_ack:
  "ack_accepted u c \<Longrightarrow> command_le c (ack_command now u c)"
  by (auto simp: command_le_def ack_accepted_def)

lemma exec_of_trigger [simp]:
  "exec_of (map_option (\<lambda>l. l\<lparr>ls_Trigger := tr\<rparr>) ls) = exec_of ls"
  by (cases ls) auto

lemma keeps_recordUpdate: "keeps new s (snd (recordShutdownUpdateLocked now u s))"
  using command_le_ack
  by (auto simp: recordShutdownUpdateLocked_alt ack_state_def Let_def keeps_def
      intro!: commands_le_madjust split: option.split)

lemma keeps_reset: "keeps new s (ResetActiveCommand s)"
proof -
  let ?d = "\<lambda>c. c\<lparr>cm_ReplayDisabled := True\<rparr>"
  have one: "commands_le new m (madjust a ?d m)" for a m
    by (rule commands_le_madjust) (rule command_le_disable)
  have "commands_le new m (madjust b ?d (madjust a ?d m))" for a b m
    using commands_le_trans [OF one one, of m b a] by simp
  with one show ?thesis
    unfolding ResetActiveCommand_def Let_def
    by (auto simp: keeps_def exec_of_def split: option.splits)
qed

lemma command_le_targets:
  "set (cm_TargetNodes c) \<subseteq> set ts \<Longrightarrow> command_le c (c\<lparr>cm_TargetNodes := ts\<rparr>)"
  by (auto simp: command_le_def)

lemma command_le_reopen: "command_le c c' \<Longrightarrow> command_le c (reopenCommandLocked now s c')"
  by (simp add: command_le_def)

lemma keeps_replayable: "keeps new s (snd (replayableShutdownForNode client now s))"
  by (auto simp: replayableShutdownForNode_def Let_def keeps_def split: option.split
      intro!: commands_le_madjust command_le_reopen command_le_targets)

lemma keeps_replayPending: "keeps new s (snd (replayPendingShutdown client now s))"
  using keeps_replayable [of new s client now]
  by (auto simp: replayPendingShutdown_def split: option.split prod.split)

lemma keeps_startEpisode: "keeps new s (startEpisodeIfNeeded at s)"
proof -
  have "keeps new s (s\<lparr>episode := e\<rparr>)" for e by (simp add: keeps_def)
  then show ?thesis by (simp add: startEpisodeIfNeeded_def split: option.split)
qed

lemma keeps_local [simp]:
  "keeps new s (t\<lparr>activeCommand := a, shutdownIssued := i\<rparr>) = keeps new s t"
  "keeps new s (t\<lparr>episode := e, shutdownIssued := i\<rparr>) = keeps new s t"
  "keeps new s (t\<lparr>upsConfirmed := b\<rparr>) = keeps new s t"
  by (simp_all add: keeps_def)

lemma keeps_closeEpisode: "keeps new s (closeEpisode e s)"
  by (auto simp: closeEpisode_def Let_def keeps_def localShutdownBelongsToEpisodeLocked_def exec_of_def
      intro!: commands_le_madjust command_le_disable split: option.splits)

lemma keeps_endEpisode: "keeps new s (endEpisodeOnLinePower s)"
proof -
  let ?s1 = "case episode s of None \<Rightarrow> s | Some e \<Rightarrow> closeEpisode e s"
  have k: "keeps new s ?s1" using keeps_closeEpisode by (auto split: option.split)
  then have "keeps new s (?s1\<lparr>activeCommand := [], shutdownIssued := False\<rparr>)" by (simp add: keeps_def)
  with k show ?thesis unfolding endEpisodeOnLinePower_def Let_def by simp
qed

lemma keeps_policiesLocked: "keeps new s (fst (evaluateEpisodePoliciesLocked reading now s))"
  by (auto simp: evaluateEpisodePoliciesLocked_def Let_def keeps_def split: option.split prod.split)

lemma command_le_adoptMatching:
  assumes "adoptMatchingClientsLocked c now s = (adopted, c')"
  shows "command_le c c'"
  by (auto simp: command_le_def adoptMatching_props [OF assms])

lemma keeps_retry: "keeps new s (retryEpisodeShutdown now s)"
proof -
  have "keeps new s (s\<lparr>lastNodeRetryAt := now,
      commands := madjust cid (\<lambda>_. reopenCommandLocked now s c1) (commands s)\<rparr>)"
    if "map_of (commands s) cid = Some c" "adoptMatchingClientsLocked c now s = (adopted, c1)"
    for cid c c1 adopted
    using that(1) command_le_reopen [OF command_le_adoptMatching [OF that(2)]]
    by (auto simp: keeps_def intro!: commands_le_madjust)
  then show ?thesis
    by (auto simp: retryEpisodeShutdown_def Let_def split: option.split prod.split)
qed

lemma keeps_supersede: "keeps new s (supersedeManualCommandLocked s)"
  by (auto simp: supersedeManualCommandLocked_def Let_def keeps_def localShutdownTerminal_def exec_of_def
      intro!: commands_le_madjust command_le_disable split: option.splits)

lemma keeps_create:
  assumes "createEpisodeCommand e target reason now cid s = (c, toSend, s2)"
  shows "keeps {cid} s s2"
proof -
  let ?s0 = "supersedeManualCommandLocked s"
  let ?s1 = "?s0\<lparr>commands := mput cid c (commands ?s0), activeCommand := cid,
    episode := Some (e\<lparr>ep_CommandID := cid\<rparr>), lastNodeRetryAt := now\<rparr>"
  have "keeps {cid} ?s0 ?s1" by (simp add: keeps_def commands_le_mput)
  with keeps_supersede have "keeps {cid} s ?s1" by (rule keeps_trans)
  moreover from assms have "s2 = ?s1 \<or> s2 = armLocalShutdownLocked c now ?s1"
    by (auto simp: createEpisodeCommand_def Let_def split: if_splits)
  ultimately show ?thesis by auto
qed

lemma keeps_widen:
  assumes "server_inv s" and c: "map_of (commands s) cid = Some existing"
    and w: "widenEpisodeCommand existing target reason now s = (c2, toSend, s2)"
  shows "keeps new s s2"
proof -
  let ?m = "cm_Message existing"
  let ?c1 = "existing\<lparr>cm_Message := ?m\<lparr>sm_Target := mergeShutdownTargets (sm_Target ?m) target,
    sm_Reason := sm_Reason ?m @ ''; '' @ reason\<rparr>\<rparr>"
  let ?s1 = "s\<lparr>commands := madjust cid (\<lambda>_. c2) (commands s)\<rparr>"
  have cid: "sm_CommandID ?m = cid"
    using assms(1) c by (auto simp: server_inv_def core_ok_def command_inv_def dest: commands_inv_lookup)
  from w have ad: "adoptMatchingClientsLocked ?c1 now s = (toSend, c2)"
    and s2: "s2 = ?s1 \<or> s2 = armLocalShutdownLocked c2 now ?s1"
    by (auto simp: widenEpisodeCommand_def Let_def cid split: prod.splits if_splits)
  have "command_le existing ?c1" by (auto simp: command_le_def merge_matches)
  from command_le_trans [OF this command_le_adoptMatching [OF ad]] c have "keeps new s ?s1"
    by (auto simp: keeps_def intro!: commands_le_madjust)
  with s2 show ?thesis by auto
qed

lemma keeps_apply: "server_inv s \<Longrightarrow> keeps {cid} s (applyPolicyMatch pm now cid s)"
  using keeps_create [of _ _ _ now cid s] keeps_widen [of s _ _ _ _ now]
  by (fastforce simp: applyPolicyMatch_def Let_def split: option.split prod.split)

lemma keeps_UPS [simp]:
  "keeps new s (recordUPSError err at t) = keeps new s t"
  "keeps new s (recordUPSSuccess st at t) = keeps new s t"
  by (simp_all add: keeps_def)

section \<open>Local shutdown\<close>

lemma keeps_localShutdown:
  "exec_of ls = exec_of (localShutdown t) \<Longrightarrow> keeps new s (t\<lparr>localShutdown := ls\<rparr>) = keeps new s t"
  by (simp add: keeps_def)

lemma keeps_startEmergency:
  "exec_of (localShutdown s) = None \<Longrightarrow> keeps new s (fst (startEmergency now em trusted s))"
  by (auto simp: startEmergency_def Let_def keeps_localShutdown split: option.split)

lemma keeps_waitForRemote:
  "localShutdown s = Some l \<Longrightarrow> ls_Phase l = PhaseWaitingRemote \<Longrightarrow>
    keeps new s (fst (waitForRemote now em l command s))"
  by (auto simp: waitForRemote_def keeps_localShutdown split: option.split)

lemma keeps_advance:
  "localShutdown s = Some l \<Longrightarrow> keeps new s (fst (advanceLocalShutdown now em trusted l s))"
  by (auto simp: advanceLocalShutdown_def Let_def keeps_waitForRemote)

lemma keeps_evaluateLocalLocked: "keeps new s (fst (evaluateLocalShutdownLocked now u s))"
proof -
  have "keeps new s (fst (startEmergency now em tr (s\<lparr>upsConfirmed := b\<rparr>)))"
    if "exec_of (localShutdown s) = None" for em tr b
    using keeps_startEmergency [of "s\<lparr>upsConfirmed := b\<rparr>" new now em tr] that by (simp add: keeps_def)
  moreover have "keeps new s (fst (advanceLocalShutdown now em tr l (s\<lparr>upsConfirmed := b\<rparr>)))"
    if "localShutdown s = Some l" for em tr l b
    using keeps_advance [of "s\<lparr>upsConfirmed := b\<rparr>" l new now em tr] that by (simp add: keeps_def)
  ultimately show ?thesis
    by (auto simp: evaluateLocalShutdownLocked_def Let_def keeps_startEmergency keeps_advance split: option.split)
qed

text \<open>A claim starts the execution, and only where none is under way; finishing ends it.\<close>

lemma claim_None: "beginLocalShutdownClaim cid tr at s = (None, s') \<Longrightarrow> s' = s"
  by (auto simp: beginLocalShutdownClaim_def Let_def split: option.splits if_splits)

lemma claim_Some:
  assumes "beginLocalShutdownClaim cid tr at s = (Some dry, s')"
  shows "exec_of (localShutdown s) = None" "exec_of (localShutdown s') = Some cid"
    "\<exists>l. localShutdown s = Some l \<and> ls_CommandID l = cid \<and> \<not> localShutdownTerminal (ls_Phase l) \<and> dry = ls_DryRun l"
    "cfg s' = cfg s" "registry s' = registry s" "directory s' = directory s" "nodeTokens s' = nodeTokens s"
    "hashToken s' = hashToken s" "commands s' = commands s"
  using assms
  by (auto simp: beginLocalShutdownClaim_def Let_def localShutdownTerminal_def split: option.splits if_splits)

lemma finish_exec:
  assumes "exec_of (localShutdown s) = Some cid"
  shows "exec_of (localShutdown (beginLocalShutdownFinish cid err s)) = None"
    "cfg (beginLocalShutdownFinish cid err s) = cfg s"
    "registry (beginLocalShutdownFinish cid err s) = registry s"
    "directory (beginLocalShutdownFinish cid err s) = directory s"
    "nodeTokens (beginLocalShutdownFinish cid err s) = nodeTokens s"
    "hashToken (beginLocalShutdownFinish cid err s) = hashToken s"
    "commands (beginLocalShutdownFinish cid err s) = commands s"
  using assms by (auto simp: beginLocalShutdownFinish_def exec_of_def split: option.splits if_splits)

lemma exec_trigger:
  "server_inv s \<Longrightarrow> exec_of (localShutdown s) = Some cid \<Longrightarrow> localShutdown s = Some l \<Longrightarrow> ls_Trigger l \<noteq> []"
  using local_state_ok_lookup [of s l] by (auto simp: exec_of_def local_state_ok_def split: if_splits)

end
