(* ===== verification/Master.thy ===== *)
theory Master
  imports Sections
begin

text \<open>
  The running master as a transition system. Its steps are the critical sections of the
  polling loop, the command watcher, the connection handlers, the admin API and the local
  shutdown command, in any interleaving; a crash or a restart may happen between any two.
\<close>

section \<open>State\<close>

text \<open>
  Beside the server: the phase of every connection handler, the local shutdowns a goroutine
  has decided on but not yet claimed, the local shutdown commands being run, the policies
  found due but not yet applied, and the command ids drawn so far.
\<close>

record master =
  srv :: Server
  handlers :: "(nat, conn_phase) gomap"
  decided :: "(string \<times> string) list"
  running :: "string list"
  firing :: "string list"
  usedIDs :: "string list"

text \<open>After the unlock of \<open>evaluateLocalShutdown\<close>: the emergency rebroadcast.\<close>

definition replay_decision :: "local_decision \<Rightarrow> Server \<Rightarrow> Server" where
  "replay_decision d s =
    (case ld_replay d of
       None \<Rightarrow> s
     | Some m \<Rightarrow> if ld_replayNodes d \<noteq> [] then replayShutdownToNodes m (ld_replayNodes d) s else s)"

definition decide_on :: "string \<Rightarrow> string \<Rightarrow> master \<Rightarrow> master" where
  "decide_on cid trigger m = (if trigger = [] then m else m\<lparr>decided := decided m @ [(cid, trigger)]\<rparr>)"

definition set_phase :: "nat \<Rightarrow> conn_phase \<Rightarrow> master \<Rightarrow> master" where
  "set_phase conn ph m = m\<lparr>handlers := madjust conn (\<lambda>_. ph) (handlers m)\<rparr>"

definition touch :: "nat \<Rightarrow> string \<Rightarrow> time \<Rightarrow> Server \<Rightarrow> Server" where
  "touch conn nodeID now s =
    s\<lparr>registry := reg_Touch conn now (registry s), directory := dir_Touch nodeID now (directory s)\<rparr>"

section \<open>Steps\<close>

text \<open>The steps that do not handle the acknowledgement of a slave.\<close>

inductive quiet_step :: "master \<Rightarrow> master \<Rightarrow> bool" where
  poll_failed:
    "firing m = [] \<Longrightarrow> evaluateEpisodePoliciesLocked None t (recordUPSError err t (srv m)) = (s', due) \<Longrightarrow>
      quiet_step m (m\<lparr>srv := s', firing := due\<rparr>)"
| poll_line:
    "firing m = [] \<Longrightarrow> \<not> ups_OnBattery st \<Longrightarrow>
      quiet_step m (m\<lparr>srv := (endEpisodeOnLinePower (recordUPSSuccess st t (srv m)))\<lparr>upsConfirmed := True\<rparr>\<rparr>)"
| poll_battery:
    "firing m = [] \<Longrightarrow> ups_OnBattery st \<Longrightarrow>
      evaluateEpisodePoliciesLocked (Some st) t
        ((startEpisodeIfNeeded t (recordUPSSuccess st t (srv m)))\<lparr>upsConfirmed := True\<rparr>) = (s', due) \<Longrightarrow>
      quiet_step m (m\<lparr>srv := s', firing := due\<rparr>)"
| fire:
    "firing m \<noteq> [] \<Longrightarrow> cid \<noteq> [] \<Longrightarrow> cid \<notin> set (usedIDs m) \<Longrightarrow>
      quiet_step m (m\<lparr>srv := applyPolicyMatch (buildPolicyMatch (mc_ShutdownPolicies (cfg (srv m))) (firing m))
        t cid (srv m), firing := [], usedIDs := cid # usedIDs m\<rparr>)"
| sweep: "quiet_step m (m\<lparr>srv := markTimedOutCommands t (srv m)\<rparr>)"
| retry: "quiet_step m (m\<lparr>srv := retryEpisodeShutdown t (srv m)\<rparr>)"
| local_check:
    "lc_Enabled (mc_LocalShutdown (cfg (srv m))) \<Longrightarrow> evaluateLocalShutdownLocked t u (srv m) = (s', d) \<Longrightarrow>
      quiet_step m (decide_on (ld_commandID d) (ld_trigger d) (m\<lparr>srv := replay_decision d s'\<rparr>))"
| claim_lost:
    "(cid, tr) \<in> set (decided m) \<Longrightarrow> beginLocalShutdownClaim cid tr t (srv m) = (None, s') \<Longrightarrow>
      quiet_step m (m\<lparr>srv := s', decided := remove1 (cid, tr) (decided m)\<rparr>)"
| claim:
    "(cid, tr) \<in> set (decided m) \<Longrightarrow> beginLocalShutdownClaim cid tr t (srv m) = (Some dry, s') \<Longrightarrow>
      quiet_step m (m\<lparr>srv := emit [Ran (slice (lc_Command (mc_LocalShutdown (cfg s')))) tr dry] s',
        decided := remove1 (cid, tr) (decided m), running := running m @ [cid]\<rparr>)"
| finish:
    "cid \<in> set (running m) \<Longrightarrow>
      quiet_step m (m\<lparr>srv := beginLocalShutdownFinish cid err (srv m), running := remove1 cid (running m)\<rparr>)"
| accept:
    "map_of (handlers m) conn = None \<Longrightarrow>
      quiet_step m (m\<lparr>srv := trackConn conn (srv m), handlers := handlers m @ [(conn, Handshake)]\<rparr>)"
| handshake:
    "map_of (handlers m) conn = Some Handshake \<Longrightarrow> conn_handshake conn r peer rnd (srv m) = (ph, s') \<Longrightarrow>
      quiet_step m (set_phase conn ph (m\<lparr>srv := s'\<rparr>))"
| join:
    "map_of (handlers m) conn = Some (Authenticated reg tok h) \<Longrightarrow>
      conn_join conn reg tok h t (srv m) = (ph, s') \<Longrightarrow> quiet_step m (set_phase conn ph (m\<lparr>srv := s'\<rparr>))"
| greet:
    "map_of (handlers m) conn = Some (Joined reg tok) \<Longrightarrow> conn_welcome conn reg tok t (srv m) = (ph, s') \<Longrightarrow>
      quiet_step m (set_phase conn ph (m\<lparr>srv := s'\<rparr>))"
| receive:
    "map_of (handlers m) conn = Some (Serving n tok) \<Longrightarrow>
      (\<And>env. r = Inr env \<Longrightarrow> env_Type env \<noteq> TypeShutdownAck) \<Longrightarrow>
      conn_receive (\<lambda>_ _ _. None) t t conn n tok r (srv m) = (ph, s') \<Longrightarrow>
      quiet_step m (set_phase conn ph (m\<lparr>srv := s'\<rparr>))"
| ignore_ack:
    "map_of (handlers m) conn = Some (Serving n tok) \<Longrightarrow> quiet_step m (m\<lparr>srv := touch conn n t (srv m)\<rparr>)"
| cleanup:
    "map_of (handlers m) conn = Some (Finished n) \<Longrightarrow>
      quiet_step m (set_phase conn Gone (m\<lparr>srv := untrackConn conn (conn_cleanup conn n (srv m))\<rparr>))"
| admin_shutdown:
    "cid \<noteq> [] \<Longrightarrow> cid \<notin> set (usedIDs m) \<Longrightarrow>
      quiet_step m (m\<lparr>srv := snd (handleManualShutdown http_method body t cid (srv m)), usedIDs := cid # usedIDs m\<rparr>)"
| admin_reset: "quiet_step m (m\<lparr>srv := snd (handleReset http_method (srv m))\<rparr>)"
| admin_expect: "quiet_step m (m\<lparr>srv := snd (handleExpectNode request (srv m))\<rparr>)"
| admin_unexpect: "quiet_step m (m\<lparr>srv := snd (handleUnsetExpected n (srv m))\<rparr>)"
| admin_delete: "quiet_step m (m\<lparr>srv := snd (handleDeleteNode n (srv m))\<rparr>)"
| admin_revoke: "quiet_step m (m\<lparr>srv := snd (handleRevokeToken n (srv m))\<rparr>)"
| admin_install: "quiet_step m (m\<lparr>srv := snd (install_node n rnd (srv m))\<rparr>)"

text \<open>The acknowledgement \<open>ack\<close> is handled on a connection that serves node \<open>n\<close>.\<close>

inductive ack_step :: "string \<Rightarrow> ShutdownAckMessage \<Rightarrow> master \<Rightarrow> master \<Rightarrow> bool" where
  acknowledge:
    "map_of (handlers m) conn = Some (Serving n tok) \<Longrightarrow> isReportableShutdownStatus (ack_Status ack) \<Longrightarrow>
      recordShutdownUpdateLocked t (ack\<lparr>ack_NodeID := n\<rparr>) (touch conn n t (srv m)) = (start, s') \<Longrightarrow>
      ack_step n ack m (decide_on (ack_CommandID ack) (if start then TriggerRemoteComplete else []) (m\<lparr>srv := s'\<rparr>))"

inductive master_step :: "master \<Rightarrow> master \<Rightarrow> bool" where
  quiet: "quiet_step m m' \<Longrightarrow> master_step m m'"
| ack: "ack_step n a m m' \<Longrightarrow> master_step m m'"

inductive_cases quiet_stepE: "quiet_step m m'"
inductive_cases ack_stepE: "ack_step n a m m'"
inductive_cases master_stepE: "master_step m m'"

text \<open>A process start: a fresh server loaded from whatever the state file holds.\<close>

definition started :: "Server \<Rightarrow> master" where
  "started s = \<lparr>srv = s, handlers = [], decided = [], running = [], firing = [], usedIDs = mkeys (commands s)\<rparr>"

definition master_boot ::
  "MasterConfig \<Rightarrow> (string \<Rightarrow> string) \<Rightarrow> persistedState option \<Rightarrow> master \<Rightarrow> bool" where
  "master_boot c H d m \<longleftrightarrow> (\<exists>now wok sok. m = started (NewServer c now H wok sok (file_of_disk d)))"

inductive process_step :: "master \<Rightarrow> master \<Rightarrow> bool" where
  run: "master_step m m' \<Longrightarrow> process_step m m'"
| restart: "master_boot (cfg (srv m)) (hashToken (srv m)) (disk (stateStore (srv m))) m' \<Longrightarrow> process_step m m'"

section \<open>Invariant\<close>

definition handler_ok :: "directory \<Rightarrow> conn_phase \<Rightarrow> bool" where
  "handler_ok d ph = (case ph of
     Authenticated reg tok h \<Rightarrow> rg_NodeID reg \<noteq> []
   | Joined reg tok \<Rightarrow> rg_NodeID reg \<noteq> []
   | Serving n tok \<Rightarrow> n \<noteq> [] \<and> (\<exists>meta. map_of d n = Some meta \<and> nm_FirstSeen meta \<noteq> None)
   | _ \<Rightarrow> True)"

definition policies_ok :: "MasterConfig \<Rightarrow> bool" where
  "policies_ok c \<longleftrightarrow> distinct (map pol_Name (mc_ShutdownPolicies c))"

text \<open>
  The server's invariant; every handler's phase fits the directory; a decision has a trigger;
  at most one local shutdown command runs, and exactly while its state says so; due policies
  are distinct; every command id in use was drawn.
\<close>

definition master_inv :: "master \<Rightarrow> bool" where
  "master_inv m \<longleftrightarrow> server_inv (srv m) \<and> policies_ok (cfg (srv m)) \<and>
     (\<forall>conn ph. map_of (handlers m) conn = Some ph \<longrightarrow> handler_ok (directory (srv m)) ph) \<and>
     (\<forall>(cid, tr) \<in> set (decided m). tr \<noteq> []) \<and>
     running m = (case exec_of (localShutdown (srv m)) of None \<Rightarrow> [] | Some cid \<Rightarrow> [cid]) \<and>
     distinct (firing m) \<and> set (mkeys (commands (srv m))) \<subseteq> set (usedIDs m)"

section \<open>Which policies are due\<close>

lemma eval_policy_due:
  "\<exists>ms' ns u'. eval_policy reading silent now fired p (ms, due, u) = (ms', due @ ns, u') \<and>
     (ns = [] \<or> (ns = [pol_Name p] \<and> pol_Name p \<notin> set fired))"
  by (auto simp: Let_def split: option.split)

lemma fold_eval_policy:
  "fold (eval_policy reading silent now fired) ps (ms, due, u) = (ms', due', u') \<Longrightarrow>
    \<exists>ns. due' = due @ ns \<and> subseq ns (map pol_Name ps) \<and> set ns \<inter> set fired = {}"
proof (induction ps arbitrary: ms due u)
  case (Cons p ps)
  obtain ms1 ns1 u1 where p: "eval_policy reading silent now fired p (ms, due, u) = (ms1, due @ ns1, u1)"
    "ns1 = [] \<or> (ns1 = [pol_Name p] \<and> pol_Name p \<notin> set fired)"
    using eval_policy_due [of reading silent now fired p ms due u] by blast
  with Cons.prems have "fold (eval_policy reading silent now fired) ps (ms1, due @ ns1, u1) = (ms', due', u')"
    by simp
  from Cons.IH [OF this] obtain ns where "due' = (due @ ns1) @ ns" "subseq ns (map pol_Name ps)"
    "set ns \<inter> set fired = {}" by blast
  with p(2) show ?case by (intro exI [of _ "ns1 @ ns"]) auto
qed simp

lemma policiesLocked_due:
  assumes "evaluateEpisodePoliciesLocked reading now s = (s', due)"
  shows "subseq due (map pol_Name (mc_ShutdownPolicies (cfg s)))"
    "\<And>e. episode s = Some e \<Longrightarrow> set due \<inter> set (ep_FiredPolicies e) = {}"
  using assms
  by (auto simp: evaluateEpisodePoliciesLocked_def Let_def dest!: fold_eval_policy
      split: if_splits option.splits prod.splits)

lemma distinct_due:
  "evaluateEpisodePoliciesLocked reading now s = (s', due) \<Longrightarrow> policies_ok (cfg s) \<Longrightarrow> distinct due"
  unfolding policies_ok_def by (meson policiesLocked_due(1) distinct_subseq)

section \<open>Preservation\<close>

lemma pm_Names_build [simp]: "pm_Names (buildPolicyMatch ps names) = names"
  by (simp add: buildPolicyMatch_def split: prod.split)

lemma master_inv_keeps:
  assumes inv: "master_inv m" and "server_inv (srv m')" and k: "keeps new (srv m) (srv m')"
    and "new \<union> set (usedIDs m) \<subseteq> set (usedIDs m')" and "handlers m' = handlers m"
    and "\<forall>(cid, tr) \<in> set (decided m'). tr \<noteq> []" and "running m' = running m" and "distinct (firing m')"
  shows "master_inv m'"
proof -
  have "cid \<in> set (usedIDs m')" if "cid \<in> set (mkeys (commands (srv m')))" for cid
  proof -
    from that obtain c where "map_of (commands (srv m')) cid = Some c" by (blast dest: keys_map_of_Some)
    with k have "cid \<in> new \<or> cid \<in> set (mkeys (commands (srv m)))"
      unfolding keeps_def commands_le_def by (metis map_of_Some_keys)
    with inv assms(4) show ?thesis unfolding master_inv_def by blast
  qed
  with assms show ?thesis by (auto simp: master_inv_def keeps_def simp del: set_map)
qed

lemma keeps_replay_decision [simp]: "keeps new s (replay_decision d t) = keeps new s t"
  by (simp add: replay_decision_def split: option.split)

lemma server_inv_replay_decision [simp]: "server_inv (replay_decision d s) = server_inv s"
  by (simp add: replay_decision_def split: option.split)

lemma master_simps:
  assumes "master_inv m"
  shows "server_inv (srv m)" "policies_ok (cfg (srv m))" "\<forall>(cid, tr) \<in> set (decided m). tr \<noteq> []"
    "distinct (firing m)" "distinct (mkeys (commands (srv m)))"
    "\<And>cid. cid \<notin> set (usedIDs m) \<Longrightarrow> cid \<notin> set (mkeys (commands (srv m)))"
  using assms by (auto simp: master_inv_def server_inv_def core_ok_def commands_inv_def)

lemma server_inv_UPS [simp]:
  "server_inv (recordUPSError err t s) = server_inv s" "server_inv (recordUPSSuccess st t s) = server_inv s"
  by (simp_all add: server_inv_def)

text \<open>The polling loop and the watcher.\<close>

lemma inv_poll_failed:
  assumes m: "master_inv m"
    and r: "evaluateEpisodePoliciesLocked None t (recordUPSError err t (srv m)) = (s', due)"
  shows "master_inv (m\<lparr>srv := s', firing := due\<rparr>)"
proof -
  let ?s = "recordUPSError err t (srv m)"
  have "server_inv s'" "keeps {} (srv m) s'" "distinct due"
    using server_inv_policiesLocked [of ?s None t] keeps_policiesLocked [of "{}" ?s None t] master_simps [OF m]
      distinct_due [OF r] r keeps_trans [of "{}" "srv m" ?s s'] by auto
  then show ?thesis using master_simps [OF m] by (intro master_inv_keeps [OF m, of _ "{}"]) auto
qed

lemma inv_poll_line:
  assumes m: "master_inv m"
  shows "master_inv (m\<lparr>srv := (endEpisodeOnLinePower (recordUPSSuccess st t (srv m)))\<lparr>upsConfirmed := True\<rparr>\<rparr>)"
  using master_simps [OF m] keeps_endEpisode [of "{}" "recordUPSSuccess st t (srv m)"]
    keeps_trans [of "{}" "srv m" "recordUPSSuccess st t (srv m)"]
  by (intro master_inv_keeps [OF m, of _ "{}"]) (auto intro: server_inv_endEpisode)

lemma inv_poll_battery:
  assumes m: "master_inv m"
    and r: "evaluateEpisodePoliciesLocked (Some st) t
      ((startEpisodeIfNeeded t (recordUPSSuccess st t (srv m)))\<lparr>upsConfirmed := True\<rparr>) = (s', due)"
  shows "master_inv (m\<lparr>srv := s', firing := due\<rparr>)"
proof -
  let ?a = "recordUPSSuccess st t (srv m)"
  let ?s = "(startEpisodeIfNeeded t ?a)\<lparr>upsConfirmed := True\<rparr>"
  have k: "keeps {} (srv m) ?s"
    using keeps_startEpisode [of "{}" ?a t] keeps_trans [of "{}" "srv m" ?a "startEpisodeIfNeeded t ?a"] by simp
  have "server_inv ?s" using master_simps [OF m] by (simp add: server_inv_startEpisode)
  from server_inv_policiesLocked [OF this, of "Some st" t] have "server_inv s'" by (simp add: r)
  moreover have "keeps {} (srv m) s'"
    using keeps_trans [OF k] keeps_policiesLocked [of "{}" ?s "Some st" t] unfolding r by simp
  moreover have "distinct due"
    using distinct_due [OF r] master_simps(2) [OF m] k by (simp add: keeps_def)
  ultimately show ?thesis using master_simps [OF m] by (intro master_inv_keeps [OF m, of _ "{}"]) auto
qed

lemma inv_fire:
  assumes m: "master_inv m" and "cid \<noteq> []" "cid \<notin> set (usedIDs m)"
  shows "master_inv (m\<lparr>srv := applyPolicyMatch (buildPolicyMatch ps (firing m)) t cid (srv m), firing := [],
    usedIDs := cid # usedIDs m\<rparr>)"
  using assms master_simps [OF m]
  by (intro master_inv_keeps [OF m, of _ "{cid}"]) (auto intro!: server_inv_apply keeps_apply)

lemma inv_watcher:
  assumes m: "master_inv m"
  shows "master_inv (m\<lparr>srv := markTimedOutCommands t (srv m)\<rparr>)"
    "master_inv (m\<lparr>srv := retryEpisodeShutdown t (srv m)\<rparr>)"
  using master_simps [OF m]
  by (auto intro!: master_inv_keeps [OF m, of _ "{}"] server_inv_markTimedOut keeps_markTimedOut
      server_inv_retry keeps_retry)

lemma inv_decide: "master_inv m \<Longrightarrow> master_inv (decide_on cid tr m)"
  by (auto simp: decide_on_def master_inv_def)

lemma inv_local_check:
  assumes m: "master_inv m" and "lc_Enabled (mc_LocalShutdown (cfg (srv m)))"
    and r: "evaluateLocalShutdownLocked t u (srv m) = (s', d)"
  shows "master_inv (decide_on cid tr (m\<lparr>srv := replay_decision d s'\<rparr>))"
proof -
  have "server_inv s'" "keeps {} (srv m) s'"
    using server_inv_evaluateLocalLocked [OF master_simps(1) [OF m] assms(2), of t u]
      keeps_evaluateLocalLocked [of "{}" "srv m" t u] r by auto
  then show ?thesis
    using master_simps [OF m] by (intro inv_decide master_inv_keeps [OF m, of _ "{}"]) auto
qed

text \<open>The local shutdown command.\<close>

lemma running_exec:
  "master_inv m \<Longrightarrow> running m = (case exec_of (localShutdown (srv m)) of None \<Rightarrow> [] | Some cid \<Rightarrow> [cid])"
  by (simp add: master_inv_def)

lemma inv_claim_lost:
  assumes m: "master_inv m" and "beginLocalShutdownClaim cid tr t (srv m) = (None, s')"
  shows "master_inv (m\<lparr>srv := s', decided := remove1 x (decided m)\<rparr>)"
  using master_simps [OF m] claim_None [OF assms(2)]
  by (intro master_inv_keeps [OF m, of _ "{}"]) (auto dest: set_remove1_subset [THEN subsetD])

lemma inv_claim:
  assumes m: "master_inv m" and d: "(cid, tr) \<in> set (decided m)"
    and c: "beginLocalShutdownClaim cid tr t (srv m) = (Some dry, s')"
  shows "master_inv (m\<lparr>srv := emit es s', decided := remove1 (cid, tr) (decided m), running := running m @ [cid]\<rparr>)"
proof -
  from m d have "tr \<noteq> []" by (auto simp: master_inv_def)
  with server_inv_claim [OF master_simps(1) [OF m], of tr cid t] c have "server_inv s'" by simp
  moreover have "running m = []" using running_exec [OF m] claim_Some(1) [OF c] by simp
  ultimately show ?thesis
    using m claim_Some [OF c] by (auto simp: master_inv_def dest: set_remove1_subset [THEN subsetD])
qed

lemma inv_finish:
  assumes m: "master_inv m" and "cid \<in> set (running m)"
  shows "master_inv (m\<lparr>srv := beginLocalShutdownFinish cid err (srv m), running := remove1 cid (running m)\<rparr>)"
proof -
  have e: "exec_of (localShutdown (srv m)) = Some cid"
    using running_exec [OF m] assms(2) by (auto split: option.splits)
  then have "server_inv (beginLocalShutdownFinish cid err (srv m))"
    using exec_trigger [OF master_simps(1) [OF m]] by (intro server_inv_finish master_simps(1) [OF m]) auto
  with m e finish_exec [OF e] show ?thesis by (simp add: master_inv_def)
qed

text \<open>The admin API.\<close>

lemma keeps_manual: "keeps {cid} s (snd (handleManualShutdown m body t cid s))"
  using keeps_Trigger [of cid s _ t]
  by (auto simp: handleManualShutdown_def split: sum.splits prod.splits) (metis snd_conv)+

lemma keeps_handleReset: "keeps new s (snd (handleReset m s))"
  by (simp add: handleReset_def keeps_reset)

lemma inv_admin_shutdown:
  assumes m: "master_inv m" and "cid \<noteq> []" "cid \<notin> set (usedIDs m)"
  shows "master_inv (m\<lparr>srv := snd (handleManualShutdown hm body t cid (srv m)), usedIDs := cid # usedIDs m\<rparr>)"
  using assms master_simps [OF m]
  by (intro master_inv_keeps [OF m, of _ "{cid}"]) (auto intro: server_inv_handleManualShutdown keeps_manual)

lemma inv_admin_reset:
  assumes m: "master_inv m"
  shows "master_inv (m\<lparr>srv := snd (handleReset hm (srv m))\<rparr>)"
  using master_simps [OF m]
  by (intro master_inv_keeps [OF m, of _ "{}"]) (auto intro: server_inv_admin keeps_handleReset)

text \<open>
  Sections that touch the registry, the directory or the tokens: the directory may only grow
  in the sense of \<^const>\<open>seen_le\<close>.
\<close>

definition node_keeps :: "Server \<Rightarrow> Server \<Rightarrow> bool" where
  "node_keeps s s' \<longleftrightarrow> cfg s' = cfg s \<and> commands s' = commands s \<and> hashToken s' = hashToken s \<and>
     localShutdown s' = localShutdown s \<and> seen_le (directory s) (directory s')"

lemma handler_ok_seen: "handler_ok d ph \<Longrightarrow> seen_le d d' \<Longrightarrow> handler_ok d' ph"
  by (fastforce simp: handler_ok_def seen_le_def split: conn_phase.splits)

lemma master_inv_node:
  assumes "master_inv m" and "server_inv (srv m')" and "node_keeps (srv m) (srv m')"
    and "decided m' = decided m" "running m' = running m" "firing m' = firing m" "usedIDs m' = usedIDs m"
    and "\<And>conn ph. map_of (handlers m') conn = Some ph \<Longrightarrow>
      map_of (handlers m) conn = Some ph \<or> handler_ok (directory (srv m')) ph"
  shows "master_inv m'"
  using assms handler_ok_seen unfolding master_inv_def node_keeps_def by metis

lemma node_keeps_saveState [simp]: "node_keeps s (saveState t) = node_keeps s t"
  by (simp add: node_keeps_def)

lemma node_keeps_emit [simp]: "node_keeps s (emit es t) = node_keeps s t"
  by (simp add: node_keeps_def)

lemma node_keeps_refl [simp]: "node_keeps s s"
  by (simp add: node_keeps_def seen_le_def)

lemma node_keeps_trans: "node_keeps s t \<Longrightarrow> node_keeps t u \<Longrightarrow> node_keeps s u"
  by (auto simp: node_keeps_def intro: seen_le_trans)

lemma node_keeps_disconnect [simp]: "node_keeps s (disconnectNode n t) = node_keeps s t"
  by (simp add: disconnectNode_def split: option.split)

lemma node_keeps_tokens [simp]: "node_keeps s (t\<lparr>nodeTokens := x\<rparr>) = node_keeps s t"
  by (simp add: node_keeps_def)

lemma node_keeps_registry [simp]: "node_keeps s (t\<lparr>registry := x\<rparr>) = node_keeps s t"
  by (simp add: node_keeps_def)

lemma node_keeps_directory: "seen_le (directory s) d \<Longrightarrow> node_keeps s (s\<lparr>directory := d\<rparr>)"
  by (simp add: node_keeps_def)

lemma node_keeps_admin:
  "node_keeps s (snd (handleExpectNode request s))" "node_keeps s (snd (handleUnsetExpected n s))"
  "node_keeps s (snd (handleDeleteNode n s))" "node_keeps s (snd (handleRevokeToken n s))"
  "node_keeps s (snd (install_node n rnd s))"
  using directory_step_seen [OF directory_step.Delete, of "directory s" n]
  by (auto simp: handleExpectNode_def handleUnsetExpected_def handleDeleteNode_def handleRevokeToken_def
      install_node_def issueNodeToken_def removeNodeToken_def saveStateForDirectoryChange_def Let_def
      intro!: node_keeps_directory intro: directory_step_seen directory_step.intros
      split: sum.splits prod.splits delete_result.splits option.splits)

lemma inv_admin_nodes:
  assumes m: "master_inv m"
  shows "master_inv (m\<lparr>srv := snd (handleExpectNode request (srv m))\<rparr>)"
    "master_inv (m\<lparr>srv := snd (handleUnsetExpected n (srv m))\<rparr>)"
    "master_inv (m\<lparr>srv := snd (handleDeleteNode n (srv m))\<rparr>)"
    "master_inv (m\<lparr>srv := snd (handleRevokeToken n (srv m))\<rparr>)"
    "master_inv (m\<lparr>srv := snd (install_node n rnd (srv m))\<rparr>)"
  using master_simps [OF m]
  by (auto intro!: master_inv_node [OF m] server_inv_admin server_inv_enrollment node_keeps_admin)

text \<open>The connections.\<close>

lemma node_keeps_send [simp]: "node_keeps s (send_to conn msg t) = node_keeps s t"
  by (simp add: send_to_def client_Send_def)

lemma server_inv_send [simp]: "server_inv (send_to conn msg s) = server_inv s"
  by (simp add: send_to_def)

lemma conn_handshake_props:
  assumes "conn_handshake conn r peer rnd s = (ph, s')"
  shows "node_keeps s s'" "server_inv s' = server_inv s" "handler_ok d ph"
  using assms
  by (auto simp: conn_handshake_def handler_ok_def readRegister_def split: sum.splits if_splits prod.splits)

lemma node_keeps_registry_Set [simp]: "node_keeps s (registry_Set c t) = node_keeps s t"
  by (simp add: registry_Set_def split: prod.split)

lemma conn_join_props:
  assumes "conn_join conn reg tok h t s = (ph, s')" and "rg_NodeID reg \<noteq> []"
  shows "node_keeps s s'" "server_inv s \<Longrightarrow> server_inv s'" "handler_ok d ph"
proof -
  let ?c = "registered_client conn reg t"
  have "cl_NodeID ?c \<noteq> []" using assms(2) by (simp add: registered_client_def)
  from server_inv_registerIf [OF _ this, of s h]
  show "node_keeps s s'" "server_inv s \<Longrightarrow> server_inv s'" "handler_ok d ph"
    using assms by (auto simp: conn_join_def registerIfTokenUnchanged_def handler_ok_def split: if_splits)
qed

lemma node_keeps_keeps: "node_keeps s t \<Longrightarrow> keeps {} t u \<Longrightarrow> localShutdown u = localShutdown t \<Longrightarrow>
    commands u = commands t \<Longrightarrow> node_keeps s u"
  by (simp add: node_keeps_def keeps_def)

text \<open>After the welcome the node is in the directory with a first-seen time.\<close>

definition welcome_directory :: "RegisterMessage \<Rightarrow> time \<Rightarrow> directory \<Rightarrow> directory" where
  "welcome_directory reg t d = dir_SetSlaveInfo (rg_NodeID reg) (rg_DryRun reg) (rg_ShutdownReady reg)
     (dir_Observe (rg_NodeID reg) (rg_Hostname reg) (rg_Tags reg) t d)"

lemma welcome_directory_props:
  "seen_le d (welcome_directory reg t d)"
  "directory_inv d \<Longrightarrow> directory_inv (welcome_directory reg t d)"
  "\<exists>meta. map_of (welcome_directory reg t d) (rg_NodeID reg) = Some meta \<and> nm_FirstSeen meta \<noteq> None"
proof -
  show "seen_le d (welcome_directory reg t d)"
    unfolding welcome_directory_def
    by (rule seen_le_trans) (rule directory_step_seen, rule directory_step.intros)+
  show "directory_inv d \<Longrightarrow> directory_inv (welcome_directory reg t d)"
    by (simp add: welcome_directory_def directory_inv_others directory_inv_Observe)
  show "\<exists>meta. map_of (welcome_directory reg t d) (rg_NodeID reg) = Some meta \<and> nm_FirstSeen meta \<noteq> None"
    by (simp add: welcome_directory_def dir_SetSlaveInfo_def dir_Observe_def map_of_madjust Let_def)
qed

text \<open>A section that keeps commands monotone and lets the directory grow.\<close>

definition conn_keeps :: "Server \<Rightarrow> Server \<Rightarrow> bool" where
  "conn_keeps s s' \<longleftrightarrow> cfg s' = cfg s \<and> hashToken s' = hashToken s \<and>
     exec_of (localShutdown s') = exec_of (localShutdown s) \<and>
     commands_le {} (commands s) (commands s') \<and> seen_le (directory s) (directory s')"

lemma conn_keeps_node: "node_keeps s s' \<Longrightarrow> conn_keeps s s'"
  by (simp add: node_keeps_def conn_keeps_def)

lemma conn_keeps_keeps: "conn_keeps s t \<Longrightarrow> keeps {} t u \<Longrightarrow> conn_keeps s u"
  using commands_le_trans [of "{}" "commands s" "commands t" "{}" "commands u"]
  by (simp add: conn_keeps_def keeps_def)

lemma master_inv_conn:
  assumes inv: "master_inv m" and "server_inv (srv m')" and k: "conn_keeps (srv m) (srv m')"
    and "\<forall>(cid, tr) \<in> set (decided m'). tr \<noteq> []" "running m' = running m" "firing m' = firing m"
      "usedIDs m' = usedIDs m"
    and "\<And>conn ph. map_of (handlers m') conn = Some ph \<Longrightarrow>
      map_of (handlers m) conn = Some ph \<or> handler_ok (directory (srv m')) ph"
  shows "master_inv m'"
proof -
  have "set (mkeys (commands (srv m'))) \<subseteq> set (mkeys (commands (srv m)))"
    using k unfolding conn_keeps_def commands_le_def subset_eq
    by (metis empty_iff keys_map_of_Some map_of_Some_keys)
  with assms show ?thesis
    using handler_ok_seen unfolding master_inv_def conn_keeps_def by (metis (no_types, lifting) subset_trans)
qed

lemma conn_welcome_props:
  assumes w: "conn_welcome conn reg tok t s = (ph, s')" and n: "rg_NodeID reg \<noteq> []" and inv: "server_inv s"
  shows "conn_keeps s s'" "server_inv s'" "handler_ok (directory s') ph"
proof -
  let ?d = "welcome_directory reg t (directory s)"
  let ?c = "registered_client conn reg t"
  define s1 where "s1 = saveStateForDirectoryChange (s\<lparr>directory := ?d\<rparr>)"
  define s2 where "s2 = snd (client_Send conn (RegisterAck \<lparr>ra_Accepted = True, ra_Message = ''registered'',
      ra_IssuedToken = tok\<rparr>) s1)"
  define s3 where "s3 = snd (replayPendingShutdown ?c t s2)"
  have c: "cl_NodeID ?c \<noteq> []" using n by (simp add: registered_client_def)
  have inv2: "server_inv s2" and k2: "conn_keeps s s2" and d2: "directory s2 = ?d"
    using inv server_inv_directory_inv [OF inv] welcome_directory_props [where d = "directory s" and reg = reg and t = t]
    by (auto simp: s2_def s1_def saveStateForDirectoryChange_def conn_keeps_def
        intro!: server_inv_saveState server_inv_directory)
  have inv3: "server_inv s3" unfolding s3_def using inv2 c by (rule server_inv_replayPending)
  have "keeps {} s2 s3" unfolding s3_def by (rule keeps_replayPending)
  then have k3: "conn_keeps s s3" and d3: "directory s3 = ?d"
    using conn_keeps_keeps [OF k2] d2 by (auto simp: keeps_def)
  have cases: "(s' = s2 \<and> ph = Finished (rg_NodeID reg)) \<or> (s' = s3 \<and> (ph = Finished (rg_NodeID reg) \<or>
      ph = Serving (rg_NodeID reg) tok))"
    using w by (auto simp: conn_welcome_def Let_def s1_def s2_def s3_def welcome_directory_def
        split: prod.splits bool.splits)
  with inv2 inv3 k2 k3 show "server_inv s'" "conn_keeps s s'" by auto
  from cases show "handler_ok (directory s') ph"
    using n d3 welcome_directory_props(3) [where d = "directory s" and reg = reg and t = t] by (auto simp: handler_ok_def)
qed

lemma touch_props:
  assumes "handler_ok (directory s) (Serving n tok)" and inv: "server_inv s"
  shows "node_keeps s (touch conn n t s)" "server_inv (touch conn n t s)"
    "handler_ok (directory (touch conn n t s)) (Serving n tok')"
proof -
  obtain meta where meta: "map_of (directory s) n = Some meta" "nm_FirstSeen meta \<noteq> None" "n \<noteq> []"
    using assms(1) by (auto simp: handler_ok_def)
  then have "directory_step (directory s) (dir_Touch n t (directory s))" by (intro directory_step.Touch)
  from directory_step_seen [OF this] show "node_keeps s (touch conn n t s)"
    by (simp add: touch_def node_keeps_def)
  show "server_inv (touch conn n t s)"
    using inv meta by (auto simp: server_inv_def touch_def intro!: directory_inv_Touch registry_inv_Touch)
  show "handler_ok (directory (touch conn n t s)) (Serving n tok')"
    using meta by (simp add: handler_ok_def touch_def dir_Touch_def map_of_madjust)
qed

lemma node_keeps_confirm [simp]: "node_keeps s (snd (confirmIssuedToken n tok t)) = node_keeps s t"
  by (simp add: confirmIssuedToken_def saveStateForDirectoryChange_def split: option.split)

lemma directory_confirm [simp]: "directory (snd (confirmIssuedToken n tok s)) = directory s"
  by (simp add: confirmIssuedToken_def saveStateForDirectoryChange_def split: option.split)

lemma handleEnvelope_other:
  assumes "env_Type env \<noteq> TypeShutdownAck"
  shows "node_keeps s (snd (handleEnvelope rn at t conn n env s'')) = node_keeps s s''"
    "server_inv s'' \<Longrightarrow> server_inv (snd (handleEnvelope rn at t conn n env s''))"
    "directory (snd (handleEnvelope rn at t conn n env s'')) = directory s''"
  using assms
  by (auto simp: handleEnvelope_def Let_def client_Send_def intro: server_inv_registry registry_inv_Touch)
    (auto simp: server_inv_def intro: registry_inv_Touch)

lemma conn_receive_props:
  assumes r: "conn_receive rn t t conn n tok r s = (ph, s')" and "handler_ok (directory s) (Serving n tok)"
    and inv: "server_inv s" and other: "\<And>env. r = Inr env \<Longrightarrow> env_Type env \<noteq> TypeShutdownAck"
  shows "node_keeps s s'" "server_inv s'" "handler_ok (directory s') ph"
proof -
  note touch = touch_props [OF assms(2,3), of conn t]
  have s1: "s\<lparr>registry := reg_Touch conn t (registry s), directory := dir_Touch n t (directory s)\<rparr> = touch conn n t s"
    by (simp add: touch_def)
  have "node_keeps s s' \<and> server_inv s' \<and> handler_ok (directory s') ph"
  proof (cases r)
    case (Inl err)
    with r inv show ?thesis by (auto simp: conn_receive_def handler_ok_def)
  next
    case (Inr env)
    show ?thesis
    proof (cases "env_Type env = TypeTokenStored")
      case True
      let ?c = "confirmIssuedToken n tok (touch conn n t s)"
      have "node_keeps s (snd ?c)" "server_inv (snd ?c)" "handler_ok (directory (snd ?c)) (Serving n [])"
        using touch by (simp_all add: server_inv_enrollment)
      with r Inr True touch show ?thesis
        by (cases ?c) (auto simp: conn_receive_def Let_def s1 handler_ok_def split: if_splits bool.splits)
    next
      case False
      with r Inr have "ph = Serving n tok" "s' = snd (handleEnvelope rn t t conn n env (touch conn n t s))"
        by (simp_all add: conn_receive_def Let_def s1)
      then show ?thesis
        using touch handleEnvelope_other [OF other [OF Inr]] by simp
    qed
  qed
  then show "node_keeps s s'" "server_inv s'" "handler_ok (directory s') ph" by auto
qed

lemma set_phase_simps [simp]:
  "srv (set_phase conn ph m) = srv m" "decided (set_phase conn ph m) = decided m"
  "running (set_phase conn ph m) = running m" "firing (set_phase conn ph m) = firing m"
  "usedIDs (set_phase conn ph m) = usedIDs m"
  "handlers (set_phase conn ph m) = madjust conn (\<lambda>_. ph) (handlers m)"
  by (simp_all add: set_phase_def)

lemma inv_set_phase:
  assumes m: "master_inv m" and "server_inv s'" "conn_keeps (srv m) s'" "handler_ok (directory s') ph"
  shows "master_inv (set_phase conn ph (m\<lparr>srv := s'\<rparr>))"
  using assms master_simps [OF m]
  by (intro master_inv_conn [OF m]) (auto simp: map_of_madjust split: if_splits)

lemma handler_lookup:
  "master_inv m \<Longrightarrow> map_of (handlers m) conn = Some ph \<Longrightarrow> handler_ok (directory (srv m)) ph"
  by (simp add: master_inv_def)

lemma inv_handshake:
  assumes m: "master_inv m" and "conn_handshake conn r peer rnd (srv m) = (ph, s')"
  shows "master_inv (set_phase conn ph (m\<lparr>srv := s'\<rparr>))"
  using conn_handshake_props [OF assms(2)] master_simps [OF m]
  by (intro inv_set_phase [OF m] conn_keeps_node) auto

lemma inv_join:
  assumes m: "master_inv m" and h: "map_of (handlers m) conn = Some (Authenticated reg tok h)"
    and "conn_join conn reg tok h t (srv m) = (ph, s')"
  shows "master_inv (set_phase conn ph (m\<lparr>srv := s'\<rparr>))"
proof -
  have "rg_NodeID reg \<noteq> []" using handler_lookup [OF m h] by (simp add: handler_ok_def)
  from conn_join_props [OF assms(3) this] master_simps [OF m] show ?thesis
    by (intro inv_set_phase [OF m] conn_keeps_node) auto
qed

lemma inv_greet:
  assumes m: "master_inv m" and h: "map_of (handlers m) conn = Some (Joined reg tok)"
    and "conn_welcome conn reg tok t (srv m) = (ph, s')"
  shows "master_inv (set_phase conn ph (m\<lparr>srv := s'\<rparr>))"
proof -
  have "rg_NodeID reg \<noteq> []" using handler_lookup [OF m h] by (simp add: handler_ok_def)
  from conn_welcome_props [OF assms(3) this] master_simps [OF m] show ?thesis
    by (intro inv_set_phase [OF m]) auto
qed

lemma inv_receive:
  assumes m: "master_inv m" and h: "map_of (handlers m) conn = Some (Serving n tok)"
    and "\<And>env. r = Inr env \<Longrightarrow> env_Type env \<noteq> TypeShutdownAck"
    and "conn_receive rn t t conn n tok r (srv m) = (ph, s')"
  shows "master_inv (set_phase conn ph (m\<lparr>srv := s'\<rparr>))"
  using conn_receive_props [OF assms(4) handler_lookup [OF m h] master_simps(1) [OF m] assms(3)]
  by (intro inv_set_phase [OF m] conn_keeps_node) auto

lemma inv_touch:
  assumes m: "master_inv m" and h: "map_of (handlers m) conn = Some (Serving n tok)"
  shows "master_inv (m\<lparr>srv := touch conn n t (srv m)\<rparr>)"
  using touch_props [OF handler_lookup [OF m h] master_simps(1) [OF m], of conn t]
  by (intro master_inv_node [OF m]) auto

lemma inv_acknowledge:
  assumes m: "master_inv m" and h: "map_of (handlers m) conn = Some (Serving n tok)"
    and r: "recordShutdownUpdateLocked t u (touch conn n t (srv m)) = (start, s')"
  shows "master_inv (decide_on cid tr (m\<lparr>srv := s'\<rparr>))"
proof -
  let ?m = "m\<lparr>srv := touch conn n t (srv m)\<rparr>"
  note m1 = inv_touch [OF m h, of t]
  have "server_inv s'" "keeps {} (srv ?m) s'"
    using server_inv_recordUpdate [OF master_simps(1) [OF m1], of t u]
      keeps_recordUpdate [of "{}" "srv ?m" t u] r by auto
  then have "master_inv (?m\<lparr>srv := s'\<rparr>)"
    using master_simps [OF m1] by (intro master_inv_keeps [OF m1, of _ "{}"]) auto
  then show ?thesis by (intro inv_decide) simp
qed

lemma inv_accept:
  assumes m: "master_inv m"
  shows "master_inv (m\<lparr>srv := trackConn conn (srv m), handlers := handlers m @ [(conn, Handshake)]\<rparr>)"
  using master_simps [OF m]
  by (intro master_inv_node [OF m])
    (auto simp: trackConn_def node_keeps_def server_inv_def seen_le_def map_add_def handler_ok_def
      split: option.splits if_splits)

lemma inv_cleanup:
  assumes m: "master_inv m"
  shows "master_inv (set_phase conn Gone (m\<lparr>srv := untrackConn conn (conn_cleanup conn n (srv m))\<rparr>))"
proof -
  have "registry_inv (registry (srv m))" using master_simps(1) [OF m] by (simp add: server_inv_def)
  then show ?thesis
    using master_simps [OF m]
    by (intro inv_set_phase [OF m])
      (auto simp: untrackConn_def conn_cleanup_def server_inv_def Let_def conn_keeps_def seen_le_def handler_ok_def
        intro: registry_inv_RemoveIfMatch)
qed

lemma master_step_inv: "master_inv m \<Longrightarrow> master_step m m' \<Longrightarrow> master_inv m'"
  by (erule master_stepE; elim quiet_stepE ack_stepE)
    (simp_all add: inv_poll_failed inv_poll_line inv_poll_battery inv_fire inv_watcher inv_local_check
      inv_claim_lost inv_claim inv_finish inv_accept inv_handshake inv_join inv_greet inv_acknowledge
      inv_touch inv_cleanup inv_admin_shutdown inv_admin_reset inv_admin_nodes, blast intro: inv_receive)

lemma boot_inv:
  assumes "disk_ok c \<lparr>persistSeq = 0, persistedSeq = 0, disk = d\<rparr>" and "policies_ok c" and "master_boot c H d m"
  shows "master_inv m"
proof -
  from assms(3) obtain now wok sok where m: "m = started (NewServer c now H wok sok (file_of_disk d))"
    by (auto simp: master_boot_def)
  have "disk_of_file (file_of_disk d) = d" by (simp add: disk_of_file_def file_of_disk_def split: option.split)
  with assms(1) have inv: "server_inv (NewServer c now H wok sok (file_of_disk d))"
    by (intro server_inv_NewServer) simp
  moreover have "cfg (NewServer c now H wok sok (file_of_disk d)) = c"
    by (simp add: NewServer_def loadState_def Let_def split: state_file.split)
  moreover have "exec_of (localShutdown (NewServer c now H wok sok (file_of_disk d))) = None"
    by (auto simp: NewServer_def loadState_def Let_def exec_of_None normalizeLoadedLocalShutdown_def
        persistedLocalShutdownState_def resumable_phases_def split: state_file.splits option.splits if_splits)
  ultimately show ?thesis using assms(2) by (simp add: m started_def master_inv_def)
qed

lemma process_step_inv: "master_inv m \<Longrightarrow> process_step m m' \<Longrightarrow> master_inv m'"
proof (erule process_step.cases)
  fix n n'
  assume inv: "master_inv m" and "m = n" "m' = n'"
    and boot: "master_boot (cfg (srv n)) (hashToken (srv n)) (disk (stateStore (srv n))) n'"
  then have "disk_ok (cfg (srv n)) \<lparr>persistSeq = 0, persistedSeq = 0, disk = disk (stateStore (srv n))\<rparr>"
    "policies_ok (cfg (srv n))"
    by (auto simp: master_inv_def server_inv_def disk_ok_def)
  from boot_inv [OF this boot] \<open>m' = n'\<close> show "master_inv m'" by simp
qed (auto intro: master_step_inv)

end
