(* ===== verification/Runs.thy ===== *)
theory Runs
  imports Master
begin

text \<open>
  Theorems about runs of the master: what every reachable state satisfies and what no later
  state of a run takes back.
\<close>

section \<open>Order\<close>

text \<open>
  What holds between any two states of one run of the process: the configuration is fixed,
  drawn ids stay drawn, every later command with an id drawn before descends from the earlier
  command, and nodes that were seen stay in the directory.
\<close>

definition master_le :: "master \<Rightarrow> master \<Rightarrow> bool" where
  "master_le m m' \<longleftrightarrow> cfg (srv m') = cfg (srv m) \<and> set (usedIDs m) \<subseteq> set (usedIDs m') \<and>
     commands_le (- set (usedIDs m)) (commands (srv m)) (commands (srv m')) \<and>
     seen_le (directory (srv m)) (directory (srv m'))"

lemma seen_le_refl [simp]: "seen_le d d"
  by (simp add: seen_le_def)

lemma master_le_refl: "master_le m m"
  by (simp add: master_le_def)

lemma master_le_trans:
  assumes "master_le a b" and "master_le b c"
  shows "master_le a c"
proof -
  have "commands_le (- set (usedIDs a) \<union> - set (usedIDs b)) (commands (srv a)) (commands (srv c))"
    using assms commands_le_trans by (auto simp: master_le_def)
  moreover have "- set (usedIDs a) \<union> - set (usedIDs b) = - set (usedIDs a)"
    using assms by (auto simp: master_le_def)
  ultimately show ?thesis
    using assms by (auto simp: master_le_def intro: seen_le_trans)
qed

lemma commands_le_mono: "commands_le A m m' \<Longrightarrow> A \<subseteq> B \<Longrightarrow> commands_le B m m'"
  unfolding commands_le_def by blast

lemma master_le_keeps:
  assumes "keeps new (srv m) (srv m')" and "set (usedIDs m) \<subseteq> set (usedIDs m')" and "new \<inter> set (usedIDs m) = {}"
  shows "master_le m m'"
  using assms commands_le_mono [of new "commands (srv m)" "commands (srv m')" "- set (usedIDs m)"]
  by (auto simp: master_le_def keeps_def disjoint_eq_subset_Compl)

lemma master_le_conn:
  "conn_keeps (srv m) (srv m') \<Longrightarrow> usedIDs m' = usedIDs m \<Longrightarrow> master_le m m'"
  using commands_le_mono [of "{}" _ _ "- set (usedIDs m)"] by (auto simp: master_le_def conn_keeps_def)

lemma decide_simps [simp]:
  "srv (decide_on cid tr m) = srv m" "usedIDs (decide_on cid tr m) = usedIDs m"
  "handlers (decide_on cid tr m) = handlers m" "running (decide_on cid tr m) = running m"
  by (simp_all add: decide_on_def)

text \<open>Each step respects the order.\<close>

lemma le_poll:
  "evaluateEpisodePoliciesLocked None t (recordUPSError err t (srv m)) = (s', due) \<Longrightarrow>
    master_le m (m\<lparr>srv := s', firing := due\<rparr>)"
  "master_le m (m\<lparr>srv := (endEpisodeOnLinePower (recordUPSSuccess st t (srv m)))\<lparr>upsConfirmed := True\<rparr>\<rparr>)"
  "evaluateEpisodePoliciesLocked (Some st) t
      ((startEpisodeIfNeeded t (recordUPSSuccess st t (srv m)))\<lparr>upsConfirmed := True\<rparr>) = (s', due) \<Longrightarrow>
    master_le m (m\<lparr>srv := s', firing := due\<rparr>)"
proof -
  let ?e = "recordUPSError err t (srv m)" let ?a = "recordUPSSuccess st t (srv m)"
  let ?b = "(startEpisodeIfNeeded t ?a)\<lparr>upsConfirmed := True\<rparr>"
  have e: "keeps {} (srv m) ?e" and a: "keeps {} (srv m) ?a" by simp_all
  have b: "keeps {} (srv m) ?b" using keeps_trans [OF a keeps_startEpisode] by simp
  show "master_le m (m\<lparr>srv := s', firing := due\<rparr>)" if "evaluateEpisodePoliciesLocked None t ?e = (s', due)"
    using keeps_trans [OF e keeps_policiesLocked [of _ _ None t]] that
    by (intro master_le_keeps [where new = "{}"]) (auto simp: that)
  show "master_le m (m\<lparr>srv := (endEpisodeOnLinePower ?a)\<lparr>upsConfirmed := True\<rparr>\<rparr>)"
    using keeps_trans [OF a keeps_endEpisode] by (intro master_le_keeps [where new = "{}"]) auto
  show "master_le m (m\<lparr>srv := s', firing := due\<rparr>)" if "evaluateEpisodePoliciesLocked (Some st) t ?b = (s', due)"
    using keeps_trans [OF b keeps_policiesLocked [of _ _ "Some st" t]] that
    by (intro master_le_keeps [where new = "{}"]) (auto simp: that)
qed

lemma le_sections:
  assumes m: "master_inv m"
  shows "cid \<notin> set (usedIDs m) \<Longrightarrow>
      master_le m (m\<lparr>srv := applyPolicyMatch pm t cid (srv m), firing := [], usedIDs := cid # usedIDs m\<rparr>)"
    "cid \<notin> set (usedIDs m) \<Longrightarrow>
      master_le m (m\<lparr>srv := snd (handleManualShutdown hm body t cid (srv m)), usedIDs := cid # usedIDs m\<rparr>)"
  using master_simps [OF m] by (auto intro!: master_le_keeps [where new = "{cid}"] keeps_apply keeps_manual)

lemma le_watcher:
  assumes m: "master_inv m"
  shows "master_le m (m\<lparr>srv := markTimedOutCommands t (srv m)\<rparr>)"
    "master_le m (m\<lparr>srv := retryEpisodeShutdown t (srv m)\<rparr>)"
    "master_le m (m\<lparr>srv := snd (handleReset hm (srv m))\<rparr>)"
  using master_simps [OF m]
  by (auto intro!: master_le_keeps [where new = "{}"] keeps_markTimedOut keeps_retry keeps_handleReset)

lemma le_local_check:
  "evaluateLocalShutdownLocked t u (srv m) = (s', d) \<Longrightarrow>
    master_le m (decide_on cid tr (m\<lparr>srv := replay_decision d s'\<rparr>))"
  using keeps_evaluateLocalLocked [of "{}" "srv m" t u]
  by (intro master_le_keeps [where new = "{}"]) auto

lemma le_nodes:
  "node_keeps (srv m) (srv m') \<Longrightarrow> usedIDs m' = usedIDs m \<Longrightarrow> master_le m m'"
  by (rule master_le_conn [OF conn_keeps_node])

lemma le_claims:
  "beginLocalShutdownClaim cid tr t (srv m) = (None, s') \<Longrightarrow>
    master_le m (m\<lparr>srv := s', decided := x\<rparr>)"
  "beginLocalShutdownClaim cid tr t (srv m) = (Some dry, s') \<Longrightarrow>
    master_le m (m\<lparr>srv := emit es s', decided := x, running := y\<rparr>)"
  "exec_of (localShutdown (srv m)) = Some cid \<Longrightarrow>
    master_le m (m\<lparr>srv := beginLocalShutdownFinish cid err (srv m), running := y\<rparr>)"
  using claim_None [of cid tr t "srv m" s'] claim_Some [of cid tr t "srv m" dry s'] finish_exec [of "srv m" cid err]
  by (auto simp: master_le_def)

lemma le_handlers:
  assumes m: "master_inv m"
  shows "conn_handshake conn r peer rnd (srv m) = (ph, s') \<Longrightarrow> master_le m (set_phase conn ph (m\<lparr>srv := s'\<rparr>))"
    "map_of (handlers m) conn = Some (Authenticated reg tok h) \<Longrightarrow>
      conn_join conn reg tok h t (srv m) = (ph, s') \<Longrightarrow> master_le m (set_phase conn ph (m\<lparr>srv := s'\<rparr>))"
    "map_of (handlers m) conn = Some (Joined reg tok) \<Longrightarrow>
      conn_welcome conn reg tok t (srv m) = (ph, s') \<Longrightarrow> master_le m (set_phase conn ph (m\<lparr>srv := s'\<rparr>))"
  using conn_handshake_props(1) [of conn r peer rnd "srv m" ph s'] conn_join_props(1) [of conn reg tok h t "srv m" ph s']
    conn_welcome_props(1) [of conn reg tok t "srv m" ph s'] handler_lookup [OF m, of conn] master_simps(1) [OF m]
  by (auto simp: handler_ok_def intro!: master_le_conn dest: conn_keeps_node)

lemma le_receive:
  assumes "master_inv m" and "map_of (handlers m) conn = Some (Serving n tok)"
    and "\<And>env. r = Inr env \<Longrightarrow> env_Type env \<noteq> TypeShutdownAck"
    and "conn_receive rn t t conn n tok r (srv m) = (ph, s')"
  shows "master_le m (set_phase conn ph (m\<lparr>srv := s'\<rparr>))"
  using conn_receive_props(1) [OF assms(4) handler_lookup [OF assms(1,2)] master_simps(1) [OF assms(1)] assms(3)]
  by (intro le_nodes) auto

lemma le_serving:
  assumes m: "master_inv m" and h: "map_of (handlers m) conn = Some (Serving n tok)"
  shows "master_le m (m\<lparr>srv := touch conn n t (srv m)\<rparr>)"
    "recordShutdownUpdateLocked t u (touch conn n t (srv m)) = (start, s') \<Longrightarrow>
      master_le m (decide_on cid tr (m\<lparr>srv := s'\<rparr>))"
proof -
  have k: "node_keeps (srv m) (touch conn n t (srv m))"
    using touch_props [OF handler_lookup [OF m h] master_simps(1) [OF m]] by blast
  then show "master_le m (m\<lparr>srv := touch conn n t (srv m)\<rparr>)" by (intro le_nodes) auto
  show "master_le m (decide_on cid tr (m\<lparr>srv := s'\<rparr>))"
    if "recordShutdownUpdateLocked t u (touch conn n t (srv m)) = (start, s')"
    using conn_keeps_keeps [OF conn_keeps_node [OF k] keeps_recordUpdate [of "{}" _ t u]] that
    by (intro master_le_conn) auto
qed

lemma master_step_le: "master_inv m \<Longrightarrow> master_step m m' \<Longrightarrow> master_le m m'"
proof (erule master_stepE; elim quiet_stepE ack_stepE)
  fix conn n
  assume "m' = set_phase conn Gone (m\<lparr>srv := untrackConn conn (conn_cleanup conn n (srv m))\<rparr>)"
  then show "master_le m m'"
    by (simp add: le_nodes untrackConn_def conn_cleanup_def Let_def node_keeps_def)
next
  fix cid err
  assume "master_inv m" "cid \<in> set (running m)"
    "m' = m\<lparr>srv := beginLocalShutdownFinish cid err (srv m), running := remove1 cid (running m)\<rparr>"
  then show "master_le m m'"
    using running_exec [of m] by (auto intro!: le_claims(3) split: option.splits)
next
  fix conn
  assume "m' = m\<lparr>srv := trackConn conn (srv m), handlers := handlers m @ [(conn, Handshake)]\<rparr>"
  then show "master_le m m'" by (simp add: le_nodes trackConn_def node_keeps_def)
qed (simp_all add: le_poll le_sections le_watcher le_local_check le_claims le_handlers le_serving le_nodes node_keeps_admin,
  blast intro: le_receive)

section \<open>Reachable states\<close>

text \<open>The first start of a master with configuration \<open>c\<close>: there is no state file yet.\<close>

definition first_boot :: "MasterConfig \<Rightarrow> master \<Rightarrow> bool" where
  "first_boot c m \<longleftrightarrow> policies_ok c \<and> (\<exists>H. master_boot c H None m)"

lemma master_boot_cfg: "master_boot c H d m \<Longrightarrow> cfg (srv m) = c"
  by (auto simp: master_boot_def started_def NewServer_def loadState_def Let_def split: state_file.split)

lemma first_boot_inv: "first_boot c m \<Longrightarrow> master_inv m"
  using boot_inv [of c None] by (auto simp: first_boot_def disk_ok_def)

interpretation process: transition_system "\<lambda>m. \<exists>c. first_boot c m" process_step master_inv
  by unfold_locales (auto intro: first_boot_inv process_step_inv)

interpretation lifetime: ordered_transition_system master_inv master_step master_inv master_le
  by unfold_locales (auto intro: master_step_inv master_step_le master_le_refl master_le_trans)

text \<open>Restarts keep the configuration file, so the configuration is that of the first boot.\<close>

lemma process_step_cfg: "master_inv m \<Longrightarrow> process_step m m' \<Longrightarrow> cfg (srv m') = cfg (srv m)"
  by (erule process_step.cases) (use master_step_le in \<open>auto simp: master_le_def dest: master_boot_cfg\<close>)

interpretation configured: transition_system "first_boot c" process_step "\<lambda>m. master_inv m \<and> cfg (srv m) = c" for c
proof
  fix m m'
  show "first_boot c m \<Longrightarrow> master_inv m \<and> cfg (srv m) = c"
    using first_boot_inv [of c m] master_boot_cfg [of c] by (auto simp: first_boot_def)
  show "master_inv m \<and> cfg (srv m) = c \<Longrightarrow> process_step m m' \<Longrightarrow> master_inv m' \<and> cfg (srv m') = c"
    using process_step_inv [of m m'] process_step_cfg [of m m'] by simp
qed

text \<open>
  C1. In every state a master can reach from its first start, through any interleaving of
  its goroutines and any number of crashes and restarts, the invariant holds: commands are
  filed under their ids with reports of targeted nodes only, the active command exists and
  may be replayed, an active automatic command is the episode's, fired policies are
  distinct, a local shutdown follows the dry-run flag of its command, what is on disk is
  itself such a state, and at most one local shutdown command is being run.
\<close>

theorem reachable_master_inv:
  assumes "first_boot c m0" and "process_step\<^sup>*\<^sup>* m0 m"
  shows "master_inv m"
  using process.reachable_inv [OF exI, OF assms] .

text \<open>A boot, a sweep of the watcher and a restart.\<close>

definition example_boot :: master where
  "example_boot = started (NewServer example_config 3 id (\<lambda>_. True) (\<lambda>_. True) NoFile)"

lemma example_first_boot: "first_boot example_config example_boot"
  unfolding first_boot_def master_boot_def example_boot_def
proof (intro conjI exI)
  show "policies_ok example_config" by (simp add: policies_ok_def example_defs)
  show "started (NewServer example_config 3 id (\<lambda>_. True) (\<lambda>_. True) NoFile) =
      started (NewServer example_config 3 id (\<lambda>_. True) (\<lambda>_. True) (file_of_disk None))"
    by (simp add: file_of_disk_def)
qed

theorem reachable_master_inv_witness:
  "master_inv (example_boot\<lparr>srv := markTimedOutCommands 9 (srv example_boot)\<rparr>)"
  by (rule reachable_master_inv [OF example_first_boot])
    (rule r_into_rtranclp, rule process_step.run, rule master_step.quiet, rule quiet_step.sweep)

text \<open>
  A drill from the first boot: the configuration sets the dry-run flag and has no policies, the
  UPS reports a low battery, and the master's check starts an emergency shutdown of its own.
\<close>

definition drill_config :: MasterConfig where
  "drill_config = example_config\<lparr>mc_DryRun := True, mc_ShutdownPolicies := []\<rparr>"

definition drill_boot :: master where
  "drill_boot = started (NewServer drill_config 3 id (\<lambda>_. True) (\<lambda>_. True) NoFile)"

definition critical_reading :: UPSStatus where
  "critical_reading = example_reading\<lparr>ups_LowBattery := True\<rparr>"

definition drill_polled :: Server where
  "drill_polled = (startEpisodeIfNeeded 5 (recordUPSSuccess critical_reading 5 (srv drill_boot)))\<lparr>upsConfirmed := True\<rparr>"

definition drill_emergency :: localShutdownState where
  "drill_emergency = \<lparr>ls_Phase = PhaseEmergency, ls_CommandID = [], ls_StartedAt = Some 6, ls_DeadlineAt = None,
     ls_Trigger = TriggerLowBattery, ls_LastRebroadcastAt = None, ls_LastError = [], ls_LastAttemptAt = None,
     ls_DryRun = True\<rparr>"

definition drill_decided :: master where
  "drill_decided = drill_boot\<lparr>srv := saveState (drill_polled\<lparr>localShutdown := Some drill_emergency\<rparr>),
     decided := [([], TriggerLowBattery)]\<rparr>"

lemma drill_boot_simps:
  "cfg (srv drill_boot) = drill_config" "localShutdown (srv drill_boot) = None" "commands (srv drill_boot) = []"
  "episode (srv drill_boot) = None"
  by (simp_all add: drill_boot_def started_def NewServer_def loadState_def Let_def empty_server_def)

lemma drill_polled_simps:
  "cfg drill_polled = drill_config" "localShutdown drill_polled = None" "commands drill_polled = []"
  "episode drill_polled = Some \<lparr>ep_StartedAt = 5, ep_CommandID = [], ep_FiredPolicies = [],
     ep_MasterPoweredOff = False, ep_matchSince = []\<rparr>" "upsConfirmed drill_polled"
  by (simp_all add: drill_polled_def drill_boot_simps startEpisodeIfNeeded_def)

lemma episode_update_id: "episode s = e \<Longrightarrow> s\<lparr>episode := e\<rparr> = s" for s :: Server
  by (cases s) simp

lemma drill_reaches: "process_step\<^sup>*\<^sup>* drill_boot drill_decided"
proof -
  let ?e = "\<lparr>ep_StartedAt = 5, ep_CommandID = [], ep_FiredPolicies = [], ep_MasterPoweredOff = False, ep_matchSince = []\<rparr>"
  have same: "drill_polled\<lparr>episode := Some ?e\<rparr> = drill_polled" by (rule episode_update_id [OF drill_polled_simps(4)])
  have "evaluateEpisodePoliciesLocked (Some critical_reading) 5 drill_polled = (drill_polled, [])"
    by (simp add: evaluateEpisodePoliciesLocked_def drill_polled_simps drill_config_def same)
  moreover have "ups_OnBattery critical_reading" "firing drill_boot = []"
    by (simp_all add: critical_reading_def example_reading_def drill_boot_def started_def)
  ultimately have "quiet_step drill_boot (drill_boot\<lparr>srv := drill_polled, firing := []\<rparr>)"
    using quiet_step.poll_battery [of drill_boot critical_reading 5 drill_polled "[]"] unfolding drill_polled_def by simp
  moreover have "effectiveEmergency (Some critical_reading) 6 drill_polled = TriggerLowBattery"
    by (simp add: effectiveEmergency_def emergencyTrigger_def emergencyRuntimeReached_def critical_reading_def
        example_reading_def drill_polled_simps drill_config_def example_config_def)
  then have "evaluateLocalShutdownLocked 6 (Some critical_reading) drill_polled =
      (saveState (drill_polled\<lparr>localShutdown := Some drill_emergency\<rparr>), decide [] TriggerLowBattery)"
    by (simp add: evaluateLocalShutdownLocked_def Let_def drill_polled_simps startEmergency_def drill_emergency_def
        drill_config_def)
  then have "quiet_step (drill_boot\<lparr>srv := drill_polled, firing := []\<rparr>) drill_decided"
    using quiet_step.local_check [of "drill_boot\<lparr>srv := drill_polled, firing := []\<rparr>" 6 "Some critical_reading"]
    by (simp add: drill_polled_simps drill_config_def example_config_def decide_def no_decision_def decide_on_def
        replay_decision_def drill_decided_def drill_boot_def started_def)
  ultimately show ?thesis by (meson master_step.quiet process_step.run rtranclp.simps)
qed

lemma drill_first_boot: "first_boot drill_config drill_boot"
  unfolding first_boot_def master_boot_def drill_boot_def
  by (auto simp: policies_ok_def drill_config_def file_of_disk_def)

text \<open>
  C4. In every state a master can reach, over any interleaving and any number of restarts, at
  most one local shutdown command runs, and it runs exactly while the local shutdown is in the
  executing phase for the command it was started for. While one runs no other can be claimed,
  and one that completed is not claimed again.
\<close>

theorem one_local_shutdown_at_a_time:
  assumes "first_boot c m0" and "process_step\<^sup>*\<^sup>* m0 m"
  shows "length (running m) \<le> 1 \<and>
    (\<forall>cid. running m = [cid] \<longleftrightarrow> (\<exists>l. localShutdown (srv m) = Some l \<and>
       ls_Phase l = PhaseExecuting \<and> ls_CommandID l = cid)) \<and>
    (\<forall>cid tr at. fst (beginLocalShutdownClaim cid tr at (srv m)) \<noteq> None \<longrightarrow> running m = [] \<and>
       (\<exists>l. localShutdown (srv m) = Some l \<and> ls_CommandID l = cid \<and> ls_Phase l \<notin> {PhaseExecuting, PhaseCompleted}))"
proof -
  have m: "master_inv m" using process.reachable_inv [OF exI, OF assms] .
  show ?thesis
  proof (intro conjI allI impI)
    fix cid tr at
    assume "fst (beginLocalShutdownClaim cid tr at (srv m)) \<noteq> None"
    then obtain dry s' where c: "beginLocalShutdownClaim cid tr at (srv m) = (Some dry, s')"
      by (cases "beginLocalShutdownClaim cid tr at (srv m)") auto
    show "running m = []" using running_exec [OF m] claim_Some(1) [OF c] by simp
    show "\<exists>l. localShutdown (srv m) = Some l \<and> ls_CommandID l = cid \<and> ls_Phase l \<notin> {PhaseExecuting, PhaseCompleted}"
      using claim_Some(3) [OF c] by (auto simp: localShutdownTerminal_def)
  qed (use m in \<open>auto simp: master_inv_def exec_of_def split: option.splits if_splits\<close>)
qed

theorem one_local_shutdown_at_a_time_witness:
  "\<exists>m l. process_step\<^sup>*\<^sup>* drill_boot m \<and> running m = [[]] \<and> localShutdown (srv m) = Some l \<and> ls_Phase l = PhaseExecuting"
proof -
  obtain s' where c: "beginLocalShutdownClaim [] TriggerLowBattery 7 (srv drill_decided) = (Some True, s')"
    by (simp add: drill_decided_def beginLocalShutdownClaim_def drill_emergency_def localShutdownTerminal_def Let_def)
  have "([], TriggerLowBattery) \<in> set (decided drill_decided)" by (simp add: drill_decided_def)
  from quiet_step.claim [OF this c] obtain m where m: "quiet_step drill_decided m" "running m = [[]]"
    by (auto simp: drill_decided_def drill_boot_def started_def)
  then have r: "process_step\<^sup>*\<^sup>* drill_boot m"
    using drill_reaches by (meson master_step.quiet process_step.run rtranclp.rtrancl_into_rtrancl)
  with m(2) one_local_shutdown_at_a_time [OF drill_first_boot r] show ?thesis by blast
qed

text \<open>
  C3. Nothing a later step of the same process does takes back what a command established:
  as long as the command is retained its dry-run flag and kind are unchanged, its targets
  only grow, a replay that was switched off stays off, no node's report disappears, and a
  confirmed outcome (executed or simulated) is never overwritten, not by a late report, a
  timeout or a retry.
\<close>

theorem confirmed_outcomes_are_final:
  assumes "master_inv m" and "master_step\<^sup>*\<^sup>* m m'"
    and "map_of (commands (srv m)) cid = Some c" and "map_of (commands (srv m')) cid = Some c'"
  shows "sm_DryRun (cm_Message c') = sm_DryRun (cm_Message c) \<and> cm_Auto c' = cm_Auto c \<and>
    set (cm_TargetNodes c) \<subseteq> set (cm_TargetNodes c') \<and>
    (cm_ReplayDisabled c \<longrightarrow> cm_ReplayDisabled c') \<and>
    (\<forall>n u. map_of (cm_NodeUpdates c) n = Some u \<longrightarrow>
      (\<exists>u'. map_of (cm_NodeUpdates c') n = Some u' \<and> (isReplayDoneStatus (ack_Status u) \<longrightarrow> u' = u)))"
proof -
  have "cid \<in> set (usedIDs m)"
    using assms(1) map_of_Some_keys [OF assms(3)] unfolding master_inv_def by blast
  moreover have "master_le m m'" using assms(2,1) by (rule lifetime.run_le)
  ultimately have "command_le c c'"
    using assms(3,4) by (force simp: master_le_def commands_le_def)
  then show ?thesis by (auto simp: command_le_def)
qed

text \<open>The example master with a command one node has executed, swept by the watcher.\<close>

definition executed_ack :: ShutdownAckMessage where
  "executed_ack = \<lparr>ack_CommandID = ''c1'', ack_NodeID = ''web'', ack_Status = StatusExecuted,
     ack_Message = [], ack_AckedAt = 6\<rparr>"

definition example_command :: shutdownCommandState where
  "example_command = \<lparr>cm_Message = \<lparr>sm_CommandID = ''c1'', sm_Reason = ''test'', sm_DryRun = False,
       sm_IssuedAt = 5, sm_Target = \<lparr>tgt_All = True, tgt_NodeIDs = [], tgt_Tags = []\<rparr>\<rparr>,
     cm_TargetNodes = [''web'', ''ci''], cm_NodeUpdates = [(''web'', executed_ack)], cm_TimeoutAt = Some 60,
     cm_CompletedAt = None, cm_ReplayDisabled = False, cm_Auto = False\<rparr>"

definition commanding_master :: master where
  "commanding_master = started (example_server\<lparr>commands := [(''c1'', example_command)], activeCommand := ''c1'',
     shutdownIssued := True\<rparr>)"

lemma commanding_inv: "master_inv commanding_master"
proof -
  have "command_inv ''c1'' example_command" by (simp add: command_inv_def example_command_def executed_ack_def)
  then show ?thesis
    using example_inv
    by (auto simp: commanding_master_def started_def master_inv_def server_inv_def core_ok_def commands_inv_def
        active_ok_def episode_ok_def no_auto_def local_ok_def policies_ok_def example_command_def example_defs)
qed

theorem confirmed_outcomes_are_final_witness:
  "\<exists>c'. map_of (commands (markTimedOutCommands 99 (srv commanding_master))) ''c1'' = Some c' \<and>
    map_of (cm_NodeUpdates c') ''web'' = Some executed_ack"
proof -
  let ?m = "commanding_master\<lparr>srv := markTimedOutCommands 99 (srv commanding_master)\<rparr>"
  have c: "map_of (commands (srv commanding_master)) ''c1'' = Some example_command"
    by (simp add: commanding_master_def started_def)
  have c': "map_of (commands (srv ?m)) ''c1'' = Some (mark_command 99 ''c1'' example_command)"
    by (simp add: commanding_master_def started_def markTimedOutCommands_def Let_def case_prod_beta
        pruneCompletedCommandsLocked_def maxRetainedCompletedCommands_def)
  have "master_step\<^sup>*\<^sup>* commanding_master ?m" by (rule r_into_rtranclp, rule master_step.quiet, rule quiet_step.sweep)
  note final = confirmed_outcomes_are_final [OF commanding_inv this c c']
  have "map_of (cm_NodeUpdates example_command) ''web'' = Some executed_ack"
    "isReplayDoneStatus (ack_Status executed_ack)"
    by (simp_all add: example_command_def executed_ack_def)
  with final have "map_of (cm_NodeUpdates (mark_command 99 ''c1'' example_command)) ''web'' = Some executed_ack"
    by blast
  with c' show ?thesis by simp
qed

end
