(* ===== verification/Firing.thy ===== *)
theory Firing
  imports Runs
begin

text \<open>
  The policies an episode has fired, along the steps of the master: no step takes one off the
  list, and only applying a policy match puts some on it.
\<close>

section \<open>The end of an episode\<close>

lemma closeEpisode_simps [simp]:
  "episode (closeEpisode e s) = None" "effects (closeEpisode e s) = effects s"
  "cfg (closeEpisode e s) = cfg s"
  by (simp_all add: closeEpisode_def Let_def split: option.split)

lemma episode_endEpisode [simp]: "episode (endEpisodeOnLinePower s) = None"
  by (simp add: endEpisodeOnLinePower_def Let_def split: option.split)

section \<open>Applying a match\<close>

lemma apply_nothing_new:
  "episode s = Some e \<Longrightarrow> set (pm_Names pm) \<subseteq> set (ep_FiredPolicies e) \<Longrightarrow> applyPolicyMatch pm now cid s = s"
  by (simp add: applyPolicyMatch_def Let_def subset_iff)

lemma episode_supersede_create:
  "createEpisodeCommand e target reason now cid s = (c, toSend, s2) \<Longrightarrow> episode s2 = Some (e\<lparr>ep_CommandID := cid\<rparr>)"
  by (auto simp: createEpisodeCommand_def Let_def split: if_splits)

lemma episode_widen:
  "widenEpisodeCommand ex target reason now s = (c, toSend, s2) \<Longrightarrow> episode s2 = episode s"
  by (auto simp: widenEpisodeCommand_def Let_def split: prod.splits if_splits)

lemma fired_after_apply:
  assumes ep: "episode s = Some e"
  shows "\<exists>e'. episode (applyPolicyMatch pm now cid s) = Some e' \<and>
    ep_FiredPolicies e' = ep_FiredPolicies e @ filter (\<lambda>n. n \<notin> set (ep_FiredPolicies e)) (pm_Names pm)"
  using ep
  by (auto simp: applyPolicyMatch_def Let_def episode_widen episode_supersede_create split: option.splits prod.splits)

section \<open>The steps\<close>

definition fired :: "Server \<Rightarrow> string list" where
  "fired s = (case episode s of None \<Rightarrow> [] | Some e \<Rightarrow> ep_FiredPolicies e)"

definition fired_le :: "Server \<Rightarrow> Server \<Rightarrow> bool" where
  "fired_le s s' \<longleftrightarrow> episode s' = None \<or> prefix (fired s) (fired s')"

lemma fired_same: "fired s' = fired s \<Longrightarrow> fired_le s s'"
  by (simp add: fired_le_def)

lemma fired_episode: "episode s' = episode s \<Longrightarrow> fired s' = fired s"
  by (simp add: fired_def)

lemma fired_le_episode: "episode s' = episode s \<Longrightarrow> fired_le s s'"
  by (rule fired_same, rule fired_episode)

lemma fired_apply: "fired_le s (applyPolicyMatch pm now cid s)"
proof (cases "episode s")
  case None
  then show ?thesis by (simp add: applyPolicyMatch_def fired_le_def)
next
  case (Some e)
  from fired_after_apply [OF this, of pm now cid] show ?thesis by (auto simp: fired_le_def fired_def Some)
qed

lemma fired_policies: "fired (fst (evaluateEpisodePoliciesLocked reading t s)) = fired s"
  by (auto simp: evaluateEpisodePoliciesLocked_def fired_def Let_def split: option.split prod.split)

lemma fired_start: "fired_le s (startEpisodeIfNeeded t s)"
  by (auto simp: startEpisodeIfNeeded_def fired_le_def fired_def split: option.split)

lemma fired_local:
  "fired (fst (evaluateLocalShutdownLocked t u s)) = fired s"
  "fired (beginLocalShutdownFinish cid err s) = fired s" "fired (snd (beginLocalShutdownClaim cid tr t s)) = fired s"
proof -
  have "episode (fst (startEmergency t em trusted s)) = episode s" for em trusted s
    by (auto simp: startEmergency_def Let_def split: option.split)
  moreover have "episode (fst (advanceLocalShutdown t em trusted l s)) = episode s" for em trusted l s
    by (auto simp: advanceLocalShutdown_def waitForRemote_def Let_def split: option.split)
  ultimately show "fired (fst (evaluateLocalShutdownLocked t u s)) = fired s"
    by (auto simp: evaluateLocalShutdownLocked_def fired_def Let_def split: option.split)
  show "fired (beginLocalShutdownFinish cid err s) = fired s" "fired (snd (beginLocalShutdownClaim cid tr t s)) = fired s"
    by (auto simp: beginLocalShutdownFinish_def beginLocalShutdownClaim_def fired_def Let_def option.map_comp comp_def
        split: option.split)
qed

text \<open>The operations that do not touch the episode.\<close>

lemma episode_commands:
  "episode (markTimedOutCommands t s) = episode s" "episode (retryEpisodeShutdown t s) = episode s"
  "fired (snd (handleReset hm s)) = fired s" "episode (snd (handleManualShutdown hm body t cid s)) = episode s"
  "episode (snd (recordShutdownUpdateLocked t ack s)) = episode s"
proof -
  show "episode (markTimedOutCommands t s) = episode s" "episode (retryEpisodeShutdown t s) = episode s"
    by (auto simp: markTimedOutCommands_def retryEpisodeShutdown_def Let_def case_prod_beta split: option.split)
  show "fired (snd (handleReset hm s)) = fired s"
    by (auto simp: handleReset_def ResetActiveCommand_def fired_def Let_def split: option.split)
  have "episode (snd (TriggerShutdown request t cid s)) = episode s" for request
    by (auto simp: TriggerShutdown_def Let_def case_prod_beta split: option.split)
  then show "episode (snd (handleManualShutdown hm body t cid s)) = episode s"
    by (auto simp: handleManualShutdown_def split: sum.splits prod.splits) (metis snd_conv)+
  show "episode (snd (recordShutdownUpdateLocked t ack s)) = episode s"
    by (auto simp: recordShutdownUpdateLocked_alt ack_state_def Let_def split: option.splits)
qed

lemma episode_nodes:
  "episode (snd (handleExpectNode request s)) = episode s" "episode (snd (handleUnsetExpected n s)) = episode s"
  "episode (snd (handleDeleteNode n s)) = episode s" "episode (snd (handleRevokeToken n s)) = episode s"
  "episode (snd (install_node n rnd s)) = episode s" "episode (touch conn n t s) = episode s"
  "episode (trackConn conn s) = episode s" "episode (untrackConn conn s) = episode s" "episode (conn_cleanup conn n s) = episode s"
  by (auto simp: handleExpectNode_def handleUnsetExpected_def handleDeleteNode_def handleRevokeToken_def
      install_node_def issueNodeToken_def removeNodeToken_def saveStateForDirectoryChange_def disconnectNode_def Let_def
      touch_def trackConn_def untrackConn_def conn_cleanup_def
      split: sum.splits prod.splits delete_result.splits option.splits)

lemma episode_conn:
  "conn_handshake conn r peer rnd s = (ph, s') \<Longrightarrow> episode s' = episode s"
  "conn_join conn reg tok h t s = (ph, s') \<Longrightarrow> episode s' = episode s"
  "conn_welcome conn reg tok t s = (ph, s') \<Longrightarrow> episode s' = episode s"
proof -
  show "conn_handshake conn r peer rnd s = (ph, s') \<Longrightarrow> episode s' = episode s"
    by (auto simp: conn_handshake_def send_to_def split: sum.splits if_splits prod.splits)
  show "conn_join conn reg tok h t s = (ph, s') \<Longrightarrow> episode s' = episode s"
    by (auto simp: conn_join_def registerIfTokenUnchanged_def registry_Set_def send_to_def split: if_splits prod.splits)
  define s2 where "s2 = snd (client_Send conn (RegisterAck \<lparr>ra_Accepted = True, ra_Message = ''registered'', ra_IssuedToken = tok\<rparr>)
    (saveStateForDirectoryChange (s\<lparr>directory := welcome_directory reg t (directory s)\<rparr>)))"
  have s2: "episode s2 = episode s" by (simp add: s2_def saveStateForDirectoryChange_def)
  have "episode (snd (replayableShutdownForNode client t s)) = episode s" for client s
    by (auto simp: replayableShutdownForNode_def Let_def split: option.split)
  then have "episode (snd (replayPendingShutdown client t s)) = episode s" for client s
    by (auto simp: replayPendingShutdown_def split: option.split prod.split) (metis snd_conv)+
  moreover have "s' = s2 \<or> s' = snd (replayPendingShutdown (registered_client conn reg t) t s2)"
    if "conn_welcome conn reg tok t s = (ph, s')"
    using that by (auto simp: conn_welcome_def Let_def s2_def welcome_directory_def split: prod.splits bool.splits)
  ultimately show "conn_welcome conn reg tok t s = (ph, s') \<Longrightarrow> episode s' = episode s" using s2 by auto
qed

lemma episode_receive:
  assumes "\<And>env. r = Inr env \<Longrightarrow> env_Type env \<noteq> TypeShutdownAck" and "conn_receive rn t t conn n tok r s = (ph, s')"
  shows "episode s' = episode s"
proof (cases r)
  case (Inr env)
  let ?s = "touch conn n t s"
  have "episode (snd (confirmIssuedToken n tok ?s)) = episode s"
    by (auto simp: confirmIssuedToken_def saveStateForDirectoryChange_def episode_nodes split: option.split)
  moreover have "episode (snd (handleEnvelope rn t t conn n env ?s)) = episode s"
    using assms(1) [OF Inr] by (auto simp: handleEnvelope_def Let_def case_prod_beta episode_nodes)
  moreover have "s' = ?s \<or> s' = snd (confirmIssuedToken n tok ?s) \<or> s' = snd (handleEnvelope rn t t conn n env ?s)"
    using assms(2) Inr by (auto simp: conn_receive_def Let_def touch_def split: if_splits bool.splits prod.splits)
  ultimately show ?thesis by (auto simp: episode_nodes)
qed (use assms in \<open>auto simp: conn_receive_def\<close>)

lemma fired_replay_decision: "fired (replay_decision d s) = fired s"
  by (simp add: replay_decision_def fired_def split: option.split)

lemma quiet_step_fired: "quiet_step m m' \<Longrightarrow> fired_le (srv m) (srv m')"
proof (erule quiet_stepE)
  fix t err s' due
  assume "evaluateEpisodePoliciesLocked None t (recordUPSError err t (srv m)) = (s', due)" "m' = m\<lparr>srv := s', firing := due\<rparr>"
  then show "fired_le (srv m) (srv m')"
    using fired_policies [of None t "recordUPSError err t (srv m)"] by (simp add: fired_same fired_def)
next
  fix st t
  assume "m' = m\<lparr>srv := (endEpisodeOnLinePower (recordUPSSuccess st t (srv m)))\<lparr>upsConfirmed := True\<rparr>\<rparr>"
  then show "fired_le (srv m) (srv m')" by (simp add: fired_le_def)
next
  fix st t s' due
  let ?s = "(startEpisodeIfNeeded t (recordUPSSuccess st t (srv m)))\<lparr>upsConfirmed := True\<rparr>"
  assume "evaluateEpisodePoliciesLocked (Some st) t ?s = (s', due)" "m' = m\<lparr>srv := s', firing := due\<rparr>"
  then have "fired (srv m') = fired ?s" using fired_policies [of "Some st" t ?s] by simp
  moreover have "fired ?s = fired (srv m)" by (simp add: startEpisodeIfNeeded_def fired_def split: option.split)
  ultimately show "fired_le (srv m) (srv m')" by (simp add: fired_same)
next
  fix t u s' d
  assume "evaluateLocalShutdownLocked t u (srv m) = (s', d)"
    "m' = decide_on (ld_commandID d) (ld_trigger d) (m\<lparr>srv := replay_decision d s'\<rparr>)"
  then show "fired_le (srv m) (srv m')"
    using fired_local(1) [of t u "srv m"] by (simp add: fired_same fired_replay_decision)
next
  fix cid tr t s'
  assume "beginLocalShutdownClaim cid tr t (srv m) = (None, s')" "m' = m\<lparr>srv := s', decided := remove1 (cid, tr) (decided m)\<rparr>"
  then show "fired_le (srv m) (srv m')" using claim_None [of cid tr t "srv m" s'] by (simp add: fired_same)
next
  fix cid tr t dry s'
  assume "beginLocalShutdownClaim cid tr t (srv m) = (Some dry, s')"
    "m' = m\<lparr>srv := emit [Ran (slice (lc_Command (mc_LocalShutdown (cfg s')))) tr dry] s',
        decided := remove1 (cid, tr) (decided m), running := running m @ [cid]\<rparr>"
  then show "fired_le (srv m) (srv m')" using fired_local(3) [of cid tr t "srv m"] by (simp add: fired_same fired_def)
next
  fix conn n tok r t ph s'
  assume "\<And>env. r = Inr env \<Longrightarrow> env_Type env \<noteq> TypeShutdownAck"
    "conn_receive (\<lambda>_ _ _. None) t t conn n tok r (srv m) = (ph, s')" "m' = set_phase conn ph (m\<lparr>srv := s'\<rparr>)"
  then show "fired_le (srv m) (srv m')" using episode_receive [of r _ t conn n tok "srv m" ph s'] by (simp add: fired_le_episode)
qed (simp_all add: fired_apply fired_same [OF fired_local(2)] fired_same [OF episode_commands(3)] fired_le_episode
      episode_commands(1,2,4,5) episode_nodes, (blast intro: fired_le_episode episode_conn)+)

lemma ack_step_fired:
  assumes "ack_step n a m m'"
  shows "fired_le (srv m) (srv m')"
  using assms
proof cases
  case (acknowledge conn tok t start s')
  then show ?thesis
    using episode_commands(5) [of t "a\<lparr>ack_NodeID := n\<rparr>" "touch conn n t (srv m)"]
    by (auto simp: episode_nodes intro!: fired_same fired_episode)
qed

lemma master_step_fired: "master_step m m' \<Longrightarrow> episode (srv m') = Some e \<Longrightarrow> prefix (fired (srv m)) (fired (srv m'))"
  using quiet_step_fired [of m m'] ack_step_fired [of _ _ m m'] by (auto simp: fired_le_def elim: master_step.cases)

text \<open>A step after which the master is in an episode; in a run of them it is in the same one.\<close>

definition episode_step :: "master \<Rightarrow> master \<Rightarrow> bool" where
  "episode_step m m' \<longleftrightarrow> master_step m m' \<and> episode (srv m') \<noteq> None"

interpretation episodes: ordered_transition_system master_inv episode_step master_inv "\<lambda>m m'. prefix (fired (srv m)) (fired (srv m'))"
  by unfold_locales (auto simp: episode_step_def intro: master_step_inv dest: master_step_fired)

end
