(* ===== verification/Behaviour.thy ===== *)
theory Behaviour
  imports Sections Firing
begin

text \<open>
  What the single operations of the command state machine do: line power, policies, timeouts,
  pruning, replay and acknowledgements.
\<close>

section \<open>Line power\<close>

lemma effects_endEpisode: "actions (endEpisodeOnLinePower s) = actions s"
proof -
  define t where "t = (case episode s of None \<Rightarrow> s | Some e \<Rightarrow> closeEpisode e s)"
  have "effects t = effects s" by (simp add: t_def split: option.split)
  then have "actions t = actions s" "actions (t\<lparr>activeCommand := [], shutdownIssued := False\<rparr>) = actions s"
    by (simp_all add: actions_def)
  then show ?thesis unfolding endEpisodeOnLinePower_def Let_def t_def [symmetric] by simp
qed

lemma localShutdown_closeEpisode:
  assumes "server_inv s" and ep: "episode s = Some e"
  shows "localShutdown (closeEpisode e s) = (case localShutdown s of
     None \<Rightarrow> None
   | Some l \<Rightarrow> if (ls_CommandID l = ep_CommandID e \<or> ls_CommandID l = []) \<and> ls_Phase l \<noteq> PhaseExecuting
       then None else Some l)"
  using ep by (auto simp: closeEpisode_def Let_def localShutdownBelongsToEpisodeLocked_def split: option.splits)

lemma commands_closeEpisode:
  "map_of (commands s) cid = None \<Longrightarrow> map_of (commands (closeEpisode e s)) cid = None"
  "map_of (commands s) cid = Some c \<Longrightarrow> map_of (commands (closeEpisode e s)) cid =
    Some (if cid = ep_CommandID e then c\<lparr>cm_ReplayDisabled := True\<rparr> else c)"
  by (auto simp: closeEpisode_def Let_def map_of_madjust split: option.splits)

lemma commands_endEpisode:
  "commands (endEpisodeOnLinePower s) = (case episode s of None \<Rightarrow> commands s | Some e \<Rightarrow> commands (closeEpisode e s))"
  by (auto simp: endEpisodeOnLinePower_def Let_def split: option.split)

lemma localShutdown_endEpisode:
  "localShutdown (endEpisodeOnLinePower s) =
    (case episode s of None \<Rightarrow> localShutdown s | Some e \<Rightarrow> localShutdown (closeEpisode e s))"
  by (auto simp: endEpisodeOnLinePower_def Let_def split: option.split)

lemma active_after_endEpisode:
  assumes inv: "server_inv s" and c: "map_of (commands (endEpisodeOnLinePower s)) (activeCommand (endEpisodeOnLinePower s)) = Some c"
  shows "\<not> cm_Auto c"
proof -
  have "server_inv (endEpisodeOnLinePower s)" using inv by (rule server_inv_endEpisode)
  then have "no_auto (commands (endEpisodeOnLinePower s)) (activeCommand (endEpisodeOnLinePower s))"
    by (simp add: server_inv_def core_ok_def episode_ok_def)
  with c show ?thesis by (simp add: no_auto_def)
qed

text \<open>
  C11. A successful poll that reports line power ends the episode: nothing is sent or run, the
  episode's command can no longer be replayed, no automatic command is active any more, and
  the episode's local shutdown is cancelled unless its command is already being executed.
\<close>

theorem line_power_ends_episode:
  assumes inv: "server_inv s" and ep: "episode s = Some e" and line: "\<not> ups_OnBattery status"
    and s': "s' = evaluateUPS polledAt (Inr status) cid s"
  shows "episode s' = None \<and> actions s' = actions s \<and> upsConfirmed s' = True \<and>
    (\<forall>c. map_of (commands s') (activeCommand s') = Some c \<longrightarrow> \<not> cm_Auto c) \<and>
    (\<forall>c. map_of (commands s') (ep_CommandID e) = Some c \<longrightarrow> cm_ReplayDisabled c) \<and>
    (\<forall>l. localShutdown s' = Some l \<longrightarrow> ls_Phase l = PhaseExecuting \<or>
       (ls_CommandID l \<noteq> ep_CommandID e \<and> ls_CommandID l \<noteq> []))"
proof -
  let ?s = "recordUPSSuccess status polledAt s"
  have inv1: "server_inv ?s" and ep1: "episode ?s = Some e" using inv ep by (simp_all add: server_inv_def)
  define t where "t = endEpisodeOnLinePower ?s"
  have s'': "s' = t\<lparr>upsConfirmed := True\<rparr>"
    using line by (simp add: s' evaluateUPS_def Let_def t_def)
  have "actions t = actions s"
    using effects_endEpisode [of ?s] by (simp add: t_def actions_def)
  moreover have "cm_ReplayDisabled c" if "map_of (commands t) (ep_CommandID e) = Some c" for c
    using that commands_closeEpisode [where s = ?s and cid = "ep_CommandID e" and e = e] ep
    by (cases "map_of (commands s) (ep_CommandID e)") (auto simp: t_def commands_endEpisode)
  moreover have "ls_Phase l = PhaseExecuting \<or> (ls_CommandID l \<noteq> ep_CommandID e \<and> ls_CommandID l \<noteq> [])"
    if "localShutdown t = Some l" for l
    using that localShutdown_closeEpisode [OF inv1 ep1] ep
    by (auto simp: t_def localShutdown_endEpisode split: option.splits if_splits)
  moreover have "\<not> cm_Auto c" if "map_of (commands t) (activeCommand t) = Some c" for c
    using active_after_endEpisode [OF inv1] that by (simp add: t_def)
  moreover have "episode t = None" by (simp add: t_def)
  ultimately show ?thesis unfolding s'' by (simp add: actions_def)
qed

text \<open>The example master in an episode without a command.\<close>

definition example_episode :: autoEpisode where
  "example_episode = \<lparr>ep_StartedAt = 4, ep_CommandID = [], ep_FiredPolicies = [], ep_MasterPoweredOff = False,
     ep_matchSince = []\<rparr>"

definition episode_server :: Server where
  "episode_server = example_server\<lparr>episode := Some example_episode, upsConfirmed := True\<rparr>"

lemma episode_server_inv: "server_inv episode_server"
proof -
  have "server_inv (example_server\<lparr>episode := Some example_episode\<rparr>)"
    by (rule server_inv_episode [OF example_inv])
      (simp add: episode_ok_def no_auto_def example_episode_def example_server_def)
  then show ?thesis by (simp add: episode_server_def)
qed

lemma episode_server_simps [simp]:
  "episode episode_server = Some example_episode" "upsConfirmed episode_server = True"
  "cfg episode_server = example_config" "commands episode_server = []" "activeCommand episode_server = []"
  "localShutdown episode_server = None" "registry episode_server = registry example_server"
  by (simp_all add: episode_server_def example_server_def)

theorem line_power_ends_episode_witness:
  "episode (evaluateUPS 9 (Inr (example_reading\<lparr>ups_OnBattery := False\<rparr>)) ''c1'' episode_server) = None"
  by (rule line_power_ends_episode [OF episode_server_inv episode_server_simps(1) _ refl, THEN conjunct1]) simp

section \<open>Policies\<close>

text \<open>
  C12. A policy fires at most once per episode. From any state the master can reach in an episode,
  over every run of its goroutines that stays in the episode, policies recorded as fired stay recorded, in
  order and never twice; a poll never finds one of them due again; and applying a match, whenever
  and for whatever policies, records exactly those of its policies that had not fired yet, behind
  the others, and does nothing at all when there are none. (A crash in between takes the master back to
  what its last written state file recorded.)
\<close>

theorem policies_fire_once:
  assumes "first_boot c m0" and "process_step\<^sup>*\<^sup>* m0 m" and "episode (srv m) = Some e"
    and "episode_step\<^sup>*\<^sup>* m m'"
  shows "\<exists>e'. episode (srv m') = Some e' \<and> prefix (ep_FiredPolicies e) (ep_FiredPolicies e') \<and> distinct (ep_FiredPolicies e') \<and>
    (\<forall>reading now s due. evaluateEpisodePoliciesLocked reading now (srv m') = (s, due) \<longrightarrow>
      set due \<inter> set (ep_FiredPolicies e') = {}) \<and>
    (\<forall>pm now cid. \<exists>e''. episode (applyPolicyMatch pm now cid (srv m')) = Some e'' \<and>
      ep_FiredPolicies e'' = ep_FiredPolicies e' @ filter (\<lambda>n. n \<notin> set (ep_FiredPolicies e')) (pm_Names pm) \<and>
      (set (pm_Names pm) \<subseteq> set (ep_FiredPolicies e') \<longrightarrow> applyPolicyMatch pm now cid (srv m') = srv m'))"
proof -
  have m: "master_inv m" using configured.reachable_inv [OF assms(1,2)] ..
  then have m': "master_inv m'" using episodes.run_keeps_inv [OF assms(4)] by blast
  obtain e' where e': "episode (srv m') = Some e'"
    using assms(4,3) by (cases rule: rtranclp.cases) (auto simp: episode_step_def)
  have "prefix (ep_FiredPolicies e) (ep_FiredPolicies e')"
    using episodes.run_le [OF assms(4) m] by (simp add: fired_def e' assms(3))
  moreover have "distinct (ep_FiredPolicies e')"
    using episode_distinct [OF master_simps(1) [OF m'] e'] .
  ultimately show ?thesis
    using e' policiesLocked_due(2) [OF _ e'] fired_after_apply [OF e'] apply_nothing_new [OF e'] by auto
qed

theorem policies_fire_once_witness:
  "\<exists>e. episode (applyPolicyMatch (buildPolicyMatch example_policies [''dev'']) 10 ''c1''
      (markTimedOutCommands 9 (srv drill_decided))) = Some e \<and> ep_FiredPolicies e = [''dev'']"
proof -
  let ?m = "drill_decided\<lparr>srv := markTimedOutCommands 9 (srv drill_decided)\<rparr>"
  obtain e where e: "episode (srv drill_decided) = Some e" "ep_FiredPolicies e = []"
    by (simp add: drill_decided_def drill_polled_simps)
  have "episode (srv ?m) = Some e" using e(1) by (simp add: episode_commands)
  moreover have "episode_step\<^sup>*\<^sup>* drill_decided ?m"
    unfolding episode_step_def using calculation by (intro r_into_rtranclp conjI master_step.quiet quiet_step.sweep) simp
  ultimately show ?thesis
    using policies_fire_once [OF drill_first_boot drill_reaches e(1), of ?m] e(2)
    by (simp) (metis (no_types, lifting) append_Nil filter_True empty_iff list.set(1) pm_Names_build)
qed

section \<open>Replay to a node that reconnects\<close>

text \<open>
  The node has reported one of these statuses. The statuses are listed here, not looked up in the
  table of \<open>status_class.go\<close>.
\<close>

definition reported_in :: "string list \<Rightarrow> shutdownCommandState \<Rightarrow> string \<Rightarrow> bool" where
  "reported_in statuses c n \<longleftrightarrow> (case node_status c n of None \<Rightarrow> False | Some st \<Rightarrow> st \<in> set statuses)"

definition confirmed_by :: "shutdownCommandState \<Rightarrow> string \<Rightarrow> bool" where
  "confirmed_by = reported_in [StatusExecuted, StatusSimulated]"

text \<open>Every target has a settled report, or one that the node itself made.\<close>

definition settled :: "shutdownCommandState \<Rightarrow> bool" where
  "settled c \<longleftrightarrow> cm_TargetNodes c \<noteq> [] \<and>
     list_all (reported_in [StatusExecuted, StatusSimulated, StatusFailed, StatusTimeout] c) (cm_TargetNodes c)"

definition finished_by_all :: "shutdownCommandState \<Rightarrow> bool" where
  "finished_by_all c \<longleftrightarrow> cm_TargetNodes c \<noteq> [] \<and>
     list_all (reported_in [StatusExecuted, StatusSimulated, StatusFailed] c) (cm_TargetNodes c)"

lemma status_lists:
  "isReplayDoneStatus st \<longleftrightarrow> st \<in> set [StatusExecuted, StatusSimulated]"
  "isCompleteShutdownStatus st \<longleftrightarrow> st \<in> set [StatusExecuted, StatusSimulated, StatusFailed, StatusTimeout]"
  "isFinalShutdownStatus st \<longleftrightarrow> st \<in> set [StatusExecuted, StatusSimulated, StatusFailed]"
  by (auto simp: status_class_defs consts_simps)

lemma commandComplete_settled: "commandComplete c = settled c"
  by (auto simp: commandComplete_def settled_def reported_in_def status_lists list_all_iff split: option.splits)

lemma remoteShutdownFinished_by_all: "remoteShutdownFinished c = finished_by_all c"
  by (auto simp: remoteShutdownFinished_def finished_by_all_def reported_in_def status_lists list_all_iff split: option.splits)

lemma timeout_reported: "commandHasRepairableTimeout c = list_ex (reported_in [StatusTimeout] c) (cm_TargetNodes c)"
  by (auto simp: commandHasRepairableTimeout_def reported_in_def list_ex_iff split: option.splits)

lemma persisted_of_saveState [simp]: "persisted_of (saveState s) = persisted_of s"
  by (simp add: persisted_of_def)

lemma actions_commands [simp]: "actions (s\<lparr>commands := cs\<rparr>) = actions s"
  by (simp add: actions_def)

text \<open>A reconnecting node belongs to a command: it is a target or matches the command's target.\<close>

definition belongs_to :: "Client \<Rightarrow> shutdownCommandState \<Rightarrow> bool" where
  "belongs_to client c \<longleftrightarrow> cl_NodeID client \<in> set (cm_TargetNodes c) \<or>
     targetMatchesNode (sm_Target (cm_Message c)) (cl_NodeID client) (slice (cl_Tags client))"

text \<open>
  C13. What a reconnecting node is sent: the active command's message, once, exactly when the
  command may be replayed, an automatic one only once the UPS state of this process is
  confirmed, the node is a target or newly matches the command's target, and the node has
  not confirmed its shutdown; otherwise nothing is sent. The connection is given up exactly when
  the send fails. A node that newly matches becomes a target of the command, which is then open
  again for at least a full timeout; no other command and no other target changes.
\<close>

theorem replay_exactly_when_due:
  assumes r: "replayPendingShutdown client now s = (err, s')"
  shows "case map_of (commands s) (activeCommand s) of
      None \<Rightarrow> \<not> err \<and> s' = s
    | Some c \<Rightarrow>
       let trusted = (\<not> cm_Auto c \<or> upsConfirmed s);
           due = (trusted \<and> \<not> cm_ReplayDisabled c \<and> \<not> confirmed_by c (cl_NodeID client) \<and> belongs_to client c);
           adopted = (trusted \<and> \<not> cm_ReplayDisabled c \<and> belongs_to client c \<and> cl_NodeID client \<notin> set (cm_TargetNodes c))
       in actions s' = actions s @ (if due then [Sent (cl_conn client) (Shutdown (cm_Message c))] else []) \<and>
          err = (due \<and> \<not> sendOK s (cl_conn client)) \<and>
          (\<exists>c'. map_of (commands s') (activeCommand s) = Some c' \<and> cm_Message c' = cm_Message c \<and>
             cm_NodeUpdates c' = cm_NodeUpdates c \<and>
             set (cm_TargetNodes c') = (if adopted then insert (cl_NodeID client) (set (cm_TargetNodes c)) else set (cm_TargetNodes c)) \<and>
             (if adopted then cm_CompletedAt c' = None \<and>
                (\<exists>t. cm_TimeoutAt c' = Some t \<and> time_Add now (mc_CommandTimeout (cfg s)) \<le> t) else c' = c)) \<and>
          (\<forall>cid. cid \<noteq> activeCommand s \<longrightarrow> map_of (commands s') cid = map_of (commands s) cid) \<and>
          activeCommand s' = activeCommand s \<and> episode s' = episode s \<and> localShutdown s' = localShutdown s"
proof (cases "map_of (commands s) (activeCommand s)")
  case None
  with r show ?thesis by (simp add: replayPendingShutdown_def replayableShutdownForNode_def)
next
  case (Some c)
  let ?adopted = "(\<not> cm_Auto c \<or> upsConfirmed s) \<and> \<not> cm_ReplayDisabled c \<and> belongs_to client c \<and> cl_NodeID client \<notin> set (cm_TargetNodes c)"
  let ?c = "reopenCommandLocked now s (c\<lparr>cm_TargetNodes := sput (cl_NodeID client) (cm_TargetNodes c)\<rparr>)"
  let ?c' = "if ?adopted then ?c else c"
  define s1 where "s1 = (if ?adopted then saveState (s\<lparr>commands := madjust (activeCommand s) (\<lambda>_. ?c) (commands s)\<rparr>) else s)"
  define due where "due = ((\<not> cm_Auto c \<or> upsConfirmed s) \<and> \<not> cm_ReplayDisabled c \<and> \<not> confirmed_by c (cl_NodeID client) \<and> belongs_to client c)"
  have c: "cm_Message ?c = cm_Message c" "cm_NodeUpdates ?c = cm_NodeUpdates c" "cm_CompletedAt ?c = None"
    "cm_ReplayDisabled ?c = cm_ReplayDisabled c" "set (cm_TargetNodes ?c) = insert (cl_NodeID client) (set (cm_TargetNodes c))"
    "\<exists>t. cm_TimeoutAt ?c = Some t \<and> time_Add now (mc_CommandTimeout (cfg s)) \<le> t"
    by (auto simp: reopenCommandLocked_def Let_def split: option.split)
  have "replayableShutdownForNode client now s = (if due then Some (cm_Message c) else None, s1)"
    by (auto simp: replayableShutdownForNode_def Some Let_def shouldReplayShutdownForNode_def c node_status_def s1_def due_def
        belongs_to_def confirmed_by_def reported_in_def status_lists split: option.splits)
  then have s': "err = (due \<and> \<not> sendOK s1 (cl_conn client))"
    "s' = (if due then emit [Sent (cl_conn client) (Shutdown (cm_Message c))] s1 else s1)"
    using r by (auto simp: replayPendingShutdown_def client_Send_def split: if_splits)
  have cmd: "map_of (commands s1) (activeCommand s) = Some ?c'" "sendOK s1 = sendOK s" "actions s1 = actions s"
    "activeCommand s1 = activeCommand s" "episode s1 = episode s" "localShutdown s1 = localShutdown s"
    using Some by (auto simp: s1_def map_of_madjust)
  have other: "map_of (commands s1) cid = map_of (commands s) cid" if "cid \<noteq> activeCommand s" for cid
    using that by (simp add: s1_def map_of_madjust)
  have sent: "actions s' = actions s @ (if due then [Sent (cl_conn client) (Shutdown (cm_Message c))] else [])"
    "err = (due \<and> \<not> sendOK s (cl_conn client))" "commands s' = commands s1" "activeCommand s' = activeCommand s"
    "episode s' = episode s" "localShutdown s' = localShutdown s"
    by (simp_all add: s' cmd)
  show ?thesis
    unfolding Some option.case Let_def due_def [symmetric] sent using c cmd(1) other by (auto split: if_splits)
qed

text \<open>The example master after a manual command for one node.\<close>

definition issued_command :: shutdownCommandState where
  "issued_command = \<lparr>cm_Message = manual_message example_request 5 ''c1'' example_server,
     cm_TargetNodes = [''web''], cm_NodeUpdates = [], cm_TimeoutAt = Some (5 + 60 * second),
     cm_CompletedAt = None, cm_ReplayDisabled = False, cm_Auto = False\<rparr>"

lemma issued_server_simps:
  "commands issued_server = [(''c1'', issued_command)]" "activeCommand issued_server = ''c1''" "sendOK issued_server = (\<lambda>_. True)"
  by (simp_all add: issued_server_def issued_command_def TriggerShutdown_def request_timeout_def manual_message_def example_request_def
      example_defs maxManualTimeoutSeconds_def selectTargets_def targetMatchesNode_def reg_List_def Let_def
      case_prod_beta buildTargetNodeSet_def sputs_def sput_def time_Add_def wrap64_id minDuration_def maxDuration_def)

theorem replay_exactly_when_due_witness:
  "\<exists>err s'. replayPendingShutdown (example_client 7 ''web'' []) 9 issued_server = (err, s') \<and>
    actions s' = actions issued_server @ [Sent 7 (Shutdown (cm_Message issued_command))]"
proof -
  obtain err s' where r: "replayPendingShutdown (example_client 7 ''web'' []) 9 issued_server = (err, s')"
    by (cases "replayPendingShutdown (example_client 7 ''web'' []) 9 issued_server")
  have "belongs_to (example_client 7 ''web'' []) issued_command" "\<not> confirmed_by issued_command ''web''"
    by (simp_all add: belongs_to_def issued_command_def example_client_def confirmed_by_def reported_in_def node_status_def)
  with replay_exactly_when_due [OF r] show ?thesis
    by (intro exI [of _ err] exI [of _ s'] conjI r)
      (simp add: issued_server_simps Let_def, simp add: issued_command_def example_client_def)
qed

section \<open>Timeouts\<close>

lemma commands_sweep:
  "commands (markTimedOutCommands now s) =
    filter (\<lambda>(id, c). id \<notin> set (prune_victims
        (if mark_releases now s
         then s\<lparr>commands := map (\<lambda>(cid, c). (cid, mark_command now cid c)) (commands s), activeCommand := [],
           shutdownIssued := False\<rparr>
         else s\<lparr>commands := map (\<lambda>(cid, c). (cid, mark_command now cid c)) (commands s)\<rparr>)))
      (map (\<lambda>(cid, c). (cid, mark_command now cid c)) (commands s))"
  by (cases "mark_releases now s") (auto simp: markTimedOutCommands_def Let_def case_prod_beta prune_commands)

lemma sweep_lookup:
  assumes "distinct (mkeys (commands s))" and "map_of (commands (markTimedOutCommands now s)) cid = Some c'"
  shows "\<exists>c. map_of (commands s) cid = Some c \<and> c' = mark_command now cid c"
proof -
  let ?m = "map (\<lambda>(cid, c). (cid, mark_command now cid c)) (commands s)"
  have "distinct (map fst ?m)" using assms(1) by (simp add: case_prod_beta comp_def)
  from map_of_filter_SomeD [OF this] assms(2) have "map_of ?m cid = Some c'"
    unfolding commands_sweep by blast
  then show ?thesis by (auto simp: map_of_map_val)
qed

text \<open>
  C15. The timeout sweep settles every command that is due: each target that had no complete
  status gets the status \<open>timeout\<close>, every other report is untouched, and the command is
  complete as of now. A command that is not due is left exactly as it was.
\<close>

theorem sweep_settles_due_commands:
  assumes "server_inv s" and "map_of (commands s) cid = Some c"
    and "map_of (commands (markTimedOutCommands now s)) cid = Some c'"
  shows "(if command_due now c \<and> cm_TargetNodes c \<noteq> [] then
      commandComplete c' = True \<and> cm_CompletedAt c' = Some now \<and>
      (\<forall>n. node_status c' n = (if n \<in> set (cm_TargetNodes c) \<and> \<not> node_complete (cm_NodeUpdates c) n
         then Some StatusTimeout else node_status c n))
    else c' = c)"
proof -
  have "distinct (mkeys (commands s))" using assms(1) by (simp add: server_inv_def core_ok_def commands_inv_def)
  from sweep_lookup [OF this assms(3)] assms(2) have c': "c' = mark_command now cid c" by simp
  have none: "cm_TargetNodes c = [] \<Longrightarrow> time_out_nodes now cid c = c \<and> \<not> commandComplete c"
    by (simp add: time_out_nodes_def commandComplete_def)
  have "node_status (time_out_nodes now cid c) n =
      (if n \<in> set (cm_TargetNodes c) \<and> \<not> node_complete (cm_NodeUpdates c) n then Some StatusTimeout
       else node_status c n)" for n
    by (simp add: node_status_def node_update_time_out timeout_ack_def)
  then show ?thesis
    using none by (auto simp: c' mark_command_def Let_def commandComplete_time_out)
qed

theorem sweep_settles_due_commands_witness:
  "\<exists>c'. map_of (commands (markTimedOutCommands (10 * minute) issued_server)) ''c1'' = Some c' \<and>
    node_status c' ''web'' = Some StatusTimeout"
proof -
  have due: "command_due (10 * minute) issued_command" by (simp add: command_due_def issued_command_def duration_units)
  have look: "map_of (commands (markTimedOutCommands (10 * minute) issued_server)) ''c1'' =
      Some (mark_command (10 * minute) ''c1'' issued_command)"
    by (simp add: markTimedOutCommands_def Let_def case_prod_beta prune_commands prune_victims_def issued_server_simps
        maxRetainedCompletedCommands_def)
  from sweep_settles_due_commands [OF issued_server_inv _ look, of issued_command] due show ?thesis
    by (auto simp: look issued_server_simps) (auto simp: issued_command_def node_complete_def)
qed

section \<open>Pruning\<close>

lemma victims_take:
  "prune_victims s = map fst (take (length (commands s) - maxRetainedCompletedCommands)
     (sort_key snd (prune_candidates s)))"
  by (simp add: prune_victims_def Let_def min_def)

lemma distinct_candidates: "distinct (mkeys (commands s)) \<Longrightarrow> distinct (map fst (prune_candidates s))"
  by (auto simp: prune_candidates_def comp_def case_prod_beta intro: distinct_map_filter)

lemma candidates_keys: "set (map fst (prune_candidates s)) \<subseteq> set (mkeys (commands s))"
  by (auto simp: prune_candidates_def)

lemma distinct_victims: "distinct (mkeys (commands s)) \<Longrightarrow> distinct (prune_victims s)"
  using distinct_candidates [of s]
  by (simp add: victims_take distinct_map distinct_sort take_map [symmetric] distinct_take
      flip: take_map)

lemma kept_candidates:
  assumes "x \<in> set (prune_candidates (snd (pruneCompletedCommandsLocked s)))"
  shows "x \<in> set (drop (length (commands s) - maxRetainedCompletedCommands) (sort_key snd (prune_candidates s)))"
proof -
  let ?cs = "sort_key snd (prune_candidates s)" let ?k = "length (commands s) - maxRetainedCompletedCommands"
  obtain cid t where x: "x = (cid, t)" by (cases x)
  with assms have "(cid, t) \<in> set (prune_candidates s)" and v: "cid \<notin> set (prune_victims s)"
    by (auto simp: prune_candidates_iff prune_commands)
  then have "(cid, t) \<in> set (take ?k ?cs) \<union> set (drop ?k ?cs)"
    by (metis append_take_drop_id set_append set_sort)
  moreover have "(cid, t) \<notin> set (take ?k ?cs)" using v by (force simp: victims_take)
  ultimately show ?thesis using x by blast
qed

lemma dropped_is_victim:
  "distinct (mkeys (commands s)) \<Longrightarrow> map_of (commands s) cid = Some c \<Longrightarrow>
    map_of (commands (snd (pruneCompletedCommandsLocked s))) cid = None \<Longrightarrow> cid \<in> set (prune_victims s)"
  using map_of_filter_Some [of "commands s" cid c "\<lambda>(id, c). id \<notin> set (prune_victims s)"]
  by (auto simp: prune_commands)

lemma length_pruned:
  assumes d: "distinct (mkeys (commands s))"
  shows "length (commands (snd (pruneCompletedCommandsLocked s))) \<le> maxRetainedCompletedCommands \<or>
    prune_candidates (snd (pruneCompletedCommandsLocked s)) = []"
proof (cases "length (prune_candidates s) \<le> length (commands s) - maxRetainedCompletedCommands")
  case True
  have "x \<notin> set (prune_candidates (snd (pruneCompletedCommandsLocked s)))" for x
    using kept_candidates [of x s] True by auto
  then show ?thesis by (metis list.set_intros(1) neq_Nil_conv)
next
  case False
  have "set (prune_victims s) \<subseteq> set (map fst (prune_candidates s))"
    by (auto simp: victims_take dest!: in_set_takeD intro: rev_image_eqI)
  with candidates_keys [of s] have "set (prune_victims s) \<subseteq> set (mkeys (commands s))" by blast
  from length_filter_keys [OF d distinct_victims [OF d] this] False show ?thesis
    by (intro disjI1) (simp add: prune_commands victims_take)
qed

text \<open>
  Pruning keeps the history bounded: a command is dropped only when it is completed, is
  not the active one and is not the one a local shutdown refers to; dropped commands
  completed no later than any droppable command that is kept; and afterwards at most
  \<open>maxRetainedCompletedCommands\<close> commands remain unless nothing droppable is left.
\<close>

theorem prune_drops_oldest_completed:
  assumes inv: "server_inv s" and s': "s' = snd (pruneCompletedCommandsLocked s)"
  shows "(\<forall>cid c. map_of (commands s) cid = Some c \<longrightarrow> map_of (commands s') cid = None \<longrightarrow>
      cm_CompletedAt c \<noteq> None \<and> cid \<noteq> activeCommand s \<and>
      (\<forall>l. localShutdown s = Some l \<longrightarrow> ls_CommandID l \<noteq> cid) \<and>
      (\<forall>cid2 t2. (cid2, t2) \<in> set (prune_candidates s') \<longrightarrow> the (cm_CompletedAt c) \<le> t2)) \<and>
    (length (commands s') \<le> maxRetainedCompletedCommands \<or> prune_candidates s' = [])"
proof -
  have d: "distinct (mkeys (commands s))" using inv by (simp add: server_inv_def core_ok_def commands_inv_def)
  have "cm_CompletedAt c \<noteq> None \<and> cid \<noteq> activeCommand s \<and>
      (\<forall>l. localShutdown s = Some l \<longrightarrow> ls_CommandID l \<noteq> cid) \<and>
      (\<forall>cid2 t2. (cid2, t2) \<in> set (prune_candidates s') \<longrightarrow> the (cm_CompletedAt c) \<le> t2)"
    if c: "map_of (commands s) cid = Some c" and gone: "map_of (commands s') cid = None" for cid c
  proof -
    obtain t where t: "(cid, t) \<in> set (take (length (commands s) - maxRetainedCompletedCommands)
        (sort_key snd (prune_candidates s)))"
      using dropped_is_victim [OF d c] gone by (auto simp: s' victims_take)
    then have "(cid, t) \<in> set (prune_candidates s)" by (metis in_set_takeD set_sort)
    with c d have "cm_CompletedAt c = Some t" "cid \<noteq> activeCommand s"
      "\<forall>l. localShutdown s = Some l \<longrightarrow> ls_CommandID l \<noteq> cid"
      by (auto simp: prune_candidates_iff map_of_eq_Some_iff dest: eq_key_imp_eq_value)
    with take_le_drop_key [OF t] kept_candidates show ?thesis by (fastforce simp: s')
  qed
  with length_pruned [OF d] show ?thesis unfolding s' by blast
qed

theorem prune_drops_oldest_completed_witness:
  "length (commands (snd (pruneCompletedCommandsLocked issued_server))) \<le> maxRetainedCompletedCommands \<or>
    prune_candidates (snd (pruneCompletedCommandsLocked issued_server)) = []"
  using prune_drops_oldest_completed [OF issued_server_inv refl] by blast

section \<open>Acknowledgements and summaries\<close>

text \<open>
  C14. What an acknowledgement changes: one for an unknown command, for a node that is no
  target, or for a node that already confirmed its shutdown changes nothing. Any other is
  stored as that node's latest report and no other report or command changes; the command counts
  as complete from now exactly when every target then has a settled status, and a manual command
  that is complete without a timeout is released as the active one; the master's own shutdown is
  started exactly when every target then has reported a final status itself and the local shutdown is waiting
  for this command. Nothing is sent, and when the state file can be written it holds the new state.
\<close>

theorem acknowledgement_exact:
  assumes r: "recordShutdownUpdateLocked now update s = (start, s')"
  shows "case map_of (commands s) (ack_CommandID update) of
      None \<Rightarrow> \<not> start \<and> s' = s
    | Some c \<Rightarrow>
       if ack_NodeID update \<notin> set (cm_TargetNodes c) \<or> confirmed_by c (ack_NodeID update) then \<not> start \<and> s' = s
       else
         let c1 = c\<lparr>cm_NodeUpdates := mput (ack_NodeID update) update (cm_NodeUpdates c)\<rparr>;
             waiting = (\<exists>l. localShutdown s = Some l \<and> ls_CommandID l = ack_CommandID update \<and> ls_Phase l = PhaseWaitingRemote);
             released = (settled c1 \<and> activeCommand s = ack_CommandID update \<and> \<not> cm_Auto c \<and>
               \<not> list_ex (reported_in [StatusTimeout] c1) (cm_TargetNodes c))
         in start = (finished_by_all c1 \<and> waiting) \<and>
            map_of (commands s') (ack_CommandID update) =
              Some (c1\<lparr>cm_CompletedAt := if settled c1 then Some now else cm_CompletedAt c\<rparr>) \<and>
            (\<forall>cid. cid \<noteq> ack_CommandID update \<longrightarrow> map_of (commands s') cid = map_of (commands s) cid) \<and>
            activeCommand s' = (if released then [] else activeCommand s) \<and>
            shutdownIssued s' = (if released then False else shutdownIssued s) \<and>
            localShutdown s' = (if start then map_option (\<lambda>l. l\<lparr>ls_Trigger := TriggerRemoteComplete\<rparr>) (localShutdown s) else localShutdown s) \<and>
            episode s' = episode s \<and> registry s' = registry s \<and> directory s' = directory s \<and> nodeTokens s' = nodeTokens s \<and>
            actions s' = actions s \<and>
            (mc_StateFile (cfg s) \<noteq> [] \<and> writeOK s (Suc (persistSeq (stateStore s))) \<and> persistedSeq (stateStore s) \<le> persistSeq (stateStore s) \<longrightarrow>
               disk (stateStore s') = Some (persisted_of s'))"
proof (cases "map_of (commands s) (ack_CommandID update)")
  case None
  with r show ?thesis by (simp add: recordShutdownUpdateLocked_def)
next
  case (Some c)
  let ?c1 = "c\<lparr>cm_NodeUpdates := mput (ack_NodeID update) update (cm_NodeUpdates c)\<rparr>"
  let ?c2 = "ack_command now update c"
  have c2: "?c2 = ?c1\<lparr>cm_CompletedAt := if settled ?c1 then Some now else cm_CompletedAt c\<rparr>"
    by (simp add: ack_command_def Let_def commandComplete_settled)
  have same: "settled ?c2 = settled ?c1" "finished_by_all ?c2 = finished_by_all ?c1" "reported_in sts ?c2 = reported_in sts ?c1" for sts
    by (simp_all add: c2 settled_def finished_by_all_def reported_in_def [abs_def] node_status_def)
  have confirmed: "confirmed_by c (ack_NodeID update) \<longleftrightarrow> (case map_of (cm_NodeUpdates c) (ack_NodeID update) of
      Some existing \<Rightarrow> \<not> shouldReplaceShutdownUpdate existing update | None \<Rightarrow> False)"
    by (simp add: confirmed_by_def reported_in_def node_status_def shouldReplaceShutdownUpdate_def status_lists split: option.split)
  have timeout: "commandHasRepairableTimeout ?c2 = list_ex (reported_in [StatusTimeout] ?c1) (cm_TargetNodes c)"
    by (simp add: timeout_reported same)
  show ?thesis
  proof (cases "ack_NodeID update \<notin> set (cm_TargetNodes c) \<or> confirmed_by c (ack_NodeID update)")
    case True
    with r show ?thesis by (auto simp: recordShutdownUpdateLocked_def Some confirmed split: if_splits)
  next
    case False
    with r have s': "s' = saveState (ack_state update ?c2 s)" "start = ack_starts update ?c2 s"
      by (auto simp: recordShutdownUpdateLocked_def Some confirmed Let_def split: if_splits)
    have start: "ack_starts update ?c2 s \<longleftrightarrow> finished_by_all ?c1 \<and>
        (\<exists>l. localShutdown s = Some l \<and> ls_CommandID l = ack_CommandID update \<and> ls_Phase l = PhaseWaitingRemote)"
      by (auto simp: ack_starts_def remoteShutdownFinished_by_all same split: option.split)
    have released: "ack_releases update ?c2 s \<longleftrightarrow> settled ?c1 \<and> activeCommand s = ack_CommandID update \<and> \<not> cm_Auto c \<and>
        \<not> list_ex (reported_in [StatusTimeout] ?c1) (cm_TargetNodes c)"
      by (auto simp: ack_releases_def commandComplete_settled same timeout)
    have state: "map_of (commands (ack_state update ?c2 s)) cid = (if cid = ack_CommandID update then Some ?c2 else map_of (commands s) cid)" for cid
      using Some by (simp add: ack_state_def Let_def map_of_madjust)
    show ?thesis using False
      by (simp add: Some Let_def s' start [symmetric] released [symmetric] state c2 [symmetric] disk_saveState)
        (simp add: ack_state_def Let_def actions_def disk_saveState)
  qed
qed

definition web_report :: ShutdownAckMessage where
  "web_report = \<lparr>ack_CommandID = ''c1'', ack_NodeID = ''web'', ack_Status = StatusExecuted, ack_Message = [], ack_AckedAt = 8\<rparr>"

theorem acknowledgement_exact_witness:
  "\<exists>start s'. recordShutdownUpdateLocked 9 web_report issued_server = (start, s') \<and> activeCommand s' = [] \<and>
    map_of (commands s') ''c1'' = Some (issued_command\<lparr>cm_NodeUpdates := [(''web'', web_report)], cm_CompletedAt := Some 9\<rparr>)"
proof -
  obtain start s' where r: "recordShutdownUpdateLocked 9 web_report issued_server = (start, s')"
    by (cases "recordShutdownUpdateLocked 9 web_report issued_server")
  let ?c1 = "issued_command\<lparr>cm_NodeUpdates := [(''web'', web_report)]\<rparr>"
  have "settled ?c1" "\<not> confirmed_by issued_command ''web''" "\<not> list_ex (reported_in [StatusTimeout] ?c1) (cm_TargetNodes issued_command)"
    "ack_NodeID web_report = ''web''" "ack_CommandID web_report = ''c1''" "cm_TargetNodes issued_command = [''web'']"
    "cm_NodeUpdates issued_command = []" "\<not> cm_Auto issued_command"
    by (simp_all add: settled_def issued_command_def web_report_def confirmed_by_def reported_in_def node_status_def consts_simps)
  with r acknowledgement_exact [OF r] show ?thesis by (simp add: issued_server_simps Let_def)
qed

text \<open>How many targets of a command have a given status.\<close>

definition count_status :: "shutdownCommandState \<Rightarrow> string \<Rightarrow> nat" where
  "count_status c st = length (filter (\<lambda>n. node_status c n = Some st) (cm_TargetNodes c))"

lemma count_node_fields:
  "su_Outstanding (count_node c n su) = su_Outstanding su + (if node_status c n = None then 1 else 0)"
  "su_Acknowledged (count_node c n su) = su_Acknowledged su + (if node_status c n = None then 0 else 1)"
  "su_Executing (count_node c n su) = su_Executing su + (if node_status c n = Some StatusExecuting then 1 else 0)"
  "su_Executed (count_node c n su) = su_Executed su + (if node_status c n = Some StatusExecuted then 1 else 0)"
  "su_Simulated (count_node c n su) = su_Simulated su + (if node_status c n = Some StatusSimulated then 1 else 0)"
  "su_Failed (count_node c n su) = su_Failed su + (if node_status c n = Some StatusFailed then 1 else 0)"
  "su_Timeout (count_node c n su) = su_Timeout su + (if node_status c n = Some StatusTimeout then 1 else 0)"
  "su_Targeted (count_node c n su) = su_Targeted su"
  by (auto simp: count_node_def node_status_def Let_def split: option.split)

lemma count_fold:
  "(\<And>n su. get (count_node c n su) = get su + (if P n then 1 else 0)) \<Longrightarrow>
    get (fold (count_node c) ns su) = get su + length (filter P ns)"
  by (induction ns arbitrary: su) auto

lemma Targeted_fold: "su_Targeted (fold (count_node c) ns su) = su_Targeted su"
  by (induction ns arbitrary: su) (auto simp: count_node_fields)

text \<open>
  The summary of a command counts every target exactly once as outstanding or
  acknowledged, and its executing, executed, simulated, failed and timed-out figures are the
  numbers of targets with that status.
\<close>

theorem summary_counts_targets:
  "su_Targeted (summarizeCommand (Some c)) = length (cm_TargetNodes c) \<and>
   su_Acknowledged (summarizeCommand (Some c)) + su_Outstanding (summarizeCommand (Some c)) =
     length (cm_TargetNodes c) \<and>
   su_Executing (summarizeCommand (Some c)) = count_status c StatusExecuting \<and>
   su_Executed (summarizeCommand (Some c)) = count_status c StatusExecuted \<and>
   su_Simulated (summarizeCommand (Some c)) = count_status c StatusSimulated \<and>
   su_Failed (summarizeCommand (Some c)) = count_status c StatusFailed \<and>
   su_Timeout (summarizeCommand (Some c)) = count_status c StatusTimeout"
proof -
  have "length (filter (\<lambda>n. node_status c n \<noteq> None) ns) + length (filter (\<lambda>n. node_status c n = None) ns) =
      length ns" for ns using sum_length_filter_compl [of "\<lambda>n. node_status c n \<noteq> None" ns] by simp
  then show ?thesis
    using count_fold [of su_Acknowledged c "\<lambda>n. node_status c n \<noteq> None"]
      count_fold [of su_Outstanding c "\<lambda>n. node_status c n = None"]
      count_fold [of su_Executing c "\<lambda>n. node_status c n = Some StatusExecuting"]
      count_fold [of su_Executed c "\<lambda>n. node_status c n = Some StatusExecuted"]
      count_fold [of su_Simulated c "\<lambda>n. node_status c n = Some StatusSimulated"]
      count_fold [of su_Failed c "\<lambda>n. node_status c n = Some StatusFailed"]
      count_fold [of su_Timeout c "\<lambda>n. node_status c n = Some StatusTimeout"]
    by (simp add: summarizeCommand_def Let_def count_status_def count_node_fields Targeted_fold zero_summary_def)
qed

section \<open>Manual commands\<close>

text \<open>
  The timeout of a manual command never overflows Go's 64-bit duration: an accepted
  request with a positive number of seconds gets exactly that many seconds, between one
  second and 24 hours; a larger one is refused; without one the configured timeout applies.
\<close>

theorem manual_timeout_no_overflow:
  "request_timeout request c =
    (case rq_TimeoutSeconds request of
       None \<Rightarrow> Some (mc_CommandTimeout c)
     | Some secs \<Rightarrow>
        if secs \<le> 0 then Some (mc_CommandTimeout c)
        else if secs \<le> 86400 then Some (secs * 1000000000)
        else None)"
  by (auto simp: request_timeout_def maxManualTimeoutSeconds_def second_def minDuration_def maxDuration_def
      intro: wrap64_id split: option.split)

end
