(* ===== verification/LocalBehaviour.thy ===== *)
theory LocalBehaviour
  imports Behaviour Runs
begin

text \<open>
  When the master powers itself off: the waiting phase, emergencies, the mark that survives
  the power-off, and what a rebooted master may do before it has read the UPS.
\<close>

section \<open>Running the command\<close>

lemma actions_fields [simp]:
  "actions (s\<lparr>localShutdown := ls\<rparr>) = actions s" "actions (s\<lparr>episode := e\<rparr>) = actions s"
  "actions (s\<lparr>localShutdown := ls, episode := e\<rparr>) = actions s" "actions (s\<lparr>upsConfirmed := b\<rparr>) = actions s"
  by (simp_all add: actions_def)

lemma actions_claim: "actions (snd (beginLocalShutdownClaim cid tr at s)) = actions s"
  by (auto simp: beginLocalShutdownClaim_def Let_def split: option.split)

lemma actions_finish: "actions (beginLocalShutdownFinish cid err s) = actions s"
  by (auto simp: beginLocalShutdownFinish_def split: option.split)

lemma cfg_claim: "cfg (snd (beginLocalShutdownClaim cid tr at s)) = cfg s"
  by (auto simp: beginLocalShutdownClaim_def Let_def split: option.split)

lemma claim_iff:
  "fst (beginLocalShutdownClaim cid tr at s) = (case localShutdown s of
     None \<Rightarrow> None
   | Some l \<Rightarrow> if ls_CommandID l \<noteq> cid \<or> localShutdownTerminal (ls_Phase l) then None else Some (ls_DryRun l))"
  by (auto simp: beginLocalShutdownClaim_def Let_def split: option.split)

lemma actions_execution:
  "actions (beginLocalShutdownExecution runner cid tr at s) =
    actions s @ (case fst (beginLocalShutdownClaim cid tr at s) of
      None \<Rightarrow> [] | Some dry \<Rightarrow> [Ran (slice (lc_Command (mc_LocalShutdown (cfg s)))) tr dry])"
  using actions_claim [of cid tr at s]
  by (auto simp: beginLocalShutdownExecution_def Let_def actions_finish split: option.split prod.split)

text \<open>
  C8. The local shutdown command is started only after the state file says so: the execution
  of a real (not dry-run) local shutdown during an episode first replaces the state file,
  whenever that write succeeds, by one whose episode is marked as powered off, and only then
  starts the command.
\<close>

theorem poweroff_mark_saved_before_run:
  assumes "localShutdown s = Some l" and "ls_CommandID l = cid" and "\<not> localShutdownTerminal (ls_Phase l)"
    and "ls_DryRun l = False" and "episode s = Some e" and "mc_StateFile (cfg s) \<noteq> []"
    and "persistedSeq (stateStore s) \<le> persistSeq (stateStore s)"
    and "writeOK s (Suc (persistSeq (stateStore s)))"
  shows "\<exists>p rest. effects (beginLocalShutdownExecution runner cid tr at s) = effects s @
      [Wrote p, Ran (slice (lc_Command (mc_LocalShutdown (cfg s)))) tr False] @ rest \<and>
    ps_Episode p = Some (e\<lparr>ep_MasterPoweredOff := True, ep_matchSince := []\<rparr>)"
proof -
  let ?l = "l\<lparr>ls_Phase := PhaseExecuting, ls_Trigger := tr, ls_LastError := [], ls_LastAttemptAt := Some at\<rparr>"
  let ?s = "s\<lparr>localShutdown := Some ?l, episode := Some (e\<lparr>ep_MasterPoweredOff := True\<rparr>)\<rparr>"
  have claim: "beginLocalShutdownClaim cid tr at s = (Some False, saveState ?s)"
    using assms(1-5) by (simp add: beginLocalShutdownClaim_def Let_def)
  have eff: "effects (saveState ?s) = effects s @ [Wrote (persisted_of ?s)]"
    using assms(6-8) by (simp add: effects_saveState)
  obtain rest where "effects (beginLocalShutdownFinish cid err t) = effects t @ rest err t" for err t
    by (rule that [of "\<lambda>err t. drop (length (effects t)) (effects (beginLocalShutdownFinish cid err t))"])
      (auto simp: beginLocalShutdownFinish_def effects_saveState split: option.split)
  then have "effects (beginLocalShutdownExecution runner cid tr at s) = effects s @
      [Wrote (persisted_of ?s), Ran (slice (lc_Command (mc_LocalShutdown (cfg s)))) tr False] @
      rest (runner (slice (lc_Command (mc_LocalShutdown (cfg s)))) tr False)
        (emit [Ran (slice (lc_Command (mc_LocalShutdown (cfg s)))) tr False] (saveState ?s))"
    by (simp add: beginLocalShutdownExecution_def Let_def claim eff)
  moreover have "ps_Episode (persisted_of ?s) = Some (e\<lparr>ep_MasterPoweredOff := True, ep_matchSince := []\<rparr>)"
    by (simp add: persisted_of_def persistedEpisode_def)
  ultimately show ?thesis by blast
qed

text \<open>The example master about to power off in an emergency.\<close>

definition emergency_state :: localShutdownState where
  "emergency_state = \<lparr>ls_Phase = PhaseEmergency, ls_CommandID = [], ls_StartedAt = Some 8, ls_DeadlineAt = None,
     ls_Trigger = TriggerLowBattery, ls_LastRebroadcastAt = None, ls_LastError = [], ls_LastAttemptAt = None,
     ls_DryRun = False\<rparr>"

definition emergency_server :: Server where
  "emergency_server = episode_server\<lparr>localShutdown := Some emergency_state\<rparr>"

theorem poweroff_mark_saved_before_run_witness:
  "\<exists>p rest. effects (beginLocalShutdownExecution (\<lambda>_ _ _. None) [] TriggerLowBattery 9 emergency_server) =
      effects emergency_server @ [Wrote p, Ran [''shutdown''] TriggerLowBattery False] @ rest \<and>
    ps_Episode p = Some (example_episode\<lparr>ep_MasterPoweredOff := True, ep_matchSince := []\<rparr>)"
proof -
  have "localShutdown emergency_server = Some emergency_state" "ls_CommandID emergency_state = []"
    "\<not> localShutdownTerminal (ls_Phase emergency_state)" "ls_DryRun emergency_state = False"
    "episode emergency_server = Some example_episode"
    "mc_StateFile (cfg emergency_server) \<noteq> []"
    "persistedSeq (stateStore emergency_server) \<le> persistSeq (stateStore emergency_server)"
    "writeOK emergency_server (Suc (persistSeq (stateStore emergency_server)))"
    by (simp_all add: emergency_server_def emergency_state_def episode_server_def localShutdownTerminal_def example_defs)
  note h = poweroff_mark_saved_before_run [OF this]
  have "slice (lc_Command (mc_LocalShutdown (cfg emergency_server))) = [''shutdown'']"
    by (simp add: emergency_server_def example_config_def slice_def)
  with h show ?thesis by simp
qed

text \<open>
  Whether a local shutdown for \<open>cid\<close> is only a drill: the dry-run flag of the command it follows,
  and the configured one in an emergency without a command.
\<close>

definition is_drill :: "MasterConfig \<Rightarrow> Server \<Rightarrow> string \<Rightarrow> bool" where
  "is_drill c s cid = (case map_of (commands s) cid of None \<Rightarrow> mc_DryRun c | Some cmd \<Rightarrow> sm_DryRun (cm_Message cmd))"

text \<open>
  C10. A dry run never starts the shutdown command. In every state a master can reach, the flag a
  local shutdown is run with is that of the command it follows, or the configured one for an
  emergency without a command; and when that is a dry run, what the operating system would answer
  to a started command makes no difference to anything: it is not asked. The episode is not
  marked as powered off either.
\<close>

theorem dry_run_never_powers_off:
  assumes "first_boot c m0" and "process_step\<^sup>*\<^sup>* m0 m"
    and run: "\<And>exec. run exec = beginLocalShutdownExecution (runLocalShutdownCommand exec (srv m)) cid tr at (srv m)"
  shows "(\<forall>exec. actions (run exec) = actions (srv m) @
      (if \<exists>l. localShutdown (srv m) = Some l \<and> ls_CommandID l = cid \<and> \<not> localShutdownTerminal (ls_Phase l)
       then [Ran (slice (lc_Command (mc_LocalShutdown c))) tr (is_drill c (srv m) cid)] else [])) \<and>
    (is_drill c (srv m) cid \<longrightarrow> (\<forall>exec exec'. run exec = run exec') \<and>
      (\<forall>exec e'. episode (run exec) = Some e' \<and> ep_MasterPoweredOff e' \<longrightarrow>
        (\<exists>e. episode (srv m) = Some e \<and> ep_MasterPoweredOff e)))"
proof -
  have m: "master_inv m" "cfg (srv m) = c" using configured.reachable_inv [OF assms(1,2)] by auto
  have flag: "ls_DryRun l = is_drill c (srv m) cid" if "localShutdown (srv m) = Some l" "ls_CommandID l = cid" for l
    using local_state_ok_lookup [OF master_simps(1) [OF m(1)] that(1)] that(2) m(2)
    by (auto simp: local_state_ok_def is_drill_def split: option.splits)
  have "fst (beginLocalShutdownClaim cid tr at (srv m)) =
      (if \<exists>l. localShutdown (srv m) = Some l \<and> ls_CommandID l = cid \<and> \<not> localShutdownTerminal (ls_Phase l)
       then Some (is_drill c (srv m) cid) else None)"
    by (auto simp: claim_iff flag split: option.splits)
  then have "actions (run exec) = actions (srv m) @
      (if \<exists>l. localShutdown (srv m) = Some l \<and> ls_CommandID l = cid \<and> \<not> localShutdownTerminal (ls_Phase l)
       then [Ran (slice (lc_Command (mc_LocalShutdown c))) tr (is_drill c (srv m) cid)] else [])" for exec
    unfolding run actions_execution m(2) by simp
  moreover have "run exec = run exec'" if "is_drill c (srv m) cid" for exec exec'
    using that flag by (auto simp: run beginLocalShutdownExecution_def beginLocalShutdownClaim_def Let_def
        runLocalShutdownCommand_def split: option.split)
  moreover have "\<exists>e. episode (srv m) = Some e \<and> ep_MasterPoweredOff e"
    if "is_drill c (srv m) cid" "episode (run exec) = Some e'" "ep_MasterPoweredOff e'" for exec e'
    using that flag by (auto simp: run beginLocalShutdownExecution_def beginLocalShutdownClaim_def Let_def
        beginLocalShutdownFinish_def split: option.splits if_splits)
  ultimately show ?thesis by blast
qed

theorem dry_run_never_powers_off_witness:
  "\<forall>exec. actions (beginLocalShutdownExecution (runLocalShutdownCommand exec (srv drill_decided)) [] TriggerLowBattery 7
      (srv drill_decided)) = actions (srv drill_decided) @ [Ran [''shutdown''] TriggerLowBattery True]"
proof -
  have "\<exists>l. localShutdown (srv drill_decided) = Some l \<and> ls_CommandID l = [] \<and> \<not> localShutdownTerminal (ls_Phase l)"
    by (simp add: drill_decided_def drill_emergency_def localShutdownTerminal_def)
  moreover have "is_drill drill_config (srv drill_decided) []" "slice (lc_Command (mc_LocalShutdown drill_config)) = [''shutdown'']"
    by (simp_all add: is_drill_def drill_decided_def drill_polled_simps drill_config_def example_config_def slice_def)
  ultimately show ?thesis
    using dry_run_never_powers_off [OF drill_first_boot drill_reaches refl, of "[]" TriggerLowBattery 7] by simp
qed

section \<open>Waiting for the nodes\<close>

text \<open>The example master drilling: a dry-run command for all nodes.\<close>

definition drill_request :: ShutdownRequest where
  "drill_request = \<lparr>rq_Reason = ''drill'', rq_NodeIDs = [], rq_Tags = [], rq_DryRun = Some True,
     rq_TimeoutSeconds = None\<rparr>"

definition drill_server :: Server where
  "drill_server = snd (TriggerShutdown drill_request 5 ''c1'' example_server)"

definition drill_command :: shutdownCommandState where
  "drill_command = \<lparr>cm_Message = manual_message drill_request 5 ''c1'' example_server,
     cm_TargetNodes = [''web'', ''ci''], cm_NodeUpdates = [], cm_TimeoutAt = Some (5 + 30 * second),
     cm_CompletedAt = None, cm_ReplayDisabled = False, cm_Auto = False\<rparr>"

definition drill_local :: localShutdownState where
  "drill_local = \<lparr>ls_Phase = PhaseWaitingRemote, ls_CommandID = ''c1'', ls_StartedAt = Some 5,
     ls_DeadlineAt = Some (5 + 15 * minute), ls_Trigger = [], ls_LastRebroadcastAt = None, ls_LastError = [],
     ls_LastAttemptAt = None, ls_DryRun = True\<rparr>"

lemma drill_server_simps:
  "commands drill_server = [(''c1'', drill_command)]" "localShutdown drill_server = Some drill_local"
  "cfg drill_server = example_config" "episode drill_server = None" "activeCommand drill_server = ''c1''"
  by (simp_all add: drill_server_def drill_command_def drill_local_def TriggerShutdown_def request_timeout_def
      manual_message_def drill_request_def example_defs selectTargets_def targetMatchesNode_def reg_List_def Let_def
      case_prod_beta buildTargetNodeSet_def sputs_def sput_def time_Add_def armLocalShutdownLocked_def)

text \<open>
  C7. While the master waits for the nodes to shut down it powers itself off exactly when
  every target has reached a final status, or an emergency is in force, or the maximal wait
  has passed, in this order of precedence; otherwise nothing is run and nothing changes. (The
  local shutdown follows a command that was not reset; an automatic one is only acted on once
  the UPS state is confirmed or its silence itself is the emergency.)
\<close>

theorem waiting_master_decision:
  assumes "localShutdown s = Some l" and "ls_Phase l = PhaseWaitingRemote"
    and "map_of (commands s) (ls_CommandID l) = Some c" and "\<not> cm_ReplayDisabled c"
    and "lc_Enabled (mc_LocalShutdown (cfg s))"
    and "episode s = None \<or> localShutdownBelongsToEpisodeLocked s"
    and trusted: "upsConfirmed s \<or> effectiveEmergency u now s = TriggerUPSUnreachable"
    and reason: "reason = (if remoteShutdownFinished c then TriggerRemoteComplete
      else if effectiveEmergency u now s \<noteq> [] then effectiveEmergency u now s
      else if (\<exists>d. ls_DeadlineAt l = Some d \<and> d \<le> now) then TriggerWaitExpired
      else [])"
  shows "(if reason = [] then actions (evaluateLocalShutdown runner at now u s) = actions s
    else \<exists>clients :: Client list. actions (evaluateLocalShutdown runner at now u s) =
      actions s @ map (\<lambda>cl. Sent (cl_conn cl) (Shutdown (cm_Message c))) clients @
        [Ran (slice (lc_Command (mc_LocalShutdown (cfg s)))) reason (ls_DryRun l)])"
proof -
  let ?em = "effectiveEmergency u now s"
  define v where "v = (if ?em = TriggerUPSUnreachable \<and> episode s \<noteq> None then s\<lparr>upsConfirmed := True\<rparr> else s)"
  have v: "localShutdown v = localShutdown s" "commands v = commands s" "episode v = episode s" "cfg v = cfg s"
    "actions v = actions s" by (simp_all add: v_def)
  have "localShutdownBelongsToEpisodeLocked v = localShutdownBelongsToEpisodeLocked s"
    unfolding localShutdownBelongsToEpisodeLocked_def v ..
  then have locked: "evaluateLocalShutdownLocked now u s = waitForRemote now ?em l (Some c) v"
    using assms(1-7) unfolding evaluateLocalShutdownLocked_def Let_def v_def [symmetric]
    by (auto simp: advanceLocalShutdown_def Let_def v)
  have claim: "actions (beginLocalShutdownExecution runner (ls_CommandID l) tr at t) =
      actions t @ [Ran (slice (lc_Command (mc_LocalShutdown (cfg s)))) tr (ls_DryRun l)]"
    if "cfg t = cfg s" "\<exists>l'. localShutdown t = Some l' \<and> ls_CommandID l' = ls_CommandID l \<and>
      \<not> localShutdownTerminal (ls_Phase l') \<and> ls_DryRun l' = ls_DryRun l" for tr t
    using that by (auto simp: actions_execution claim_iff)
  show ?thesis
    using assms(4,5) reason unfolding evaluateLocalShutdown_def locked waitForRemote_def
    by (auto simp: no_decision_def decide_def claim localShutdownTerminal_def assms(2) v split: option.splits)
qed

theorem waiting_master_decision_witness:
  "\<exists>clients :: Client list. actions (evaluateLocalShutdown (\<lambda>_ _ _. None) (16 * minute) (16 * minute) None
      (drill_server\<lparr>upsConfirmed := True\<rparr>)) =
    actions drill_server @ map (\<lambda>cl. Sent (cl_conn cl) (Shutdown (cm_Message drill_command))) clients @
      [Ran [''shutdown''] TriggerWaitExpired True]"
proof -
  let ?s = "drill_server\<lparr>upsConfirmed := True\<rparr>"
  have "\<not> remoteShutdownFinished drill_command"
    by (simp add: remoteShutdownFinished_def drill_command_def node_status_def)
  moreover have "upsStatus drill_server = None"
    by (simp add: drill_server_def TriggerShutdown_def request_timeout_def manual_message_def drill_request_def
        example_defs selectTargets_def targetMatchesNode_def reg_List_def Let_def case_prod_beta)
  then have "effectiveEmergency None (16 * minute) ?s = []"
    by (simp add: effectiveEmergency_def emergencyTrigger_def emergencyRuntimeReached_def upsSilentFor_def
        currentUPSStatus_def empty_view_def Let_def)
  moreover have "\<exists>d. ls_DeadlineAt drill_local = Some d \<and> d \<le> 16 * minute"
    by (simp add: drill_local_def duration_units)
  ultimately have "TriggerWaitExpired = (if remoteShutdownFinished drill_command then TriggerRemoteComplete
      else if effectiveEmergency None (16 * minute) ?s \<noteq> [] then effectiveEmergency None (16 * minute) ?s
      else if (\<exists>d. ls_DeadlineAt drill_local = Some d \<and> d \<le> 16 * minute) then TriggerWaitExpired
      else [])" by simp
  from waiting_master_decision [OF _ _ _ _ _ _ _ this, of "\<lambda>_ _ _. None" "16 * minute"] show ?thesis
    by (simp add: drill_server_simps drill_local_def drill_command_def example_config_def slice_def)
qed

section \<open>Emergencies\<close>

text \<open>
  C6. The emergency needs no command and no policy: during an episode, as soon as an
  emergency is in force (critical runtime, low battery, or a UPS silent for too long) and the
  UPS state is confirmed or the silence is the emergency, the very next check of an enabled
  master starts its shutdown command, with the dry-run flag of the episode's command or,
  without one, of the configuration; unless a local shutdown of this episode exists already
  or one is being executed.
\<close>

theorem emergency_powers_off_at_next_check:
  assumes "lc_Enabled (mc_LocalShutdown (cfg s))" and ep: "episode s = Some e"
    and em: "effectiveEmergency u now s \<noteq> []"
    and trusted: "upsConfirmed s \<or> effectiveEmergency u now s = TriggerUPSUnreachable"
    and free: "localShutdownBelongsToEpisodeLocked s = False"
      "\<And>l. localShutdown s = Some l \<Longrightarrow> ls_Phase l \<noteq> PhaseExecuting"
  shows "\<exists>(clients :: Client list) m. actions (evaluateLocalShutdown runner at now u s) = actions s @
    map (\<lambda>cl. Sent (cl_conn cl) (Shutdown m)) clients @
    [Ran (slice (lc_Command (mc_LocalShutdown (cfg s)))) (effectiveEmergency u now s)
      (case map_of (commands s) (ep_CommandID e) of
         None \<Rightarrow> mc_DryRun (cfg s) | Some c \<Rightarrow> sm_DryRun (cm_Message c))]"
proof -
  let ?em = "effectiveEmergency u now s"
  define v where "v = (if ?em = TriggerUPSUnreachable \<and> episode s \<noteq> None then s\<lparr>upsConfirmed := True\<rparr> else s)"
  have v: "localShutdown v = localShutdown s" "commands v = commands s" "episode v = episode s" "cfg v = cfg s"
    "actions v = actions s" by (simp_all add: v_def)
  have belongs: "localShutdownBelongsToEpisodeLocked v = localShutdownBelongsToEpisodeLocked s"
    unfolding localShutdownBelongsToEpisodeLocked_def v ..
  have locked: "evaluateLocalShutdownLocked now u s = startEmergency now ?em True v"
    using assms(3-6) ep unfolding evaluateLocalShutdownLocked_def Let_def v_def [symmetric]
    by (auto simp: belongs v split: option.splits)
  have claim: "actions (beginLocalShutdownExecution runner (ep_CommandID e) tr at t) =
      actions t @ [Ran (slice (lc_Command (mc_LocalShutdown (cfg s)))) tr dry]"
    if "cfg t = cfg s" "\<exists>l. localShutdown t = Some l \<and> ls_CommandID l = ep_CommandID e \<and>
      \<not> localShutdownTerminal (ls_Phase l) \<and> ls_DryRun l = dry" for tr t dry
    using that by (auto simp: actions_execution claim_iff)
  have none: "\<exists>(clients :: Client list) m. map (\<lambda>cl. Sent (cl_conn cl) (Shutdown m)) clients = []" by simp
  show ?thesis
    using assms(1) em unfolding evaluateLocalShutdown_def locked startEmergency_def Let_def
    by (auto simp: ep v decide_def no_decision_def claim localShutdownTerminal_def none
        split: option.split)
qed

theorem emergency_powers_off_at_next_check_witness:
  "\<exists>(clients :: Client list) m. actions (evaluateLocalShutdown (\<lambda>_ _ _. None) 9 9
      (Some (example_reading\<lparr>ups_RuntimeMinutes := Some 10\<rparr>)) episode_server) = actions episode_server @
    map (\<lambda>cl. Sent (cl_conn cl) (Shutdown m)) clients @ [Ran [''shutdown''] TriggerEmergencyRuntime False]"
proof -
  let ?u = "Some (example_reading\<lparr>ups_RuntimeMinutes := Some 10\<rparr>)"
  have em: "effectiveEmergency ?u 9 episode_server = TriggerEmergencyRuntime"
    by (simp add: effectiveEmergency_def emergencyTrigger_def emergencyRuntimeReached_def example_reading_def
        example_config_def Let_def)
  have "localShutdownBelongsToEpisodeLocked episode_server = False"
    by (simp add: localShutdownBelongsToEpisodeLocked_def)
  from emergency_powers_off_at_next_check [OF _ episode_server_simps(1) _ _ this, of ?u 9 "\<lambda>_ _ _. None" 9]
  show ?thesis by (simp add: em example_config_def slice_def)
qed

section \<open>After the reboot\<close>

text \<open>
  C9. A master that powered itself off and was started again does nothing on its own before
  it has read the UPS: failed polls fire no policy, no node is sent anything by the retry
  loop, and the local shutdown check, however long the silence lasts, starts no command and
  sends nothing, as long as the restored local shutdown (if any) is not a manual one.
\<close>

theorem rebooted_master_waits_for_reading:
  assumes ep: "episode s = Some e" and off: "ep_MasterPoweredOff e" and unconfirmed: "upsConfirmed s = False"
    and auto_only: "\<And>l c. localShutdown s = Some l \<Longrightarrow> map_of (commands s) (ls_CommandID l) = Some c \<Longrightarrow> cm_Auto c"
  shows "actions (evaluateUPS t (Inl err) cid s) = actions s \<and>
    actions (retryEpisodeShutdown t s) = actions s \<and>
    actions (evaluateLocalShutdown runner at t None s) = actions s"
proof -
  have await: "awaitingReadingAfterPowerOffLocked s" using assms(1-3)
    by (simp add: awaitingReadingAfterPowerOffLocked_def)
  have "awaitingReadingAfterPowerOffLocked (recordUPSError err t s)" using assms(1-3)
    by (simp add: awaitingReadingAfterPowerOffLocked_def)
  then have "evaluateEpisodePolicies None t cid (recordUPSError err t s) = recordUPSError err t s"
    using ep by (auto simp: evaluateEpisodePolicies_def evaluateEpisodePoliciesLocked_def Let_def)
  then have "actions (evaluateUPS t (Inl err) cid s) = actions s"
    by (simp add: evaluateUPS_def actions_def)
  moreover have "retryEpisodeShutdown t s = s" using ep unconfirmed by (simp add: retryEpisodeShutdown_def)
  moreover have em: "effectiveEmergency None t s = []"
    using await by (auto simp: effectiveEmergency_def emergencyTrigger_def emergencyRuntimeReached_def Let_def
        split: option.split)
  have "fst (evaluateLocalShutdownLocked t None s) = s \<and> snd (evaluateLocalShutdownLocked t None s) = no_decision"
    using auto_only
    by (auto simp: evaluateLocalShutdownLocked_def em unconfirmed ep startEmergency_def advanceLocalShutdown_def Let_def
        split: option.splits)
  then have "actions (evaluateLocalShutdown runner at t None s) = actions s"
    by (cases "evaluateLocalShutdownLocked t None s") (simp add: evaluateLocalShutdown_def no_decision_def)
  ultimately show ?thesis by simp
qed

definition rebooted_server :: Server where
  "rebooted_server = example_server\<lparr>episode := Some (example_episode\<lparr>ep_MasterPoweredOff := True\<rparr>)\<rparr>"

theorem rebooted_master_waits_for_reading_witness:
  "actions (evaluateLocalShutdown (\<lambda>_ _ _. None) 9 9 None rebooted_server) = actions rebooted_server"
proof -
  have ep: "episode rebooted_server = Some (example_episode\<lparr>ep_MasterPoweredOff := True\<rparr>)"
    by (simp add: rebooted_server_def)
  show ?thesis
    using rebooted_master_waits_for_reading [OF ep]
    by (simp add: rebooted_server_def example_server_def)
qed

section \<open>A failed local shutdown outlives the outage\<close>

text \<open>
  A local shutdown whose command is being executed when line power returns is not
  cancelled, and if that command then fails it is started again 30 seconds later although
  the UPS reports line power and the episode is over.
\<close>

theorem failed_local_shutdown_rerun_on_line_power:
  assumes ls: "localShutdown s = Some l" "ls_Phase l = PhaseExecuting" "ls_CommandID l = []"
    and en: "lc_Enabled (mc_LocalShutdown (cfg s))" and "ep": "episode s = Some e" "ep_CommandID e = []"
    and cmds: "commands s = []" "activeCommand s = []"
    and line: "ups_OnBattery status = False" and at: "ls_LastAttemptAt l = Some t0"
    and late: "shutdownRetryInterval \<le> time_Sub t2 t0" and trig: "ls_Trigger l \<noteq> []"
    and s1: "s1 = evaluateUPS t1 (Inr status) cid s"
    and s2: "s2 = beginLocalShutdownFinish [] (Some err) s1"
    and s3: "s3 = evaluateLocalShutdown runner t2 t2 (latestSuccessfulUPSStatus s2) s2"
  shows "episode s2 = None \<and> actions s3 = actions s2 @
    [Ran (slice (lc_Command (mc_LocalShutdown (cfg s)))) (ls_Trigger l) (ls_DryRun l)]"
proof -
  let ?u = "recordUPSSuccess status t1 s"
  define v where "v = endEpisodeOnLinePower ?u"
  have v: "localShutdown v = Some l" "episode v = None" "cfg v = cfg s" "commands v = []" "activeCommand v = []"
    "upsStatus v = upsStatus ?u" "startedAt v = startedAt s"
    using ls "ep" cmds
    by (auto simp: v_def endEpisodeOnLinePower_def closeEpisode_def Let_def split: option.splits)
  have s1': "s1 = v\<lparr>upsConfirmed := True\<rparr>" using line by (simp add: s1 evaluateUPS_def Let_def v_def)
  define l2 where "l2 = l\<lparr>ls_Phase := PhaseFailed, ls_LastError := err\<rparr>"
  have s2': "s2 = saveState (s1\<lparr>localShutdown := Some l2, episode := None\<rparr>)"
    using ls v by (simp add: s2 s1' beginLocalShutdownFinish_def l2_def)
  have f: "upsStatus s2 = upsStatus ?u" "cfg s2 = cfg s" "startedAt s2 = startedAt s" "upsConfirmed s2 = True"
    "localShutdown s2 = Some l2" "episode s2 = None" "commands s2 = []"
    by (simp_all add: s2' s1' v)
  define x where "x = latestSuccessfulUPSStatus s2"
  obtain view where view: "upsStatus ?u = Some view"
    by (simp add: recordUPSSuccess_def warnMissingUPSVarsLocked_def Let_def)
  have cur: "currentUPSStatus s2 = Some view" "currentUPSStatus ?u = Some view"
    unfolding currentUPSStatus_def f(1) view by simp_all
  have "latestSuccessfulUPSStatus s2 = latestSuccessfulUPSStatus ?u"
    unfolding latestSuccessfulUPSStatus_def cur ..
  then have "x = latestSuccessfulUPSStatus ?u" by (simp add: x_def)
  moreover have "startedAt ?u = startedAt s"
    by (simp add: recordUPSSuccess_def warnMissingUPSVarsLocked_def Let_def)
  then have "upsSilentFor t2 s2 = upsSilentFor t2 ?u"
    unfolding upsSilentFor_def cur f(3) by (simp only:)
  ultimately have silent: "x = Some (status\<lparr>ups_LowBattery := UsesNUT (cfg s) \<and> ups_LowBattery status\<rparr>)"
    "upsSilentFor t2 s2 = None" by (simp_all only: latest_after_success silent_after_success)
  then have "effectiveEmergency x t2 s2 = []"
    using line
    by (simp add: effectiveEmergency_def emergencyTrigger_def emergencyRuntimeReached_def silent Let_def)
  then have "evaluateLocalShutdownLocked t2 x s2 = (s2, decide [] (ls_Trigger l))"
    using at late ls(3)
    by (simp add: evaluateLocalShutdownLocked_def Let_def f advanceLocalShutdown_def l2_def)
  then have "actions s3 = actions (beginLocalShutdownExecution runner [] (ls_Trigger l) t2 s2)"
    using en trig by (simp add: s3 evaluateLocalShutdown_def f decide_def no_decision_def flip: x_def)
  then show ?thesis
    using ls(3) by (simp add: actions_execution claim_iff f l2_def localShutdownTerminal_def)
qed

text \<open>The example master: power returns while its shutdown command runs, which then fails.\<close>

definition executing_server :: Server where
  "executing_server = episode_server\<lparr>localShutdown := Some (emergency_state\<lparr>ls_Phase := PhaseExecuting,
     ls_LastAttemptAt := Some 9\<rparr>)\<rparr>"

theorem failed_local_shutdown_rerun_on_line_power_witness:
  "\<exists>s2. s2 = beginLocalShutdownFinish [] (Some ''exit status 1'')
      (evaluateUPS 10 (Inr (example_reading\<lparr>ups_OnBattery := False\<rparr>)) ''c1'' executing_server) \<and>
    actions (evaluateLocalShutdown (\<lambda>_ _ _. None) minute minute (latestSuccessfulUPSStatus s2) s2) =
      actions s2 @ [Ran [''shutdown''] TriggerLowBattery False]"
proof -
  define l where "l = emergency_state\<lparr>ls_Phase := PhaseExecuting, ls_LastAttemptAt := Some 9\<rparr>"
  have x: "localShutdown executing_server = Some l" "lc_Enabled (mc_LocalShutdown (cfg executing_server))"
    "episode executing_server = Some example_episode" "commands executing_server = []"
    "activeCommand executing_server = []"
    by (simp_all add: executing_server_def example_config_def l_def)
  have l: "ls_Phase l = PhaseExecuting" "ls_CommandID l = []" "ls_LastAttemptAt l = Some 9" "ls_Trigger l \<noteq> []"
    by (simp_all add: l_def emergency_state_def)
  have late: "shutdownRetryInterval \<le> time_Sub minute 9"
    by (simp add: shutdownRetryInterval_def duration_units time_Sub_def minDuration_def maxDuration_def)
  have other: "ep_CommandID example_episode = []" "ups_OnBattery (example_reading\<lparr>ups_OnBattery := False\<rparr>) = False"
    by (simp_all add: example_episode_def)
  have "ls_Trigger l = TriggerLowBattery" "ls_DryRun l = False"
    "slice (lc_Command (mc_LocalShutdown (cfg executing_server))) = [''shutdown'']"
    by (simp_all add: l_def emergency_state_def executing_server_def example_config_def slice_def)
  note out = failed_local_shutdown_rerun_on_line_power [OF x(1) l(1,2) x(2,3) other(1) x(4,5) other(2) l(3) late l(4)
      refl refl refl, THEN conjunct2, unfolded this]
  show ?thesis by (rule exI, rule conjI, rule refl, rule out)
qed

end
