(* ===== verification/Slave.thy ===== *)
theory Slave
  imports Protocol Store Config
begin

text \<open>
  \<open>internal/slave\<close>: the client that registers a node with the master and runs its shutdown
  command. The operations are in the order of \<open>client.go\<close>, \<open>state.go\<close> and \<open>shutdown.go\<close>; the
  handler of one message is also given as a sequence of the accesses to the shared state
  between which the goroutine of a running shutdown command can run.
\<close>

section \<open>State\<close>

text \<open>
  The state file. An empty map is omitted by \<open>omitempty\<close> and read back as nil, which leaves
  the client's empty map in place, so nil and empty are one value here.
\<close>

record slave_persistedState =
  sp_IssuedToken :: string
  sp_Commands :: "(string, ShutdownAckMessage) gomap"

text \<open>
  What the client does to its environment: a message handed to a session (with the outcome of
  the write), a replaced state file, a goroutine started for a shutdown command, and the
  system command itself (with the id of the shutdown command it is run for and its error).
\<close>

datatype slave_effect =
    Sends nat message bool
  | Stores slave_persistedState
  | Spawns ShutdownMessage
  | Executes string "string list" "string option"

text \<open>
  The fields of \<open>Client\<close>; a session is named by a number. \<open>sl_writeOK n\<close> tells whether writing
  snapshot \<open>n\<close> succeeds and \<open>sl_sendOK n\<close> whether a send does that has \<open>n\<close> effects before it;
  \<open>sl_effects\<close> is the trace. Encoding the state cannot fail: its only fallible values are
  times, which come from the clock or from a decoded file.
\<close>

record slave_Client =
  sl_cfg :: SlaveConfig
  sl_hostname :: string
  sl_shutdownReady :: "bool option"
  sl_commandStates :: "(string, ShutdownAckMessage) gomap"
  sl_issuedToken :: string
  sl_executions :: "(string, nat) gomap"
  sl_store :: "slave_persistedState store"
  sl_writeOK :: "nat \<Rightarrow> bool"
  sl_sendOK :: "nat \<Rightarrow> bool"
  sl_effects :: "slave_effect list"

definition slave_emit :: "slave_effect list \<Rightarrow> slave_Client \<Rightarrow> slave_Client" where
  "slave_emit es c = c\<lparr>sl_effects := sl_effects c @ es\<rparr>"

section \<open>The state file\<close>

definition slave_persisted_of :: "slave_Client \<Rightarrow> slave_persistedState" where
  "slave_persisted_of c = \<lparr>sp_IssuedToken = sl_issuedToken c, sp_Commands = sl_commandStates c\<rparr>"

definition slave_snapshotStateLocked ::
  "slave_Client \<Rightarrow> slave_Client \<times> (nat \<times> slave_persistedState) option" where
  "slave_snapshotStateLocked c =
    (if sc_StateFile (sl_cfg c) = [] then (c, None)
     else let c' = c\<lparr>sl_store := store_next (sl_store c)\<rparr>
          in (c', Some (persistSeq (sl_store c'), slave_persisted_of c)))"

text \<open>The result tells whether an error is returned.\<close>

definition slave_persistState ::
  "(nat \<times> slave_persistedState) option \<Rightarrow> slave_Client \<Rightarrow> bool \<times> slave_Client" where
  "slave_persistState snapshot c =
    (case snapshot of
       None \<Rightarrow> (False, c)
     | Some (seq, content) \<Rightarrow>
        if seq \<le> persistedSeq (sl_store c) then (False, c)
        else if \<not> sl_writeOK c seq then (True, c)
        else (False, slave_emit [Stores content]
               (c\<lparr>sl_store := store_write True seq content (sl_store c)\<rparr>)))"

definition setIssuedToken :: "string \<Rightarrow> slave_Client \<Rightarrow> bool \<times> slave_Client" where
  "setIssuedToken token c =
    (let previous = sl_issuedToken c
     in case slave_snapshotStateLocked (c\<lparr>sl_issuedToken := token\<rparr>) of
          (c1, None) \<Rightarrow> (True, c1\<lparr>sl_issuedToken := previous\<rparr>)
        | (c1, Some snapshot) \<Rightarrow>
            (case slave_persistState (Some snapshot) c1 of
               (True, c2) \<Rightarrow>
                 (True, if sl_issuedToken c2 = token then c2\<lparr>sl_issuedToken := previous\<rparr> else c2)
             | (False, c2) \<Rightarrow> (False, c2)))"

definition registerToken :: "slave_Client \<Rightarrow> string \<times> bool" where
  "registerToken c =
    (if sl_issuedToken c \<noteq> [] then (sl_issuedToken c, True) else (sc_Token (sl_cfg c), False))"

text \<open>
  What \<open>loadState\<close> finds: no file, a file that cannot be read, one that does not decode (with
  whether it could be moved aside), or a decoded state.
\<close>

datatype slave_file = Missing | Unreadable | CorruptFile bool | Loaded slave_persistedState

definition slave_loadState :: "slave_file \<Rightarrow> slave_Client \<Rightarrow> slave_Client" where
  "slave_loadState content c =
    (if sc_StateFile (sl_cfg c) = [] then c
     else case content of
       Loaded state \<Rightarrow> c\<lparr>sl_commandStates := sp_Commands state, sl_issuedToken := sp_IssuedToken state\<rparr>
     | _ \<Rightarrow> c)"

definition slave_file_of_disk :: "slave_persistedState option \<Rightarrow> slave_file" where
  "slave_file_of_disk d = (case d of None \<Rightarrow> Missing | Some p \<Rightarrow> Loaded p)"

definition slave_disk_of_file :: "slave_file \<Rightarrow> slave_persistedState option" where
  "slave_disk_of_file content = (case content of Loaded p \<Rightarrow> Some p | _ \<Rightarrow> None)"

definition NewClient ::
  "SlaveConfig \<Rightarrow> string \<Rightarrow> (nat \<Rightarrow> bool) \<Rightarrow> (nat \<Rightarrow> bool) \<Rightarrow> slave_file \<Rightarrow> slave_Client" where
  "NewClient cfg hostname wok sok content =
    slave_loadState content
      \<lparr>sl_cfg = cfg, sl_hostname = hostname, sl_shutdownReady = None, sl_commandStates = [],
       sl_issuedToken = [], sl_executions = [],
       sl_store = \<lparr>persistSeq = 0, persistedSeq = 0, disk = slave_disk_of_file content\<rparr>,
       sl_writeOK = wok, sl_sendOK = sok, sl_effects = []\<rparr>"

text \<open>\<open>check\<close> is the outcome of \<open>shutdowncheck.Check\<close>: whether the command could run.\<close>

definition runShutdownSelfCheck :: "(string list \<Rightarrow> bool) \<Rightarrow> slave_Client \<Rightarrow> slave_Client" where
  "runShutdownSelfCheck check c =
    (if sc_DryRun (sl_cfg c) then c
     else c\<lparr>sl_shutdownReady := Some (check (sc_ShutdownCommand (sl_cfg c)))\<rparr>)"

section \<open>Command states\<close>

definition maxRetainedCommandStates :: nat where "maxRetainedCommandStates = 200"

definition ackMessage :: "string \<Rightarrow> string \<Rightarrow> string \<Rightarrow> time \<Rightarrow> slave_Client \<Rightarrow> ShutdownAckMessage" where
  "ackMessage commandID status msg now c = \<lparr>ack_CommandID = commandID, ack_NodeID = sc_NodeID (sl_cfg c),
     ack_Status = status, ack_Message = msg, ack_AckedAt = now\<rparr>"

definition getCommandState :: "string \<Rightarrow> slave_Client \<Rightarrow> ShutdownAckMessage option" where
  "getCommandState commandID c = map_of (sl_commandStates c) commandID"

text \<open>
  \<open>sort.Slice\<close> leaves the order of equal keys open; since the order of the map is arbitrary, so
  is theirs here.
\<close>

definition prunable :: "slave_Client \<Rightarrow> string list" where
  "prunable c = sort_key (\<lambda>cid. case map_of (sl_commandStates c) cid of None \<Rightarrow> 0 | Some a \<Rightarrow> ack_AckedAt a)
     (filter (\<lambda>cid. map_of (sl_executions c) cid = None) (mkeys (sl_commandStates c)))"

definition pruneCommandStatesLocked :: "slave_Client \<Rightarrow> slave_Client" where
  "pruneCommandStatesLocked c =
    (let excess = length (sl_commandStates c) - maxRetainedCommandStates
     in if excess = 0 then c
        else let victims = take excess (prunable c)
             in c\<lparr>sl_commandStates := filter (\<lambda>(cid, _). cid \<notin> set victims) (sl_commandStates c)\<rparr>)"

definition setCommandState :: "ShutdownAckMessage \<Rightarrow> slave_Client \<Rightarrow> slave_Client" where
  "setCommandState update c =
    (case slave_snapshotStateLocked (pruneCommandStatesLocked
        (c\<lparr>sl_commandStates := mput (ack_CommandID update) update (sl_commandStates c)\<rparr>)) of
       (c1, snapshot) \<Rightarrow> snd (slave_persistState snapshot c1))"

definition beginOrRebindShutdownExecution :: "string \<Rightarrow> nat \<Rightarrow> slave_Client \<Rightarrow> bool \<times> slave_Client" where
  "beginOrRebindShutdownExecution commandID session c =
    (map_of (sl_executions c) commandID = None,
     c\<lparr>sl_executions := mput commandID session (sl_executions c)\<rparr>)"

definition finishShutdownExecution :: "string \<Rightarrow> slave_Client \<Rightarrow> slave_Client" where
  "finishShutdownExecution commandID c = c\<lparr>sl_executions := mdel commandID (sl_executions c)\<rparr>"

definition shutdownExecutionSession :: "string \<Rightarrow> slave_Client \<Rightarrow> nat option" where
  "shutdownExecutionSession commandID c = map_of (sl_executions c) commandID"

text \<open>\<open>session.Send\<close>: the result tells whether it failed.\<close>

definition session_Send :: "nat \<Rightarrow> message \<Rightarrow> slave_Client \<Rightarrow> bool \<times> slave_Client" where
  "session_Send session m c =
    (let ok = sl_sendOK c (length (sl_effects c)) in (\<not> ok, slave_emit [Sends session m ok] c))"

section \<open>Messages from the master\<close>

datatype slave_error =
    DialFailed
  | SendError
  | ReadError string
  | WrongType string
  | PayloadError string
  | RegisterRejected string
  | MasterError string

text \<open>\<open>go c.executeShutdown(...)\<close>\<close>

definition spawn :: "ShutdownMessage \<Rightarrow> slave_Client \<Rightarrow> slave_Client" where
  "spawn sd c = slave_emit [Spawns sd] c"

definition beginExecution :: "nat \<Rightarrow> ShutdownMessage \<Rightarrow> slave_Client \<Rightarrow> slave_Client" where
  "beginExecution session sd c =
    (case beginOrRebindShutdownExecution (sm_CommandID sd) session c of
       (False, c1) \<Rightarrow> c1
     | (True, c1) \<Rightarrow> spawn sd c1)"

definition resumeShutdown ::
  "time \<Rightarrow> ShutdownMessage \<Rightarrow> nat \<Rightarrow> slave_Client \<Rightarrow> slave_error option \<times> slave_Client" where
  "resumeShutdown now sd session c =
    (if sm_DryRun sd \<or> sc_DryRun (sl_cfg c) then
       (let simulated = ackMessage (sm_CommandID sd) StatusSimulated ''dry-run shutdown simulated'' now c
        in case session_Send session (ShutdownAck simulated) (setCommandState simulated c) of
             (err, c1) \<Rightarrow> (if err then Some SendError else None, c1))
     else
       (let executing = ackMessage (sm_CommandID sd) StatusExecuting ''executing shutdown command'' now c
        in case session_Send session (ShutdownAck executing) (setCommandState executing c) of
             (True, c1) \<Rightarrow> (Some SendError, c1)
           | (False, c1) \<Rightarrow> (None, beginExecution session sd c1)))"

text \<open>The branch of a command that has a state already.\<close>

definition replayedShutdown ::
  "time \<Rightarrow> ShutdownMessage \<Rightarrow> ShutdownAckMessage \<Rightarrow> nat \<Rightarrow> slave_Client \<Rightarrow> slave_error option \<times> slave_Client" where
  "replayedShutdown now sd existing session c =
    (case (if ack_Status existing = StatusExecuting
           then beginOrRebindShutdownExecution (sm_CommandID sd) session c else (False, c)) of
       (start, c1) \<Rightarrow>
         (case session_Send session (ShutdownAck existing) c1 of
            (True, c2) \<Rightarrow> (Some SendError, c2)
          | (False, c2) \<Rightarrow>
              if ack_Status existing = StatusAccepted \<or> ack_Status existing = StatusFailed
              then resumeShutdown now sd session c2
              else if ack_Status existing = StatusExecuting
              then (None, if \<not> start then c2 else spawn sd c2)
              else (None, c2)))"

definition newShutdown ::
  "time \<Rightarrow> time \<Rightarrow> ShutdownMessage \<Rightarrow> nat \<Rightarrow> slave_Client \<Rightarrow> slave_error option \<times> slave_Client" where
  "newShutdown now now2 sd session c =
    (let accepted = ackMessage (sm_CommandID sd) StatusAccepted ''shutdown command accepted'' now c
     in case session_Send session (ShutdownAck accepted) (setCommandState accepted c) of
          (True, c1) \<Rightarrow> (Some SendError, c1)
        | (False, c1) \<Rightarrow> resumeShutdown now2 sd session c1)"

text \<open>\<open>now\<close> and \<open>now2\<close> are the two readings of the clock a handler may make.\<close>

definition slave_handleEnvelope ::
  "time \<Rightarrow> time \<Rightarrow> Envelope \<Rightarrow> nat \<Rightarrow> slave_Client \<Rightarrow> slave_error option \<times> slave_Client" where
  "slave_handleEnvelope now now2 env session c =
    (if env_Type env = TypeShutdown then
       (case as_shutdown env of
          Inl err \<Rightarrow> (Some (PayloadError err), c)
        | Inr sd \<Rightarrow>
           (case getCommandState (sm_CommandID sd) c of
              Some existing \<Rightarrow> replayedShutdown now2 sd existing session c
            | None \<Rightarrow> newShutdown now now2 sd session c))
     else if env_Type env = TypePong then (None, c)
     else if env_Type env = TypeError then
       (case as_error env of
          Inl err \<Rightarrow> (Some (PayloadError err), c)
        | Inr msg \<Rightarrow> (Some (MasterError msg), c))
     else (None, c))"

section \<open>Running the shutdown command\<close>

text \<open>
  \<open>CommandShutdownExecutor.Execute\<close>; \<open>run\<close> is the operating system's answer to the command,
  \<open>None\<close> for success, a command killed at its timeout included among the failures. The id of
  the shutdown command only labels the entry of the trace.
\<close>

definition Execute :: "string \<Rightarrow> (string list \<Rightarrow> string option) \<Rightarrow> slave_Client \<Rightarrow> string option \<times> slave_Client" where
  "Execute cid run c =
    (let command = sc_ShutdownCommand (sl_cfg c)
     in if command = [] then (Some ''shutdown command is empty'', c)
        else if sc_DryRun (sl_cfg c) then (None, c)
        else (run command, slave_emit [Executes cid command (run command)] c))"

text \<open>\<open>t0\<close> is the clock when the goroutine starts and \<open>t1\<close> when the command has failed.\<close>

definition execution_update ::
  "time \<Rightarrow> time \<Rightarrow> ShutdownMessage \<Rightarrow> string option \<Rightarrow> slave_Client \<Rightarrow> ShutdownAckMessage" where
  "execution_update t0 t1 sd err c =
    (case err of
       None \<Rightarrow> ackMessage (sm_CommandID sd) StatusExecuted ''shutdown command completed'' t0 c
     | Some e \<Rightarrow> ackMessage (sm_CommandID sd) StatusFailed e t1 c)"

definition reportExecution :: "ShutdownAckMessage \<Rightarrow> slave_Client \<Rightarrow> slave_Client" where
  "reportExecution update c =
    (case shutdownExecutionSession (ack_CommandID update) c of
       None \<Rightarrow> c
     | Some session \<Rightarrow> snd (session_Send session (ShutdownAck update) c))"

definition executeShutdown ::
  "(string list \<Rightarrow> string option) \<Rightarrow> time \<Rightarrow> time \<Rightarrow> ShutdownMessage \<Rightarrow> slave_Client \<Rightarrow> slave_Client" where
  "executeShutdown run t0 t1 sd c =
    (case Execute (sm_CommandID sd) run c of
       (err, c1) \<Rightarrow>
         let update = execution_update t0 t1 sd err c1
         in finishShutdownExecution (sm_CommandID sd) (reportExecution update (setCommandState update c1)))"

section \<open>Registration\<close>

definition registerRejectInvalidToken :: string where
  [consts_simps]: "registerRejectInvalidToken = ''invalid token''"

definition expectRegisterAck :: "string + Envelope \<Rightarrow> slave_error + RegisterAckMessage" where
  "expectRegisterAck r =
    (case r of
       Inl err \<Rightarrow> Inl (ReadError err)
     | Inr env \<Rightarrow>
        if env_Type env \<noteq> TypeRegisterAck then Inl (WrongType (env_Type env))
        else (case as_register_ack env of
            Inl err \<Rightarrow> Inl (PayloadError err)
          | Inr ack \<Rightarrow> Inr ack))"

definition registerMessage :: "slave_Client \<Rightarrow> RegisterMessage" where
  "registerMessage c = \<lparr>rg_NodeID = sc_NodeID (sl_cfg c), rg_Hostname = sl_hostname c,
     rg_Token = fst (registerToken c), rg_Tags = sc_Tags (sl_cfg c), rg_DryRun = sc_DryRun (sl_cfg c),
     rg_ShutdownReady = sl_shutdownReady c\<rparr>"

text \<open>\<open>runOnce\<close> after the acknowledgement was read: \<open>None\<close> when the read loop starts.\<close>

definition handleRegisterAck ::
  "RegisterAckMessage \<Rightarrow> bool \<Rightarrow> nat \<Rightarrow> slave_Client \<Rightarrow> slave_error option \<times> slave_Client" where
  "handleRegisterAck ack usedIssuedToken session c =
    (if \<not> ra_Accepted ack then
       (Some (RegisterRejected (ra_Message ack)),
        if usedIssuedToken \<and> ra_Message ack = registerRejectInvalidToken
        then snd (setIssuedToken [] c) else c)
     else if ra_IssuedToken ack \<noteq> [] then
       (case setIssuedToken (ra_IssuedToken ack) c of
          (True, c1) \<Rightarrow> (None, c1)
        | (False, c1) \<Rightarrow>
            (case session_Send session TokenStored c1 of
               (True, c2) \<Rightarrow> (Some SendError, c2)
             | (False, c2) \<Rightarrow> (None, c2)))
     else (None, c))"

text \<open>The read loop: each read is an error or an envelope with the clocks of its handler.\<close>

fun serve :: "(time \<times> time \<times> (string + Envelope)) list \<Rightarrow> nat \<Rightarrow> slave_Client \<Rightarrow> slave_error option \<times> slave_Client" where
  "serve [] session c = (None, c)"
| "serve ((now, now2, Inl err) # reads) session c = (Some (ReadError err), c)"
| "serve ((now, now2, Inr env) # reads) session c =
    (case slave_handleEnvelope now now2 env session c of
       (Some e, c1) \<Rightarrow> (Some e, c1)
     | (None, c1) \<Rightarrow> serve reads session c1)"

text \<open>
  \<open>runOnce\<close>, without the goroutine of a spawned execution. The result is the error and
  whether the backoff was reset; no error means that the read loop still waits.
\<close>

definition runOnce ::
  "bool \<Rightarrow> nat \<Rightarrow> string + Envelope \<Rightarrow> (time \<times> time \<times> (string + Envelope)) list \<Rightarrow> slave_Client \<Rightarrow>
    slave_error option \<times> bool \<times> slave_Client" where
  "runOnce dialOK session first reads c =
    (if \<not> dialOK then (Some DialFailed, False, c)
     else case session_Send session (Register (registerMessage c)) c of
       (True, c1) \<Rightarrow> (Some SendError, False, c1)
     | (False, c1) \<Rightarrow>
         (case expectRegisterAck first of
            Inl e \<Rightarrow> (Some e, False, c1)
          | Inr ack \<Rightarrow>
             (case handleRegisterAck ack (snd (registerToken c)) session c1 of
                (Some e, c2) \<Rightarrow> (Some e, False, c2)
              | (None, c2) \<Rightarrow>
                  (case serve reads session c2 of (err, c3) \<Rightarrow> (err, True, c3)))))"

section \<open>Reconnecting\<close>

definition maxReconnectInterval :: duration where "maxReconnectInterval = 60 * second"

definition nextBackoff :: "duration \<Rightarrow> duration" where
  "nextBackoff current =
    (let next = wrap64 (current * 2)
     in if next \<le> 0 \<or> next > maxReconnectInterval then maxReconnectInterval else next)"

text \<open>
  \<open>Run\<close>: the attempts in order, each with the outcome of its dial, its session and its reads;
  the result lists the delays (before jitter) slept after each.
\<close>

fun slave_Run ::
  "(bool \<times> nat \<times> (string + Envelope) \<times> (time \<times> time \<times> (string + Envelope)) list) list \<Rightarrow> duration \<Rightarrow> slave_Client \<Rightarrow>
    duration list \<times> slave_Client" where
  "slave_Run [] delay c = ([], c)"
| "slave_Run ((dialOK, session, first, reads) # attempts) delay c =
    (case runOnce dialOK session first reads c of
       (err, registered, c1) \<Rightarrow>
         let d = (if registered then sc_ReconnectInterval (sl_cfg c) else delay)
         in case slave_Run attempts (nextBackoff d) c1 of (ds, c2) \<Rightarrow> (d # ds, c2))"

end
