(* ===== verification/SlaveLemmas.thy ===== *)
theory SlaveLemmas
  imports Slave
begin

text \<open>
  Facts about the slave's operations: what each leaves unchanged, what pruning keeps, and
  what the store holds.
\<close>

section \<open>Frames\<close>

lemma slave_emit_frame [simp]:
  "sl_cfg (slave_emit es c) = sl_cfg c" "sl_hostname (slave_emit es c) = sl_hostname c"
  "sl_shutdownReady (slave_emit es c) = sl_shutdownReady c"
  "sl_commandStates (slave_emit es c) = sl_commandStates c" "sl_issuedToken (slave_emit es c) = sl_issuedToken c"
  "sl_executions (slave_emit es c) = sl_executions c" "sl_store (slave_emit es c) = sl_store c"
  "sl_writeOK (slave_emit es c) = sl_writeOK c" "sl_sendOK (slave_emit es c) = sl_sendOK c"
  "sl_effects (slave_emit es c) = sl_effects c @ es"
  by (simp_all add: slave_emit_def)

definition slave_save :: "slave_Client \<Rightarrow> slave_Client" where
  "slave_save c = (case slave_snapshotStateLocked c of (c1, snapshot) \<Rightarrow> snd (slave_persistState snapshot c1))"

lemma slave_save_frame [simp]:
  "sl_cfg (slave_save c) = sl_cfg c" "sl_hostname (slave_save c) = sl_hostname c"
  "sl_shutdownReady (slave_save c) = sl_shutdownReady c"
  "sl_commandStates (slave_save c) = sl_commandStates c" "sl_issuedToken (slave_save c) = sl_issuedToken c"
  "sl_executions (slave_save c) = sl_executions c"
  "sl_writeOK (slave_save c) = sl_writeOK c" "sl_sendOK (slave_save c) = sl_sendOK c"
  by (simp_all add: slave_save_def slave_snapshotStateLocked_def slave_persistState_def Let_def)

definition slave_saves :: "slave_Client \<Rightarrow> bool" where
  "slave_saves c \<longleftrightarrow> sc_StateFile (sl_cfg c) \<noteq> [] \<and>
    persistedSeq (sl_store c) \<le> persistSeq (sl_store c) \<and> sl_writeOK c (Suc (persistSeq (sl_store c)))"

lemma slave_save_store:
  "slave_saves c \<Longrightarrow> sl_store (slave_save c) = \<lparr>persistSeq = Suc (persistSeq (sl_store c)),
    persistedSeq = Suc (persistSeq (sl_store c)), disk = Some (slave_persisted_of c)\<rparr>"
  by (auto simp: slave_saves_def slave_save_def slave_snapshotStateLocked_def slave_persistState_def Let_def
      store_next_def store_write_def)

lemma slave_save_effects:
  "sl_effects (slave_save c) = sl_effects c @ (if slave_saves c then [Stores (slave_persisted_of c)] else [])"
  by (auto simp: slave_saves_def slave_save_def slave_snapshotStateLocked_def slave_persistState_def Let_def)

lemma disk_slave_save:
  "disk (sl_store (slave_save c)) = disk (sl_store c) \<or>
   disk (sl_store (slave_save c)) = Some (slave_persisted_of c)"
  by (auto simp: slave_save_def slave_snapshotStateLocked_def slave_persistState_def Let_def store_write_def)

lemma session_Send_frame [simp]:
  "sl_cfg (snd (session_Send n m c)) = sl_cfg c" "sl_hostname (snd (session_Send n m c)) = sl_hostname c"
  "sl_shutdownReady (snd (session_Send n m c)) = sl_shutdownReady c"
  "sl_commandStates (snd (session_Send n m c)) = sl_commandStates c"
  "sl_issuedToken (snd (session_Send n m c)) = sl_issuedToken c"
  "sl_executions (snd (session_Send n m c)) = sl_executions c" "sl_store (snd (session_Send n m c)) = sl_store c"
  "sl_writeOK (snd (session_Send n m c)) = sl_writeOK c" "sl_sendOK (snd (session_Send n m c)) = sl_sendOK c"
  by (simp_all add: session_Send_def Let_def)

lemma spawn_frame [simp]:
  "sl_cfg (spawn sd c) = sl_cfg c" "sl_commandStates (spawn sd c) = sl_commandStates c"
  "sl_issuedToken (spawn sd c) = sl_issuedToken c" "sl_executions (spawn sd c) = sl_executions c"
  "sl_store (spawn sd c) = sl_store c" "sl_effects (spawn sd c) = sl_effects c @ [Spawns sd]"
  by (simp_all add: spawn_def)

lemma NewClient_simps [simp]:
  "sl_cfg (NewClient cfg hostname wok sok content) = cfg" "sl_effects (NewClient cfg hostname wok sok content) = []"
  "sl_executions (NewClient cfg hostname wok sok content) = []"
  "sl_writeOK (NewClient cfg hostname wok sok content) = wok"
  "sl_sendOK (NewClient cfg hostname wok sok content) = sok"
  "sl_store (NewClient cfg hostname wok sok content) =
    \<lparr>persistSeq = 0, persistedSeq = 0, disk = slave_disk_of_file content\<rparr>"
  by (simp_all add: NewClient_def slave_loadState_def split: slave_file.split)

section \<open>Pruning\<close>

text \<open>The states pruning removes.\<close>

definition pruned_states :: "slave_Client \<Rightarrow> string list" where
  "pruned_states c = take (length (sl_commandStates c) - maxRetainedCommandStates) (prunable c)"

lemma prune_states:
  "pruneCommandStatesLocked c =
    c\<lparr>sl_commandStates := filter (\<lambda>(cid, a). cid \<notin> set (pruned_states c)) (sl_commandStates c)\<rparr>"
  by (auto simp: pruneCommandStatesLocked_def pruned_states_def Let_def)

lemma set_prunable:
  "cid \<in> set (prunable c) \<longleftrightarrow> cid \<in> set (mkeys (sl_commandStates c)) \<and> map_of (sl_executions c) cid = None"
  by (auto simp: prunable_def)

lemma pruned_not_running: "cid \<in> set (pruned_states c) \<Longrightarrow> map_of (sl_executions c) cid = None"
  by (auto simp: pruned_states_def set_prunable dest!: in_set_takeD)

lemma prune_frame_slave [simp]:
  "sl_cfg (pruneCommandStatesLocked c) = sl_cfg c" "sl_hostname (pruneCommandStatesLocked c) = sl_hostname c"
  "sl_shutdownReady (pruneCommandStatesLocked c) = sl_shutdownReady c"
  "sl_issuedToken (pruneCommandStatesLocked c) = sl_issuedToken c"
  "sl_executions (pruneCommandStatesLocked c) = sl_executions c" "sl_store (pruneCommandStatesLocked c) = sl_store c"
  "sl_writeOK (pruneCommandStatesLocked c) = sl_writeOK c" "sl_sendOK (pruneCommandStatesLocked c) = sl_sendOK c"
  "sl_effects (pruneCommandStatesLocked c) = sl_effects c"
  by (simp_all add: prune_states)

definition slave_put :: "ShutdownAckMessage \<Rightarrow> slave_Client \<Rightarrow> slave_Client" where
  "slave_put update c = pruneCommandStatesLocked
    (c\<lparr>sl_commandStates := mput (ack_CommandID update) update (sl_commandStates c)\<rparr>)"

lemma setCommandState_save: "setCommandState update c = slave_save (slave_put update c)"
  by (simp add: setCommandState_def slave_save_def slave_put_def)

lemma slave_put_frame [simp]:
  "sl_cfg (slave_put u c) = sl_cfg c" "sl_hostname (slave_put u c) = sl_hostname c"
  "sl_shutdownReady (slave_put u c) = sl_shutdownReady c"
  "sl_issuedToken (slave_put u c) = sl_issuedToken c"
  "sl_executions (slave_put u c) = sl_executions c" "sl_store (slave_put u c) = sl_store c"
  "sl_writeOK (slave_put u c) = sl_writeOK c" "sl_sendOK (slave_put u c) = sl_sendOK c"
  "sl_effects (slave_put u c) = sl_effects c"
  by (simp_all add: slave_put_def)

lemma setCommandState_frame [simp]:
  "sl_cfg (setCommandState u c) = sl_cfg c" "sl_hostname (setCommandState u c) = sl_hostname c"
  "sl_shutdownReady (setCommandState u c) = sl_shutdownReady c"
  "sl_issuedToken (setCommandState u c) = sl_issuedToken c"
  "sl_executions (setCommandState u c) = sl_executions c"
  "sl_writeOK (setCommandState u c) = sl_writeOK c" "sl_sendOK (setCommandState u c) = sl_sendOK c"
  "sl_commandStates (setCommandState u c) = sl_commandStates (slave_put u c)"
  by (simp_all add: setCommandState_save)

end
