(* ===== verification/SlaveRuns.thy ===== *)
theory SlaveRuns
  imports SlaveLemmas
begin

text \<open>
  The slave as a transition system: the goroutine that reads from the master and the
  goroutines that run shutdown commands, interleaved at every access to the shared state, and
  restarts of the process.
\<close>

section \<open>The handler in steps\<close>

text \<open>What a handler does once a message is sent.\<close>

datatype handler_next = ToResume | ToBegin | ToSpawn | ToEnd

text \<open>
  Where \<open>handleEnvelope\<close> is with a shutdown message: before the lookup of its state, before
  \<open>beginOrRebindShutdownExecution\<close> on the stored state, before a send, before storing the
  accepted state, at the start of \<open>resumeShutdown\<close>, before its
  \<open>beginOrRebindShutdownExecution\<close>, before the \<open>go\<close> statement.
\<close>

datatype handler_pc =
    Idle
  | Lookup nat ShutdownMessage
  | Rebind nat ShutdownMessage ShutdownAckMessage
  | Sending nat ShutdownMessage ShutdownAckMessage handler_next
  | Accepting nat ShutdownMessage
  | Resuming nat ShutdownMessage
  | Beginning nat ShutdownMessage
  | Spawning ShutdownMessage

fun handler_step :: "time \<Rightarrow> handler_pc \<Rightarrow> slave_Client \<Rightarrow> handler_pc \<times> slave_Client" where
  "handler_step now Idle c = (Idle, c)"
| "handler_step now (Lookup n sd) c =
    (case getCommandState (sm_CommandID sd) c of
       None \<Rightarrow> (Accepting n sd, c)
     | Some existing \<Rightarrow>
        if ack_Status existing = StatusExecuting then (Rebind n sd existing, c)
        else (Sending n sd existing
          (if ack_Status existing = StatusAccepted \<or> ack_Status existing = StatusFailed then ToResume else ToEnd), c))"
| "handler_step now (Rebind n sd existing) c =
    (case beginOrRebindShutdownExecution (sm_CommandID sd) n c of
       (start, c1) \<Rightarrow> (Sending n sd existing (if start then ToSpawn else ToEnd), c1))"
| "handler_step now (Sending n sd ack k) c =
    (case session_Send n (ShutdownAck ack) c of
       (True, c1) \<Rightarrow> (Idle, c1)
     | (False, c1) \<Rightarrow> ((case k of ToResume \<Rightarrow> Resuming n sd | ToBegin \<Rightarrow> Beginning n sd
          | ToSpawn \<Rightarrow> Spawning sd | ToEnd \<Rightarrow> Idle), c1))"
| "handler_step now (Accepting n sd) c =
    (let accepted = ackMessage (sm_CommandID sd) StatusAccepted ''shutdown command accepted'' now c
     in (Sending n sd accepted ToResume, setCommandState accepted c))"
| "handler_step now (Resuming n sd) c =
    (if sm_DryRun sd \<or> sc_DryRun (sl_cfg c) then
       (let simulated = ackMessage (sm_CommandID sd) StatusSimulated ''dry-run shutdown simulated'' now c
        in (Sending n sd simulated ToEnd, setCommandState simulated c))
     else
       (let executing = ackMessage (sm_CommandID sd) StatusExecuting ''executing shutdown command'' now c
        in (Sending n sd executing ToBegin, setCommandState executing c)))"
| "handler_step now (Beginning n sd) c =
    (case beginOrRebindShutdownExecution (sm_CommandID sd) n c of
       (start, c1) \<Rightarrow> ((if start then Spawning sd else Idle), c1))"
| "handler_step now (Spawning sd) c = (Idle, spawn sd c)"

lemma handler_steps_from_Resuming:
  "((\<lambda>(pc, c). handler_step now pc c) ^^ 4) (Resuming n sd, c) = (Idle, snd (resumeShutdown now sd n c))"
  by (simp add: numeral_eq_Suc resumeShutdown_def beginExecution_def Let_def split: prod.split bool.split)

lemma handler_Idle_stays: "((\<lambda>(pc, c). handler_step now pc c) ^^ k) (Idle, c) = (Idle, c)"
  by (induction k) simp_all

text \<open>
  The step-wise handler is the handler: run without interruption, its steps end after at
  most seven with exactly the state \<open>handleEnvelope\<close> computes, whatever the state of the
  command is and whichever sends fail.
\<close>

lemma handler_steps_are_handleEnvelope:
  assumes "env_Type env = TypeShutdown" and "as_shutdown env = Inr sd"
  shows "((\<lambda>(pc, c). handler_step now pc c) ^^ 7) (Lookup n sd, c) =
    (Idle, snd (slave_handleEnvelope now now env n c))"
proof -
  let ?step = "\<lambda>(pc, c). handler_step now pc c"
  have seven: "(?step ^^ 7) x = (?step ^^ 5) (?step (?step x))" for x
    by (simp add: numeral_eq_Suc funpow_swap1)
  have five: "(?step ^^ 5) x = (?step ^^ 4) (?step x)" "(?step ^^ 5) x = ?step ((?step ^^ 4) x)" for x
    by (simp_all add: numeral_eq_Suc funpow_swap1)
  have resume: "(?step ^^ 5) (Resuming n sd, c) = (Idle, snd (resumeShutdown now sd n c))" for c
    by (simp only: five(2) handler_steps_from_Resuming) simp
  have spawn: "(?step ^^ 4) (Spawning sd, c) = (Idle, spawn sd c)" for c
    using handler_Idle_stays [where k = 3 and now = now and c = "spawn sd c"] by (simp add: numeral_eq_Suc funpow_swap1)
  have send: "(?step ^^ 5) (Sending n sd a k, c) = (case session_Send n (ShutdownAck a) c of
      (True, c1) \<Rightarrow> (Idle, c1)
    | (False, c1) \<Rightarrow> (case k of ToResume \<Rightarrow> (Idle, snd (resumeShutdown now sd n c1))
        | ToBegin \<Rightarrow> (?step ^^ 4) (Beginning n sd, c1)
        | ToSpawn \<Rightarrow> (Idle, spawn sd c1) | ToEnd \<Rightarrow> (Idle, c1)))" for a k c
    by (auto simp: five(1) handler_steps_from_Resuming spawn handler_Idle_stays split: prod.split bool.split handler_next.split)
  show ?thesis
  proof (cases "getCommandState (sm_CommandID sd) c")
    case None
    then show ?thesis using assms unfolding seven
      by (auto simp: send slave_handleEnvelope_def newShutdown_def Let_def split: prod.split bool.split)
  next
    case (Some existing)
    then show ?thesis using assms unfolding seven
      by (auto simp: send resume handler_Idle_stays slave_handleEnvelope_def replayedShutdown_def
          split: prod.split bool.split)
  qed
qed

section \<open>The process\<close>

text \<open>Where the goroutine of \<open>executeShutdown\<close> is.\<close>

datatype worker_pc = Running | Recording ShutdownAckMessage | Reporting ShutdownAckMessage | Ending

fun worker_step ::
  "(string list \<Rightarrow> string option) \<Rightarrow> time \<Rightarrow> time \<Rightarrow> ShutdownMessage \<Rightarrow> worker_pc \<Rightarrow> slave_Client \<Rightarrow>
    worker_pc option \<times> slave_Client" where
  "worker_step run t0 t1 sd Running c =
    (case Execute (sm_CommandID sd) run c of (err, c1) \<Rightarrow> (Some (Recording (execution_update t0 t1 sd err c1)), c1))"
| "worker_step run t0 t1 sd (Recording u) c = (Some (Reporting u), setCommandState u c)"
| "worker_step run t0 t1 sd (Reporting u) c = (Some Ending, reportExecution u c)"
| "worker_step run t0 t1 sd Ending c = (None, finishShutdownExecution (sm_CommandID sd) c)"

lemma execution_update_id [simp]: "ack_CommandID (execution_update t0 t1 sd err c) = sm_CommandID sd"
  by (simp add: execution_update_def ackMessage_def split: option.split)

text \<open>Run without interruption, the four steps are \<open>executeShutdown\<close>.\<close>

lemma worker_steps_are_executeShutdown:
  "\<exists>w1 w2 w3 c1 c2 c3. worker_step run t0 t1 sd Running c = (Some w1, c1) \<and>
    worker_step run t0 t1 sd w1 c1 = (Some w2, c2) \<and> worker_step run t0 t1 sd w2 c2 = (Some w3, c3) \<and>
    worker_step run t0 t1 sd w3 c3 = (None, executeShutdown run t0 t1 sd c)"
  by (simp add: executeShutdown_def Let_def split: prod.split)

record slave_process =
  pr_client :: slave_Client
  pr_handler :: handler_pc
  pr_workers :: "(ShutdownMessage \<times> worker_pc) list"

definition spawned :: "handler_pc \<Rightarrow> (ShutdownMessage \<times> worker_pc) list" where
  "spawned pc = (case pc of Spawning sd \<Rightarrow> [(sd, Running)] | _ \<Rightarrow> [])"

text \<open>
  One step: a shutdown message arrives on a session, the handler or a worker makes its next
  access, the client registers on a new session (with the answer of the master), or the
  self-check runs.
\<close>

inductive slave_step :: "slave_process \<Rightarrow> slave_process \<Rightarrow> bool" where
  receive: "pr_handler p = Idle \<Longrightarrow> slave_step p (p\<lparr>pr_handler := Lookup n sd\<rparr>)"
| handle: "handler_step now (pr_handler p) (pr_client p) = (pc', c') \<Longrightarrow>
    slave_step p (p\<lparr>pr_client := c', pr_handler := pc', pr_workers := pr_workers p @ spawned (pr_handler p)\<rparr>)"
| work: "pr_workers p = ws1 @ (sd, w) # ws2 \<Longrightarrow> worker_step run t0 t1 sd w (pr_client p) = (w', c') \<Longrightarrow>
    slave_step p (p\<lparr>pr_client := c', pr_workers := ws1 @ (case w' of None \<Rightarrow> [] | Some w'' \<Rightarrow> [(sd, w'')]) @ ws2\<rparr>)"
| register: "pr_handler p = Idle \<Longrightarrow> handleRegisterAck ack (snd (registerToken (pr_client p))) n
      (snd (session_Send n (Register (registerMessage (pr_client p))) (pr_client p))) = (err, c') \<Longrightarrow>
    slave_step p (p\<lparr>pr_client := c'\<rparr>)"
| self_check: "slave_step p (p\<lparr>pr_client := runShutdownSelfCheck check (pr_client p)\<rparr>)"

inductive_cases slave_stepE: "slave_step p q"

text \<open>The process dies and starts again from its state file, possibly with a changed configuration.\<close>

definition slave_boot ::
  "SlaveConfig \<Rightarrow> string \<Rightarrow> (nat \<Rightarrow> bool) \<Rightarrow> (nat \<Rightarrow> bool) \<Rightarrow> slave_file \<Rightarrow> slave_process" where
  "slave_boot cfg hostname wok sok content =
    \<lparr>pr_client = NewClient cfg hostname wok sok content, pr_handler = Idle, pr_workers = []\<rparr>"

inductive slave_life :: "slave_process \<Rightarrow> slave_process \<Rightarrow> bool" where
  runs: "slave_step p q \<Longrightarrow> slave_life p q"
| restarts: "sc_NodeID cfg = sc_NodeID (sl_cfg (pr_client p)) \<Longrightarrow>
    slave_life p (slave_boot cfg hostname wok sok (slave_file_of_disk (disk (sl_store (pr_client p)))))"

section \<open>The invariant\<close>

definition states_ok :: "string \<Rightarrow> (string, ShutdownAckMessage) gomap \<Rightarrow> bool" where
  "states_ok node m \<longleftrightarrow> distinct (mkeys m) \<and> (\<forall>(cid, a) \<in> set m. ack_CommandID a = cid \<and> ack_NodeID a = node)"

definition client_inv :: "slave_Client \<Rightarrow> bool" where
  "client_inv c \<longleftrightarrow> states_ok (sc_NodeID (sl_cfg c)) (sl_commandStates c) \<and> distinct (mkeys (sl_executions c)) \<and>
    persistedSeq (sl_store c) \<le> persistSeq (sl_store c) \<and>
    (\<forall>p. disk (sl_store c) = Some p \<longrightarrow> states_ok (sc_NodeID (sl_cfg c)) (sp_Commands p))"

text \<open>The commands a handler has claimed but not yet started a goroutine for.\<close>

definition claimed :: "handler_pc \<Rightarrow> string list" where
  "claimed pc = (case pc of Spawning sd \<Rightarrow> [sm_CommandID sd] | Sending n sd a ToSpawn \<Rightarrow> [sm_CommandID sd] | _ \<Rightarrow> [])"

definition worker_ids :: "(ShutdownMessage \<times> worker_pc) list \<Rightarrow> string list" where
  "worker_ids ws = map (\<lambda>(sd, w). sm_CommandID sd) ws"

lemma worker_ids_simps [simp]:
  "worker_ids [] = []" "worker_ids ((sd, w) # ws) = sm_CommandID sd # worker_ids ws"
  "worker_ids (ws1 @ ws2) = worker_ids ws1 @ worker_ids ws2"
  by (simp_all add: worker_ids_def)

definition worker_ok :: "string \<Rightarrow> worker_pc \<Rightarrow> bool" where
  "worker_ok node w = (case w of Recording u \<Rightarrow> ack_NodeID u = node | Reporting u \<Rightarrow> ack_NodeID u = node | _ \<Rightarrow> True)"

definition slave_inv :: "slave_process \<Rightarrow> bool" where
  "slave_inv p \<longleftrightarrow> client_inv (pr_client p) \<and> distinct (worker_ids (pr_workers p) @ claimed (pr_handler p)) \<and>
    (\<forall>cid \<in> set (worker_ids (pr_workers p) @ claimed (pr_handler p)). map_of (sl_executions (pr_client p)) cid \<noteq> None) \<and>
    (\<forall>(sd, w) \<in> set (pr_workers p). worker_ok (sc_NodeID (sl_cfg (pr_client p))) w)"

lemma claimed_simps [simp]:
  "claimed Idle = []" "claimed (Lookup n sd) = []" "claimed (Rebind n sd a) = []" "claimed (Accepting n sd) = []"
  "claimed (Resuming n sd) = []" "claimed (Beginning n sd) = []" "claimed (Spawning sd) = [sm_CommandID sd]"
  "claimed (Sending n sd a k) = (if k = ToSpawn then [sm_CommandID sd] else [])"
  by (cases k; simp add: claimed_def)+

lemma spawned_simps [simp]:
  "spawned Idle = []" "spawned (Lookup n sd) = []" "spawned (Rebind n sd a) = []" "spawned (Accepting n sd) = []"
  "spawned (Resuming n sd) = []" "spawned (Beginning n sd) = []" "spawned (Spawning sd) = [(sd, Running)]"
  "spawned (Sending n sd a k) = []"
  by (simp_all add: spawned_def)

lemma set_mput: "set (mput k v m) \<subseteq> insert (k, v) (set m)"
  by (induction m) auto

lemma states_ok_mput:
  "states_ok node m \<Longrightarrow> ack_NodeID u = node \<Longrightarrow> states_ok node (mput (ack_CommandID u) u m)"
  using set_mput [of "ack_CommandID u" u m] by (fastforce simp: states_ok_def distinct_update)

lemma states_ok_filter: "states_ok node m \<Longrightarrow> states_ok node (filter P m)"
  by (auto simp: states_ok_def intro: distinct_map_filter)

lemma client_inv_emit [simp]: "client_inv (slave_emit es c) = client_inv c"
  by (simp add: client_inv_def)

lemma client_inv_Send [simp]: "client_inv (snd (session_Send n m c)) = client_inv c"
  by (simp add: client_inv_def)

lemma persisted_save_le:
  "persistedSeq (sl_store c) \<le> persistSeq (sl_store c) \<Longrightarrow>
    persistedSeq (sl_store (slave_save c)) \<le> persistSeq (sl_store (slave_save c))"
  by (auto simp: slave_save_def slave_snapshotStateLocked_def slave_persistState_def Let_def store_write_def)

lemma client_inv_save: "client_inv c \<Longrightarrow> client_inv (slave_save c)"
  using disk_slave_save [of c] persisted_save_le [of c]
  by (auto simp: client_inv_def slave_persisted_of_def)

lemma client_inv_setCommandState:
  "client_inv c \<Longrightarrow> ack_NodeID u = sc_NodeID (sl_cfg c) \<Longrightarrow> client_inv (setCommandState u c)"
  unfolding setCommandState_save
  by (rule client_inv_save) (auto simp: client_inv_def slave_put_def prune_states intro!: states_ok_filter states_ok_mput)

lemma client_inv_executions:
  "client_inv c \<Longrightarrow> distinct (mkeys m) \<Longrightarrow> client_inv (c\<lparr>sl_executions := m\<rparr>)"
  by (simp add: client_inv_def)

lemma client_inv_begin:
  "client_inv c \<Longrightarrow> client_inv (snd (beginOrRebindShutdownExecution cid n c))"
  by (auto simp: beginOrRebindShutdownExecution_def client_inv_def distinct_update)

lemma client_inv_finish: "client_inv c \<Longrightarrow> client_inv (finishShutdownExecution cid c)"
  by (auto simp: finishShutdownExecution_def client_inv_def distinct_delete)

lemma setIssuedToken_save:
  "setIssuedToken tok c = (if sc_StateFile (sl_cfg c) = [] then (True, c)
    else let c1 = slave_save (c\<lparr>sl_issuedToken := tok\<rparr>)
      in if persistedSeq (sl_store c) < Suc (persistSeq (sl_store c)) \<and> \<not> sl_writeOK c (Suc (persistSeq (sl_store c)))
         then (True, c1\<lparr>sl_issuedToken := sl_issuedToken c\<rparr>) else (False, c1))"
  by (auto simp: setIssuedToken_def slave_save_def slave_snapshotStateLocked_def slave_persistState_def Let_def)

lemma client_inv_token: "client_inv (c\<lparr>sl_issuedToken := tok\<rparr>) = client_inv c"
  by (simp add: client_inv_def)

lemma client_inv_setIssuedToken: "client_inv c \<Longrightarrow> client_inv (snd (setIssuedToken tok c))"
  by (auto simp: setIssuedToken_save Let_def client_inv_token intro: client_inv_save)

lemma setIssuedToken_frame [simp]:
  "sl_cfg (snd (setIssuedToken tok c)) = sl_cfg c"
  "sl_executions (snd (setIssuedToken tok c)) = sl_executions c"
  "sl_commandStates (snd (setIssuedToken tok c)) = sl_commandStates c"
  by (simp_all add: setIssuedToken_save Let_def)

lemma handleRegisterAck_frame:
  assumes "handleRegisterAck ack used n c = (err, c')"
  shows "sl_cfg c' = sl_cfg c" "sl_executions c' = sl_executions c" "client_inv c \<Longrightarrow> client_inv c'"
proof -
  define x where "x = setIssuedToken (ra_IssuedToken ack) c"
  have x: "sl_cfg (snd x) = sl_cfg c" "sl_executions (snd x) = sl_executions c" "client_inv c \<Longrightarrow> client_inv (snd x)"
    by (simp_all add: x_def client_inv_setIssuedToken)
  have c': "c' = c \<or> c' = snd (setIssuedToken [] c) \<or> c' = snd x \<or> c' = snd (session_Send n TokenStored (snd x))"
    using assms unfolding handleRegisterAck_def x_def [symmetric]
    by (auto split: if_splits prod.splits bool.splits)
  show "sl_cfg c' = sl_cfg c" "sl_executions c' = sl_executions c" using c' x(1,2) by auto
  show "client_inv c \<Longrightarrow> client_inv c'" using c' x(3) client_inv_setIssuedToken by auto
qed

section \<open>Preservation\<close>

lemma client_inv_spawn [simp]: "client_inv (spawn sd c) = client_inv c"
  by (simp add: spawn_def)

lemma ack_NodeID_ackMessage [simp]: "ack_NodeID (ackMessage cid st m now c) = sc_NodeID (sl_cfg c)"
  by (simp add: ackMessage_def)

lemma handler_client:
  assumes "client_inv c"
  shows "client_inv (snd (handler_step now pc c)) \<and> sl_cfg (snd (handler_step now pc c)) = sl_cfg c"
  using assms client_inv_begin [OF assms]
  by (cases pc) (auto simp: Let_def client_inv_setCommandState session_Send_def beginOrRebindShutdownExecution_def
      split: option.splits bool.split)

text \<open>A handler only adds executions, and claims one exactly when it adds it.\<close>

lemma handler_claims:
  "(sl_executions (snd (handler_step now pc c)) = sl_executions c \<and>
     (claimed (fst (handler_step now pc c)) = [] \<or> claimed (fst (handler_step now pc c)) = claimed pc \<and> spawned pc = [])) \<or>
   (\<exists>cid n. sl_executions (snd (handler_step now pc c)) = mput cid n (sl_executions c) \<and> claimed pc = [] \<and>
     claimed (fst (handler_step now pc c)) = (if map_of (sl_executions c) cid = None then [cid] else []))"
proof (cases pc)
  case (Rebind n sd a)
  then show ?thesis
    by (intro disjI2 exI [of _ "sm_CommandID sd"] exI [of _ n]) (simp add: beginOrRebindShutdownExecution_def)
next
  case (Beginning n sd)
  then show ?thesis
    by (intro disjI2 exI [of _ "sm_CommandID sd"] exI [of _ n]) (simp add: beginOrRebindShutdownExecution_def)
next
  case (Sending n sd a k)
  then show ?thesis by (cases k) (simp_all add: session_Send_def Let_def split: bool.split)
qed (auto simp: Let_def split: option.splits)

lemma spawned_claimed: "worker_ids (spawned pc) = (if spawned pc = [] then [] else claimed pc)"
  by (cases pc) simp_all

lemma slave_inv_handle:
  assumes inv: "slave_inv p" and step: "handler_step now (pr_handler p) (pr_client p) = (pc', c')"
  shows "slave_inv (p\<lparr>pr_client := c', pr_handler := pc', pr_workers := pr_workers p @ spawned (pr_handler p)\<rparr>)"
proof -
  let ?q = "p\<lparr>pr_client := c', pr_handler := pc', pr_workers := pr_workers p @ spawned (pr_handler p)\<rparr>"
  have step': "pc' = fst (handler_step now (pr_handler p) (pr_client p))"
    "c' = snd (handler_step now (pr_handler p) (pr_client p))" using step by simp_all
  have c': "client_inv c'" "sl_cfg c' = sl_cfg (pr_client p)"
    using handler_client [of "pr_client p" now "pr_handler p"] inv by (simp_all add: step' slave_inv_def)
  have "\<forall>(sd, w) \<in> set (spawned (pr_handler p)). worker_ok node w" for node
    by (simp add: spawned_def worker_ok_def split: handler_pc.split)
  moreover have "distinct (worker_ids (pr_workers ?q) @ claimed pc') \<and>
      (\<forall>cid \<in> set (worker_ids (pr_workers ?q) @ claimed pc'). map_of (sl_executions c') cid \<noteq> None)"
    using handler_claims [of now "pr_handler p" "pr_client p", folded step']
  proof (elim disjE conjE exE)
    fix cid n
    assume "sl_executions c' = mput cid n (sl_executions (pr_client p))" "claimed (pr_handler p) = []"
      "claimed pc' = (if map_of (sl_executions (pr_client p)) cid = None then [cid] else [])"
    with inv show ?thesis by (auto simp: spawned_claimed slave_inv_def split: if_splits)
  qed (use inv in \<open>auto simp: spawned_claimed slave_inv_def split: if_splits\<close>)
  ultimately show ?thesis using inv c' unfolding slave_inv_def by auto
qed

lemma slave_inv_same_workers:
  assumes inv: "slave_inv p" and ws: "pr_workers p = ws1 @ (sd, w) # ws2"
    and c': "client_inv c'" "sl_cfg c' = sl_cfg (pr_client p)" "sl_executions c' = sl_executions (pr_client p)"
    and w': "worker_ok (sc_NodeID (sl_cfg (pr_client p))) w'"
  shows "slave_inv (p\<lparr>pr_client := c', pr_workers := ws1 @ [(sd, w')] @ ws2\<rparr>)"
  using inv c' w' by (simp add: slave_inv_def ws)

lemma slave_inv_work:
  assumes inv: "slave_inv p" and ws: "pr_workers p = ws1 @ (sd, w) # ws2"
    and step: "worker_step run t0 t1 sd w (pr_client p) = (w', c')"
  shows "slave_inv (p\<lparr>pr_client := c', pr_workers := ws1 @ (case w' of None \<Rightarrow> [] | Some w'' \<Rightarrow> [(sd, w'')]) @ ws2\<rparr>)"
proof (cases w)
  case Ending
  with step have w': "w' = None" and c': "c' = finishShutdownExecution (sm_CommandID sd) (pr_client p)" by simp_all
  have "client_inv c'" using inv by (simp add: c' client_inv_finish slave_inv_def)
  moreover have "map_of (sl_executions c') = (map_of (sl_executions (pr_client p)))(sm_CommandID sd := None)"
    "sl_cfg c' = sl_cfg (pr_client p)" by (simp_all add: c' finishShutdownExecution_def)
  ultimately show ?thesis
    using inv by (auto simp: w' slave_inv_def ws)
next
  case Running
  have inv': "client_inv (pr_client p)" using inv by (simp add: slave_inv_def)
  from Running step have "c' = pr_client p \<or> (\<exists>es. c' = slave_emit es (pr_client p))"
    "\<exists>err. w' = Some (Recording (execution_update t0 t1 sd err c'))"
    by (auto simp: Execute_def Let_def split: if_splits)
  then obtain err where w': "w' = Some (Recording (execution_update t0 t1 sd err c'))"
    and "client_inv c'" and cfg: "sl_cfg c' = sl_cfg (pr_client p)" "sl_executions c' = sl_executions (pr_client p)"
    using inv' by auto
  moreover have "ack_NodeID (execution_update t0 t1 sd err c') = sc_NodeID (sl_cfg (pr_client p))"
    by (simp add: execution_update_def cfg split: option.split)
  ultimately show ?thesis
    using slave_inv_same_workers [OF inv ws, of c' "Recording (execution_update t0 t1 sd err c')"] by (simp add: worker_ok_def)
next
  case (Recording u)
  with step inv ws have "w' = Some (Reporting u)" "c' = setCommandState u (pr_client p)"
    "ack_NodeID u = sc_NodeID (sl_cfg (pr_client p))" "client_inv (pr_client p)" by (auto simp: slave_inv_def worker_ok_def)
  then show ?thesis
    using slave_inv_same_workers [OF inv ws, of c' "Reporting u"] by (simp add: worker_ok_def client_inv_setCommandState)
next
  case (Reporting u)
  with step inv have "w' = Some Ending" "c' = pr_client p \<or> (\<exists>n m. c' = snd (session_Send n m (pr_client p)))"
    "client_inv (pr_client p)"
    by (auto simp: reportExecution_def slave_inv_def split: option.splits)
  then show ?thesis
    using slave_inv_same_workers [OF inv ws, of c' Ending] by (auto simp: worker_ok_def)
qed

lemma slave_inv_client:
  "slave_inv p \<Longrightarrow> client_inv c' \<Longrightarrow> sl_cfg c' = sl_cfg (pr_client p) \<Longrightarrow>
    sl_executions c' = sl_executions (pr_client p) \<Longrightarrow> slave_inv (p\<lparr>pr_client := c'\<rparr>)"
  by (simp add: slave_inv_def)

lemma slave_inv_client_inv: "slave_inv p \<Longrightarrow> client_inv (pr_client p)"
  by (simp add: slave_inv_def)

lemma slave_inv_running:
  "slave_inv p \<Longrightarrow> cid \<in> set (worker_ids (pr_workers p)) \<Longrightarrow> map_of (sl_executions (pr_client p)) cid \<noteq> None"
  by (simp add: slave_inv_def)

lemma slave_inv_receive: "slave_inv p \<Longrightarrow> pr_handler p = Idle \<Longrightarrow> slave_inv (p\<lparr>pr_handler := Lookup n sd\<rparr>)"
  by (simp add: slave_inv_def)

lemma self_check_frame [simp]:
  "sl_cfg (runShutdownSelfCheck check c) = sl_cfg c" "sl_executions (runShutdownSelfCheck check c) = sl_executions c"
  "client_inv (runShutdownSelfCheck check c) = client_inv c"
  by (simp_all add: runShutdownSelfCheck_def client_inv_def)

lemma slave_step_inv: "slave_inv p \<Longrightarrow> slave_step p q \<Longrightarrow> slave_inv q"
proof (erule slave_stepE)
  fix ack n err c'
  assume inv: "slave_inv p" and q: "q = p\<lparr>pr_client := c'\<rparr>" and "handleRegisterAck ack (snd (registerToken (pr_client p))) n
    (snd (session_Send n (Register (registerMessage (pr_client p))) (pr_client p))) = (err, c')"
  then show "slave_inv q" using handleRegisterAck_frame [of ack _ n _ err c']
    unfolding q by (intro slave_inv_client) (auto dest: slave_inv_client_inv)
next
  fix check
  assume "slave_inv p" "q = p\<lparr>pr_client := runShutdownSelfCheck check (pr_client p)\<rparr>"
  then show "slave_inv q" by (simp add: slave_inv_client slave_inv_client_inv)
qed (auto intro: slave_inv_handle slave_inv_work slave_inv_receive)

definition slave_file_ok :: "string \<Rightarrow> slave_file \<Rightarrow> bool" where
  "slave_file_ok node content \<longleftrightarrow> (\<forall>p. content = Loaded p \<longrightarrow> states_ok node (sp_Commands p))"

lemma slave_boot_inv:
  "slave_file_ok (sc_NodeID cfg) content \<Longrightarrow> slave_inv (slave_boot cfg hostname wok sok content)"
  by (auto simp: slave_inv_def slave_boot_def NewClient_def slave_loadState_def client_inv_def slave_file_ok_def
      slave_disk_of_file_def states_ok_def split: slave_file.splits)

lemma slave_life_inv: "slave_inv p \<Longrightarrow> slave_life p q \<Longrightarrow> slave_inv q"
proof (erule slave_life.cases)
  fix cfg hostname wok sok p'
  assume "slave_inv p" "p = p'" "sc_NodeID cfg = sc_NodeID (sl_cfg (pr_client p'))"
    "q = slave_boot cfg hostname wok sok (slave_file_of_disk (disk (sl_store (pr_client p'))))"
  moreover from this have "client_inv (pr_client p)" by (simp add: slave_inv_client_inv)
  ultimately show "slave_inv q"
    by (auto intro!: slave_boot_inv simp: slave_file_ok_def slave_file_of_disk_def client_inv_def split: option.splits)
qed (auto intro: slave_step_inv)

text \<open>The first start of a slave: nothing was stored yet.\<close>

definition slave_first_boot :: "slave_process \<Rightarrow> bool" where
  "slave_first_boot p \<longleftrightarrow> (\<exists>cfg hostname wok sok. p = slave_boot cfg hostname wok sok Missing)"

interpretation slave: transition_system slave_first_boot slave_life slave_inv
  by unfold_locales (auto simp: slave_first_boot_def slave_file_ok_def intro: slave_boot_inv slave_life_inv)

end
