(* ===== verification/SlaveBehaviour.thy ===== *)
theory SlaveBehaviour
  imports SlaveRuns
begin

text \<open>
  What the slave does with a shutdown message, with its token, and between connections.
\<close>

section \<open>An example slave\<close>

definition example_slave_config :: SlaveConfig where
  "example_slave_config = \<lparr>sc_NodeID = ''web'', sc_MasterAddr = ''ups:9000'', sc_Token = ''enroll'', sc_Tags = None,
     sc_StateFile = ''/var/lib/nut-slave/state.json'', sc_MetricsListenAddr = [], sc_ReconnectInterval = 5 * second,
     sc_DryRun = False, sc_TLS = zero_TLS, sc_ShutdownCommand = [''shutdown''], sc_ShutdownCommandTimeout = 0\<rparr>"

definition example_shutdown :: ShutdownMessage where
  "example_shutdown = \<lparr>sm_CommandID = ''c1'', sm_Reason = ''power'', sm_DryRun = False, sm_IssuedAt = 1,
     sm_Target = \<lparr>tgt_All = True, tgt_NodeIDs = [], tgt_Tags = []\<rparr>\<rparr>"

definition example_slave :: slave_process where
  "example_slave = slave_boot example_slave_config ''web.local'' (\<lambda>_. True) (\<lambda>_. True) Missing"

lemma slave_example_boot: "slave_first_boot example_slave"
  unfolding slave_first_boot_def example_slave_def by blast

section \<open>Interleavings\<close>

text \<open>
  C22. However the reader and the goroutines of running commands interleave, across
  reconnects and restarts, at most one goroutine runs the shutdown command of a given command
  at a time, each registered in \<open>executions\<close>; and every stored report is this node's own,
  filed under its command.
\<close>

theorem one_execution_per_command:
  assumes "slave_first_boot p0" and "slave_life\<^sup>*\<^sup>* p0 p"
  shows "distinct (worker_ids (pr_workers p)) \<and>
    (\<forall>cid \<in> set (worker_ids (pr_workers p)). map_of (sl_executions (pr_client p)) cid \<noteq> None) \<and>
    (\<forall>(cid, a) \<in> set (sl_commandStates (pr_client p)).
      ack_CommandID a = cid \<and> ack_NodeID a = sc_NodeID (sl_cfg (pr_client p)))"
proof -
  from assms have "slave_inv p" by (rule slave.reachable_inv)
  then show ?thesis by (auto simp: slave_inv_def client_inv_def states_ok_def)
qed

text \<open>Letting only the handler run.\<close>

definition handler_round :: "time \<Rightarrow> slave_process \<Rightarrow> slave_process" where
  "handler_round now p = (case handler_step now (pr_handler p) (pr_client p) of (pc, c) \<Rightarrow>
     p\<lparr>pr_client := c, pr_handler := pc, pr_workers := pr_workers p @ spawned (pr_handler p)\<rparr>)"

lemma handler_rounds_steps: "slave_step\<^sup>*\<^sup>* p ((handler_round now ^^ k) p)"
proof (induction k)
  case (Suc k)
  have "slave_step q (handler_round now q)" for q
    by (auto simp: handler_round_def intro: slave_step.handle split: prod.split)
  then show ?case using Suc by (auto intro: rtranclp.rtrancl_into_rtrancl)
qed simp

lemma steps_life: "slave_step\<^sup>*\<^sup>* p q \<Longrightarrow> slave_life\<^sup>*\<^sup>* p q"
  by (erule rtranclp_mono [THEN predicate2D, rotated]) (auto intro: slave_life.runs)

definition received_slave :: slave_process where
  "received_slave = example_slave\<lparr>pr_handler := Lookup 1 example_shutdown\<rparr>"

lemma received_steps: "slave_step\<^sup>*\<^sup>* example_slave received_slave"
  unfolding received_slave_def
  by (intro r_into_rtranclp slave_step.receive) (simp add: example_slave_def slave_boot_def)

text \<open>Seven rounds later the example slave runs its shutdown command.\<close>

definition working_slave :: slave_process where
  "working_slave = (handler_round 5 ^^ 7) received_slave"

lemma working_steps: "slave_step\<^sup>*\<^sup>* example_slave working_slave"
  unfolding working_slave_def by (rule rtranclp_trans [OF received_steps handler_rounds_steps])

lemma working_slave_workers: "pr_workers working_slave = [(example_shutdown, Running)]"
  by (simp add: working_slave_def received_slave_def numeral_eq_Suc handler_round_def example_slave_def slave_boot_def
      NewClient_def slave_loadState_def getCommandState_def Let_def session_Send_def
      beginOrRebindShutdownExecution_def example_shutdown_def example_slave_config_def)

theorem one_execution_per_command_witness:
  "worker_ids (pr_workers working_slave) = [''c1''] \<and>
    map_of (sl_executions (pr_client working_slave)) ''c1'' \<noteq> None"
  using one_execution_per_command [OF slave_example_boot steps_life [OF working_steps]]
  by (simp add: working_slave_workers example_shutdown_def)

section \<open>One message\<close>

definition is_store :: "slave_effect \<Rightarrow> bool" where
  "is_store e \<longleftrightarrow> (\<exists>p. e = Stores p)"

definition slave_actions :: "slave_Client \<Rightarrow> slave_effect list" where
  "slave_actions c = filter (\<lambda>e. \<not> is_store e) (sl_effects c)"

lemma is_store_simps [simp]:
  "is_store (Stores p)" "\<not> is_store (Sends n m ok)" "\<not> is_store (Spawns sd)" "\<not> is_store (Executes cid argv out)"
  by (simp_all add: is_store_def)

lemma actions_setCommandState [simp]: "slave_actions (setCommandState u c) = slave_actions c"
  by (simp add: slave_actions_def setCommandState_save slave_save_effects)

lemma actions_session_Send [simp]:
  "slave_actions (snd (session_Send n m c)) = slave_actions c @ [Sends n m (sl_sendOK c (length (sl_effects c)))]"
  by (simp add: slave_actions_def session_Send_def Let_def)

lemma actions_emit_slave [simp]:
  "slave_actions (slave_emit es c) = slave_actions c @ filter (\<lambda>e. \<not> is_store e) es"
  by (simp add: slave_actions_def)

lemma actions_spawn [simp]: "slave_actions (spawn sd c) = slave_actions c @ [Spawns sd]"
  by (simp add: slave_actions_def)

lemma actions_executions [simp]: "slave_actions (c\<lparr>sl_executions := m\<rparr>) = slave_actions c"
  by (simp add: slave_actions_def)

lemma ackMessage_frame [simp]:
  "ackMessage cid st m t (slave_emit es c) = ackMessage cid st m t c"
  "ackMessage cid st m t (setCommandState u c) = ackMessage cid st m t c"
  "ackMessage cid st m t (c\<lparr>sl_executions := x\<rparr>) = ackMessage cid st m t c"
  by (simp_all add: ackMessage_def)

lemma session_Send_ok:
  "sl_sendOK c = (\<lambda>_. True) \<Longrightarrow> session_Send n m c = (False, slave_emit [Sends n m True] c)"
  by (simp add: session_Send_def Let_def)

lemma resume_actions:
  assumes "sl_sendOK c = (\<lambda>_. True)"
  shows "slave_actions (snd (resumeShutdown now sd n c)) = slave_actions c @
    (if sm_DryRun sd \<or> sc_DryRun (sl_cfg c)
     then [Sends n (ShutdownAck (ackMessage (sm_CommandID sd) StatusSimulated ''dry-run shutdown simulated'' now c)) True]
     else Sends n (ShutdownAck (ackMessage (sm_CommandID sd) StatusExecuting ''executing shutdown command'' now c)) True #
       (if map_of (sl_executions c) (sm_CommandID sd) = None then [Spawns sd] else []))"
  using assms
  by (auto simp: resumeShutdown_def beginExecution_def beginOrRebindShutdownExecution_def session_Send_ok Let_def
      split: bool.split)

text \<open>
  C23. What a shutdown message makes the slave do when its answers get through: an unknown
  command is accepted and carried out; a known one is answered with the stored report and,
  if that was accepted or failed, carried out again, or, if it was executing and no
  execution is running, executed. Carrying out means to report the simulation of a dry run, or
  else to report execution and start the shutdown command unless it is running already. A
  command that was executed or simulated is never started again.
\<close>

theorem shutdown_message_exact:
  assumes "env_Type env = TypeShutdown" and "as_shutdown env = Inr sd" and ok: "sl_sendOK c = (\<lambda>_. True)"
    and carry: "carry = (if sm_DryRun sd \<or> sc_DryRun (sl_cfg c)
      then [Sends n (ShutdownAck (ackMessage (sm_CommandID sd) StatusSimulated ''dry-run shutdown simulated'' now2 c)) True]
      else Sends n (ShutdownAck (ackMessage (sm_CommandID sd) StatusExecuting ''executing shutdown command'' now2 c)) True #
        (if map_of (sl_executions c) (sm_CommandID sd) = None then [Spawns sd] else []))"
  shows "slave_actions (snd (slave_handleEnvelope now now2 env n c)) = slave_actions c @
    (case getCommandState (sm_CommandID sd) c of
       None \<Rightarrow> Sends n (ShutdownAck (ackMessage (sm_CommandID sd) StatusAccepted ''shutdown command accepted'' now c)) True # carry
     | Some existing \<Rightarrow> Sends n (ShutdownAck existing) True #
        (if ack_Status existing = StatusAccepted \<or> ack_Status existing = StatusFailed then carry
         else if ack_Status existing = StatusExecuting \<and> map_of (sl_executions c) (sm_CommandID sd) = None
         then [Spawns sd] else []))"
  using assms
  by (auto simp: slave_handleEnvelope_def newShutdown_def replayedShutdown_def beginOrRebindShutdownExecution_def
      session_Send_ok resume_actions Let_def split: option.split)

definition shutdown_envelope :: Envelope where
  "shutdown_envelope = \<lparr>env_Type = TypeShutdown, as_register = Inl [], as_register_ack = Inl [],
     as_shutdown = Inr example_shutdown, as_shutdown_ack = Inl [], as_error = Inl []\<rparr>"

theorem shutdown_message_exact_witness:
  "\<exists>acc exe. slave_actions (snd (slave_handleEnvelope 5 6 shutdown_envelope 1 (pr_client example_slave))) =
    [Sends 1 (ShutdownAck acc) True, Sends 1 (ShutdownAck exe) True, Spawns example_shutdown] \<and>
    ack_Status acc = StatusAccepted \<and> ack_Status exe = StatusExecuting"
proof -
  have "env_Type shutdown_envelope = TypeShutdown" "as_shutdown shutdown_envelope = Inr example_shutdown"
    "sl_sendOK (pr_client example_slave) = (\<lambda>_. True)"
    by (simp_all add: shutdown_envelope_def example_slave_def slave_boot_def NewClient_def slave_loadState_def)
  from shutdown_message_exact [OF this refl, of 5 6 1] show ?thesis
    by (auto simp: example_slave_def slave_boot_def NewClient_def slave_loadState_def getCommandState_def
        example_shutdown_def example_slave_config_def slave_actions_def ackMessage_def)
qed

section \<open>The history\<close>

lemma recorded_states:
  assumes "m = mput (ack_CommandID u) u (sl_commandStates c)"
  shows "sl_commandStates (slave_put u c) =
    filter (\<lambda>(cid, a). cid \<notin> set (take (length m - maxRetainedCommandStates) (prunable (c\<lparr>sl_commandStates := m\<rparr>)))) m"
  by (simp add: assms slave_put_def prune_states pruned_states_def)

lemma kept_prunable:
  assumes "cid \<in> set (prunable (setCommandState u c))" and m: "m = mput (ack_CommandID u) u (sl_commandStates c)"
  shows "cid \<in> set (drop (length m - maxRetainedCommandStates) (prunable (c\<lparr>sl_commandStates := m\<rparr>)))"
proof -
  let ?b = "c\<lparr>sl_commandStates := m\<rparr>" let ?k = "length m - maxRetainedCommandStates"
  from assms(1) have "cid \<in> set (prunable ?b)" "cid \<notin> set (take ?k (prunable ?b))"
    by (auto simp: set_prunable recorded_states [OF m])
  then show ?thesis by (metis Un_iff append_take_drop_id set_append)
qed

lemma recorded_length:
  assumes d: "distinct (mkeys (sl_commandStates c))"
  shows "length (sl_commandStates (setCommandState u c)) \<le> maxRetainedCommandStates \<or> prunable (setCommandState u c) = []"
proof -
  define m where "m = mput (ack_CommandID u) u (sl_commandStates c)"
  let ?b = "c\<lparr>sl_commandStates := m\<rparr>" let ?k = "length m - maxRetainedCommandStates"
  have dm: "distinct (map fst m)" using d by (simp add: m_def distinct_update)
  show ?thesis
  proof (cases "length (prunable ?b) \<le> ?k")
    case True
    then have "cid \<notin> set (prunable (setCommandState u c))" for cid using kept_prunable [OF _ m_def, of cid] by auto
    then have "prunable (setCommandState u c) = []" by (metis list.set_intros(1) neq_Nil_conv)
    then show ?thesis ..
  next
    case False
    have "set (take ?k (prunable ?b)) \<subseteq> set (map fst m)" by (auto simp: set_prunable dest!: in_set_takeD)
    moreover have "distinct (take ?k (prunable ?b))" using dm by (simp add: prunable_def)
    ultimately have "length (sl_commandStates (setCommandState u c)) = length m - ?k"
      using length_filter_keys [OF dm] False by (simp add: recorded_states [OF m_def])
    then show ?thesis by linarith
  qed
qed

text \<open>
  The slave's history stays bounded and loses only old reports: recording a report keeps
  at most \<open>maxRetainedCommandStates\<close> states unless all that remain belong to running commands;
  the state of a running command is never dropped; every other state is unchanged or dropped,
  and a dropped one was acknowledged no later than any droppable one that is kept.
\<close>

theorem slave_history_bounded:
  assumes d: "distinct (mkeys (sl_commandStates c))"
    and c': "c' = setCommandState u c"
    and m: "m = mput (ack_CommandID u) u (sl_commandStates c)"
  shows "(length (sl_commandStates c') \<le> maxRetainedCommandStates \<or> prunable c' = []) \<and>
    (\<forall>cid a. map_of m cid = Some a \<longrightarrow> map_of (sl_commandStates c') cid = Some a \<or>
      map_of (sl_commandStates c') cid = None \<and> map_of (sl_executions c) cid = None \<and>
      (\<forall>cid2 a2. cid2 \<in> set (prunable c') \<longrightarrow> map_of m cid2 = Some a2 \<longrightarrow> ack_AckedAt a \<le> ack_AckedAt a2))"
proof -
  let ?b = "c\<lparr>sl_commandStates := m\<rparr>" let ?k = "length m - maxRetainedCommandStates"
  have states: "sl_commandStates c' = filter (\<lambda>(cid, a). cid \<notin> set (take ?k (prunable ?b))) m"
    by (simp add: c' recorded_states [OF m])
  have dm: "distinct (map fst m)" using d by (simp add: m distinct_update)
  have "map_of (sl_commandStates c') cid = Some a \<or>
      map_of (sl_commandStates c') cid = None \<and> map_of (sl_executions c) cid = None \<and>
      (\<forall>cid2 a2. cid2 \<in> set (prunable c') \<longrightarrow> map_of m cid2 = Some a2 \<longrightarrow> ack_AckedAt a \<le> ack_AckedAt a2)"
    if a: "map_of m cid = Some a" for cid a
  proof (cases "cid \<in> set (take ?k (prunable ?b))")
    case False
    then show ?thesis using map_of_filter_Some [OF dm a] by (simp add: states)
  next
    case True
    then have "map_of (sl_executions c) cid = None" by (auto simp: set_prunable dest!: in_set_takeD)
    moreover have "map_of (sl_commandStates c') cid = None" using True by (auto simp: states map_of_eq_None_iff)
    moreover have "ack_AckedAt a \<le> ack_AckedAt a2" if k: "cid2 \<in> set (prunable c')" "map_of m cid2 = Some a2" for cid2 a2
      using take_le_drop_key [OF True [unfolded prunable_def] kept_prunable [OF k(1) [unfolded c'] m, unfolded prunable_def]]
        a k(2) by simp
    ultimately show ?thesis by blast
  qed
  with recorded_length [OF d] show ?thesis unfolding c' by blast
qed

theorem slave_history_bounded_witness:
  "length (sl_commandStates (setCommandState (ackMessage ''c1'' StatusAccepted [] 5 (pr_client example_slave))
     (pr_client example_slave))) \<le> maxRetainedCommandStates \<or>
   prunable (setCommandState (ackMessage ''c1'' StatusAccepted [] 5 (pr_client example_slave)) (pr_client example_slave)) = []"
proof -
  have "distinct (mkeys (sl_commandStates (pr_client example_slave)))"
    by (simp add: example_slave_def slave_boot_def NewClient_def slave_loadState_def)
  from slave_history_bounded [OF this refl refl] show ?thesis by blast
qed

section \<open>Dry runs\<close>

definition is_execution :: "slave_effect \<Rightarrow> bool" where
  "is_execution e = (case e of Executes cid argv out \<Rightarrow> True | _ \<Rightarrow> False)"

lemma is_execution_simps [simp]:
  "is_execution (Executes cid argv out)" "\<not> is_execution (Sends n m ok)" "\<not> is_execution (Spawns sd)" "\<not> is_execution (Stores p)"
  by (simp_all add: is_execution_def)

definition executed_commands :: "slave_Client \<Rightarrow> slave_effect list" where
  "executed_commands c = filter is_execution (sl_effects c)"

lemma executed_frame [simp]:
  "executed_commands (snd (session_Send n m c)) = executed_commands c"
  "executed_commands (spawn sd c) = executed_commands c"
  "executed_commands (slave_save c) = executed_commands c"
  "executed_commands (setCommandState u c) = executed_commands c"
  "executed_commands (c\<lparr>sl_executions := x\<rparr>) = executed_commands c"
  "executed_commands (c\<lparr>sl_issuedToken := tok\<rparr>) = executed_commands c"
  "executed_commands (c\<lparr>sl_shutdownReady := r\<rparr>) = executed_commands c"
  by (simp_all add: executed_commands_def session_Send_def Let_def setCommandState_save slave_save_effects)

lemma executed_handler: "executed_commands (snd (handler_step now pc c)) = executed_commands c"
proof (cases pc)
  case (Sending n sd a k)
  have "snd (handler_step now pc c) = snd (session_Send n (ShutdownAck a) c)"
    by (simp add: Sending session_Send_def Let_def split: bool.split)
  then show ?thesis by simp
qed (simp_all add: Let_def beginOrRebindShutdownExecution_def split: option.split)

lemma executed_emit [simp]:
  "executed_commands (slave_emit es c) = executed_commands c @ filter is_execution es"
  by (simp add: executed_commands_def)

lemma executed_worker:
  "executed_commands (snd (worker_step run t0 t1 sd w c)) = executed_commands c @
    (if w = Running \<and> sc_ShutdownCommand (sl_cfg c) \<noteq> [] \<and> \<not> sc_DryRun (sl_cfg c)
     then [Executes (sm_CommandID sd) (sc_ShutdownCommand (sl_cfg c)) (run (sc_ShutdownCommand (sl_cfg c)))] else [])"
  by (cases w) (auto simp: Execute_def reportExecution_def finishShutdownExecution_def Let_def split: option.split)

lemma executed_register:
  "handleRegisterAck ack used n c = (err, c') \<Longrightarrow> executed_commands c' = executed_commands c"
proof -
  assume h: "handleRegisterAck ack used n c = (err, c')"
  have tok: "executed_commands (snd (setIssuedToken t c)) = executed_commands c" for t
    by (simp add: setIssuedToken_save Let_def)
  define x where "x = setIssuedToken (ra_IssuedToken ack) c"
  have "c' = c \<or> c' = snd (setIssuedToken [] c) \<or> c' = snd x \<or> c' = snd (session_Send n TokenStored (snd x))"
    using h unfolding handleRegisterAck_def x_def [symmetric] by (auto split: if_splits prod.splits bool.splits)
  then show ?thesis by (auto simp: x_def tok)
qed

text \<open>What a client may have executed: its configured command, and nothing in a dry run.\<close>

definition executes_only_configured :: "slave_process \<Rightarrow> bool" where
  "executes_only_configured p \<longleftrightarrow> (\<forall>e \<in> set (executed_commands (pr_client p)).
     (\<exists>cid out. e = Executes cid (sc_ShutdownCommand (sl_cfg (pr_client p))) out) \<and> \<not> sc_DryRun (sl_cfg (pr_client p)))"

lemma worker_cfg: "sl_cfg (snd (worker_step run t0 t1 sd w c)) = sl_cfg c"
  by (cases w) (auto simp: Execute_def reportExecution_def finishShutdownExecution_def Let_def split: option.split)

lemma handler_cfg: "sl_cfg (snd (handler_step now pc c)) = sl_cfg c"
  by (cases pc) (auto simp: Let_def session_Send_def beginOrRebindShutdownExecution_def split: option.splits bool.split)

lemma slave_step_executes:
  "executes_only_configured p \<Longrightarrow> slave_step p q \<Longrightarrow>
    executes_only_configured q \<and> sl_cfg (pr_client q) = sl_cfg (pr_client p)"
proof (erule slave_stepE)
  fix now pc' c'
  assume "executes_only_configured p" "handler_step now (pr_handler p) (pr_client p) = (pc', c')"
    "q = p\<lparr>pr_client := c', pr_handler := pc', pr_workers := pr_workers p @ spawned (pr_handler p)\<rparr>"
  then show ?thesis
    using executed_handler [of now "pr_handler p" "pr_client p"] handler_cfg [of now "pr_handler p" "pr_client p"]
    by (simp add: executes_only_configured_def)
next
  fix ws1 sd w ws2 run t0 t1 w' c'
  assume "executes_only_configured p" "worker_step run t0 t1 sd w (pr_client p) = (w', c')"
    "q = p\<lparr>pr_client := c', pr_workers := ws1 @ (case w' of None \<Rightarrow> [] | Some w'' \<Rightarrow> [(sd, w'')]) @ ws2\<rparr>"
  then show ?thesis
    using executed_worker [of run t0 t1 sd w "pr_client p"] worker_cfg [of run t0 t1 sd w "pr_client p"]
    by (auto simp: executes_only_configured_def)
next
  fix ack n err c'
  assume "executes_only_configured p" "q = p\<lparr>pr_client := c'\<rparr>"
    "handleRegisterAck ack (snd (registerToken (pr_client p))) n
      (snd (session_Send n (Register (registerMessage (pr_client p))) (pr_client p))) = (err, c')"
  then show ?thesis
    using executed_register [of ack _ n _ err c'] handleRegisterAck_frame(1) [of ack _ n _ err c']
    by (simp add: executes_only_configured_def)
qed (auto simp: executes_only_configured_def runShutdownSelfCheck_def)

definition slave_started :: "SlaveConfig \<Rightarrow> slave_process \<Rightarrow> bool" where
  "slave_started cfg p \<longleftrightarrow> (\<exists>hostname wok sok content. p = slave_boot cfg hostname wok sok content)"

interpretation executes: transition_system "slave_started cfg" slave_step
  "\<lambda>p. executes_only_configured p \<and> sl_cfg (pr_client p) = cfg" for cfg
proof unfold_locales
  fix s assume "slave_started cfg s"
  then show "executes_only_configured s \<and> sl_cfg (pr_client s) = cfg"
    by (auto simp: slave_started_def slave_boot_def executes_only_configured_def executed_commands_def)
qed (use slave_step_executes in metis)

text \<open>
  C24. A slave never runs anything but its configured shutdown command, and with \<open>dry_run\<close> in
  its configuration it runs nothing at all, whatever state it is started from, whatever
  messages arrive and however its goroutines interleave.
\<close>

theorem slave_executes_only_configured:
  assumes "slave_step\<^sup>*\<^sup>* (slave_boot cfg hostname wok sok content) p" and "e \<in> set (executed_commands (pr_client p))"
  shows "(\<exists>cid out. e = Executes cid (sc_ShutdownCommand cfg) out) \<and> \<not> sc_DryRun cfg"
  using executes.reachable_inv [of cfg _ p, OF _ assms(1)] assms(2)
  by (auto simp: slave_started_def executes_only_configured_def)

text \<open>The example slave runs its command.\<close>

definition executing_slave :: slave_process where
  "executing_slave = working_slave\<lparr>pr_client := snd (worker_step (\<lambda>_. None) 7 7 example_shutdown Running (pr_client working_slave)),
     pr_workers := [(example_shutdown, Recording (execution_update 7 7 example_shutdown None (pr_client working_slave)))]\<rparr>"

lemma working_cfg: "sl_cfg (pr_client working_slave) = example_slave_config"
proof -
  have "slave_started example_slave_config example_slave"
    unfolding slave_started_def example_slave_def by blast
  from executes.reachable_inv [OF this working_steps] show ?thesis by blast
qed

lemma executing_steps: "slave_step\<^sup>*\<^sup>* example_slave executing_slave"
proof -
  have "worker_step (\<lambda>_. None) 7 7 example_shutdown Running (pr_client working_slave) =
      (Some (Recording (execution_update 7 7 example_shutdown None (pr_client working_slave))),
       snd (worker_step (\<lambda>_. None) 7 7 example_shutdown Running (pr_client working_slave)))"
    by (simp add: Execute_def Let_def execution_update_def working_cfg example_slave_config_def)
  from slave_step.work [of working_slave "[]" _ _ "[]", OF _ this] have "slave_step working_slave executing_slave"
    by (simp add: working_slave_workers executing_slave_def)
  with working_steps show ?thesis by (rule rtranclp.rtrancl_into_rtrancl)
qed

theorem slave_executes_only_configured_witness:
  "Executes ''c1'' [''shutdown''] None \<in> set (executed_commands (pr_client executing_slave)) \<and>
    [''shutdown''] = sc_ShutdownCommand example_slave_config"
proof -
  have e: "Executes ''c1'' [''shutdown''] None \<in> set (executed_commands (pr_client executing_slave))"
    using executed_worker [of "\<lambda>_. None" 7 7 example_shutdown Running "pr_client working_slave"]
    by (simp add: executing_slave_def working_cfg example_slave_config_def example_shutdown_def)
  with slave_executes_only_configured [OF executing_steps [unfolded example_slave_def] e] show ?thesis by blast
qed

section \<open>The issued token\<close>

text \<open>
  C25. A token is confirmed to the master only once it is on disk: when the master accepts a
  registration and issues a token, the slave replaces its state file by one that holds the
  token and only then sends \<open>token_stored\<close>; when the file cannot be written it sends nothing,
  keeps the token it had and stays registered.
\<close>

theorem token_saved_before_confirmed:
  assumes "ra_Accepted ack" and tok: "ra_IssuedToken ack \<noteq> []"
    and seq: "persistedSeq (sl_store c) \<le> persistSeq (sl_store c)"
    and result: "handleRegisterAck ack used n c = (err, c')"
  shows "(if slave_saves c
    then sl_issuedToken c' = ra_IssuedToken ack \<and>
      (\<exists>p ok. disk (sl_store c') = Some p \<and> sp_IssuedToken p = ra_IssuedToken ack \<and>
        sl_effects c' = sl_effects c @ [Stores p, Sends n TokenStored ok] \<and> (err = None \<longleftrightarrow> ok))
    else err = None \<and> sl_effects c' = sl_effects c \<and> sl_issuedToken c' = sl_issuedToken c)"
proof (cases "slave_saves c")
  case True
  let ?d = "c\<lparr>sl_issuedToken := ra_IssuedToken ack\<rparr>"
  have saves: "slave_saves ?d" using True by (simp add: slave_saves_def)
  have "setIssuedToken (ra_IssuedToken ack) c = (False, slave_save ?d)"
    using True by (simp add: setIssuedToken_save slave_saves_def Let_def)
  then have r: "handleRegisterAck ack used n c =
      (case session_Send n TokenStored (slave_save ?d) of (True, c2) \<Rightarrow> (Some SendError, c2) | (False, c2) \<Rightarrow> (None, c2))"
    using assms(1,2) by (simp add: handleRegisterAck_def)
  obtain ok where send: "session_Send n TokenStored (slave_save ?d) =
      (\<not> ok, slave_emit [Sends n TokenStored ok] (slave_save ?d))"
    by (simp add: session_Send_def Let_def)
  have c': "c' = slave_emit [Sends n TokenStored ok] (slave_save ?d)" and err: "err = None \<longleftrightarrow> ok"
    using result by (auto simp: r send split: bool.splits)
  have "disk (sl_store c') = Some (slave_persisted_of ?d)" "sl_issuedToken c' = ra_IssuedToken ack"
    "sl_effects c' = sl_effects c @ [Stores (slave_persisted_of ?d), Sends n TokenStored ok]"
    using saves by (simp_all add: c' slave_save_store slave_save_effects)
  moreover have "sp_IssuedToken (slave_persisted_of ?d) = ra_IssuedToken ack" by (simp add: slave_persisted_of_def)
  ultimately show ?thesis using True err by auto
next
  case False
  then have "fst (setIssuedToken (ra_IssuedToken ack) c)"
    "sl_effects (snd (setIssuedToken (ra_IssuedToken ack) c)) = sl_effects c"
    "sl_issuedToken (snd (setIssuedToken (ra_IssuedToken ack) c)) = sl_issuedToken c"
    using seq by (auto simp: setIssuedToken_save slave_saves_def slave_save_effects Let_def)
  then show ?thesis
    using False assms(1,2) result by (auto simp: handleRegisterAck_def split: prod.splits)
qed

definition enrolled_ack :: RegisterAckMessage where
  "enrolled_ack = \<lparr>ra_Accepted = True, ra_Message = ''registered'', ra_IssuedToken = ''t''\<rparr>"

theorem token_saved_before_confirmed_witness:
  "sl_issuedToken (snd (handleRegisterAck enrolled_ack False 1 (pr_client example_slave))) = ''t''"
proof -
  have "slave_saves (pr_client example_slave)"
    by (simp add: slave_saves_def example_slave_def slave_boot_def example_slave_config_def)
  then show ?thesis
    using token_saved_before_confirmed [of enrolled_ack "pr_client example_slave" False 1
        "fst (handleRegisterAck enrolled_ack False 1 (pr_client example_slave))"
        "snd (handleRegisterAck enrolled_ack False 1 (pr_client example_slave))"]
    by (simp add: enrolled_ack_def slave_saves_def)
qed

section \<open>An interrupted replay\<close>

text \<open>An entry of \<open>executions\<close> without a goroutine that would remove it.\<close>

definition orphaned :: "string \<Rightarrow> slave_process \<Rightarrow> bool" where
  "orphaned cid p \<longleftrightarrow> map_of (sl_executions (pr_client p)) cid \<noteq> None \<and> cid \<notin> set (worker_ids (pr_workers p)) \<and>
    cid \<notin> set (claimed (pr_handler p))"

lemma worker_executions:
  "worker_step run t0 t1 sd w c = (w', c') \<Longrightarrow> cid \<noteq> sm_CommandID sd \<Longrightarrow>
    map_of (sl_executions c') cid = map_of (sl_executions c) cid"
  by (cases w) (auto simp: Execute_def reportExecution_def finishShutdownExecution_def Let_def
      split: option.splits if_splits)

lemma orphaned_step: "orphaned cid p \<Longrightarrow> slave_step p q \<Longrightarrow> orphaned cid q"
proof (erule slave_stepE)
  fix now pc' c'
  assume o: "orphaned cid p" and h: "handler_step now (pr_handler p) (pr_client p) = (pc', c')"
    and q: "q = p\<lparr>pr_client := c', pr_handler := pc', pr_workers := pr_workers p @ spawned (pr_handler p)\<rparr>"
  show "orphaned cid q"
    using handler_claims [of now "pr_handler p" "pr_client p"] o
    by (auto simp: h q orphaned_def spawned_claimed split: if_splits)
next
  fix ws1 sd w ws2 run t0 t1 w' c'
  assume o: "orphaned cid p" and w: "worker_step run t0 t1 sd w (pr_client p) = (w', c')"
    and ws: "pr_workers p = ws1 @ (sd, w) # ws2"
    and q: "q = p\<lparr>pr_client := c', pr_workers := ws1 @ (case w' of None \<Rightarrow> [] | Some w'' \<Rightarrow> [(sd, w'')]) @ ws2\<rparr>"
  from o ws have "cid \<noteq> sm_CommandID sd" by (simp add: orphaned_def)
  from worker_executions [OF w this] o show "orphaned cid q"
    by (auto simp: q ws orphaned_def split: option.splits)
next
  fix ack n err c'
  assume "orphaned cid p" "q = p\<lparr>pr_client := c'\<rparr>"
    "handleRegisterAck ack (snd (registerToken (pr_client p))) n
      (snd (session_Send n (Register (registerMessage (pr_client p))) (pr_client p))) = (err, c')"
  then show "orphaned cid q" using handleRegisterAck_frame(2) [of ack _ n _ err c'] by (simp add: orphaned_def)
qed (auto simp: orphaned_def)

interpretation orphan: transition_system "orphaned cid" slave_step "orphaned cid" for cid
  by unfold_locales (auto intro: orphaned_step)

text \<open>
  A replay whose answer cannot be sent disables the command: when a slave that has the
  command stored as executing but is not running it (it was restarted meanwhile) is sent the
  command again and the answer fails, no later message, session or reconnection of this
  process makes it run the command.
\<close>

theorem interrupted_replay_never_executed:
  assumes inv: "slave_inv p" and pc: "pr_handler p = Lookup n sd"
    and st: "getCommandState (sm_CommandID sd) (pr_client p) = Some existing" "ack_Status existing = StatusExecuting"
    and idle: "map_of (sl_executions (pr_client p)) (sm_CommandID sd) = None"
    and fails: "\<not> sl_sendOK (pr_client p) (length (sl_effects (pr_client p)))"
    and later: "slave_step\<^sup>*\<^sup>* ((handler_round now ^^ 3) p) q"
  shows "pr_handler ((handler_round now ^^ 3) p) = Idle \<and> sm_CommandID sd \<notin> set (worker_ids (pr_workers q))"
proof -
  let ?p = "(handler_round now ^^ 3) p"
  have w: "sm_CommandID sd \<notin> set (worker_ids (pr_workers p))" using slave_inv_running [OF inv] idle by blast
  have h: "pr_handler ?p = Idle" and o: "orphaned (sm_CommandID sd) ?p"
    using st idle fails w
    by (simp_all add: numeral_eq_Suc handler_round_def pc beginOrRebindShutdownExecution_def session_Send_def Let_def
        orphaned_def)
  from orphan.reachable_inv [OF o later] show ?thesis by (simp add: h orphaned_def)
qed

text \<open>The example slave restarted while executing, on a connection that breaks.\<close>

definition restarted_slave :: slave_process where
  "restarted_slave = (slave_boot example_slave_config ''web.local'' (\<lambda>_. True) (\<lambda>k. k \<noteq> 0)
     (Loaded \<lparr>sp_IssuedToken = [], sp_Commands = [(''c1'', \<lparr>ack_CommandID = ''c1'', ack_NodeID = ''web'',
        ack_Status = StatusExecuting, ack_Message = [], ack_AckedAt = 3\<rparr>)]\<rparr>))
     \<lparr>pr_handler := Lookup 1 example_shutdown\<rparr>"

theorem interrupted_replay_never_executed_witness:
  "''c1'' \<notin> set (worker_ids (pr_workers ((handler_round 9 ^^ 7)
     (((handler_round 5 ^^ 3) restarted_slave)\<lparr>pr_handler := Lookup 2 example_shutdown\<rparr>))))"
proof -
  let ?p = "(handler_round 5 ^^ 3) restarted_slave"
  have inv: "slave_inv restarted_slave"
    unfolding restarted_slave_def
    by (intro slave_inv_receive slave_boot_inv)
      (simp_all add: slave_file_ok_def states_ok_def slave_boot_def example_slave_config_def)
  have c: "sl_commandStates (pr_client restarted_slave) = [(''c1'', \<lparr>ack_CommandID = ''c1'', ack_NodeID = ''web'',
        ack_Status = StatusExecuting, ack_Message = [], ack_AckedAt = 3\<rparr>)]"
    by (simp add: restarted_slave_def slave_boot_def NewClient_def slave_loadState_def example_slave_config_def)
  have idle: "pr_handler ?p = Idle"
    using interrupted_replay_never_executed [OF inv, of 1 example_shutdown _ 5 ?p] c
    by (simp add: getCommandState_def restarted_slave_def slave_boot_def example_shutdown_def)
  have "slave_step ?p (?p\<lparr>pr_handler := Lookup 2 example_shutdown\<rparr>)" by (rule slave_step.receive) (rule idle)
  then have "slave_step\<^sup>*\<^sup>* ?p ((handler_round 9 ^^ 7) (?p\<lparr>pr_handler := Lookup 2 example_shutdown\<rparr>))"
    by (rule converse_rtranclp_into_rtranclp) (rule handler_rounds_steps)
  then show ?thesis
    using interrupted_replay_never_executed [OF inv, of 1 example_shutdown] c
    by (simp add: getCommandState_def restarted_slave_def slave_boot_def example_shutdown_def)
qed

section \<open>Backing off\<close>

lemma nextBackoff_bounds: "0 < nextBackoff d \<and> nextBackoff d \<le> maxReconnectInterval"
  by (simp add: nextBackoff_def maxReconnectInterval_def second_def Let_def)

lemma nextBackoff_doubles:
  assumes "0 < d" and "d \<le> maxDuration"
  shows "nextBackoff d = min (2 * d) maxReconnectInterval"
proof (cases "d \<le> maxReconnectInterval")
  case True
  then have "wrap64 (d * 2) = d * 2"
    using assms by (intro wrap64_id) (simp_all add: minDuration_def maxDuration_def maxReconnectInterval_def second_def)
  with assms show ?thesis by (simp add: nextBackoff_def Let_def min_def)
next
  case False
  have "wrap64 (d * 2) = d * 2 \<or> wrap64 (d * 2) \<le> 0"
  proof (cases "d * 2 \<le> maxDuration")
    case True
    then show ?thesis using assms wrap64_id [of "d * 2"] by (simp add: minDuration_def)
  next
    case False
    have "wrap64 (d * 2) = (d * 2 - 2 ^ 63 + 2 ^ 64) mod 2 ^ 64 - 2 ^ 63"
      by (simp add: wrap64_def signed_take_bit_eq_take_bit_shift take_bit_eq_mod algebra_simps)
    also have "\<dots> = d * 2 - 2 ^ 63 - 2 ^ 63"
      unfolding mod_add_self2 using False assms by (subst mod_pos_pos_trivial) (simp_all add: maxDuration_def)
    finally show ?thesis using assms by (simp add: maxDuration_def)
  qed
  with False assms show ?thesis by (auto simp: nextBackoff_def Let_def min_def maxReconnectInterval_def second_def)
qed

lemma min_double:
  assumes "0 < d" and "0 < m"
  shows "min (2 ^ i * min (2 * d) m) m = min (2 ^ Suc i * d) (m :: int)"
proof (cases "2 * d \<le> m")
  case False
  have "m \<le> 2 ^ i * m" "2 * d \<le> 2 ^ i * (2 * d)" using assms by simp_all
  with False show ?thesis by (simp add: mult.left_commute)
qed (simp add: mult.left_commute)

text \<open>
  Reconnecting backs off exponentially up to the cap: while no attempt reaches the master,
  the delays are the configured interval doubled once per attempt and never more than 60
  seconds after the first, also where doubling leaves the 64-bit range.
\<close>

theorem backoff_doubles_to_cap:
  assumes "0 < d" and "d \<le> maxDuration" and "\<And>a. a \<in> set attempts \<Longrightarrow> fst a = False"
  shows "fst (slave_Run attempts d c) =
    map (\<lambda>i. if i = 0 then d else min (2 ^ i * d) maxReconnectInterval) [0..<length attempts]"
  using assms
proof (induction attempts arbitrary: d)
  case (Cons a attempts)
  obtain s f r where a: "a = (False, s, f, r)" using Cons.prems(3) [of a] by (cases a) auto
  let ?e = "nextBackoff d"
  have e: "0 < ?e" "?e \<le> maxReconnectInterval" using nextBackoff_bounds by auto
  then have e2: "?e \<le> maxDuration" by (simp add: maxReconnectInterval_def second_def maxDuration_def)
  have "?e = min (2 * d) maxReconnectInterval" using Cons.prems(1,2) by (rule nextBackoff_doubles)
  then have later: "(if i = 0 then ?e else min (2 ^ i * ?e) maxReconnectInterval) = min (2 ^ Suc i * d) maxReconnectInterval" for i
    using min_double [of d maxReconnectInterval i] Cons.prems(1)
    by (simp add: maxReconnectInterval_def second_def)
  from Cons.IH [OF e(1) e2] Cons.prems(3) have
    "fst (slave_Run attempts ?e c) = map (\<lambda>i. min (2 ^ Suc i * d) maxReconnectInterval) [0..<length attempts]"
    unfolding later by auto
  then show ?case by (simp add: a runOnce_def Let_def case_prod_beta upt_conv_Cons comp_def flip: map_Suc_upt del: upt_Suc)
qed simp

theorem backoff_doubles_to_cap_witness:
  "fst (slave_Run (replicate 4 (False, 1, Inl [], [])) (10 * second) (pr_client example_slave)) =
    [10 * second, 20 * second, 40 * second, 60 * second]"
proof -
  have "fst (slave_Run (replicate 4 (False, 1, Inl [], [])) (10 * second) (pr_client example_slave)) =
      map (\<lambda>i. if i = 0 then 10 * second else min (2 ^ i * (10 * second)) maxReconnectInterval)
        [0..<length (replicate 4 (False, 1 :: nat, Inl [] :: string + Envelope, [] :: (time \<times> time \<times> (string + Envelope)) list))]"
    by (rule backoff_doubles_to_cap) (auto simp: second_def maxDuration_def)
  then show ?thesis by (simp add: upt_rec numeral_eq_Suc) (simp add: second_def maxReconnectInterval_def)
qed

end
