(* ===== verification/Enrolling.thy ===== *)
theory Enrolling
  imports Conn SlaveBehaviour
begin

text \<open>
  The enrollment handshake seen from both ends: \<open>internal/master/enrollment.go\<close> and
  \<open>internal/slave/client.go\<close> together.
\<close>

lemma hashToken_load [simp]: "hashToken (loadState content s) = hashToken s"
  by (auto simp: loadState_def Let_def split: state_file.split)

lemma hashToken_NewServer [simp]: "hashToken (NewServer c now H wok sok content) = H"
  by (simp add: NewServer_def Let_def empty_server_def)

lemma nodeTokens_NewServer:
  "mc_StateFile c \<noteq> [] \<Longrightarrow> nodeTokens (NewServer c now H wok sok (Decoded p)) = ps_NodeTokens p"
  by (simp add: NewServer_def loadState_def Let_def)

lemma registerToken_NewClient:
  "sc_StateFile cf \<noteq> [] \<Longrightarrow> sp_IssuedToken p \<noteq> [] \<Longrightarrow>
    registerToken (NewClient cf hostname wok sok (Loaded p)) = (sp_IssuedToken p, True)"
  by (simp add: registerToken_def NewClient_def slave_loadState_def)

lemma register_ack_stored:
  assumes "ra_Accepted ack" "ra_IssuedToken ack = tok" "tok \<noteq> []" "slave_saves c"
    and "handleRegisterAck ack used k c = (None, c')"
  shows "\<exists>p. disk (sl_store c') = Some p \<and> sp_IssuedToken p = tok"
proof -
  let ?d = "c\<lparr>sl_issuedToken := tok\<rparr>"
  have "setIssuedToken tok c = (False, slave_save ?d)"
    using assms(4) by (simp add: setIssuedToken_save slave_saves_def Let_def)
  then have "c' = snd (session_Send k TokenStored (slave_save ?d))"
    using assms(1-3,5) by (auto simp: handleRegisterAck_def split: prod.splits bool.splits)
  moreover have "disk (sl_store (slave_save ?d)) = Some (slave_persisted_of ?d)"
    using assms(4) by (subst slave_save_store) (simp_all add: slave_saves_def)
  ultimately show ?thesis by (simp add: slave_persisted_of_def)
qed

lemma confirm_stored:
  assumes "conn_receive runner at t conn n tok (Inr stored) s = (Serving n' tok', s')"
    and "env_Type stored = TypeTokenStored" "tok \<noteq> []"
    and "mc_StateFile (cfg s) \<noteq> []" "writeOK s (Suc (persistSeq (stateStore s)))"
    and "persistedSeq (stateStore s) \<le> persistSeq (stateStore s)"
  shows "tok' = [] \<and> (\<exists>p. disk (stateStore s') = Some p \<and> map_of (ps_NodeTokens p) n = Some (hashToken s tok))"
proof -
  let ?s = "s\<lparr>registry := reg_Touch conn t (registry s), directory := dir_Touch n t (directory s)\<rparr>"
  let ?u = "?s\<lparr>nodeTokens := mput n (hashToken s tok) (nodeTokens s)\<rparr>"
  have "tok' = []" and s': "s' = saveState ?u"
    using assms(1-3)
    by (auto simp: conn_receive_def confirmIssuedToken_def saveStateForDirectoryChange_def Let_def
        split: option.splits)
  moreover have "disk (stateStore s') = Some (persisted_of ?u)"
    unfolding s' using assms(4-6) by (intro disk_saveState) simp_all
  ultimately show ?thesis by (simp add: persisted_of_def)
qed

text \<open>
  C27. Enrollment gives both sides the same credential, for good: when the master admits a
  slave with an enrollment token and issues a token, the slave confirms it, and the master
  accepts the confirmation (in whatever state it is by then), then after both processes are
  restarted from their state files the slave registers with the issued token and the master
  authenticates it by that token, issuing nothing new.
\<close>

theorem enrollment_survives_restarts:
  assumes "conn_handshake conn (Inr env) peer rnd m = (Authenticated reg tok h, m1)" and tok: "tok \<noteq> []"
    and reg: "as_register env = Inr (registerMessage c)"
    and "handleRegisterAck \<lparr>ra_Accepted = True, ra_Message = ''registered'', ra_IssuedToken = tok\<rparr> used k c1 = (None, c2)"
    and "slave_saves c1" and cfg: "sl_cfg c1 = sl_cfg c"
    and "conn_receive runner at t conn (rg_NodeID reg) tok (Inr stored) m2 = (Serving n' tok', m3)"
    and "env_Type stored = TypeTokenStored"
    and H: "hashToken m2 = hashToken m" and "mc_StateFile (cfg m2) \<noteq> []"
    and "writeOK m2 (Suc (persistSeq (stateStore m2)))" "persistedSeq (stateStore m2) \<le> persistSeq (stateStore m2)"
    and master: "master = NewServer (cfg m2) now (hashToken m) wok sok (file_of_disk (disk (stateStore m3)))"
    and slave: "slave = NewClient (sl_cfg c) hostname wok2 sok2 (slave_file_of_disk (disk (sl_store c2)))"
  shows "registerToken slave = (tok, True) \<and>
    authenticateNode (rg_NodeID (registerMessage slave)) tok rnd2 master = Inr ([], hashToken m tok)"
proof -
  have node: "rg_NodeID reg = sc_NodeID (sl_cfg c)"
    using assms(1) reg
    by (auto simp: conn_handshake_def readRegister_def registerMessage_def split: sum.splits if_splits)
  obtain p where p: "disk (sl_store c2) = Some p" "sp_IssuedToken p = tok"
    using register_ack_stored [OF _ _ tok assms(5,4)] by auto
  obtain q where q: "disk (stateStore m3) = Some q" "map_of (ps_NodeTokens q) (rg_NodeID reg) = Some (hashToken m tok)"
    using confirm_stored [OF assms(7,8) tok assms(10-12)] H by auto
  have "sc_StateFile (sl_cfg c) \<noteq> []" using assms(5) cfg by (simp add: slave_saves_def)
  then have "registerToken slave = (tok, True)"
    using p tok by (simp add: slave slave_file_of_disk_def registerToken_NewClient)
  moreover have "sl_cfg slave = sl_cfg c" by (simp add: slave)
  moreover have "nodeTokens master = ps_NodeTokens q" "hashToken master = hashToken m"
    using q(1) assms(10) by (simp_all add: master file_of_disk_def nodeTokens_NewServer)
  ultimately show ?thesis
    using q(2) tok by (simp add: authenticateNode_def MatchToken_iff registerMessage_def node)
qed

text \<open>The example slave enrolls with the example master.\<close>

definition register_envelope :: Envelope where
  "register_envelope = \<lparr>env_Type = TypeRegister, as_register = Inr (registerMessage (pr_client example_slave)),
     as_register_ack = Inl [], as_shutdown = Inl [], as_shutdown_ack = Inl [], as_error = Inl []\<rparr>"

definition stored_envelope :: Envelope where
  "stored_envelope = register_envelope\<lparr>env_Type := TypeTokenStored\<rparr>"

lemma example_slave_simps:
  "sl_cfg (pr_client example_slave) = example_slave_config" "slave_saves (pr_client example_slave)"
  "registerMessage (pr_client example_slave) = \<lparr>rg_NodeID = ''web'', rg_Hostname = ''web.local'', rg_Token = ''enroll'',
     rg_Tags = None, rg_DryRun = False, rg_ShutdownReady = None\<rparr>"
  "sl_sendOK (pr_client example_slave) = (\<lambda>_. True)"
  by (simp_all add: example_slave_def slave_boot_def slave_saves_def registerMessage_def registerToken_def
      NewClient_def slave_loadState_def example_slave_config_def)

theorem enrollment_survives_restarts_witness:
  "\<exists>master slave. registerToken slave = (hex_encode ''r'', True) \<and>
    authenticateNode ''web'' (hex_encode ''r'') ''q'' master = Inr ([], CHR ''h'' # hex_encode ''r'')"
proof -
  let ?c = "pr_client example_slave" let ?tok = "hex_encode ''r''" let ?m = prefixed_server
  let ?ack = "\<lparr>ra_Accepted = True, ra_Message = ''registered'', ra_IssuedToken = ?tok\<rparr>"
  define c2 where "c2 = snd (handleRegisterAck ?ack False 1 ?c)"
  define m3 where "m3 = snd (conn_receive (\<lambda>_ _ _. None) 9 9 4 ''web'' ?tok (Inr stored_envelope) ?m)"
  have tok: "?tok \<noteq> []" by (simp add: hex_encode_def hex_byte_def)
  have hs: "conn_handshake 4 (Inr register_envelope) None ''r'' ?m = (Authenticated (registerMessage ?c) ?tok [], ?m)"
    by (simp add: conn_handshake_def readRegister_def register_envelope_def example_slave_simps authenticateNode_def
        MatchToken_iff prefixed_server_def example_defs newNodeToken_def verifyPeerIdentity_def zero_TLS_def
        EnrollmentOpen_def EnrollmentClosed_def)
  have ack: "handleRegisterAck ?ack False 1 ?c = (None, c2)"
    using tok example_slave_simps(2) unfolding c2_def
    by (simp add: handleRegisterAck_def setIssuedToken_save slave_saves_def Let_def session_Send_def example_slave_simps)
  have recv: "conn_receive (\<lambda>_ _ _. None) 9 9 4 (rg_NodeID (registerMessage ?c)) ?tok (Inr stored_envelope) ?m =
      (Serving ''web'' [], m3)"
    using tok unfolding m3_def
    by (simp add: conn_receive_def confirmIssuedToken_def stored_envelope_def example_slave_simps prefixed_server_def
        example_defs Let_def)
  have "env_Type stored_envelope = TypeTokenStored" "mc_StateFile (cfg ?m) \<noteq> []"
    "writeOK ?m (Suc (persistSeq (stateStore ?m)))" "persistedSeq (stateStore ?m) \<le> persistSeq (stateStore ?m)"
    by (simp_all add: stored_envelope_def prefixed_server_def example_defs)
  note out = enrollment_survives_restarts [OF hs tok _ ack example_slave_simps(2) refl recv this(1) refl this(2-4) refl refl,
      where now = 0 and wok = "\<lambda>_. True" and sok = "\<lambda>_. True" and hostname = "''web.local''" and
      ?wok2.0 = "\<lambda>_. True" and ?sok2.0 = "\<lambda>_. True" and ?rnd2.0 = "''q''"]
  have "as_register register_envelope = Inr (registerMessage ?c)" by (simp add: register_envelope_def)
  moreover have "hashToken ?m ?tok = CHR ''h'' # ?tok" by (simp add: prefixed_server_def)
  moreover have "rg_NodeID (registerMessage (NewClient (sl_cfg ?c) x y z f)) = ''web''" for x y z f
    by (simp add: registerMessage_def example_slave_simps example_slave_config_def)
  ultimately show ?thesis using out by metis
qed

end
