(* ===== verification/Nut.thy ===== *)
theory Nut
  imports Complex_Main Policy
begin

text \<open>
  \<open>internal/master/nut.go\<close>: reading the UPS from a NUT \<open>upsd\<close>, and the unit
  conversion of \<open>internal/master/snmp.go\<close> it shares.
\<close>

section \<open>Readings\<close>

text \<open>\<open>runtimeToMinutes\<close>; Go's integer division truncates towards zero.\<close>

definition runtimeToMinutes :: "int \<Rightarrow> string \<Rightarrow> int" where
  "runtimeToMinutes value unit =
    (if unit = RuntimeUnitSeconds then value sdiv 60
     else if unit = RuntimeUnitTimeTicks then value sdiv (100 * 60)
     else value)"

datatype ups_error =
    NUTLineTooLong
  | NUTRead
  | UnknownUPS string
  | DriverStale string string
  | AccessDenied
  | UpsdError string
  | UnexpectedReply string
  | UnexpectedLine string
  | MissingValue
  | NotQuoted
  | UnescapedQuote
  | DanglingEscape
  | ParseLine string ups_error
  | TooManyVars
  | StatusMissing
  | NeitherOLNorOB string
  | NotANumber string string
  | NegativeValue string
  | NumberOutOfRange string string
  | DialUpsd
  | SendListVar

section \<open>Lines\<close>

definition maxNUTLineBytes :: nat where "maxNUTLineBytes = 4096"
definition maxNUTVars :: nat where "maxNUTVars = 1024"

text \<open>
  \<open>reader\<close> is what \<open>upsd\<close> will send before the connection ends or its deadline passes.
  \<open>ReadSlice\<close> on a reader with a buffer of \<open>maxNUTLineBytes\<close> finds a newline among that many
  bytes, reports a full buffer, or the read error.
\<close>

definition readNUTLine :: "string \<Rightarrow> ups_error + (string \<times> string)" where
  "readNUTLine reader =
    (let line = takeWhile (\<lambda>b. b \<noteq> CHR 0x0A) (take maxNUTLineBytes reader)
     in if length line < length (take maxNUTLineBytes reader)
        then Inr (TrimRight (line @ [CHR 0x0A]) {CHR 0x0D, CHR 0x0A}, drop (Suc (length line)) reader)
        else if maxNUTLineBytes \<le> length reader then Inl NUTLineTooLong
        else Inl NUTRead)"

text \<open>The error an \<open>ERR\<close> line stands for.\<close>

definition nutError :: "string \<Rightarrow> string \<Rightarrow> ups_error option" where
  "nutError line ups =
    (case CutPrefix line ''ERR '' of
       None \<Rightarrow> None
     | Some rest \<Rightarrow>
        (case Cut rest CHR '' '' of (code, _, _) \<Rightarrow>
           if code = ''UNKNOWN-UPS'' then Some (UnknownUPS ups)
           else if code = ''DATA-STALE'' \<or> code = ''DRIVER-NOT-CONNECTED'' then Some (DriverStale code ups)
           else if code = ''ACCESS-DENIED'' then Some AccessDenied
           else Some (UpsdError code)))"

section \<open>Variables\<close>

text \<open>The loop over the body of a quoted value.\<close>

fun unescapeNUT :: "string \<Rightarrow> ups_error + string" where
  "unescapeNUT [] = Inr []"
| "unescapeNUT (c # body) =
    (if c = CHR 0x22 then Inl UnescapedQuote
     else if c = CHR 0x5C then
       (case body of
          [] \<Rightarrow> Inl DanglingEscape
        | d # rest \<Rightarrow> (case unescapeNUT rest of Inl e \<Rightarrow> Inl e | Inr v \<Rightarrow> Inr (d # v)))
     else (case unescapeNUT body of Inl e \<Rightarrow> Inl e | Inr v \<Rightarrow> Inr (c # v)))"

definition parseNUTVar :: "string \<Rightarrow> ups_error + (string \<times> string)" where
  "parseNUTVar rest =
    (case Cut rest CHR '' '' of (name, quoted, ok) \<Rightarrow>
       if \<not> ok \<or> name = [] then Inl MissingValue
       else if length quoted < 2 \<or> hd quoted \<noteq> CHR 0x22 \<or> last quoted \<noteq> CHR 0x22 then Inl NotQuoted
       else (case unescapeNUT (butlast (tl quoted)) of
           Inl e \<Rightarrow> Inl e
         | Inr value \<Rightarrow> Inr (name, value)))"

lemma readNUTLine_shorter: "readNUTLine s = Inr (line, rest) \<Longrightarrow> length rest < length s"
  by (auto simp: readNUTLine_def Let_def split: if_splits)

text \<open>The loop of \<open>readNUTVarList\<close>; a reply ends, so the loop does.\<close>

function readNUTVars ::
  "string \<Rightarrow> (string, string) gomap \<Rightarrow> string \<Rightarrow> ups_error + (string, string) gomap" where
  "readNUTVars ups vars reader =
    (case readNUTLine reader of
       Inl e \<Rightarrow> Inl e
     | Inr (line, rest) \<Rightarrow>
        if line = ''END LIST VAR '' @ ups then Inr vars
        else (case CutPrefix line (''VAR '' @ ups @ '' '') of
            None \<Rightarrow> Inl (UnexpectedLine line)
          | Some var \<Rightarrow>
             (case parseNUTVar var of
                Inl e \<Rightarrow> Inl (ParseLine line e)
              | Inr (name, value) \<Rightarrow>
                  if length vars \<ge> maxNUTVars then Inl TooManyVars
                  else readNUTVars ups (mput name value vars) rest)))"
  by pat_completeness auto
termination
  by (relation "measure (\<lambda>(ups, vars, reader). length reader)") (auto dest: readNUTLine_shorter)

declare readNUTVars.simps [simp del]

definition readNUTVarList :: "string \<Rightarrow> string \<Rightarrow> ups_error + (string, string) gomap" where
  "readNUTVarList reader ups =
    (case readNUTLine reader of
       Inl e \<Rightarrow> Inl e
     | Inr (line, rest) \<Rightarrow>
        (case nutError line ups of
           Some e \<Rightarrow> Inl e
         | None \<Rightarrow>
            if line \<noteq> ''BEGIN LIST VAR '' @ ups then Inl (UnexpectedReply line)
            else readNUTVars ups [] rest))"

section \<open>Decoding\<close>

text \<open>
  \<open>strconv.ParseFloat(value, 64)\<close>: a syntax or range error, one of the values that are not
  numbers, or a finite double as the rational it denotes.
\<close>

datatype float64 = ParseError | NaN | Infinite bool | Finite rat

definition MaxInt32 :: int where "MaxInt32 = 2147483647"

definition parseNUTNumber :: "(string \<Rightarrow> float64) \<Rightarrow> string \<Rightarrow> string \<Rightarrow> ups_error + int" where
  "parseNUTNumber ParseFloat name value =
    (case ParseFloat value of
       Finite number \<Rightarrow>
         if number < 0 then Inl (NegativeValue name)
         else if number > of_int MaxInt32 then Inl (NumberOutOfRange name value)
         else Inr \<lfloor>number\<rfloor>
     | _ \<Rightarrow> Inl (NotANumber name value))"

text \<open>A variable that is reported must be a number; one that is not reported stays nil.\<close>

definition optionalNUTNumber ::
  "(string \<Rightarrow> float64) \<Rightarrow> string \<Rightarrow> (string, string) gomap \<Rightarrow> ups_error + int option" where
  "optionalNUTNumber ParseFloat name vars =
    (case map_of vars name of
       None \<Rightarrow> Inr None
     | Some value \<Rightarrow>
        (case parseNUTNumber ParseFloat name value of Inl e \<Rightarrow> Inl e | Inr n \<Rightarrow> Inr (Some n)))"

definition decodeNUTVars :: "(string \<Rightarrow> float64) \<Rightarrow> (string, string) gomap \<Rightarrow> ups_error + UPSStatus" where
  "decodeNUTVars ParseFloat vars =
    (case map_of vars ''ups.status'' of
       None \<Rightarrow> Inl StatusMissing
     | Some statusValue \<Rightarrow>
        let flags = Fields statusValue;
            onBattery = list_ex (\<lambda>flag. flag = ''OB'') flags;
            isOnline = list_ex (\<lambda>flag. flag = ''OL'') flags;
            lowBattery = list_ex (\<lambda>flag. flag = ''LB'') flags
        in if \<not> onBattery \<and> \<not> isOnline then Inl (NeitherOLNorOB statusValue)
           else (case optionalNUTNumber ParseFloat ''battery.charge'' vars of
               Inl e \<Rightarrow> Inl e
             | Inr charge \<Rightarrow>
                (case optionalNUTNumber ParseFloat ''battery.runtime'' vars of
                   Inl e \<Rightarrow> Inl e
                 | Inr seconds \<Rightarrow>
                     Inr \<lparr>ups_OnBattery = onBattery, ups_LowBattery = lowBattery, ups_BatteryCharge = charge,
                       ups_RuntimeMinutes = map_option (\<lambda>s. runtimeToMinutes s RuntimeUnitSeconds) seconds\<rparr>)))"

text \<open>
  \<open>ReadNUTStatus\<close>: the outcomes of dialling (with its deadline) and of sending the request, and
  the bytes of the reply.
\<close>

definition ReadNUTStatus ::
  "(string \<Rightarrow> float64) \<Rightarrow> bool \<Rightarrow> bool \<Rightarrow> string \<Rightarrow> NUTConfig \<Rightarrow> ups_error + UPSStatus" where
  "ReadNUTStatus ParseFloat dialOK sendOK reply cfg =
    (if \<not> dialOK then Inl DialUpsd
     else if \<not> sendOK then Inl SendListVar
     else case readNUTVarList reply (nu_UPS cfg) of
       Inl e \<Rightarrow> Inl e
     | Inr vars \<Rightarrow> decodeNUTVars ParseFloat vars)"

section \<open>What a well-formed reply decodes to\<close>

text \<open>The reply \<open>upsd\<close> sends for a list of variables.\<close>

definition escapeNUT :: "string \<Rightarrow> string" where
  "escapeNUT v = concat (map (\<lambda>c. if c = CHR 0x22 \<or> c = CHR 0x5C then [CHR 0x5C, c] else [c]) v)"

definition nut_line :: "string \<Rightarrow> string \<times> string \<Rightarrow> string" where
  "nut_line ups nv = ''VAR '' @ ups @ '' '' @ fst nv @ '' '' @ [CHR 0x22] @ escapeNUT (snd nv) @ [CHR 0x22]"

definition nut_reply :: "string \<Rightarrow> (string, string) gomap \<Rightarrow> string" where
  "nut_reply ups vars = concat (map (\<lambda>line. line @ [CHR 0x0A])
     (((''BEGIN LIST VAR '' @ ups) # map (nut_line ups) vars) @ [''END LIST VAR '' @ ups]))"

text \<open>What the protocol can carry: no line breaks, no space in a name, lines that fit.\<close>

definition nut_var_ok :: "string \<Rightarrow> string \<times> string \<Rightarrow> bool" where
  "nut_var_ok ups nv \<longleftrightarrow> fst nv \<noteq> [] \<and> CHR '' '' \<notin> set (fst nv) \<and> CHR 0x0A \<notin> set (fst nv) \<and>
     CHR 0x0A \<notin> set (snd nv) \<and> length (nut_line ups nv) < maxNUTLineBytes"

definition nut_ups_ok :: "string \<Rightarrow> bool" where
  "nut_ups_ok ups \<longleftrightarrow> CHR 0x0A \<notin> set ups \<and> CHR 0x0D \<notin> set ups \<and>
    length (''BEGIN LIST VAR '' @ ups) < maxNUTLineBytes"

lemma unescape_escape: "unescapeNUT (escapeNUT v) = Inr v"
  by (induction v) (auto simp: escapeNUT_def)

lemma parse_printed_var:
  assumes "nut_var_ok ups (name, value)"
  shows "parseNUTVar (name @ '' '' @ [CHR 0x22] @ escapeNUT value @ [CHR 0x22]) = Inr (name, value)"
  using assms Cut_found [of "CHR '' ''" name "CHR 0x22 # escapeNUT value @ [CHR 0x22]"]
  by (simp add: parseNUTVar_def unescape_escape nut_var_ok_def)

lemma readNUTLine_line:
  assumes "CHR 0x0A \<notin> set line" and "length line < maxNUTLineBytes" and "line \<noteq> []" and "last line \<noteq> CHR 0x0D"
  shows "readNUTLine (line @ [CHR 0x0A] @ rest) = Inr (line, rest)"
proof -
  have "take maxNUTLineBytes (line @ [CHR 0x0A] @ rest) =
      line @ CHR 0x0A # take (maxNUTLineBytes - Suc (length line)) rest"
    using assms(2) by (simp add: take_Cons' Suc_diff_Suc)
  moreover have "takeWhile (\<lambda>b. b \<noteq> CHR 0x0A) (line @ CHR 0x0A # r) = line" for r
    using assms(1) by (auto simp: takeWhile_append)
  moreover have "TrimRight (line @ [CHR 0x0A]) {CHR 0x0D, CHR 0x0A} = line"
    using assms(1,3,4) by (cases line rule: rev_cases) (auto simp: TrimRight_def)
  ultimately show ?thesis by (simp add: readNUTLine_def Let_def)
qed

lemma newline_escapeNUT: "CHR 0x0A \<in> set (escapeNUT v) \<longleftrightarrow> CHR 0x0A \<in> set v"
  by (auto simp: escapeNUT_def split: if_splits)

lemma read_printed_var:
  assumes "nut_var_ok ups nv" and "nut_ups_ok ups"
  shows "readNUTLine (nut_line ups nv @ [CHR 0x0A] @ rest) = Inr (nut_line ups nv, rest)"
  using assms by (intro readNUTLine_line) (auto simp: nut_var_ok_def nut_ups_ok_def nut_line_def newline_escapeNUT)

lemma read_marker_line:
  assumes "nut_ups_ok ups" and "set marker \<inter> {CHR 0x0A, CHR 0x0D} = {}" and "length marker \<le> length ''BEGIN LIST VAR ''"
    and "marker \<noteq> []"
  shows "readNUTLine ((marker @ ups) @ [CHR 0x0A] @ rest) = Inr (marker @ ups, rest)"
proof (rule readNUTLine_line)
  have "CHR 0x0D \<notin> set (marker @ ups)" using assms(1,2) by (auto simp: nut_ups_ok_def)
  moreover have "marker @ ups \<noteq> []" using assms(4) by simp
  ultimately show "last (marker @ ups) \<noteq> CHR 0x0D" by (metis last_in_set)
qed (use assms in \<open>auto simp: nut_ups_ok_def\<close>)

lemma mput_new: "k \<notin> set (mkeys m) \<Longrightarrow> mput k v m = m @ [(k, v)]"
  by (induction m) auto

lemma read_printed_vars:
  assumes "nut_ups_ok ups" and "\<And>nv. nv \<in> set vars \<Longrightarrow> nut_var_ok ups nv"
    and "distinct (mkeys (acc @ vars))" and "length (acc @ vars) \<le> maxNUTVars"
  shows "readNUTVars ups acc (concat (map (\<lambda>nv. nut_line ups nv @ [CHR 0x0A]) vars) @
    ''END LIST VAR '' @ ups @ [CHR 0x0A] @ tail) = Inr (acc @ vars)"
  using assms(2-4)
proof (induction vars arbitrary: acc)
  case Nil
  then show ?case using read_marker_line [OF assms(1), of "''END LIST VAR ''" tail] by (subst readNUTVars.simps) simp
next
  case (Cons nv vars)
  obtain name val where nv: "nv = (name, val)" by (cases nv)
  have ok: "nut_var_ok ups (name, val)" using Cons.prems(1) [of nv] by (simp add: nv)
  let ?rest = "concat (map (\<lambda>nv. nut_line ups nv @ [CHR 0x0A]) vars) @ ''END LIST VAR '' @ ups @ [CHR 0x0A] @ tail"
  have line: "readNUTLine (nut_line ups nv @ [CHR 0x0A] @ ?rest) = Inr (nut_line ups nv, ?rest)"
    using ok unfolding nv by (rule read_printed_var) (rule assms(1))
  have cut: "CutPrefix (nut_line ups nv) (''VAR '' @ ups @ '' '') =
      Some (name @ '' '' @ [CHR 0x22] @ escapeNUT val @ [CHR 0x22])"
    using CutPrefix_append [of "''VAR '' @ ups @ '' ''"] by (simp add: nut_line_def nv)
  have new: "mput name val acc = acc @ [(name, val)]"
    using Cons.prems(2) by (intro mput_new) (auto simp: nv)
  have "readNUTVars ups (acc @ [(name, val)]) ?rest = Inr ((acc @ [(name, val)]) @ vars)"
    using Cons.prems by (intro Cons.IH) (auto simp: nv)
  moreover have "nut_line ups nv \<noteq> ''END LIST VAR '' @ ups" by (simp add: nut_line_def)
  ultimately show ?case
    using line cut parse_printed_var [OF ok] new Cons.prems(3)
    by (subst readNUTVars.simps) (simp add: nv)
qed

text \<open>
  C37. The variables \<open>upsd\<close> prints are the variables the master reads: for every list of at
  most \<open>maxNUTVars\<close> variables with distinct names whose lines fit, whatever quotes and
  backslashes their values hold, and whatever follows the reply.
\<close>

theorem nut_reply_roundtrip:
  assumes ups: "nut_ups_ok ups" and vars: "\<And>nv. nv \<in> set vars \<Longrightarrow> nut_var_ok ups nv"
    and "distinct (mkeys vars)" and "length vars \<le> maxNUTVars"
  shows "readNUTVarList (nut_reply ups vars @ tail) ups = Inr vars"
proof -
  let ?rest = "concat (map (\<lambda>nv. nut_line ups nv @ [CHR 0x0A]) vars) @ ''END LIST VAR '' @ ups @ [CHR 0x0A] @ tail"
  have reply: "nut_reply ups vars @ tail = (''BEGIN LIST VAR '' @ ups) @ [CHR 0x0A] @ ?rest"
    by (simp add: nut_reply_def comp_def)
  have line: "readNUTLine (nut_reply ups vars @ tail) = Inr (''BEGIN LIST VAR '' @ ups, ?rest)"
    unfolding reply by (rule read_marker_line [OF ups]) simp_all
  have "readNUTVars ups [] ?rest = Inr ([] @ vars)"
    using assms by (intro read_printed_vars) simp_all
  then show ?thesis by (simp only: readNUTVarList_def line) (simp add: nutError_def CutPrefix_def)
qed

definition example_vars :: "(string, string) gomap" where
  "example_vars = [(''ups.status'', ''OB LB''), (''battery.charge'', ''87.5''), (''ups.mfr'', [CHR 0x22, CHR 0x5C])]"

theorem nut_reply_roundtrip_witness:
  "readNUTVarList (nut_reply ''myups'' example_vars @ ''OK'') ''myups'' = Inr example_vars"
  by (rule nut_reply_roundtrip)
    (auto simp: example_vars_def nut_ups_ok_def nut_var_ok_def nut_line_def escapeNUT_def maxNUTLineBytes_def
      maxNUTVars_def)

section \<open>What a reading means\<close>

lemma parseNUTNumber_floor:
  "parseNUTNumber pf name v = Inr n \<Longrightarrow> \<exists>x. pf v = Finite x \<and> 0 \<le> n \<and> of_int n \<le> x \<and> x < of_int n + 1"
  using floor_correct by (fastforce simp: parseNUTNumber_def split: float64.splits if_splits)

lemma optionalNUTNumber_floor:
  "optionalNUTNumber pf name vars = Inr n \<Longrightarrow> (case map_of vars name of
     None \<Rightarrow> n = None
   | Some v \<Rightarrow> \<exists>x k. pf v = Finite x \<and> n = Some k \<and> 0 \<le> k \<and> of_int k \<le> x \<and> x < of_int k + 1)"
  by (auto simp: optionalNUTNumber_def dest!: parseNUTNumber_floor split: option.splits sum.splits)

lemma runtimeToMinutes_seconds: "0 \<le> s \<Longrightarrow> runtimeToMinutes s RuntimeUnitSeconds = s div 60"
  by (cases "s = 0") (simp_all add: runtimeToMinutes_def consts_simps signed_divide_int_def)

lemma minutes_bound:
  assumes "of_int s \<le> x" and "x < of_int s + 1"
  shows "of_int (60 * (s div 60)) \<le> (x :: rat) \<and> x < of_int (60 * (s div 60)) + 60"
proof -
  have "60 * (s div 60) \<le> s" "s + 1 \<le> 60 * (s div 60) + 60" by presburger+
  then have "of_int (60 * (s div 60)) \<le> (of_int s :: rat)" "(of_int (s + 1) :: rat) \<le> of_int (60 * (s div 60) + 60)"
    by (simp_all only: of_int_le_iff)
  with assms show ?thesis by simp
qed

lemma decodeNUTVars_Inr:
  assumes "decodeNUTVars ParseFloat vars = Inr status"
  obtains v seconds where "map_of vars ''ups.status'' = Some v"
    and "optionalNUTNumber ParseFloat ''battery.charge'' vars = Inr (ups_BatteryCharge status)"
    and "optionalNUTNumber ParseFloat ''battery.runtime'' vars = Inr seconds"
    and "ups_RuntimeMinutes status = map_option (\<lambda>s. runtimeToMinutes s RuntimeUnitSeconds) seconds"
    and "ups_OnBattery status = (''OB'' \<in> set (Fields v))" "ups_LowBattery status = (''LB'' \<in> set (Fields v))"
    and "''OB'' \<in> set (Fields v) \<or> ''OL'' \<in> set (Fields v)"
  using assms by (auto simp: decodeNUTVars_def Let_def list_ex_iff split: option.splits sum.splits if_splits)

text \<open>
  C38. A NUT reading is never more optimistic than the UPS: it exists only when the status says
  OL or OB, reads battery power exactly when OB is among the flags (so an unknown status is
  never line power) and low battery exactly when LB is, and reports a charge and a runtime
  exactly when they are reported as finite numbers in range, rounded down to whole units, so
  that a threshold fires no later than the value itself would make it fire.
\<close>

theorem nut_reading_sound:
  assumes "decodeNUTVars ParseFloat vars = Inr status"
  shows "(\<exists>v. map_of vars ''ups.status'' = Some v \<and>
      ups_OnBattery status = (''OB'' \<in> set (Fields v)) \<and> ups_LowBattery status = (''LB'' \<in> set (Fields v)) \<and>
      (\<not> ups_OnBattery status \<longrightarrow> ''OL'' \<in> set (Fields v))) \<and>
    (case map_of vars ''battery.charge'' of
       None \<Rightarrow> ups_BatteryCharge status = None
     | Some v \<Rightarrow> \<exists>x n. ParseFloat v = Finite x \<and> ups_BatteryCharge status = Some n \<and> 0 \<le> n \<and> of_int n \<le> x \<and> x < of_int n + 1) \<and>
    (case map_of vars ''battery.runtime'' of
       None \<Rightarrow> ups_RuntimeMinutes status = None
     | Some v \<Rightarrow> \<exists>x n. ParseFloat v = Finite x \<and> ups_RuntimeMinutes status = Some n \<and> 0 \<le> n \<and>
         of_int (60 * n) \<le> x \<and> x < of_int (60 * n) + 60)"
proof -
  obtain v seconds where v: "map_of vars ''ups.status'' = Some v"
    and c: "optionalNUTNumber ParseFloat ''battery.charge'' vars = Inr (ups_BatteryCharge status)"
    and r: "optionalNUTNumber ParseFloat ''battery.runtime'' vars = Inr seconds"
    and m: "ups_RuntimeMinutes status = map_option (\<lambda>s. runtimeToMinutes s RuntimeUnitSeconds) seconds"
    and st: "ups_OnBattery status = (''OB'' \<in> set (Fields v))" "ups_LowBattery status = (''LB'' \<in> set (Fields v))"
      "''OB'' \<in> set (Fields v) \<or> ''OL'' \<in> set (Fields v)"
    using assms by (rule decodeNUTVars_Inr)
  have "case map_of vars ''battery.runtime'' of None \<Rightarrow> ups_RuntimeMinutes status = None
      | Some v \<Rightarrow> \<exists>x n. ParseFloat v = Finite x \<and> ups_RuntimeMinutes status = Some n \<and> 0 \<le> n \<and>
         of_int (60 * n) \<le> x \<and> x < of_int (60 * n) + 60"
    using optionalNUTNumber_floor [OF r] minutes_bound
    by (auto simp: m runtimeToMinutes_seconds pos_imp_zdiv_nonneg_iff split: option.splits)
  with v st optionalNUTNumber_floor [OF c] show ?thesis by blast
qed

theorem nut_reading_sound_witness:
  "ups_BatteryCharge \<lparr>ups_OnBattery = True, ups_LowBattery = True, ups_BatteryCharge = Some 87,
     ups_RuntimeMinutes = None\<rparr> \<noteq> Some 88 \<and>
   decodeNUTVars (\<lambda>v. if v = ''87.5'' then Finite (175 / 2) else ParseError) example_vars =
     Inr \<lparr>ups_OnBattery = True, ups_LowBattery = True, ups_BatteryCharge = Some 87, ups_RuntimeMinutes = None\<rparr>"
proof -
  have f: "Fields ''OB LB'' = [''OB'', ''LB'']"
    by (simp add: Fields_def fields_from.simps strip_one_def unicode_spaces_def)
  have "\<lfloor>175 / 2 :: rat\<rfloor> = 87" by (simp add: floor_eq_iff)
  then have d: "decodeNUTVars (\<lambda>v. if v = ''87.5'' then Finite (175 / 2) else ParseError) example_vars =
     Inr \<lparr>ups_OnBattery = True, ups_LowBattery = True, ups_BatteryCharge = Some 87, ups_RuntimeMinutes = None\<rparr>"
    by (simp add: decodeNUTVars_def example_vars_def f optionalNUTNumber_def parseNUTNumber_def MaxInt32_def Let_def)
  from nut_reading_sound [OF d] d show ?thesis by simp
qed

end
