(* ===== verification/ConfigSources.thy ===== *)
theory ConfigSources
  imports Config
begin

text \<open>
  \<open>internal/config/snmp.go\<close> and \<open>internal/config/nut.go\<close>: the settings of the two UPS sources,
  their defaults and their validation.
\<close>

section \<open>Errors\<close>

text \<open>
  The errors of \<open>internal/config\<close>, by what is wrong with which key: the file, a removed key
  (line, label, hint), an empty, blank, unedited, unknown, non-positive, negative or
  out-of-range value, settings that exclude each other, a setting that needs another, a missing
  source, and an error inside policy \<open>i\<close>.
\<close>

datatype config_error =
    ReadConfig string
  | DecodeConfig string
  | RemovedKey int string string
  | MustNotBeEmpty string
  | MustNotBeBlank string
  | StillPlaceholder string
  | InvalidValue string string
  | NotPositive string
  | MustNotBeNegative string
  | OutOfRange string
  | CannotCombine string
  | Requires string
  | NoUPSSource
  | NoPolicies
  | DuplicatePolicyName nat string
  | InPolicy nat string config_error
  | ReadFile string
  | NoCertificate string
  | NotOnlyCertificates string string

text \<open>\<open>if err := f(); err != nil { return err }\<close> followed by the rest.\<close>

definition andThen :: "'e + 'a \<Rightarrow> ('a \<Rightarrow> 'e + 'b) \<Rightarrow> 'e + 'b" where
  "andThen r f = (case r of Inl e \<Rightarrow> Inl e | Inr x \<Rightarrow> f x)"

lemma andThen_simps [simp]: "andThen (Inl e) f = Inl e" "andThen (Inr x) f = f x"
  by (simp_all add: andThen_def)

lemma andThen_Inr: "andThen r f = Inr y \<longleftrightarrow> (\<exists>x. r = Inr x \<and> f x = Inr y)"
  by (cases r) simp_all

text \<open>
  The contract of a step that completes and checks settings: what it accepts satisfies \<open>ok\<close>,
  and settings that already do are left alone, so a value that is loaded, written back and
  loaded again, or checked a second time at start, does not change.
\<close>

locale normalizer =
  fixes normalize :: "'a \<Rightarrow> 'e + 'a" and ok :: "'a \<Rightarrow> bool"
  assumes accepted_ok: "normalize x = Inr y \<Longrightarrow> ok y"
    and ok_unchanged: "ok x \<Longrightarrow> normalize x = Inr x"
begin

lemma ok_iff: "normalize x = Inr x \<longleftrightarrow> ok x"
  by (blast intro: accepted_ok ok_unchanged)

lemma again: "normalize x = Inr y \<Longrightarrow> normalize y = Inr y"
  by (blast intro: accepted_ok ok_unchanged)

lemma stage_again: "normalize x = Inr y \<Longrightarrow> andThen (normalize y) f = f y"
  by (simp add: again)

end

section \<open>SNMP\<close>

definition SNMPProfileUPSMIB :: string where [consts_simps]: "SNMPProfileUPSMIB = ''ups-mib''"
definition SNMPProfileAPC :: string where [consts_simps]: "SNMPProfileAPC = ''apc''"
definition SNMPProfileCyberPower :: string where [consts_simps]: "SNMPProfileCyberPower = ''cyberpower''"
definition SNMPProfileEaton :: string where [consts_simps]: "SNMPProfileEaton = ''eaton''"

definition SNMPSecurityNoAuthNoPriv :: string where [consts_simps]: "SNMPSecurityNoAuthNoPriv = ''noAuthNoPriv''"
definition SNMPSecurityAuthNoPriv :: string where [consts_simps]: "SNMPSecurityAuthNoPriv = ''authNoPriv''"
definition SNMPSecurityAuthPriv :: string where [consts_simps]: "SNMPSecurityAuthPriv = ''authPriv''"

definition minUSMPassphraseLength :: nat where "minUSMPassphraseLength = 8"

definition snmpAuthProtocols :: "string list" where
  "snmpAuthProtocols = [''MD5'', ''SHA'', ''SHA224'', ''SHA256'', ''SHA384'', ''SHA512'']"

definition snmpPrivProtocols :: "string list" where
  "snmpPrivProtocols = [''DES'', ''AES'', ''AES192'', ''AES256'', ''AES192C'', ''AES256C'']"

record snmpProfile =
  pf_onBattery :: SNMPStateVar
  pf_charge :: SNMPValueVar
  pf_runtime :: SNMPValueVar

definition snmp_profile :: "string \<Rightarrow> int \<Rightarrow> string \<Rightarrow> string \<Rightarrow> string \<Rightarrow> snmpProfile" where
  "snmp_profile state battery charge runtime unit =
    \<lparr>pf_onBattery = \<lparr>sv_OID = state, sv_Values = [battery]\<rparr>, pf_charge = \<lparr>vv_OID = charge, vv_Unit = []\<rparr>,
     pf_runtime = \<lparr>vv_OID = runtime, vv_Unit = unit\<rparr>\<rparr>"

definition snmpProfiles :: "(string, snmpProfile) gomap" where
  "snmpProfiles =
    [(SNMPProfileUPSMIB, snmp_profile ''.1.3.6.1.2.1.33.1.4.1.0'' 5 ''.1.3.6.1.2.1.33.1.2.4.0''
        ''.1.3.6.1.2.1.33.1.2.3.0'' RuntimeUnitMinutes),
     (SNMPProfileAPC, snmp_profile ''.1.3.6.1.4.1.318.1.1.1.4.1.1.0'' 3 ''.1.3.6.1.4.1.318.1.1.1.2.2.1.0''
        ''.1.3.6.1.4.1.318.1.1.1.2.2.3.0'' RuntimeUnitTimeTicks),
     (SNMPProfileCyberPower, snmp_profile ''.1.3.6.1.4.1.3808.1.1.1.4.1.1.0'' 3 ''.1.3.6.1.4.1.3808.1.1.1.2.2.1.0''
        ''.1.3.6.1.4.1.3808.1.1.1.2.2.4.0'' RuntimeUnitTimeTicks),
     (SNMPProfileEaton, snmp_profile ''.1.3.6.1.4.1.534.1.4.5.0'' 5 ''.1.3.6.1.4.1.534.1.2.4.0''
        ''.1.3.6.1.4.1.534.1.2.1.0'' RuntimeUnitSeconds)]"

definition runtime_units :: "string list" where
  "runtime_units = [RuntimeUnitMinutes, RuntimeUnitSeconds, RuntimeUnitTimeTicks]"

text \<open>The three parts of \<open>ResolveSNMPVars\<close>, each filling or checking one pointer.\<close>

definition resolveOnBattery :: "snmpProfile \<Rightarrow> SNMPConfig \<Rightarrow> config_error + SNMPConfig" where
  "resolveOnBattery profile snmp =
    (case sn_OnBattery snmp of
       None \<Rightarrow> Inr (snmp\<lparr>sn_OnBattery := Some (pf_onBattery profile)\<rparr>)
     | Some v \<Rightarrow>
        if sv_OID v = [] then Inl (MustNotBeEmpty ''snmp.on_battery.oid'')
        else if sv_Values v = [] then Inl (MustNotBeEmpty ''snmp.on_battery.values'')
        else Inr snmp)"

definition resolveCharge :: "snmpProfile \<Rightarrow> SNMPConfig \<Rightarrow> config_error + SNMPConfig" where
  "resolveCharge profile snmp =
    (case sn_Charge snmp of
       None \<Rightarrow> Inr (snmp\<lparr>sn_Charge := Some (pf_charge profile)\<rparr>)
     | Some v \<Rightarrow>
        if vv_OID v = [] then Inl (MustNotBeEmpty ''snmp.charge.oid'')
        else if vv_Unit v \<noteq> [] then Inl (InvalidValue ''snmp.charge.unit'' (vv_Unit v))
        else Inr snmp)"

definition resolveRuntime :: "snmpProfile \<Rightarrow> SNMPConfig \<Rightarrow> config_error + SNMPConfig" where
  "resolveRuntime profile snmp =
    (case sn_Runtime snmp of
       None \<Rightarrow> Inr (snmp\<lparr>sn_Runtime := Some (pf_runtime profile)\<rparr>)
     | Some v \<Rightarrow>
        if vv_OID v = [] then Inl (MustNotBeEmpty ''snmp.runtime.oid'')
        else if vv_Unit v = [] then Inl (MustNotBeEmpty ''snmp.runtime.unit'')
        else if vv_Unit v \<in> set runtime_units then Inr snmp
        else Inl (InvalidValue ''snmp.runtime.unit'' (vv_Unit v)))"

definition ResolveSNMPVars :: "SNMPConfig \<Rightarrow> config_error + SNMPConfig" where
  "ResolveSNMPVars snmp0 =
    (let snmp = (if sn_Profile snmp0 = [] then snmp0\<lparr>sn_Profile := SNMPProfileUPSMIB\<rparr> else snmp0)
     in case map_of snmpProfiles (sn_Profile snmp) of
          None \<Rightarrow> Inl (InvalidValue ''snmp.profile'' (sn_Profile snmp))
        | Some profile \<Rightarrow>
            andThen (resolveOnBattery profile snmp) (\<lambda>snmp1.
            andThen (resolveCharge profile snmp1) (\<lambda>snmp2.
            resolveRuntime profile snmp2)))"

definition rejectUSMSettings :: "SNMPConfig \<Rightarrow> config_error option" where
  "rejectUSMSettings snmp =
    map_option (\<lambda>(key, _). CannotCombine (''snmp.'' @ key))
      (find (\<lambda>(key, v). v \<noteq> [])
        [(''username'', sn_Username snmp), (''security_level'', sn_SecurityLevel snmp),
         (''auth_protocol'', sn_AuthProtocol snmp), (''auth_passphrase'', sn_AuthPassphrase snmp),
         (''priv_protocol'', sn_PrivProtocol snmp), (''priv_passphrase'', sn_PrivPassphrase snmp)])"

definition validateUSMSecret ::
  "bool \<Rightarrow> string \<Rightarrow> string \<Rightarrow> string \<Rightarrow> string list \<Rightarrow> config_error option" where
  "validateUSMSecret isUsed pre protocol passphrase protocols =
    (if \<not> isUsed then
       (if protocol \<noteq> [] \<or> passphrase \<noteq> [] then Some (CannotCombine (''snmp.'' @ pre @ ''_protocol'')) else None)
     else if protocol \<notin> set protocols then Some (InvalidValue (''snmp.'' @ pre @ ''_protocol'') protocol)
     else if length passphrase < minUSMPassphraseLength then Some (OutOfRange (''snmp.'' @ pre @ ''_passphrase''))
     else None)"

text \<open>The levels and whether they use authentication and privacy.\<close>

definition security_level :: "string \<Rightarrow> (bool \<times> bool) option" where
  "security_level level =
    (if level = SNMPSecurityNoAuthNoPriv then Some (False, False)
     else if level = SNMPSecurityAuthNoPriv then Some (True, False)
     else if level = SNMPSecurityAuthPriv then Some (True, True)
     else None)"

definition validateUSM :: "SNMPConfig \<Rightarrow> config_error option" where
  "validateUSM snmp =
    (if sn_Community snmp \<noteq> [] then Some (CannotCombine ''snmp.community'')
     else if sn_Username snmp = [] then Some (MustNotBeEmpty ''snmp.username'')
     else case security_level (sn_SecurityLevel snmp) of
       None \<Rightarrow> Some (InvalidValue ''snmp.security_level'' (sn_SecurityLevel snmp))
     | Some (usesAuth, usesPriv) \<Rightarrow>
        (case validateUSMSecret usesAuth ''auth'' (sn_AuthProtocol snmp) (sn_AuthPassphrase snmp) snmpAuthProtocols of
           Some e \<Rightarrow> Some e
         | None \<Rightarrow> validateUSMSecret usesPriv ''priv'' (sn_PrivProtocol snmp) (sn_PrivPassphrase snmp) snmpPrivProtocols))"

definition normalizeSNMPVersion :: "SNMPConfig \<Rightarrow> config_error + SNMPConfig" where
  "normalizeSNMPVersion snmp =
    (let v = sn_Version snmp
     in if v \<notin> {[], ''1'', ''2c'', ''3'', ''v3''} then Inl (InvalidValue ''snmp.version'' v)
        else let snmp1 = (if v = [] then snmp\<lparr>sn_Version := ''2c''\<rparr>
                          else if v = ''v3'' then snmp\<lparr>sn_Version := ''3''\<rparr> else snmp)
             in if sn_Version snmp1 \<noteq> ''3'' then
                  (case rejectUSMSettings snmp1 of
                     Some e \<Rightarrow> Inl e
                   | None \<Rightarrow> if sn_Community snmp1 = [] then Inl (MustNotBeEmpty ''snmp.community'') else Inr snmp1)
                else (case validateUSM snmp1 of Some e \<Rightarrow> Inl e | None \<Rightarrow> Inr snmp1))"

definition defaultSNMPTimeoutSeconds :: int where "defaultSNMPTimeoutSeconds = 2"
definition maxSNMPTimeoutSeconds :: int where "maxSNMPTimeoutSeconds = 60"

text \<open>The SNMP part of \<open>normalizeUPSSource\<close> in \<open>config.go\<close>.\<close>

definition normalizeSNMP :: "SNMPConfig \<Rightarrow> config_error + SNMPConfig" where
  "normalizeSNMP snmp =
    (if sn_Target snmp = [] then Inl (MustNotBeEmpty ''snmp.target'')
     else andThen (normalizeSNMPVersion (if sn_Port snmp = 0 then snmp\<lparr>sn_Port := 161\<rparr> else snmp)) (\<lambda>snmp1.
       let snmp2 = (if sn_TimeoutSeconds snmp1 = 0 then snmp1\<lparr>sn_TimeoutSeconds := defaultSNMPTimeoutSeconds\<rparr> else snmp1)
       in if sn_TimeoutSeconds snmp2 < 1 \<or> sn_TimeoutSeconds snmp2 > maxSNMPTimeoutSeconds
          then Inl (OutOfRange ''snmp.timeout_seconds'')
          else ResolveSNMPVars snmp2))"

section \<open>NUT\<close>

definition defaultNUTPort :: "16 word" where "defaultNUTPort = 3493"
definition defaultNUTTimeoutSeconds :: int where "defaultNUTTimeoutSeconds = 2"
definition maxNUTTimeoutSeconds :: int where "maxNUTTimeoutSeconds = 60"

definition between :: "char \<Rightarrow> char \<Rightarrow> char \<Rightarrow> bool" where
  "between lo hi c \<longleftrightarrow> of_char lo \<le> (of_char c :: nat) \<and> of_char c \<le> (of_char hi :: nat)"

definition nut_name_char :: "char \<Rightarrow> bool" where
  "nut_name_char c \<longleftrightarrow> between (CHR ''A'') (CHR ''Z'') c \<or> between (CHR ''a'') (CHR ''z'') c \<or>
     between (CHR ''0'') (CHR ''9'') c \<or> c \<in> {CHR ''.'', CHR ''_'', CHR ''-''}"

text \<open>\<open>^[A-Za-z0-9._-]+$\<close>: in Go's syntax \<open>$\<close> without a flag is the end of the text.\<close>

definition nutUPSNamePattern :: "string \<Rightarrow> bool" where
  "nutUPSNamePattern s \<longleftrightarrow> s \<noteq> [] \<and> list_all nut_name_char s"

definition normalizeNUT :: "NUTConfig \<Rightarrow> config_error + NUTConfig" where
  "normalizeNUT nut =
    (if nu_Host nut = [] then Inl (MustNotBeEmpty ''nut.host'')
     else if list_ex (\<lambda>c. c \<in> {CHR '' '', CHR 0x09, CHR 0x0D, CHR 0x0A}) (nu_Host nut)
     then Inl (InvalidValue ''nut.host'' (nu_Host nut))
     else if nu_UPS nut = [] then Inl (MustNotBeEmpty ''nut.ups'')
     else if \<not> nutUPSNamePattern (nu_UPS nut) then Inl (InvalidValue ''nut.ups'' (nu_UPS nut))
     else let nut1 = (if nu_Port nut = 0 then nut\<lparr>nu_Port := defaultNUTPort\<rparr> else nut);
              nut2 = (if nu_TimeoutSeconds nut1 = 0 then nut1\<lparr>nu_TimeoutSeconds := defaultNUTTimeoutSeconds\<rparr> else nut1)
          in if nu_TimeoutSeconds nut2 < 1 \<or> nu_TimeoutSeconds nut2 > maxNUTTimeoutSeconds
             then Inl (OutOfRange ''nut.timeout_seconds'')
             else Inr nut2)"

section \<open>What validation establishes\<close>

definition nut_ok :: "NUTConfig \<Rightarrow> bool" where
  "nut_ok c \<longleftrightarrow> nu_Host c \<noteq> [] \<and> set (nu_Host c) \<inter> {CHR '' '', CHR 0x09, CHR 0x0D, CHR 0x0A} = {} \<and> nu_Port c \<noteq> 0 \<and>
    nutUPSNamePattern (nu_UPS c) \<and> 1 \<le> nu_TimeoutSeconds c \<and> nu_TimeoutSeconds c \<le> 60"

lemma defaultNUTPort_nonzero [simp]: "defaultNUTPort \<noteq> 0"
  by (simp add: defaultNUTPort_def)

lemma normalizeNUT_ok:
  assumes "normalizeNUT nut = Inr nut'"
  shows "nut_ok nut'"
proof -
  define nut1 where "nut1 = (if nu_Port nut = 0 then nut\<lparr>nu_Port := defaultNUTPort\<rparr> else nut)"
  define nut2 where "nut2 = (if nu_TimeoutSeconds nut1 = 0 then nut1\<lparr>nu_TimeoutSeconds := defaultNUTTimeoutSeconds\<rparr> else nut1)"
  have "nu_Host nut \<noteq> []" "\<not> list_ex (\<lambda>c. c \<in> {CHR '' '', CHR 0x09, CHR 0x0D, CHR 0x0A}) (nu_Host nut)"
    "nutUPSNamePattern (nu_UPS nut)" "nut' = nut2" "1 \<le> nu_TimeoutSeconds nut2" "nu_TimeoutSeconds nut2 \<le> maxNUTTimeoutSeconds"
    using assms unfolding normalizeNUT_def Let_def nut1_def [symmetric] nut2_def [symmetric]
    by (simp_all split: if_splits)
  moreover have "nu_Port nut1 \<noteq> 0" "nu_Host nut1 = nu_Host nut" "nu_UPS nut1 = nu_UPS nut" by (simp_all add: nut1_def)
  then have "nu_Port nut2 \<noteq> 0" "nu_Host nut2 = nu_Host nut" "nu_UPS nut2 = nu_UPS nut" by (simp_all add: nut2_def)
  ultimately show ?thesis by (auto simp: nut_ok_def list_ex_iff maxNUTTimeoutSeconds_def)
qed

lemma normalizeNUT_id: "nut_ok nut \<Longrightarrow> normalizeNUT nut = Inr nut"
  by (auto simp: nut_ok_def normalizeNUT_def maxNUTTimeoutSeconds_def list_ex_iff nutUPSNamePattern_def Let_def)

text \<open>What a resolved profile provides.\<close>

definition profile_ok :: "snmpProfile \<Rightarrow> bool" where
  "profile_ok p \<longleftrightarrow> sv_OID (pf_onBattery p) \<noteq> [] \<and> sv_Values (pf_onBattery p) \<noteq> [] \<and>
    vv_OID (pf_charge p) \<noteq> [] \<and> vv_Unit (pf_charge p) = [] \<and>
    vv_OID (pf_runtime p) \<noteq> [] \<and> vv_Unit (pf_runtime p) \<in> set runtime_units"

lemma profile_ok_preset:
  "state \<noteq> [] \<Longrightarrow> charge \<noteq> [] \<Longrightarrow> runtime \<noteq> [] \<Longrightarrow> unit \<in> set runtime_units \<Longrightarrow>
    profile_ok (snmp_profile state b charge runtime unit)"
  by (simp add: profile_ok_def snmp_profile_def)

lemma units_ok: "RuntimeUnitMinutes \<in> set runtime_units" "RuntimeUnitSeconds \<in> set runtime_units"
  "RuntimeUnitTimeTicks \<in> set runtime_units"
  by (simp_all add: runtime_units_def)

lemma profiles_ok: "map_of snmpProfiles p = Some profile \<Longrightarrow> profile_ok profile"
proof -
  have "list_all profile_ok (map snd snmpProfiles)"
    unfolding snmpProfiles_def by (simp add: profile_ok_preset units_ok)
  then show "map_of snmpProfiles p = Some profile \<Longrightarrow> profile_ok profile"
    by (force simp: list_all_iff dest: map_of_SomeD)
qed

definition vars_ok :: "SNMPConfig \<Rightarrow> bool" where
  "vars_ok c \<longleftrightarrow> sn_Profile c \<in> fst ` set snmpProfiles \<and> (\<exists>v. sn_OnBattery c = Some v \<and> sv_OID v \<noteq> [] \<and> sv_Values v \<noteq> []) \<and>
    (\<exists>v. sn_Charge c = Some v \<and> vv_OID v \<noteq> [] \<and> vv_Unit v = []) \<and>
    (\<exists>v. sn_Runtime c = Some v \<and> vv_OID v \<noteq> [] \<and> vv_Unit v \<in> set runtime_units)"

text \<open>Resolving touches the profile and the three pointers only.\<close>

definition same_access :: "SNMPConfig \<Rightarrow> SNMPConfig \<Rightarrow> bool" where
  "same_access c c' \<longleftrightarrow> c'\<lparr>sn_Profile := [], sn_OnBattery := None, sn_Charge := None, sn_Runtime := None\<rparr> =
     c\<lparr>sn_Profile := [], sn_OnBattery := None, sn_Charge := None, sn_Runtime := None\<rparr>"

lemma same_access_fields:
  assumes "same_access c c'"
  shows "sn_Target c' = sn_Target c" "sn_Port c' = sn_Port c" "sn_Version c' = sn_Version c"
    "sn_TimeoutSeconds c' = sn_TimeoutSeconds c" "sn_Community c' = sn_Community c" "sn_Username c' = sn_Username c"
    "sn_SecurityLevel c' = sn_SecurityLevel c" "sn_AuthProtocol c' = sn_AuthProtocol c"
    "sn_AuthPassphrase c' = sn_AuthPassphrase c" "sn_PrivProtocol c' = sn_PrivProtocol c"
    "sn_PrivPassphrase c' = sn_PrivPassphrase c"
  using assms by (cases c; cases c'; simp add: same_access_def)+

lemma ResolveSNMPVars_ok:
  assumes "ResolveSNMPVars c = Inr c'"
  shows "vars_ok c'" "same_access c c'"
proof -
  define d where "d = (if sn_Profile c = [] then c\<lparr>sn_Profile := SNMPProfileUPSMIB\<rparr> else c)"
  have d: "sn_Profile d \<noteq> []" "same_access c d" by (simp_all add: d_def same_access_def consts_simps)
  obtain p c1 c2 where p: "map_of snmpProfiles (sn_Profile d) = Some p"
    and r: "resolveOnBattery p d = Inr c1" "resolveCharge p c1 = Inr c2" "resolveRuntime p c2 = Inr c'"
    using assms unfolding ResolveSNMPVars_def d_def [symmetric] Let_def by (auto simp: andThen_Inr split: option.splits)
  have ok: "profile_ok p" using p by (rule profiles_ok)
  obtain x1 where 1: "c1 = d\<lparr>sn_OnBattery := Some x1\<rparr>" "sv_OID x1 \<noteq> []" "sv_Values x1 \<noteq> []"
    using r(1) ok by (cases d) (auto simp: resolveOnBattery_def profile_ok_def split: option.splits if_splits)
  obtain x2 where 2: "c2 = c1\<lparr>sn_Charge := Some x2\<rparr>" "vv_OID x2 \<noteq> []" "vv_Unit x2 = []"
    using r(2) ok by (cases c1) (auto simp: resolveCharge_def profile_ok_def split: option.splits if_splits)
  obtain x3 where 3: "c' = c2\<lparr>sn_Runtime := Some x3\<rparr>" "vv_OID x3 \<noteq> []" "vv_Unit x3 \<in> set runtime_units"
    using r(3) ok by (cases c2) (auto simp: resolveRuntime_def profile_ok_def split: option.splits if_splits)
  have c': "c' = d\<lparr>sn_OnBattery := Some x1, sn_Charge := Some x2, sn_Runtime := Some x3\<rparr>" by (simp add: 1(1) 2(1) 3(1))
  have "sn_Profile c' \<in> fst ` set snmpProfiles" using map_of_SomeD [OF p] by (force simp: c')
  then show "vars_ok c'" using 1 2 3 by (simp add: vars_ok_def c')
  show "same_access c c'" using d(2) by (simp add: c' same_access_def)
qed

lemma ResolveSNMPVars_id:
  assumes "vars_ok c"
  shows "ResolveSNMPVars c = Inr c"
proof -
  have "[] \<notin> fst ` set snmpProfiles" by (simp add: snmpProfiles_def consts_simps)
  with assms have "sn_Profile c \<noteq> []" by (metis vars_ok_def)
  moreover obtain profile where "map_of snmpProfiles (sn_Profile c) = Some profile"
    using assms by (auto simp: vars_ok_def dest: weak_map_of_SomeI)
  moreover have "[] \<notin> set runtime_units" by (simp add: runtime_units_def consts_simps)
  ultimately show ?thesis using assms
    by (auto simp: vars_ok_def ResolveSNMPVars_def Let_def resolveOnBattery_def resolveCharge_def resolveRuntime_def)
qed

text \<open>
  The access settings, written out independently of the checks: below version 3 a community and nothing of
  the user security model; in version 3 no community, a user, and for each of authentication
  and privacy either a known protocol with a passphrase of at least 8 characters or neither of the two, as the security
  level asks for.
\<close>

definition usm_secret_ok :: "bool \<Rightarrow> string list \<Rightarrow> string \<Rightarrow> string \<Rightarrow> bool" where
  "usm_secret_ok used protocols protocol passphrase \<longleftrightarrow>
    (if used then protocol \<in> set protocols \<and> 8 \<le> length passphrase else protocol = [] \<and> passphrase = [])"

definition access_ok :: "SNMPConfig \<Rightarrow> bool" where
  "access_ok c \<longleftrightarrow>
    (sn_Version c = ''1'' \<or> sn_Version c = ''2c'') \<and> sn_Community c \<noteq> [] \<and> sn_Username c = [] \<and> sn_SecurityLevel c = [] \<and>
      sn_AuthProtocol c = [] \<and> sn_AuthPassphrase c = [] \<and> sn_PrivProtocol c = [] \<and> sn_PrivPassphrase c = []
    \<or> sn_Version c = ''3'' \<and> sn_Community c = [] \<and> sn_Username c \<noteq> [] \<and>
      sn_SecurityLevel c \<in> {''noAuthNoPriv'', ''authNoPriv'', ''authPriv''} \<and>
      usm_secret_ok (sn_SecurityLevel c \<noteq> ''noAuthNoPriv'') [''MD5'', ''SHA'', ''SHA224'', ''SHA256'', ''SHA384'', ''SHA512'']
        (sn_AuthProtocol c) (sn_AuthPassphrase c) \<and>
      usm_secret_ok (sn_SecurityLevel c = ''authPriv'') [''DES'', ''AES'', ''AES192'', ''AES256'', ''AES192C'', ''AES256C'']
        (sn_PrivProtocol c) (sn_PrivPassphrase c)"

lemma rejectUSMSettings_None:
  "rejectUSMSettings c = None \<longleftrightarrow> sn_Username c = [] \<and> sn_SecurityLevel c = [] \<and> sn_AuthProtocol c = [] \<and>
    sn_AuthPassphrase c = [] \<and> sn_PrivProtocol c = [] \<and> sn_PrivPassphrase c = []"
  by (auto simp: rejectUSMSettings_def)

lemma validateUSMSecret_None:
  "validateUSMSecret used pre protocol passphrase protocols = None \<longleftrightarrow> usm_secret_ok used protocols protocol passphrase"
  by (auto simp: validateUSMSecret_def usm_secret_ok_def minUSMPassphraseLength_def)

lemma access_ok_checks:
  "access_ok c \<longleftrightarrow> sn_Version c \<in> {''1'', ''2c'', ''3''} \<and>
    (if sn_Version c = ''3'' then validateUSM c = None else sn_Community c \<noteq> [] \<and> rejectUSMSettings c = None)"
proof -
  have both: "(case x of None \<Rightarrow> y | Some e \<Rightarrow> Some e) = None \<longleftrightarrow> x = None \<and> y = None" for x y :: "config_error option"
    by (cases x) simp_all
  have "validateUSM c = None \<longleftrightarrow> sn_Community c = [] \<and> sn_Username c \<noteq> [] \<and>
      sn_SecurityLevel c \<in> {''noAuthNoPriv'', ''authNoPriv'', ''authPriv''} \<and>
      usm_secret_ok (sn_SecurityLevel c \<noteq> ''noAuthNoPriv'') snmpAuthProtocols (sn_AuthProtocol c) (sn_AuthPassphrase c) \<and>
      usm_secret_ok (sn_SecurityLevel c = ''authPriv'') snmpPrivProtocols (sn_PrivProtocol c) (sn_PrivPassphrase c)"
    by (auto simp: validateUSM_def security_level_def both validateUSMSecret_None consts_simps)
  then show ?thesis unfolding access_ok_def rejectUSMSettings_None snmpAuthProtocols_def snmpPrivProtocols_def by auto
qed

definition snmp_ok :: "SNMPConfig \<Rightarrow> bool" where
  "snmp_ok c \<longleftrightarrow> sn_Target c \<noteq> [] \<and> sn_Port c \<noteq> 0 \<and> 1 \<le> sn_TimeoutSeconds c \<and>
    sn_TimeoutSeconds c \<le> 60 \<and> access_ok c \<and> vars_ok c"

lemma normalizeSNMPVersion_ok:
  assumes "normalizeSNMPVersion c = Inr c'"
  shows "access_ok c' \<and> sn_Target c' = sn_Target c \<and> sn_Port c' = sn_Port c \<and> sn_TimeoutSeconds c' = sn_TimeoutSeconds c"
  using assms by (auto simp: normalizeSNMPVersion_def access_ok_checks Let_def split: if_splits option.splits)

lemma normalizeSNMPVersion_id: "access_ok c \<Longrightarrow> normalizeSNMPVersion c = Inr c"
  by (auto simp: normalizeSNMPVersion_def access_ok_checks Let_def)

lemma access_ok_same: "same_access c c' \<Longrightarrow> access_ok c' = access_ok c"
  by (simp add: access_ok_def same_access_fields)

lemma access_ok_timeout: "access_ok (c\<lparr>sn_TimeoutSeconds := t\<rparr>) = access_ok c"
  by (simp add: access_ok_def)

lemma normalizeSNMP_ok:
  assumes "normalizeSNMP c = Inr c'"
  shows "snmp_ok c'"
proof -
  define c0 where "c0 = (if sn_Port c = 0 then c\<lparr>sn_Port := 161\<rparr> else c)"
  obtain c1 where c1: "normalizeSNMPVersion c0 = Inr c1" and target: "sn_Target c \<noteq> []"
    using assms unfolding normalizeSNMP_def c0_def [symmetric] by (auto simp: andThen_Inr split: if_splits)
  define c2 where "c2 = (if sn_TimeoutSeconds c1 = 0 then c1\<lparr>sn_TimeoutSeconds := defaultSNMPTimeoutSeconds\<rparr> else c1)"
  have r: "ResolveSNMPVars c2 = Inr c'" and t: "1 \<le> sn_TimeoutSeconds c2" "sn_TimeoutSeconds c2 \<le> maxSNMPTimeoutSeconds"
    using assms target unfolding normalizeSNMP_def c0_def [symmetric]
    by (auto simp: c1 Let_def c2_def split: if_splits)
  have v: "access_ok c1" "sn_Target c1 = sn_Target c0" "sn_Port c1 = sn_Port c0"
    using normalizeSNMPVersion_ok [OF c1] by simp_all
  have "access_ok c2" "sn_Target c2 \<noteq> []" "sn_Port c2 \<noteq> 0"
    using v target by (auto simp: c2_def access_ok_timeout c0_def)
  then have a: "access_ok c'" "sn_Target c' \<noteq> []" "sn_Port c' \<noteq> 0"
    "1 \<le> sn_TimeoutSeconds c'" "sn_TimeoutSeconds c' \<le> maxSNMPTimeoutSeconds"
    using ResolveSNMPVars_ok(2) [OF r] t by (simp_all add: access_ok_same same_access_fields)
  then show "snmp_ok c'" using ResolveSNMPVars_ok(1) [OF r] by (simp add: snmp_ok_def maxSNMPTimeoutSeconds_def)
qed

lemma normalizeSNMP_id: "snmp_ok c \<Longrightarrow> normalizeSNMP c = Inr c"
  by (simp add: snmp_ok_def normalizeSNMP_def maxSNMPTimeoutSeconds_def normalizeSNMPVersion_id ResolveSNMPVars_id Let_def)

interpretation nut_settings: normalizer normalizeNUT nut_ok
  by unfold_locales (auto dest: normalizeNUT_ok intro: normalizeNUT_id)

interpretation snmp_vars: normalizer ResolveSNMPVars vars_ok
  by unfold_locales (auto dest: ResolveSNMPVars_ok intro: ResolveSNMPVars_id)

interpretation snmp_settings: normalizer normalizeSNMP snmp_ok
  by unfold_locales (auto dest: normalizeSNMP_ok intro: normalizeSNMP_id)

end
