(* ===== verification/Snmp.thy ===== *)
theory Snmp
  imports Nut ConfigSources
begin

text \<open>
  \<open>internal/master/snmp.go\<close>: reading the UPS over SNMP. The library \<open>gosnmp\<close> is a parameter:
  connecting and the GET request are arguments, a packet is what the library returns.
\<close>

section \<open>The client\<close>

datatype msg_flags = NoAuthNoPriv | AuthNoPriv | AuthPriv

text \<open>The documented values are 0, 1 and 3, so \<open>flags & AuthNoPriv\<close> is set for the last two.\<close>

definition uses_auth :: "msg_flags \<Rightarrow> bool" where
  "uses_auth f = (f \<noteq> NoAuthNoPriv)"

datatype snmp_version = Version1 | Version2c | Version3

text \<open>The fields \<open>newSNMPClient\<close> sets; protocols are named as in the configuration, \<open>None\<close> is \<open>NoAuth\<close> or \<open>NoPriv\<close>.\<close>

record snmp_client =
  gs_Target :: string
  gs_Port :: "16 word"
  gs_Timeout :: duration
  gs_Retries :: nat
  gs_Version :: snmp_version
  gs_Community :: string
  gs_MsgFlags :: "msg_flags option"
  gs_UserName :: string
  gs_Auth :: "(string \<times> string) option"
  gs_Priv :: "(string \<times> string) option"

datatype snmp_error =
    UnsupportedLevel string
  | UnsupportedAuth string
  | UnsupportedPriv string
  | ConnectFailed
  | GetFailed
  | AgentError nat nat
  | VariableCount nat
  | NotAvailable string
  | NonInteger string
  | NegativeReading string
  | RuntimeTicks string

definition snmp_base :: "SNMPConfig \<Rightarrow> snmp_client" where
  "snmp_base cfg = \<lparr>gs_Target = sn_Target cfg, gs_Port = sn_Port cfg,
     gs_Timeout = wrap64 (sn_TimeoutSeconds cfg * second), gs_Retries = 1, gs_Version = Version1, gs_Community = [],
     gs_MsgFlags = None, gs_UserName = [], gs_Auth = None, gs_Priv = None\<rparr>"

text \<open>The keys of the two tables of \<open>gosnmp\<close> constants.\<close>

definition gosnmpAuthProtocols :: "string list" where
  "gosnmpAuthProtocols = [''MD5'', ''SHA'', ''SHA224'', ''SHA256'', ''SHA384'', ''SHA512'']"

definition gosnmpPrivProtocols :: "string list" where
  "gosnmpPrivProtocols = [''DES'', ''AES'', ''AES192'', ''AES256'', ''AES192C'', ''AES256C'']"

definition newSNMPClient :: "SNMPConfig \<Rightarrow> snmp_error + snmp_client" where
  "newSNMPClient cfg =
    (if sn_Version cfg \<noteq> ''3'' then
       Inr ((snmp_base cfg)\<lparr>gs_Version := (if sn_Version cfg = ''1'' then Version1 else Version2c),
         gs_Community := sn_Community cfg\<rparr>)
     else case (if sn_SecurityLevel cfg = SNMPSecurityNoAuthNoPriv then Some NoAuthNoPriv
                else if sn_SecurityLevel cfg = SNMPSecurityAuthNoPriv then Some AuthNoPriv
                else if sn_SecurityLevel cfg = SNMPSecurityAuthPriv then Some AuthPriv else None) of
       None \<Rightarrow> Inl (UnsupportedLevel (sn_SecurityLevel cfg))
     | Some flags \<Rightarrow>
        if uses_auth flags \<and> sn_AuthProtocol cfg \<notin> set gosnmpAuthProtocols then Inl (UnsupportedAuth (sn_AuthProtocol cfg))
        else if flags = AuthPriv \<and> sn_PrivProtocol cfg \<notin> set gosnmpPrivProtocols then Inl (UnsupportedPriv (sn_PrivProtocol cfg))
        else Inr ((snmp_base cfg)\<lparr>gs_Version := Version3, gs_MsgFlags := Some flags, gs_UserName := sn_Username cfg,
          gs_Auth := (if uses_auth flags then Some (sn_AuthProtocol cfg, sn_AuthPassphrase cfg) else None),
          gs_Priv := (if flags = AuthPriv then Some (sn_PrivProtocol cfg, sn_PrivPassphrase cfg) else None)\<rparr>))"

section \<open>The packet\<close>

datatype snmp_type =
    Integer | Gauge32 | Counter32 | Uinteger32 | TimeTicks
  | NoSuchObject | NoSuchInstance | EndOfMibView | OtherType nat

text \<open>\<open>pdu_Value\<close> is what \<open>gosnmp.ToBigInt(value).Int64()\<close> makes of the value.\<close>

record SnmpPDU =
  pdu_Type :: snmp_type
  pdu_Value :: int

record SnmpPacket =
  pk_Error :: nat
  pk_ErrorIndex :: nat
  pk_Variables :: "SnmpPDU list"

definition decodeIntVariable :: "string \<Rightarrow> SnmpPDU \<Rightarrow> snmp_error + int" where
  "decodeIntVariable oid v =
    (if pdu_Type v \<in> {Integer, Gauge32, Counter32, Uinteger32, TimeTicks} then Inr (pdu_Value v)
     else if pdu_Type v \<in> {NoSuchObject, NoSuchInstance, EndOfMibView} then Inl (NotAvailable oid)
     else Inl (NonInteger oid))"

text \<open>The three pointers of a loaded configuration are set.\<close>

definition decodeUPSPacket :: "SNMPConfig \<Rightarrow> SnmpPacket \<Rightarrow> snmp_error + UPSStatus" where
  "decodeUPSPacket cfg packet =
    (let onBattery = the (sn_OnBattery cfg); charge = the (sn_Charge cfg); runtime = the (sn_Runtime cfg)
     in if pk_Error packet \<noteq> 0 then Inl (AgentError (pk_Error packet) (pk_ErrorIndex packet))
        else case pk_Variables packet of
          [v0, v1, v2] \<Rightarrow>
            andThen (decodeIntVariable (sv_OID onBattery) v0) (\<lambda>batteryState.
            andThen (decodeIntVariable (vv_OID charge) v1) (\<lambda>chargeValue.
            andThen (decodeIntVariable (vv_OID runtime) v2) (\<lambda>runtimeValue.
              if chargeValue < 0 then Inl (NegativeReading (vv_OID charge))
              else if runtimeValue < 0 then Inl (NegativeReading (vv_OID runtime))
              else if pdu_Type v2 = TimeTicks \<and> vv_Unit runtime \<noteq> RuntimeUnitTimeTicks
              then Inl (RuntimeTicks (vv_OID runtime))
              else Inr \<lparr>ups_OnBattery = (batteryState \<in> set (sv_Values onBattery)), ups_LowBattery = False,
                     ups_BatteryCharge = Some chargeValue,
                     ups_RuntimeMinutes = Some (runtimeToMinutes runtimeValue (vv_Unit runtime))\<rparr>)))
        | vs \<Rightarrow> Inl (VariableCount (length vs)))"

definition ReadSNMPStatus ::
  "(snmp_client \<Rightarrow> bool) \<Rightarrow> (snmp_client \<Rightarrow> string list \<Rightarrow> SnmpPacket option) \<Rightarrow> SNMPConfig \<Rightarrow> snmp_error + UPSStatus" where
  "ReadSNMPStatus Connect Get cfg =
    andThen (newSNMPClient cfg) (\<lambda>client.
      if \<not> Connect client then Inl ConnectFailed
      else case Get client [sv_OID (the (sn_OnBattery cfg)), vv_OID (the (sn_Charge cfg)), vv_OID (the (sn_Runtime cfg))] of
        None \<Rightarrow> Inl GetFailed
      | Some packet \<Rightarrow> decodeUPSPacket cfg packet)"

section \<open>Validated settings are usable\<close>

lemma known_protocols:
  "set gosnmpAuthProtocols = set snmpAuthProtocols" "set gosnmpPrivProtocols = set snmpPrivProtocols"
  by (simp_all add: gosnmpAuthProtocols_def snmpAuthProtocols_def gosnmpPrivProtocols_def snmpPrivProtocols_def)

lemma USM_secret:
  "validateUSMSecret used pre protocol passphrase protocols = None \<Longrightarrow> used \<Longrightarrow>
    protocol \<in> set protocols \<and> minUSMPassphraseLength \<le> length passphrase"
  by (simp add: validateUSMSecret_def split: if_splits)

lemma USM_secrets:
  assumes "validateUSM c = None"
  obtains auth priv where "sn_Username c \<noteq> []" "security_level (sn_SecurityLevel c) = Some (auth, priv)"
    "auth \<Longrightarrow> sn_AuthProtocol c \<in> set snmpAuthProtocols \<and> minUSMPassphraseLength \<le> length (sn_AuthPassphrase c)"
    "priv \<Longrightarrow> sn_PrivProtocol c \<in> set snmpPrivProtocols \<and> minUSMPassphraseLength \<le> length (sn_PrivPassphrase c)"
proof (cases "security_level (sn_SecurityLevel c)")
  case None
  with assms show thesis by (simp add: validateUSM_def split: if_splits)
next
  case (Some level)
  obtain auth priv where level: "level = (auth, priv)" by (cases level)
  have user: "sn_Username c \<noteq> []"
    and a: "validateUSMSecret auth ''auth'' (sn_AuthProtocol c) (sn_AuthPassphrase c) snmpAuthProtocols = None"
    and p: "validateUSMSecret priv ''priv'' (sn_PrivProtocol c) (sn_PrivPassphrase c) snmpPrivProtocols = None"
    using assms unfolding validateUSM_def Some level by (simp_all split: if_splits option.splits)
  show thesis
    by (rule that [OF user Some [unfolded level] USM_secret [OF a] USM_secret [OF p]])
qed

text \<open>
  SNMP settings that pass validation always give a client, and its security is the one
  asked for: below version 3 the community is not empty; in version 3 there is a user name, an
  authentication protocol with a passphrase of at least 8 characters exactly from
  \<open>authNoPriv\<close> on, and a privacy protocol with such a passphrase exactly for \<open>authPriv\<close>.
\<close>

theorem validated_snmp_usable:
  assumes "normalizeSNMP c = Inr c'"
  shows "\<exists>client. newSNMPClient c' = Inr client \<and>
    (if gs_Version client = Version3
     then gs_UserName client \<noteq> [] \<and>
       (gs_Auth client = None \<longleftrightarrow> sn_SecurityLevel c' = SNMPSecurityNoAuthNoPriv) \<and>
       (gs_Priv client \<noteq> None \<longleftrightarrow> sn_SecurityLevel c' = SNMPSecurityAuthPriv) \<and>
       (\<forall>(protocol, passphrase) \<in> set_option (gs_Auth client) \<union> set_option (gs_Priv client). 8 \<le> length passphrase)
     else gs_Community client \<noteq> [])"
proof -
  have ok: "access_ok c'" using normalizeSNMP_ok(1) [OF assms] by (simp add: snmp_ok_def)
  show ?thesis
  proof (cases "sn_Version c' = ''3''")
    case False
    with ok show ?thesis by (auto simp: newSNMPClient_def access_ok_checks)
  next
    case True
    with ok have v: "validateUSM c' = None" by (simp add: access_ok_checks)
    obtain auth priv where user: "sn_Username c' \<noteq> []" and level: "security_level (sn_SecurityLevel c') = Some (auth, priv)"
      and a: "auth \<Longrightarrow> sn_AuthProtocol c' \<in> set snmpAuthProtocols \<and> minUSMPassphraseLength \<le> length (sn_AuthPassphrase c')"
      and p: "priv \<Longrightarrow> sn_PrivProtocol c' \<in> set snmpPrivProtocols \<and> minUSMPassphraseLength \<le> length (sn_PrivPassphrase c')"
      using USM_secrets [OF v] by blast
    have ne: "SNMPSecurityNoAuthNoPriv \<noteq> SNMPSecurityAuthNoPriv" "SNMPSecurityNoAuthNoPriv \<noteq> SNMPSecurityAuthPriv"
      "SNMPSecurityAuthNoPriv \<noteq> SNMPSecurityAuthPriv" by (simp_all add: consts_simps)
    show ?thesis
      using True level a p user ne known_protocols
      by (auto simp: newSNMPClient_def security_level_def uses_auth_def snmp_base_def minUSMPassphraseLength_def split: if_splits)
  qed
qed

definition example_snmp :: SNMPConfig where
  "example_snmp = \<lparr>sn_Target = ''10.0.0.5'', sn_Port = 0, sn_Version = ''v3'', sn_TimeoutSeconds = 0, sn_Community = [],
     sn_Username = ''ups'', sn_SecurityLevel = ''authNoPriv'', sn_AuthProtocol = ''SHA'', sn_AuthPassphrase = ''longenough'',
     sn_PrivProtocol = [], sn_PrivPassphrase = [], sn_Profile = ''apc'', sn_OnBattery = None, sn_Charge = None,
     sn_Runtime = None\<rparr>"

lemma example_snmp_loads: "\<exists>c'. normalizeSNMP example_snmp = Inr c'"
proof -
  have "\<exists>p. map_of snmpProfiles ''apc'' = Some p" by (simp add: snmpProfiles_def consts_simps)
  then obtain p where "map_of snmpProfiles ''apc'' = Some p" ..
  then show ?thesis
    by (simp add: normalizeSNMP_def normalizeSNMPVersion_def example_snmp_def validateUSM_def validateUSMSecret_def
        security_level_def consts_simps snmpAuthProtocols_def minUSMPassphraseLength_def Let_def ResolveSNMPVars_def
        resolveOnBattery_def resolveCharge_def resolveRuntime_def defaultSNMPTimeoutSeconds_def maxSNMPTimeoutSeconds_def)
qed

theorem validated_snmp_usable_witness: "\<exists>c' client. normalizeSNMP example_snmp = Inr c' \<and> newSNMPClient c' = Inr client"
proof -
  obtain c' where c': "normalizeSNMP example_snmp = Inr c'" using example_snmp_loads ..
  from validated_snmp_usable [OF c'] c' show ?thesis by blast
qed

section \<open>The two sources agree\<close>

text \<open>A runtime of \<open>y\<close> seconds as an agent reports it in whole units.\<close>

definition agent_runtime :: "string \<Rightarrow> rat \<Rightarrow> int" where
  "agent_runtime unit y =
    (if unit = ''minutes'' then \<lfloor>y\<rfloor> div 60 else if unit = ''seconds'' then \<lfloor>y\<rfloor> else \<lfloor>100 * y\<rfloor>)"

definition integer_types :: "snmp_type set" where
  "integer_types = {Integer, Gauge32, Counter32, Uinteger32, TimeTicks}"

lemma agent_runtime_sign: "agent_runtime unit y < 0 \<longleftrightarrow> y < 0"
  by (simp add: agent_runtime_def pos_imp_zdiv_neg_iff)

lemma sdiv_div: "0 \<le> a \<Longrightarrow> 0 < b \<Longrightarrow> a sdiv b = a div b" for a b :: int
  by (cases "a = 0") (simp_all add: signed_divide_int_def)

lemma agent_runtime_minutes:
  assumes "unit \<in> {''minutes'', ''seconds'', ''timeticks''}" "0 \<le> y"
  shows "runtimeToMinutes (agent_runtime unit y) unit = \<lfloor>y\<rfloor> div 60"
proof -
  have "100 * \<lfloor>y\<rfloor> \<le> \<lfloor>100 * y\<rfloor>" "\<lfloor>100 * y\<rfloor> < 100 * \<lfloor>y\<rfloor> + 100" by linarith+
  moreover have "t div 6000 = n div 60" if "100 * n \<le> t" "t < 100 * n + 100" for t n :: int
  proof -
    have "t div 100 = n" using that by (intro int_div_pos_eq [of _ _ _ "t - 100 * n"]) auto
    then show ?thesis using zdiv_zmult2_eq [of 60 t 100] by simp
  qed
  ultimately have ticks: "\<lfloor>100 * y\<rfloor> div 6000 = \<lfloor>y\<rfloor> div 60" by blast
  have "0 \<le> \<lfloor>y\<rfloor>" "0 \<le> \<lfloor>100 * y\<rfloor>" using assms(2) by simp_all
  with ticks assms(1) show ?thesis
    by (auto simp: runtimeToMinutes_def agent_runtime_def consts_simps sdiv_div)
qed

text \<open>
  C36. The same state of the UPS gives the same reading from either source, but for the low-battery flag,
  which the SNMP variables do not carry: there it is never set. Here \<open>upsd\<close> reports the status
  by OL and OB flags, a charge and a runtime in seconds, and an SNMP agent the output source, that charge and that
  runtime, in whole units of minutes, seconds or hundredths of a second as configured. A negative charge or
  runtime is refused from either. An SNMP reply is also refused when the agent reports an error, when a
  value is not of an integer type, when time ticks come where another unit is configured, and when
  there are not three values.
\<close>

theorem sources_agree:
  assumes "map_of vars ''ups.status'' = Some status"
    and "''OB'' \<in> set (Fields status) \<or> ''OL'' \<in> set (Fields status)"
    and ob: "''OB'' \<in> set (Fields status) \<longleftrightarrow> pdu_Value v0 \<in> set (sv_Values (the (sn_OnBattery cfg)))"
    and "map_of vars ''battery.charge'' = Some c" "ParseFloat c = Finite x" "x \<le> of_int MaxInt32"
    and "map_of vars ''battery.runtime'' = Some r" "ParseFloat r = Finite y" "y \<le> of_int MaxInt32"
    and packet: "pk_Variables packet = [v0, v1, v2]" "pdu_Value v1 = \<lfloor>x\<rfloor>" "pdu_Value v2 = agent_runtime unit y"
    and unit: "vv_Unit (the (sn_Runtime cfg)) = unit" "unit \<in> {''minutes'', ''seconds'', ''timeticks''}"
  shows "(if x < 0 \<or> y < 0 then isl (decodeNUTVars ParseFloat vars) \<and> isl (decodeUPSPacket cfg packet)
     else \<exists>reading. decodeNUTVars ParseFloat vars = Inr reading \<and>
       ups_LowBattery reading = (''LB'' \<in> set (Fields status)) \<and>
       (if pk_Error packet = 0 \<and> pdu_Type ` {v0, v1, v2} \<subseteq> integer_types \<and> (pdu_Type v2 = TimeTicks \<longrightarrow> unit = ''timeticks'')
        then decodeUPSPacket cfg packet = Inr (reading\<lparr>ups_LowBattery := False\<rparr>)
        else isl (decodeUPSPacket cfg packet))) \<and>
    (\<forall>other. length (pk_Variables other) \<noteq> 3 \<longrightarrow> isl (decodeUPSPacket cfg other))"
proof -
  have nut: "decodeNUTVars ParseFloat vars = Inr \<lparr>ups_OnBattery = (''OB'' \<in> set (Fields status)), ups_LowBattery = (''LB'' \<in> set (Fields status)),
      ups_BatteryCharge = Some \<lfloor>x\<rfloor>, ups_RuntimeMinutes = Some (\<lfloor>y\<rfloor> div 60)\<rparr>" if "0 \<le> x" "0 \<le> y"
    using assms(1,2,4-9) that
    by (auto simp: decodeNUTVars_def Let_def list_ex_iff optionalNUTNumber_def parseNUTNumber_def runtimeToMinutes_seconds)
  have nut_refused: "isl (decodeNUTVars ParseFloat vars)" if "x < 0 \<or> y < 0"
    using assms(1,4-9) that by (auto simp: decodeNUTVars_def Let_def optionalNUTNumber_def parseNUTNumber_def split: sum.split)
  have decode: "decodeIntVariable oid v = Inr (pdu_Value v)" if "pdu_Type v \<in> integer_types" for oid v
    using that by (simp add: decodeIntVariable_def integer_types_def)
  have refused: "decodeIntVariable oid v = Inl (if pdu_Type v \<in> {NoSuchObject, NoSuchInstance, EndOfMibView} then NotAvailable oid else NonInteger oid)" if "pdu_Type v \<notin> integer_types" for oid v
    using that by (auto simp: decodeIntVariable_def integer_types_def)
  have snmp: "decodeUPSPacket cfg packet = Inr \<lparr>ups_OnBattery = (''OB'' \<in> set (Fields status)), ups_LowBattery = False,
      ups_BatteryCharge = Some \<lfloor>x\<rfloor>, ups_RuntimeMinutes = Some (\<lfloor>y\<rfloor> div 60)\<rparr>"
    if "0 \<le> x" "0 \<le> y" "pk_Error packet = 0" "pdu_Type ` {v0, v1, v2} \<subseteq> integer_types" "pdu_Type v2 = TimeTicks \<longrightarrow> unit = ''timeticks''"
    using that packet ob agent_runtime_minutes [OF unit(2)] agent_runtime_sign [of unit y]
    by (auto simp: decodeUPSPacket_def Let_def decode unit(1) consts_simps)
  have snmp_refused: "isl (decodeUPSPacket cfg packet)"
    if "x < 0 \<or> y < 0 \<or> \<not> (pk_Error packet = 0 \<and> pdu_Type ` {v0, v1, v2} \<subseteq> integer_types \<and> (pdu_Type v2 = TimeTicks \<longrightarrow> unit = ''timeticks''))"
    using that packet agent_runtime_sign [of unit y]
    by (cases "pdu_Type v0 \<in> integer_types"; cases "pdu_Type v1 \<in> integer_types"; cases "pdu_Type v2 \<in> integer_types")
      (auto simp: decodeUPSPacket_def Let_def decode refused unit(1) consts_simps)
  have "isl (decodeUPSPacket cfg other)" if "length (pk_Variables other) \<noteq> 3" for other
    using that by (auto simp: decodeUPSPacket_def Let_def split: list.split)
  with nut nut_refused snmp snmp_refused show ?thesis by auto
qed

text \<open>An APC card and a NUT driver report 87 percent and ten minutes on battery.\<close>

theorem sources_agree_witness:
  "\<exists>reading. decodeNUTVars (\<lambda>v. if v = ''87'' then Finite 87 else Finite 600)
      [(''ups.status'', ''OB LB''), (''battery.charge'', ''87''), (''battery.runtime'', ''600'')] = Inr reading \<and>
    decodeUPSPacket (example_snmp\<lparr>sn_OnBattery := Some \<lparr>sv_OID = ''.1'', sv_Values = [3]\<rparr>,
        sn_Charge := Some \<lparr>vv_OID = ''.2'', vv_Unit = []\<rparr>,
        sn_Runtime := Some \<lparr>vv_OID = ''.3'', vv_Unit = RuntimeUnitTimeTicks\<rparr>\<rparr>)
      \<lparr>pk_Error = 0, pk_ErrorIndex = 0, pk_Variables = [\<lparr>pdu_Type = Integer, pdu_Value = 3\<rparr>,
        \<lparr>pdu_Type = Gauge32, pdu_Value = 87\<rparr>, \<lparr>pdu_Type = TimeTicks, pdu_Value = 60000\<rparr>]\<rparr> =
      Inr (reading\<lparr>ups_LowBattery := False\<rparr>)"
proof -
  have f: "Fields ''OB LB'' = [''OB'', ''LB'']"
    by (simp add: Fields_def fields_from.simps strip_one_def unicode_spaces_def)
  let ?vars = "[(''ups.status'', ''OB LB''), (''battery.charge'', ''87''), (''battery.runtime'', ''600'')]"
  let ?cfg = "example_snmp\<lparr>sn_OnBattery := Some \<lparr>sv_OID = ''.1'', sv_Values = [3]\<rparr>,
      sn_Charge := Some \<lparr>vv_OID = ''.2'', vv_Unit = []\<rparr>, sn_Runtime := Some \<lparr>vv_OID = ''.3'', vv_Unit = RuntimeUnitTimeTicks\<rparr>\<rparr>"
  let ?v = "\<lparr>pdu_Type = Integer, pdu_Value = 3\<rparr>" let ?w = "\<lparr>pdu_Type = Gauge32, pdu_Value = 87\<rparr>"
  let ?z = "\<lparr>pdu_Type = TimeTicks, pdu_Value = 60000\<rparr>"
  show ?thesis
    using sources_agree [where vars = ?vars and cfg = ?cfg and packet = "\<lparr>pk_Error = 0, pk_ErrorIndex = 0, pk_Variables = [?v, ?w, ?z]\<rparr>"
        and status = "''OB LB''" and c = "''87''" and x = 87 and r = "''600''" and y = 600 and ?v0.0 = ?v and ?v1.0 = ?w and ?v2.0 = ?z
        and unit = "''timeticks''" and ParseFloat = "\<lambda>v. if v = ''87'' then Finite 87 else Finite 600"]
    by (auto simp: f MaxInt32_def consts_simps agent_runtime_def integer_types_def)
qed

end
