(* ===== verification/ConfigTree.thy ===== *)
theory ConfigTree
  imports ConfigSources
begin

text \<open>
  The part of \<open>internal/config/config.go\<close> that looks at the YAML tree: which keys are present,
  to tell an explicit zero from an absent key and to report removed keys. \<open>yaml.v3\<close> is a
  parameter: a tree is what it parses.
\<close>

datatype yaml_kind = DocumentNode | SequenceNode | MappingNode | ScalarNode | AliasNode | NoKind

datatype yaml_node = YamlNode (node_Kind: yaml_kind) (node_Value: string) (node_Line: int) (node_Content: "yaml_node list")

text \<open>The loop of \<open>mappingEntry\<close> over the pairs of a mapping.\<close>

fun mapping_pairs :: "string \<Rightarrow> yaml_node list \<Rightarrow> (yaml_node \<times> yaml_node) option" where
  "mapping_pairs key (k # v # rest) = (if node_Value k = key then Some (k, v) else mapping_pairs key rest)"
| "mapping_pairs key _ = None"

definition mappingEntry :: "yaml_node \<Rightarrow> string \<Rightarrow> (yaml_node \<times> yaml_node) option" where
  "mappingEntry node key = (if node_Kind node \<noteq> MappingNode then None else mapping_pairs key (node_Content node))"

lemma mapping_pairs_in: "mapping_pairs key xs = Some (k, v) \<Longrightarrow> k \<in> set xs \<and> v \<in> set xs \<and> node_Value k = key"
  by (induction key xs rule: mapping_pairs.induct) (auto split: if_splits)

lemma size_content: "x \<in> set (node_Content node) \<Longrightarrow> size x < size node"
  by (cases node) (auto dest: size_list_estimation' [OF _ order_refl, of _ _ size])

lemma mappingEntry_size: "mappingEntry node key = Some (k, v) \<Longrightarrow> size v < size node"
  by (auto simp: mappingEntry_def dest!: mapping_pairs_in intro: size_content split: if_splits)

definition dot :: "string \<Rightarrow> string \<Rightarrow> string" where
  "dot label key = (if label \<noteq> [] then label @ ''.'' else []) @ key"

text \<open>
  \<open>lookupKey\<close>: the key node and its label. A path is never empty and never ends in \<open>*\<close>, where
  the code would panic; the model returns nothing there.
\<close>

function lookupKey :: "yaml_node \<Rightarrow> string list \<Rightarrow> string \<Rightarrow> (yaml_node \<times> string) option"
  and lookupItems :: "yaml_node list \<Rightarrow> string list \<Rightarrow> string \<Rightarrow> nat \<Rightarrow> (yaml_node \<times> string) option" where
  "lookupKey node path label =
    (if node_Kind node = DocumentNode \<and> node_Content node \<noteq> [] then lookupKey (hd (node_Content node)) path label
     else case path of
       [] \<Rightarrow> None
     | p # ps \<Rightarrow>
        if p = ''*'' then
          (if node_Kind node \<noteq> SequenceNode then None else lookupItems (node_Content node) ps label 0)
        else (case mappingEntry node p of
            None \<Rightarrow> None
          | Some (key, val) \<Rightarrow>
             if ps = [] then Some (key, dot label p) else lookupKey val ps (dot label p)))"
| "lookupItems [] ps label i = None"
| "lookupItems (item # items) ps label i =
    (case lookupKey item ps (label @ ''['' @ Itoa (int i) @ '']'') of
       Some found \<Rightarrow> Some found
     | None \<Rightarrow> lookupItems items ps label (Suc i))"
  by pat_completeness auto
termination
proof (relation "measure (\<lambda>x. case x of Inl (node, _, _) \<Rightarrow> 2 * size node | Inr (items, _, _, _) \<Rightarrow> Suc (2 * size_list size items))",
    goal_cases)
  case 2
  then show ?case using size_content [OF hd_in_set] by simp
next
  case (3 node path label p ps)
  then show ?case by (cases node) simp
next
  case (4 node path label p ps x key val)
  then show ?case using mappingEntry_size [of node p key val] by simp
qed auto

declare lookupKey.simps [simp del] lookupItems.simps [simp del]

definition findKey :: "yaml_node \<Rightarrow> string list \<Rightarrow> bool" where
  "findKey root path = (lookupKey root path [] \<noteq> None)"

definition sequenceItems :: "yaml_node \<Rightarrow> string \<Rightarrow> yaml_node list" where
  "sequenceItems root key =
    (let node = (if node_Kind root = DocumentNode \<and> node_Content root \<noteq> [] then hd (node_Content root) else root)
     in case mappingEntry node key of
          None \<Rightarrow> []
        | Some (_, val) \<Rightarrow> if node_Kind val \<noteq> SequenceNode then [] else node_Content val)"

record removedKey =
  rk_path :: "string list"
  rk_hint :: string

definition removedMasterKeys :: "removedKey list" where
  "removedMasterKeys =
    [\<lparr>rk_path = [''auth_tokens''], rk_hint = ''use enrollment_tokens''\<rparr>,
     \<lparr>rk_path = [''shutdown_policy''], rk_hint = ''use shutdown_policies''\<rparr>,
     \<lparr>rk_path = [''shutdown_policies'', ''*'', ''when'', ''on_battery''],
      rk_hint = ''policies are only evaluated while on battery; delete it''\<rparr>,
     \<lparr>rk_path = [''snmp'', ''output_source_oid''], rk_hint = ''use snmp.profile or snmp.on_battery''\<rparr>,
     \<lparr>rk_path = [''snmp'', ''charge_oid''], rk_hint = ''use snmp.profile or snmp.charge''\<rparr>,
     \<lparr>rk_path = [''snmp'', ''runtime_minutes_oid''], rk_hint = ''use snmp.profile or snmp.runtime''\<rparr>]"

text \<open>The first removed key that occurs.\<close>

fun removedKeyError :: "yaml_node \<Rightarrow> removedKey list \<Rightarrow> config_error option" where
  "removedKeyError root [] = None"
| "removedKeyError root (key # keys) =
    (case lookupKey root (rk_path key) [] of
       Some (node, label) \<Rightarrow> Some (RemovedKey (node_Line node) label (rk_hint key))
     | None \<Rightarrow> removedKeyError root keys)"

text \<open>
  \<open>loadYAML\<close>: the outcome of reading the file, of parsing the tree and of the strict decoding
  into the struct (where an empty document gives the zero struct).
\<close>

definition loadYAML ::
  "string + (string + yaml_node) \<Rightarrow> (yaml_node \<Rightarrow> string + 'c) \<Rightarrow> removedKey list \<Rightarrow> config_error + (yaml_node \<times> 'c)" where
  "loadYAML content decode removed =
    (case content of
       Inl err \<Rightarrow> Inl (ReadConfig err)
     | Inr (Inl err) \<Rightarrow> Inl (DecodeConfig err)
     | Inr (Inr root) \<Rightarrow>
        (case removedKeyError root removed of
           Some e \<Rightarrow> Inl e
         | None \<Rightarrow>
            (case decode root of
               Inl err \<Rightarrow> Inl (DecodeConfig err)
             | Inr cfg \<Rightarrow> Inr (root, cfg))))"

section \<open>Which keys are found\<close>

text \<open>
  A key node occurs at a path below a node: through the document, the first entry of a mapping
  with the key, and, for \<open>*\<close>, some item of a sequence.
\<close>

inductive occurs :: "yaml_node \<Rightarrow> string list \<Rightarrow> yaml_node \<Rightarrow> bool" where
  document: "node_Kind node = DocumentNode \<Longrightarrow> node_Content node = child # rest \<Longrightarrow> occurs child path k \<Longrightarrow> occurs node path k"
| here: "p \<noteq> ''*'' \<Longrightarrow> mappingEntry node p = Some (k, val) \<Longrightarrow> occurs node [p] k"
| below: "p \<noteq> ''*'' \<Longrightarrow> mappingEntry node p = Some (key, val) \<Longrightarrow> ps \<noteq> [] \<Longrightarrow> occurs val ps k \<Longrightarrow> occurs node (p # ps) k"
| item: "node_Kind node = SequenceNode \<Longrightarrow> x \<in> set (node_Content node) \<Longrightarrow> occurs x ps k \<Longrightarrow> occurs node (''*'' # ps) k"

lemma mappingEntry_kind: "mappingEntry node p = Some kv \<Longrightarrow> node_Kind node = MappingNode"
  by (simp add: mappingEntry_def split: if_splits)

text \<open>What \<open>lookupKey\<close> does at each kind of node.\<close>

lemma lookupKey_document:
  "node_Kind node = DocumentNode \<Longrightarrow> node_Content node = child # rest \<Longrightarrow> lookupKey node path label = lookupKey child path label"
  by (simp add: lookupKey.simps [of node])

lemma lookupKey_entry:
  "p \<noteq> ''*'' \<Longrightarrow> mappingEntry node p = Some (key, val) \<Longrightarrow>
    lookupKey node (p # ps) label = (if ps = [] then Some (key, dot label p) else lookupKey val ps (dot label p))"
  using mappingEntry_kind [of node p "(key, val)"] by (simp add: lookupKey.simps [of node])

lemma lookupKey_missing:
  "p \<noteq> ''*'' \<Longrightarrow> node_Kind node = MappingNode \<Longrightarrow> mappingEntry node p = None \<Longrightarrow> lookupKey node (p # ps) label = None"
  by (simp add: lookupKey.simps [of node])

lemma lookupKey_items:
  "node_Kind node = SequenceNode \<Longrightarrow> lookupKey node (''*'' # ps) label = lookupItems (node_Content node) ps label 0"
  by (simp add: lookupKey.simps [of node])

lemma lookupKey_cases:
  assumes "lookupKey node path label = Some found"
  obtains (document) child rest where "node_Kind node = DocumentNode" "node_Content node = child # rest"
    | (entry) p ps key val where "p \<noteq> ''*''" "path = p # ps" "mappingEntry node p = Some (key, val)"
    | (items) ps where "path = ''*'' # ps" "node_Kind node = SequenceNode"
proof (cases "node_Kind node = DocumentNode \<and> node_Content node \<noteq> []")
  case True
  then show ?thesis using document by (cases "node_Content node") auto
next
  case False
  with assms obtain p ps where path: "path = p # ps" by (cases path) (auto simp: lookupKey.simps [of node])
  with False assms show ?thesis using entry items
    by (cases "p = ''*''"; cases "mappingEntry node p") (auto simp: lookupKey.simps [of node] split: if_splits)
qed

lemma lookup_occurs:
  "lookupKey node path label = Some (k, l) \<Longrightarrow> occurs node path k"
  "lookupItems items ps label i = Some (k, l) \<Longrightarrow> \<exists>x \<in> set items. occurs x ps k"
proof (induction node path label and items ps label i rule: lookupKey_lookupItems.induct)
  case (1 node path label)
  from "1.prems" show ?case
  proof (cases rule: lookupKey_cases)
    case (document child rest)
    with 1 have "occurs child path k" by (simp add: lookupKey_document)
    with document show ?thesis by (rule occurs.document)
  next
    case (entry p ps key val)
    note kind = mappingEntry_kind [OF entry(3)]
    show ?thesis
    proof (cases "ps = []")
      case True
      with entry "1.prems" show ?thesis by (auto simp: lookupKey_entry intro: occurs.here)
    next
      case False
      with entry "1.prems" have "lookupKey val ps (dot label p) = Some (k, l)" by (simp add: lookupKey_entry)
      then have "occurs val ps k" using "1.IH"(3) entry kind False by simp
      with entry False show ?thesis by (simp add: occurs.below)
    qed
  next
    case (items ps)
    with "1.prems" have "lookupItems (node_Content node) ps label 0 = Some (k, l)" by (simp add: lookupKey_items)
    then obtain x where "x \<in> set (node_Content node)" "occurs x ps k" using "1.IH"(2) items by auto
    with items show ?thesis by (simp add: occurs.item)
  qed
qed (auto simp: lookupItems.simps split: option.splits)

lemma lookupItems_found:
  "x \<in> set items \<Longrightarrow> (\<And>l. lookupKey x ps l \<noteq> None) \<Longrightarrow> lookupItems items ps label i \<noteq> None"
proof (induction items arbitrary: i)
  case (Cons y items)
  let ?l = "label @ ''['' @ Itoa (int i) @ '']''"
  show ?case
  proof (cases "lookupKey y ps ?l")
    case None
    with Cons.prems(2) [of ?l] Cons.prems(1) have "x \<in> set items" by auto
    with None Cons show ?thesis by (simp add: lookupItems.simps)
  qed (simp add: lookupItems.simps)
qed simp

lemma occurs_lookup: "occurs node path k \<Longrightarrow> lookupKey node path label \<noteq> None"
proof (induction node path k arbitrary: label rule: occurs.induct)
  case (item node x ps k)
  then show ?case using lookupItems_found [of x "node_Content node" ps label 0] by (simp add: lookupKey_items)
qed (auto simp: lookupKey_document lookupKey_entry)

lemma findKey_iff: "findKey root path \<longleftrightarrow> (\<exists>k. occurs root path k)"
  using lookup_occurs(1) [of root path "[]"] occurs_lookup [of root path _ "[]"] by (auto simp: findKey_def)

lemma removedKeyError_None: "removedKeyError root removed = None \<longleftrightarrow> (\<forall>key \<in> set removed. \<not> findKey root (rk_path key))"
  by (induction removed) (auto simp: findKey_def split: option.splits)

lemma removedKeyError_Some:
  "removedKeyError root removed = Some e \<Longrightarrow>
    \<exists>key \<in> set removed. \<exists>k label. occurs root (rk_path key) k \<and> e = RemovedKey (node_Line k) label (rk_hint key)"
  by (induction removed) (auto split: option.splits dest: lookup_occurs(1))

text \<open>
  A key a release has removed is never ignored: decoding is reached exactly when no
  removed key occurs anywhere it is looked for, in any item of a list included; otherwise the
  load fails with the line of an occurrence of such a key and the hint for it.
\<close>

theorem removed_keys_reported:
  "case removedKeyError root removed of
      None \<Rightarrow> (\<forall>key \<in> set removed. \<nexists>k. occurs root (rk_path key) k) \<and>
        loadYAML (Inr (Inr root)) decode removed =
          (case decode root of Inl err \<Rightarrow> Inl (DecodeConfig err) | Inr cfg \<Rightarrow> Inr (root, cfg))
    | Some e \<Rightarrow> loadYAML (Inr (Inr root)) decode removed = Inl e \<and>
        (\<exists>key \<in> set removed. \<exists>k label. occurs root (rk_path key) k \<and> e = RemovedKey (node_Line k) label (rk_hint key))"
proof (cases "removedKeyError root removed")
  case None
  then show ?thesis using removedKeyError_None [of root removed] by (simp add: loadYAML_def findKey_iff)
next
  case (Some e)
  then show ?thesis using removedKeyError_Some [OF Some] by (simp add: loadYAML_def)
qed

definition scalar :: "string \<Rightarrow> yaml_node" where "scalar v = YamlNode ScalarNode v 1 []"

definition yaml_map :: "yaml_node list \<Rightarrow> yaml_node" where "yaml_map xs = YamlNode MappingNode [] 1 xs"

text \<open>A configuration of an old release: \<open>on_battery\<close> in the second policy.\<close>

definition on_battery_key :: yaml_node where "on_battery_key = YamlNode ScalarNode ''on_battery'' 7 []"

definition old_policies :: yaml_node where
  "old_policies = YamlNode SequenceNode [] 1
     [yaml_map [], yaml_map [scalar ''when'', yaml_map [on_battery_key, scalar ''true'']]]"

definition old_config :: yaml_node where
  "old_config = YamlNode DocumentNode [] 1 [yaml_map [scalar ''shutdown_policies'', old_policies]]"

lemma old_config_on_battery: "occurs old_config [''shutdown_policies'', ''*'', ''when'', ''on_battery''] on_battery_key"
proof -
  let ?when = "yaml_map [on_battery_key, scalar ''true'']"
  have a: "occurs ?when [''on_battery''] on_battery_key"
    by (rule occurs.here) (simp_all add: mappingEntry_def yaml_map_def on_battery_key_def)
  have "mappingEntry (yaml_map [scalar ''when'', ?when]) ''when'' = Some (scalar ''when'', ?when)"
    by (simp add: mappingEntry_def yaml_map_def scalar_def)
  from occurs.below [OF _ this _ a] have "occurs (yaml_map [scalar ''when'', ?when]) [''when'', ''on_battery''] on_battery_key"
    by simp
  then have pols: "occurs old_policies [''*'', ''when'', ''on_battery''] on_battery_key"
    by (intro occurs.item [where x = "yaml_map [scalar ''when'', ?when]"]) (simp_all add: old_policies_def)
  have "mappingEntry (yaml_map [scalar ''shutdown_policies'', old_policies]) ''shutdown_policies'' =
      Some (scalar ''shutdown_policies'', old_policies)"
    by (simp add: mappingEntry_def yaml_map_def scalar_def)
  from occurs.below [OF _ this _ pols] have "occurs (yaml_map [scalar ''shutdown_policies'', old_policies])
      [''shutdown_policies'', ''*'', ''when'', ''on_battery''] on_battery_key" by (simp del: mapping_pairs.simps)
  from occurs.document [OF _ _ this] show ?thesis by (simp add: old_config_def)
qed

theorem removed_keys_reported_witness:
  "case removedKeyError old_config removedMasterKeys of
     None \<Rightarrow> False
   | Some e \<Rightarrow> loadYAML (Inr (Inr old_config)) (\<lambda>_. Inr ()) removedMasterKeys = Inl e"
proof -
  have "removedMasterKeys ! 2 \<in> set removedMasterKeys" by (rule nth_mem) (simp add: removedMasterKeys_def)
  moreover have "occurs old_config (rk_path (removedMasterKeys ! 2)) on_battery_key"
    using old_config_on_battery by (simp add: removedMasterKeys_def)
  ultimately show ?thesis using removed_keys_reported [of removedMasterKeys old_config "\<lambda>_. Inr ()"]
    by (cases "removedKeyError old_config removedMasterKeys") auto
qed

end
