(* ===== verification/ConfigLoad.thy ===== *)
theory ConfigLoad
  imports ConfigTree
begin

text \<open>
  The rest of \<open>internal/config/config.go\<close>: the defaults and the validation of
  \<open>LoadMasterConfig\<close> and \<open>LoadSlaveConfig\<close>, in the order of the code. The YAML parser and
  decoder, the files read and the PEM decoder are parameters.
\<close>

section \<open>TLS settings\<close>

definition EnabledForServer :: "TLSConfig \<Rightarrow> bool" where
  "EnabledForServer c =
    (if tls_Disabled c then False
     else tls_Enabled c \<or> tls_CertFile c \<noteq> [] \<or> tls_KeyFile c \<noteq> [] \<or> tls_CAFile c \<noteq> [] \<or> tls_RequireClientCert c)"

definition EnabledForClient :: "TLSConfig \<Rightarrow> bool" where
  "EnabledForClient c =
    (if tls_Disabled c then False
     else tls_Enabled c \<or> tls_CertFile c \<noteq> [] \<or> tls_KeyFile c \<noteq> [] \<or> tls_CAFile c \<noteq> [] \<or> tls_ServerName c \<noteq> [] \<or>
       tls_InsecureSkipVerify c)"

definition ValidateServer :: "TLSConfig \<Rightarrow> config_error option" where
  "ValidateServer c =
    (if tls_BindNodeIDToCert c \<and> \<not> tls_RequireClientCert c then Some (Requires ''tls.bind_node_id_to_cert'')
     else if tls_Disabled c then
       (if tls_Enabled c \<or> tls_CertFile c \<noteq> [] \<or> tls_KeyFile c \<noteq> [] \<or> tls_CAFile c \<noteq> [] \<or> tls_RequireClientCert c
        then Some (CannotCombine ''tls.disabled'') else None)
     else if \<not> EnabledForServer c then None
     else if tls_CertFile c = [] then Some (MustNotBeEmpty ''tls.cert_file'')
     else if tls_KeyFile c = [] then Some (MustNotBeEmpty ''tls.key_file'')
     else if tls_RequireClientCert c \<and> tls_CAFile c = [] then Some (MustNotBeEmpty ''tls.ca_file'')
     else if tls_CAFile c \<noteq> [] \<and> \<not> tls_RequireClientCert c then Some (Requires ''tls.ca_file'')
     else None)"

definition ValidateClient :: "TLSConfig \<Rightarrow> config_error option" where
  "ValidateClient c =
    (if tls_Disabled c then
       (if tls_Enabled c \<or> tls_CertFile c \<noteq> [] \<or> tls_KeyFile c \<noteq> [] \<or> tls_CAFile c \<noteq> [] \<or> tls_ServerName c \<noteq> [] \<or>
           tls_InsecureSkipVerify c
        then Some (CannotCombine ''tls.disabled'') else None)
     else if \<not> EnabledForClient c then None
     else if tls_CertFile c \<noteq> [] \<and> tls_KeyFile c = [] then Some (MustNotBeEmpty ''tls.key_file'')
     else if tls_KeyFile c \<noteq> [] \<and> tls_CertFile c = [] then Some (MustNotBeEmpty ''tls.cert_file'')
     else if tls_InsecureSkipVerify c \<and> tls_CAFile c \<noteq> [] then Some (CannotCombine ''tls.ca_file'')
     else None)"

section \<open>Secrets\<close>

definition placeholderSecrets :: "string list" where
  "placeholderSecrets = [''replace-with-strong-token'', ''replace-with-strong-admin-token'']"

definition validateSecret :: "string \<Rightarrow> string \<Rightarrow> config_error option" where
  "validateSecret field v =
    (if TrimSpace v = [] then Some (MustNotBeBlank field)
     else if v \<in> set placeholderSecrets then Some (StillPlaceholder field)
     else None)"

text \<open>The loop over \<open>enrollment_tokens\<close>, from index \<open>i\<close>.\<close>

fun validateTokens :: "nat \<Rightarrow> string list \<Rightarrow> config_error option" where
  "validateTokens i [] = None"
| "validateTokens i (token # tokens) =
    (case validateSecret (''enrollment_tokens['' @ Itoa (int i) @ '']'') token of
       Some e \<Rightarrow> Some e
     | None \<Rightarrow> validateTokens (Suc i) tokens)"

text \<open>\<open>if err := v; err != nil { return err }\<close> for a check that returns only an error.\<close>

definition check :: "'e option \<Rightarrow> 'e + 'b \<Rightarrow> 'e + 'b" where
  "check err rest = (case err of Some e \<Rightarrow> Inl e | None \<Rightarrow> rest)"

lemma check_Inr [simp]: "check err rest = Inr y \<longleftrightarrow> err = None \<and> rest = Inr y"
  by (simp add: check_def split: option.split)

lemma check_simps [simp]: "check None rest = rest" "check (Some e) rest = Inl e"
  by (simp_all add: check_def)

definition unless :: "bool \<Rightarrow> 'e \<Rightarrow> 'e option" where
  "unless cond e = (if cond then None else Some e)"

lemma unless_None [simp]: "unless cond e = None \<longleftrightarrow> cond"
  by (simp add: unless_def)

section \<open>Shutdown policies\<close>

definition maxChargePercent :: int where "maxChargePercent = 100"

text \<open>An explicit key whose condition is not set, in the order of the code.\<close>

definition explicit_zero :: "ShutdownPolicyWhen \<Rightarrow> yaml_node option \<Rightarrow> config_error option" where
  "explicit_zero when node =
    (case node of
       None \<Rightarrow> None
     | Some n \<Rightarrow>
        (case find (\<lambda>(key, isPositive). findKey n [''when'', key] \<and> \<not> isPositive)
            [(''charge_below'', pw_ChargeBelow when > 0), (''runtime_below'', pw_RuntimeBelow when > 0),
             (''ups_unreachable_for'', pw_UPSUnreachableFor when > 0)] of
           Some (key, _) \<Rightarrow> Some (NotPositive (''when.'' @ key))
         | None \<Rightarrow>
            if findKey n [''when'', ''low_battery''] \<and> \<not> pw_LowBattery when
            then Some (NotPositive ''when.low_battery'') else None))"

definition validatePolicyConditions :: "ShutdownPolicySpec \<Rightarrow> yaml_node option \<Rightarrow> config_error option" where
  "validatePolicyConditions p node =
    (let when = pol_When p
     in case explicit_zero when node of
          Some e \<Rightarrow> Some e
        | None \<Rightarrow>
           if pw_ChargeBelow when < 0 \<or> pw_ChargeBelow when > maxChargePercent then Some (OutOfRange ''when.charge_below'')
           else if pw_RuntimeBelow when < 0 then Some (MustNotBeNegative ''when.runtime_below'')
           else if pol_Duration p < 0 then Some (MustNotBeNegative ''duration'')
           else if pw_UPSUnreachableFor when < 0 then Some (MustNotBeNegative ''when.ups_unreachable_for'')
           else if pw_UPSUnreachableFor when = 0 then None
           else if pw_ChargeBelow when \<noteq> 0 \<or> pw_RuntimeBelow when \<noteq> 0 \<or> pw_LowBattery when
           then Some (CannotCombine ''when.ups_unreachable_for'')
           else if pol_Duration p \<noteq> 0 then Some (CannotCombine ''when.ups_unreachable_for'')
           else None)"

text \<open>The defaults of one policy: everyone as the target, and a reason.\<close>

definition fill_policy :: "ShutdownPolicySpec \<Rightarrow> ShutdownPolicySpec" where
  "fill_policy p =
    (let p1 = (if \<not> pt_All (pol_Target p) \<and> pt_Tags (pol_Target p) = [] \<and> pt_NodeIDs (pol_Target p) = []
               then p\<lparr>pol_Target := (pol_Target p)\<lparr>pt_All := True\<rparr>\<rparr> else p)
     in if pol_Reason p1 = [] then p1\<lparr>pol_Reason := ''policy '' @ pol_Name p @ '' triggered''\<rparr> else p1)"

definition policy_error :: "bool \<Rightarrow> yaml_node option \<Rightarrow> string set \<Rightarrow> nat \<Rightarrow> ShutdownPolicySpec \<Rightarrow> config_error option" where
  "policy_error usesNUT node seen i p =
    (if pol_Name p = [] then Some (MustNotBeEmpty (''shutdown_policies['' @ Itoa (int i) @ ''].name''))
     else if pol_Name p \<in> seen then Some (DuplicatePolicyName i (pol_Name p))
     else case validatePolicyConditions p node of
       Some e \<Rightarrow> Some (InPolicy i (pol_Name p) e)
     | None \<Rightarrow>
        if pw_LowBattery (pol_When p) \<and> \<not> usesNUT then Some (InPolicy i (pol_Name p) (Requires ''when.low_battery''))
        else None)"

text \<open>The loop of \<open>normalizeShutdownPolicies\<close> from index \<open>i\<close>, with the names seen.\<close>

fun normalizePolicies ::
  "bool \<Rightarrow> yaml_node list \<Rightarrow> string set \<Rightarrow> nat \<Rightarrow> ShutdownPolicySpec list \<Rightarrow> config_error + ShutdownPolicySpec list" where
  "normalizePolicies usesNUT nodes seen i [] = Inr []"
| "normalizePolicies usesNUT nodes seen i (p # ps) =
    check (policy_error usesNUT (if i < length nodes then Some (nodes ! i) else None) seen i p)
      (andThen (normalizePolicies usesNUT nodes (insert (pol_Name p) seen) (Suc i) ps) (\<lambda>qs.
       Inr (fill_policy p # qs)))"

definition normalizeShutdownPolicies :: "yaml_node \<Rightarrow> MasterConfig \<Rightarrow> config_error + MasterConfig" where
  "normalizeShutdownPolicies root cfg =
    (if mc_ShutdownPolicies cfg = [] then Inl NoPolicies
     else andThen (normalizePolicies (UsesNUT cfg) (sequenceItems root ''shutdown_policies'') {} 0 (mc_ShutdownPolicies cfg)) (\<lambda>ps.
       Inr (cfg\<lparr>mc_ShutdownPolicies := ps\<rparr>)))"

section \<open>The CA handed to new slaves\<close>

text \<open>
  What \<open>os.ReadFile\<close>, \<open>AppendCertsFromPEM\<close> and \<open>pem.Decode\<close> do. \<open>pem_Decode\<close> gives the type and
  bytes of the next block and the rest.
\<close>

record pki =
  pki_ReadFile :: "string \<Rightarrow> string + string"
  pki_hasCertificate :: "string \<Rightarrow> bool"
  pki_Decode :: "string \<Rightarrow> (string \<times> string \<times> string) option"

text \<open>
  The blocks that repeated calls of \<open>pem.Decode\<close> return. The documented decoder returns a rest
  that is shorter than its input; the guard only makes the loop total for every parameter.
\<close>

function pem_blocks :: "(string \<Rightarrow> (string \<times> string \<times> string) option) \<Rightarrow> string \<Rightarrow> (string \<times> string) list" where
  "pem_blocks decode data =
    (case decode data of
       None \<Rightarrow> []
     | Some (type, bytes, rest) \<Rightarrow>
        if length rest < length data then (type, bytes) # pem_blocks decode rest else [(type, bytes)])"
  by pat_completeness auto
termination by (relation "measure (length \<circ> snd)") auto

declare pem_blocks.simps [simp del]

definition certificate_block :: string where [consts_simps]: "certificate_block = ''CERTIFICATE''"

definition validateInstallCAFile :: "pki \<Rightarrow> MasterConfig \<Rightarrow> config_error option" where
  "validateInstallCAFile pki cfg =
    (let file = mc_InstallCAFile cfg
     in if file = [] then None
        else if \<not> EnabledForServer (mc_TLS cfg) then Some (Requires ''install_ca_file'')
        else case pki_ReadFile pki file of
          Inl err \<Rightarrow> Some (ReadFile err)
        | Inr content \<Rightarrow>
           if \<not> pki_hasCertificate pki content then Some (NoCertificate file)
           else map_option (\<lambda>block. NotOnlyCertificates file (fst block))
             (find (\<lambda>block. fst block \<noteq> certificate_block) (pem_blocks (pki_Decode pki) content)))"

section \<open>The UPS source\<close>

definition normalizeUPSSource :: "yaml_node \<Rightarrow> MasterConfig \<Rightarrow> config_error + MasterConfig" where
  "normalizeUPSSource root cfg =
    (let hasSNMP = findKey root [''snmp''];
         hasNUT = findKey root [''nut'']
     in if hasSNMP \<and> hasNUT then Inl (CannotCombine ''snmp'')
        else if hasNUT then andThen (normalizeNUT (mc_NUT cfg)) (\<lambda>nut. Inr (cfg\<lparr>mc_NUT := nut\<rparr>))
        else if \<not> hasSNMP then Inl NoUPSSource
        else andThen (normalizeSNMP (mc_SNMP cfg)) (\<lambda>snmp. Inr (cfg\<lparr>mc_SNMP := snmp\<rparr>)))"

section \<open>The master\<close>

definition DefaultShutdownCommandTimeout :: duration where "DefaultShutdownCommandTimeout = 2 * minute"

definition defaultShutdownCommand :: "string list" where
  "defaultShutdownCommand = [''/usr/bin/sudo'', ''-n'', ''/sbin/shutdown'', ''-h'', ''now'']"

definition default_to :: "'a \<Rightarrow> 'a \<Rightarrow> 'a \<Rightarrow> 'a" where
  "default_to zero d v = (if v = zero then d else v)"

text \<open>The addresses, the file and the enrollment settings.\<close>

definition master_access :: "MasterConfig \<Rightarrow> config_error + MasterConfig" where
  "master_access cfg0 =
    (let cfg = cfg0\<lparr>mc_ListenAddr := default_to [] '':9000'' (mc_ListenAddr cfg0),
           mc_AdminListenAddr := default_to [] ''127.0.0.1:9001'' (mc_AdminListenAddr cfg0),
           mc_StateFile := default_to [] ''data/master-state.json'' (mc_StateFile cfg0)\<rparr>
     in check (validateTokens 0 (mc_EnrollmentTokens cfg))
       (let cfg1 = cfg\<lparr>mc_Enrollment := default_to [] EnrollmentOpen (mc_Enrollment cfg)\<rparr>
        in check (unless (mc_Enrollment cfg1 = EnrollmentOpen \<or> mc_Enrollment cfg1 = EnrollmentClosed)
             (InvalidValue ''enrollment'' (mc_Enrollment cfg1)))
          (check (unless (\<not> (mc_Enrollment cfg1 = EnrollmentOpen \<and> mc_EnrollmentTokens cfg1 = []))
             (MustNotBeEmpty ''enrollment_tokens''))
          (check (unless (mc_AdminToken cfg1 \<noteq> []) (MustNotBeEmpty ''admin_token''))
          (check (validateSecret ''admin_token'' (mc_AdminToken cfg1)) (Inr cfg1))))))"

definition master_intervals :: "MasterConfig \<Rightarrow> config_error + MasterConfig" where
  "master_intervals cfg0 =
    (let cfg = cfg0\<lparr>mc_PollInterval := default_to 0 (10 * second) (mc_PollInterval cfg0),
           mc_CommandTimeout := default_to 0 (30 * second) (mc_CommandTimeout cfg0),
           mc_OfflineAfter := default_to 0 (45 * second) (mc_OfflineAfter cfg0)\<rparr>
     in check (unless (\<not> mc_PollInterval cfg \<le> 0) (NotPositive ''poll_interval''))
       (check (unless (\<not> mc_CommandTimeout cfg \<le> 0) (NotPositive ''command_timeout''))
       (check (unless (\<not> mc_OfflineAfter cfg \<le> 0) (NotPositive ''offline_after'')) (Inr cfg))))"

definition local_settings :: "yaml_node \<Rightarrow> LocalShutdownConfig \<Rightarrow> config_error + LocalShutdownConfig" where
  "local_settings root lc =
    check (unless (\<not> (lc_Enabled lc \<and> lc_Command lc = Some [])) (MustNotBeEmpty ''local_shutdown.command''))
      (let lc1 = (if slice (lc_Command lc) = [] then lc\<lparr>lc_Command := Some defaultShutdownCommand\<rparr> else lc)
       in check (unless (\<not> (findKey root [''local_shutdown'', ''max_wait''] \<and> lc_MaxWait lc1 \<le> 0))
            (NotPositive ''local_shutdown.max_wait''))
         (let lc2 = lc1\<lparr>lc_MaxWait := default_to 0 (15 * minute) (lc_MaxWait lc1)\<rparr>
          in check (unless (\<not> (findKey root [''local_shutdown'', ''emergency_runtime_minutes''] \<and> lc_EmergencyRuntimeMinutes lc2 \<le> 0))
               (NotPositive ''local_shutdown.emergency_runtime_minutes''))
            (let lc3 = lc2\<lparr>lc_EmergencyRuntimeMinutes := default_to 0 15 (lc_EmergencyRuntimeMinutes lc2)\<rparr>
             in check (unless (\<not> lc_CommandTimeout lc3 < 0) (MustNotBeNegative ''local_shutdown.command_timeout''))
               (Inr (lc3\<lparr>lc_CommandTimeout := default_to 0 DefaultShutdownCommandTimeout (lc_CommandTimeout lc3)\<rparr>)))))"

definition master_local :: "yaml_node \<Rightarrow> MasterConfig \<Rightarrow> config_error + MasterConfig" where
  "master_local root cfg =
    andThen (local_settings root (mc_LocalShutdown cfg)) (\<lambda>lc. Inr (cfg\<lparr>mc_LocalShutdown := lc\<rparr>))"

definition master_tls :: "pki \<Rightarrow> MasterConfig \<Rightarrow> config_error + MasterConfig" where
  "master_tls pki cfg =
    check (ValidateServer (mc_TLS cfg))
      (check (unless ((at_CertFile (mc_AdminTLS cfg) = []) = (at_KeyFile (mc_AdminTLS cfg) = [])) (Requires ''admin_tls''))
      (check (validateInstallCAFile pki cfg) (Inr cfg)))"

definition master_unreachable :: "MasterConfig \<Rightarrow> config_error + MasterConfig" where
  "master_unreachable cfg =
    (let lc = mc_LocalShutdown cfg
     in check (unless (\<not> lc_UnreachableAfter lc < 0) (MustNotBeNegative ''local_shutdown.unreachable_after''))
       (Inr (cfg\<lparr>mc_LocalShutdown := lc\<lparr>lc_UnreachableAfter := default_to 0 (lc_MaxWait lc) (lc_UnreachableAfter lc)\<rparr>\<rparr>)))"

definition LoadMasterConfig ::
  "pki \<Rightarrow> (yaml_node \<Rightarrow> string + MasterConfig) \<Rightarrow> string + (string + yaml_node) \<Rightarrow> config_error + MasterConfig" where
  "LoadMasterConfig pki decode content =
    andThen (loadYAML content decode removedMasterKeys) (\<lambda>(root, cfg).
    andThen (master_access cfg) (\<lambda>cfg.
    andThen (master_intervals cfg) (\<lambda>cfg.
    andThen (master_local root cfg) (\<lambda>cfg.
    andThen (master_tls pki cfg) (\<lambda>cfg.
    andThen (normalizeUPSSource root cfg) (\<lambda>cfg.
    andThen (master_unreachable cfg) (\<lambda>cfg.
    normalizeShutdownPolicies root cfg)))))))"

section \<open>The slave\<close>

definition LoadSlaveConfig :: "(yaml_node \<Rightarrow> string + SlaveConfig) \<Rightarrow> string + (string + yaml_node) \<Rightarrow> config_error + SlaveConfig" where
  "LoadSlaveConfig decode content =
    andThen (loadYAML content decode []) (\<lambda>(root, cfg).
    check (unless (sc_NodeID cfg \<noteq> []) (MustNotBeEmpty ''node_id''))
    (check (unless (sc_MasterAddr cfg \<noteq> []) (MustNotBeEmpty ''master_addr''))
    (check (unless (sc_Token cfg \<noteq> []) (MustNotBeEmpty ''token''))
    (check (validateSecret ''token'' (sc_Token cfg))
    (let cfg1 = cfg\<lparr>sc_ReconnectInterval := default_to 0 (5 * second) (sc_ReconnectInterval cfg),
           sc_StateFile := default_to [] ''data/slave-state.json'' (sc_StateFile cfg)\<rparr>
     in check (ValidateClient (sc_TLS cfg1))
       (check (unless (\<not> (findKey root [''shutdown_command''] \<and> sc_ShutdownCommand cfg1 = [])) (MustNotBeEmpty ''shutdown_command''))
       (let cfg2 = cfg1\<lparr>sc_ShutdownCommand := default_to [] defaultShutdownCommand (sc_ShutdownCommand cfg1)\<rparr>
        in check (unless (\<not> sc_ShutdownCommandTimeout cfg2 < 0) (MustNotBeNegative ''shutdown_command_timeout''))
          (Inr (cfg2\<lparr>sc_ShutdownCommandTimeout :=
             default_to 0 DefaultShutdownCommandTimeout (sc_ShutdownCommandTimeout cfg2)\<rparr>)))))))))"

section \<open>What a loaded configuration satisfies\<close>

definition secret_ok :: "string \<Rightarrow> bool" where
  "secret_ok v \<longleftrightarrow> TrimSpace v \<noteq> [] \<and> v \<noteq> ''replace-with-strong-token'' \<and> v \<noteq> ''replace-with-strong-admin-token''"

definition conditions_ok :: "ShutdownPolicySpec \<Rightarrow> bool" where
  "conditions_ok p \<longleftrightarrow>
    0 \<le> pw_ChargeBelow (pol_When p) \<and> pw_ChargeBelow (pol_When p) \<le> 100 \<and>
    0 \<le> pw_RuntimeBelow (pol_When p) \<and> 0 \<le> pol_Duration p \<and> 0 \<le> pw_UPSUnreachableFor (pol_When p) \<and>
    (0 < pw_UPSUnreachableFor (pol_When p) \<longrightarrow>
      pw_ChargeBelow (pol_When p) = 0 \<and> pw_RuntimeBelow (pol_When p) = 0 \<and> \<not> pw_LowBattery (pol_When p) \<and> pol_Duration p = 0)"

text \<open>A condition whose key is written under \<open>when\<close> is set to something.\<close>

definition written_conditions_set :: "ShutdownPolicySpec \<Rightarrow> yaml_node \<Rightarrow> bool" where
  "written_conditions_set p n \<longleftrightarrow>
    (findKey n [''when'', ''charge_below''] \<longrightarrow> pw_ChargeBelow (pol_When p) > 0) \<and>
    (findKey n [''when'', ''runtime_below''] \<longrightarrow> pw_RuntimeBelow (pol_When p) > 0) \<and>
    (findKey n [''when'', ''ups_unreachable_for''] \<longrightarrow> pw_UPSUnreachableFor (pol_When p) > 0) \<and>
    (findKey n [''when'', ''low_battery''] \<longrightarrow> pw_LowBattery (pol_When p))"

definition policy_ok :: "bool \<Rightarrow> ShutdownPolicySpec \<Rightarrow> bool" where
  "policy_ok usesNUT p \<longleftrightarrow> pol_Name p \<noteq> [] \<and> conditions_ok p \<and> (pw_LowBattery (pol_When p) \<longrightarrow> usesNUT) \<and>
    (pt_All (pol_Target p) \<or> pt_Tags (pol_Target p) \<noteq> [] \<or> pt_NodeIDs (pol_Target p) \<noteq> []) \<and> pol_Reason p \<noteq> []"

definition local_config_ok :: "LocalShutdownConfig \<Rightarrow> bool" where
  "local_config_ok lc \<longleftrightarrow> slice (lc_Command lc) \<noteq> [] \<and> lc_MaxWait lc > 0 \<and> lc_EmergencyRuntimeMinutes lc > 0 \<and>
    lc_CommandTimeout lc > 0 \<and> lc_UnreachableAfter lc > 0"

text \<open>
  TLS settings of the listener, written out independently of the checks: switched off, none of them is
  set; in use, there is a certificate with its key, and a CA exactly when client certificates are required,
  which binding node ids to certificates needs.
\<close>

definition server_tls_ok :: "TLSConfig \<Rightarrow> bool" where
  "server_tls_ok c \<longleftrightarrow> (tls_BindNodeIDToCert c \<longrightarrow> tls_RequireClientCert c) \<and>
    (tls_Disabled c \<longrightarrow> \<not> tls_Enabled c \<and> tls_CertFile c = [] \<and> tls_KeyFile c = [] \<and> tls_CAFile c = [] \<and> \<not> tls_RequireClientCert c) \<and>
    (tls_Enabled c \<or> tls_CertFile c \<noteq> [] \<or> tls_KeyFile c \<noteq> [] \<or> tls_CAFile c \<noteq> [] \<or> tls_RequireClientCert c \<longrightarrow>
       tls_CertFile c \<noteq> [] \<and> tls_KeyFile c \<noteq> [] \<and> (tls_RequireClientCert c \<longleftrightarrow> tls_CAFile c \<noteq> []))"

text \<open>The CA for new slaves needs a listener with a certificate, and its file holds nothing but certificates.\<close>

definition install_ca_ok :: "pki \<Rightarrow> MasterConfig \<Rightarrow> bool" where
  "install_ca_ok pki cfg \<longleftrightarrow> mc_InstallCAFile cfg \<noteq> [] \<longrightarrow> tls_CertFile (mc_TLS cfg) \<noteq> [] \<and>
    (\<exists>content. pki_ReadFile pki (mc_InstallCAFile cfg) = Inr content \<and> pki_hasCertificate pki content \<and>
      (\<forall>block \<in> set (pem_blocks (pki_Decode pki) content). fst block = ''CERTIFICATE''))"

definition source_ok :: "MasterConfig \<Rightarrow> bool" where
  "source_ok cfg \<longleftrightarrow> (if UsesNUT cfg then nut_ok (mc_NUT cfg) else snmp_ok (mc_SNMP cfg))"

definition access_config_ok :: "MasterConfig \<Rightarrow> bool" where
  "access_config_ok cfg \<longleftrightarrow>
    mc_ListenAddr cfg \<noteq> [] \<and> mc_AdminListenAddr cfg \<noteq> [] \<and> mc_StateFile cfg \<noteq> [] \<and>
    list_all secret_ok (mc_EnrollmentTokens cfg) \<and> secret_ok (mc_AdminToken cfg) \<and>
    (mc_Enrollment cfg = EnrollmentOpen \<and> mc_EnrollmentTokens cfg \<noteq> [] \<or> mc_Enrollment cfg = EnrollmentClosed)"

definition intervals_ok :: "MasterConfig \<Rightarrow> bool" where
  "intervals_ok cfg \<longleftrightarrow> mc_PollInterval cfg > 0 \<and> mc_CommandTimeout cfg > 0 \<and> mc_OfflineAfter cfg > 0"

definition tls_config_ok :: "pki \<Rightarrow> MasterConfig \<Rightarrow> bool" where
  "tls_config_ok pki cfg \<longleftrightarrow> server_tls_ok (mc_TLS cfg) \<and>
    (at_CertFile (mc_AdminTLS cfg) = []) = (at_KeyFile (mc_AdminTLS cfg) = []) \<and> install_ca_ok pki cfg"

definition master_config_ok :: "pki \<Rightarrow> MasterConfig \<Rightarrow> bool" where
  "master_config_ok pki cfg \<longleftrightarrow>
    access_config_ok cfg \<and> intervals_ok cfg \<and> local_config_ok (mc_LocalShutdown cfg) \<and> tls_config_ok pki cfg \<and>
    source_ok cfg \<and> mc_ShutdownPolicies cfg \<noteq> [] \<and> list_all (policy_ok (UsesNUT cfg)) (mc_ShutdownPolicies cfg) \<and>
    distinct (map pol_Name (mc_ShutdownPolicies cfg))"

named_theorems config_ok
lemmas config_ok_defs [config_ok] = access_config_ok_def intervals_ok_def local_config_ok_def tls_config_ok_def

subsection \<open>Each stage\<close>

lemma validateSecret_None [simp]: "validateSecret field v = None \<longleftrightarrow> secret_ok v"
  by (simp add: validateSecret_def secret_ok_def placeholderSecrets_def)

lemma secret_ok_nonempty: "secret_ok v \<Longrightarrow> v \<noteq> []"
  by (auto simp: secret_ok_def TrimSpace_def)

lemma validateTokens_None [simp]: "validateTokens i tokens = None \<longleftrightarrow> list_all secret_ok tokens"
  by (induction i tokens rule: validateTokens.induct) (simp_all add: option.case_eq_if)

lemma default_to_simps [simp]: "d \<noteq> zero \<Longrightarrow> default_to zero d v \<noteq> zero" "v \<noteq> zero \<Longrightarrow> default_to zero d v = v"
  by (simp_all add: default_to_def)

lemma Enrollment_modes [simp]: "EnrollmentOpen \<noteq> []" "EnrollmentOpen \<noteq> EnrollmentClosed" "EnrollmentClosed \<noteq> EnrollmentOpen"
  "EnrollmentClosed \<noteq> []"
  by (simp_all add: consts_simps)

text \<open>Each stage accepts what its predicate describes and changes nothing in it.\<close>

lemma master_access_ok: "master_access cfg = Inr cfg' \<Longrightarrow> access_config_ok cfg'"
  by (auto simp: master_access_def access_config_ok_def Let_def)

lemma master_access_id: "access_config_ok cfg \<Longrightarrow> master_access cfg = Inr cfg"
  by (auto simp: master_access_def access_config_ok_def Let_def dest: secret_ok_nonempty)

lemma master_intervals_ok: "master_intervals cfg = Inr cfg' \<Longrightarrow> intervals_ok cfg'"
  by (auto simp: master_intervals_def intervals_ok_def Let_def)

lemma master_intervals_id: "intervals_ok cfg \<Longrightarrow> master_intervals cfg = Inr cfg"
  by (auto simp: master_intervals_def intervals_ok_def Let_def)

lemma ValidateServer_None: "ValidateServer c = None \<longleftrightarrow> server_tls_ok c"
  by (auto simp: ValidateServer_def server_tls_ok_def EnabledForServer_def)

lemma enabled_certificate: "server_tls_ok c \<Longrightarrow> EnabledForServer c \<longleftrightarrow> tls_CertFile c \<noteq> []"
  by (auto simp: server_tls_ok_def EnabledForServer_def)

lemma master_tls_ok: "master_tls pki cfg = Inr cfg' \<longleftrightarrow> cfg' = cfg \<and> tls_config_ok pki cfg"
proof -
  have "validateInstallCAFile pki cfg = None \<longleftrightarrow> install_ca_ok pki cfg" if "server_tls_ok (mc_TLS cfg)"
    using enabled_certificate [OF that]
    by (auto simp: validateInstallCAFile_def install_ca_ok_def certificate_block_def Let_def find_None_iff split: sum.splits)
  then show ?thesis by (auto simp: master_tls_def tls_config_ok_def ValidateServer_None)
qed

lemma local_settings_ok:
  assumes "local_settings root lc = Inr lc'"
    and "lc_MaxWait lc \<noteq> 0 \<Longrightarrow> findKey root [''local_shutdown'', ''max_wait'']"
    and "lc_EmergencyRuntimeMinutes lc \<noteq> 0 \<Longrightarrow> findKey root [''local_shutdown'', ''emergency_runtime_minutes'']"
  shows "slice (lc_Command lc') \<noteq> []" "lc_MaxWait lc' > 0" "lc_EmergencyRuntimeMinutes lc' > 0" "lc_CommandTimeout lc' > 0"
proof -
  define lc1 where "lc1 = (if slice (lc_Command lc) = [] then lc\<lparr>lc_Command := Some defaultShutdownCommand\<rparr> else lc)"
  have cmd: "slice (lc_Command lc1) \<noteq> []" and same: "lc_MaxWait lc1 = lc_MaxWait lc"
    "lc_EmergencyRuntimeMinutes lc1 = lc_EmergencyRuntimeMinutes lc" "lc_CommandTimeout lc1 = lc_CommandTimeout lc"
    by (simp_all add: lc1_def defaultShutdownCommand_def)
  have "lc' = lc1\<lparr>lc_MaxWait := default_to 0 (15 * minute) (lc_MaxWait lc),
      lc_EmergencyRuntimeMinutes := default_to 0 15 (lc_EmergencyRuntimeMinutes lc),
      lc_CommandTimeout := default_to 0 DefaultShutdownCommandTimeout (lc_CommandTimeout lc)\<rparr>"
    and "\<not> (findKey root [''local_shutdown'', ''max_wait''] \<and> lc_MaxWait lc \<le> 0)"
    and "\<not> (findKey root [''local_shutdown'', ''emergency_runtime_minutes''] \<and> lc_EmergencyRuntimeMinutes lc \<le> 0)"
    and "\<not> lc_CommandTimeout lc < 0"
    using assms(1) unfolding local_settings_def Let_def lc1_def [symmetric] by (simp_all add: same)
  then show "slice (lc_Command lc') \<noteq> []" "lc_MaxWait lc' > 0" "lc_EmergencyRuntimeMinutes lc' > 0" "lc_CommandTimeout lc' > 0"
    using cmd assms(2,3) by (auto simp: default_to_def duration_units DefaultShutdownCommandTimeout_def)
qed

lemma local_settings_id: "local_config_ok lc \<Longrightarrow> local_settings root lc = Inr lc"
  by (auto simp: local_config_ok_def local_settings_def Let_def)

lemma master_unreachable_ok:
  assumes "master_unreachable cfg = Inr cfg'" "lc_MaxWait (mc_LocalShutdown cfg) > 0"
  obtains after where "after > 0" "cfg' = cfg\<lparr>mc_LocalShutdown := (mc_LocalShutdown cfg)\<lparr>lc_UnreachableAfter := after\<rparr>\<rparr>"
proof
  let ?after = "default_to 0 (lc_MaxWait (mc_LocalShutdown cfg)) (lc_UnreachableAfter (mc_LocalShutdown cfg))"
  show "?after > 0" using assms by (simp add: master_unreachable_def Let_def default_to_def)
  show "cfg' = cfg\<lparr>mc_LocalShutdown := (mc_LocalShutdown cfg)\<lparr>lc_UnreachableAfter := ?after\<rparr>\<rparr>"
    using assms by (simp add: master_unreachable_def Let_def)
qed

lemma master_unreachable_id: "local_config_ok (mc_LocalShutdown cfg) \<Longrightarrow> master_unreachable cfg = Inr cfg"
  by (auto simp: master_unreachable_def local_config_ok_def Let_def)

lemma normalizeUPSSource_ok:
  assumes "normalizeUPSSource root cfg = Inr cfg'"
    and "nu_Host (mc_NUT cfg) \<noteq> [] \<Longrightarrow> findKey root [''nut'']"
  shows "source_ok cfg'" "\<exists>snmp nut. cfg' = cfg\<lparr>mc_SNMP := snmp, mc_NUT := nut\<rparr>"
proof -
  have "source_ok cfg' \<and> (\<exists>snmp nut. cfg' = cfg\<lparr>mc_SNMP := snmp, mc_NUT := nut\<rparr>)"
  proof (cases "findKey root [''nut'']")
    case True
    with assms obtain nut where nut: "normalizeNUT (mc_NUT cfg) = Inr nut" "cfg' = cfg\<lparr>mc_NUT := nut\<rparr>"
      by (auto simp: normalizeUPSSource_def andThen_Inr Let_def split: if_splits)
    then have eq: "cfg' = cfg\<lparr>mc_SNMP := mc_SNMP cfg, mc_NUT := nut\<rparr>" by simp
    have "source_ok cfg'" using normalizeNUT_ok [OF nut(1)] nut(2) by (simp add: source_ok_def UsesNUT_def nut_ok_def)
    with eq show ?thesis by blast
  next
    case False
    with assms obtain snmp where snmp: "normalizeSNMP (mc_SNMP cfg) = Inr snmp" "cfg' = cfg\<lparr>mc_SNMP := snmp\<rparr>"
      by (auto simp: normalizeUPSSource_def andThen_Inr Let_def split: if_splits)
    then have eq: "cfg' = cfg\<lparr>mc_SNMP := snmp, mc_NUT := mc_NUT cfg\<rparr>" by simp
    have "source_ok cfg'" using normalizeSNMP_ok [OF snmp(1)] False assms(2) snmp(2) by (auto simp: source_ok_def UsesNUT_def)
    with eq show ?thesis by blast
  qed
  then show "source_ok cfg'" "\<exists>snmp nut. cfg' = cfg\<lparr>mc_SNMP := snmp, mc_NUT := nut\<rparr>" by blast+
qed

lemma normalizeUPSSource_id:
  "source_ok cfg \<Longrightarrow> findKey root [''nut''] = UsesNUT cfg \<Longrightarrow> findKey root [''snmp''] = (\<not> UsesNUT cfg) \<Longrightarrow>
    normalizeUPSSource root cfg = Inr cfg"
  by (auto simp: normalizeUPSSource_def source_ok_def normalizeNUT_id normalizeSNMP_id Let_def split: if_splits)

subsection \<open>Policies\<close>

lemma validatePolicyConditions_None:
  "validatePolicyConditions p node = None \<longleftrightarrow> explicit_zero (pol_When p) node = None \<and> conditions_ok p"
  by (auto simp: validatePolicyConditions_def conditions_ok_def maxChargePercent_def Let_def split: option.split)

lemma explicit_zero_None: "explicit_zero (pol_When p) (Some n) = None \<longleftrightarrow> written_conditions_set p n"
  by (auto simp: explicit_zero_def written_conditions_set_def split: option.split)

lemma policy_error_None:
  "policy_error u node seen i p = None \<longleftrightarrow>
    pol_Name p \<noteq> [] \<and> pol_Name p \<notin> seen \<and> explicit_zero (pol_When p) node = None \<and> conditions_ok p \<and>
    (pw_LowBattery (pol_When p) \<longrightarrow> u)"
  by (auto simp: policy_error_def validatePolicyConditions_None [symmetric] split: option.split)

lemma fill_policy_keeps [simp]:
  "pol_Name (fill_policy p) = pol_Name p" "pol_When (fill_policy p) = pol_When p" "pol_Duration (fill_policy p) = pol_Duration p"
  by (simp_all add: fill_policy_def Let_def)

lemma fill_policy_filled [simp]:
  "pt_All (pol_Target (fill_policy p)) \<or> pt_Tags (pol_Target (fill_policy p)) \<noteq> [] \<or> pt_NodeIDs (pol_Target (fill_policy p)) \<noteq> []"
  "pol_Reason (fill_policy p) \<noteq> []"
  by (cases "\<not> pt_All (pol_Target p) \<and> pt_Tags (pol_Target p) = [] \<and> pt_NodeIDs (pol_Target p) = []";
      cases "pol_Reason p = []"; auto simp: fill_policy_def Let_def)+

lemma fill_policy_ok:
  "policy_ok u (fill_policy p) \<longleftrightarrow> pol_Name p \<noteq> [] \<and> conditions_ok p \<and> (pw_LowBattery (pol_When p) \<longrightarrow> u)"
  using fill_policy_filled [of p] by (auto simp: policy_ok_def conditions_ok_def)

lemma fill_policy_id: "policy_ok u p \<Longrightarrow> fill_policy p = p"
  by (auto simp: policy_ok_def fill_policy_def Let_def)

lemma normalizePolicies_ok:
  "normalizePolicies u nodes seen i ps = Inr qs \<Longrightarrow>
    list_all (policy_ok u) qs \<and> distinct (map pol_Name qs) \<and> pol_Name ` set qs \<inter> seen = {} \<and> length qs = length ps"
  by (induction u nodes seen i ps arbitrary: qs rule: normalizePolicies.induct)
    (fastforce simp: andThen_Inr policy_error_None fill_policy_ok)+

lemma normalizePolicies_written:
  "normalizePolicies u nodes seen i ps = Inr qs \<Longrightarrow> j < length qs \<Longrightarrow> i + j < length nodes \<Longrightarrow>
    written_conditions_set (qs ! j) (nodes ! (i + j))"
proof (induction u nodes seen i ps arbitrary: qs j rule: normalizePolicies.induct)
  case (2 u nodes seen i p ps)
  from "2.prems"(1) obtain rs where rs: "normalizePolicies u nodes (insert (pol_Name p) seen) (Suc i) ps = Inr rs"
    "qs = fill_policy p # rs" and err: "policy_error u (if i < length nodes then Some (nodes ! i) else None) seen i p = None"
    by (auto simp: andThen_Inr)
  show ?case
  proof (cases j)
    case 0
    with err "2.prems"(3) show ?thesis
      by (simp add: rs(2) policy_error_None explicit_zero_None written_conditions_set_def)
  next
    case (Suc k)
    with "2.IH" [OF rs(1), of k] "2.prems"(2,3) err show ?thesis by (simp add: rs(2))
  qed
qed simp

lemma normalizePolicies_id:
  "list_all (policy_ok u) ps \<Longrightarrow> distinct (map pol_Name ps) \<Longrightarrow> pol_Name ` set ps \<inter> seen = {} \<Longrightarrow>
    (\<forall>j < length ps. i + j < length nodes \<longrightarrow> explicit_zero (pol_When (ps ! j)) (Some (nodes ! (i + j))) = None) \<Longrightarrow>
    normalizePolicies u nodes seen i ps = Inr ps"
proof (induction u nodes seen i ps rule: normalizePolicies.induct)
  case (2 u nodes seen i p ps)
  have "explicit_zero (pol_When p) (if i < length nodes then Some (nodes ! i) else None) = None"
    using "2.prems"(4) [rule_format, of 0] by (simp add: explicit_zero_def)
  moreover have "policy_ok u p" "pol_Name p \<notin> seen" using "2.prems" by auto
  ultimately have err: "policy_error u (if i < length nodes then Some (nodes ! i) else None) seen i p = None"
    by (simp add: policy_error_None policy_ok_def)
  have "\<forall>j < length ps. Suc i + j < length nodes \<longrightarrow> explicit_zero (pol_When (ps ! j)) (Some (nodes ! (Suc i + j))) = None"
    using "2.prems"(4) by (metis Suc_less_eq add_Suc_shift length_Cons nth_Cons_Suc)
  then have "normalizePolicies u nodes (insert (pol_Name p) seen) (Suc i) ps = Inr ps"
    using "2.IH" err "2.prems" by auto
  with err \<open>policy_ok u p\<close> show ?case by (simp add: fill_policy_id)
qed simp

interpretation access_settings: normalizer master_access access_config_ok
  by unfold_locales (auto dest: master_access_ok intro: master_access_id)

interpretation interval_settings: normalizer master_intervals intervals_ok
  by unfold_locales (auto dest: master_intervals_ok intro: master_intervals_id)

interpretation tls_settings: normalizer "master_tls pki" "tls_config_ok pki" for pki
  by unfold_locales (auto simp: master_tls_ok)

end
