(* ===== verification/ConfigBehaviour.thy ===== *)
theory ConfigBehaviour
  imports ConfigLoad
begin

text \<open>
  What loading a configuration guarantees, over the stages of \<open>ConfigLoad\<close>.
\<close>

section \<open>Loading as a whole\<close>

text \<open>
  A tree without aliases and without merge keys: what a key sets is where the key stands.
\<close>

fun plain :: "yaml_node \<Rightarrow> bool" where
  "plain (YamlNode kind v line content) \<longleftrightarrow> kind \<noteq> AliasNode \<and> v \<noteq> ''<<'' \<and> list_all plain content"

text \<open>
  What the code relies on of the YAML decoder: it decodes into a zero struct, so in a plain tree
  a field that is not zero has its key.
\<close>

definition keys_present :: "(yaml_node \<Rightarrow> string + MasterConfig) \<Rightarrow> bool" where
  "keys_present decode \<longleftrightarrow> (\<forall>root cfg. plain root \<longrightarrow> decode root = Inr cfg \<longrightarrow>
    (lc_MaxWait (mc_LocalShutdown cfg) \<noteq> 0 \<longrightarrow> findKey root [''local_shutdown'', ''max_wait'']) \<and>
    (lc_EmergencyRuntimeMinutes (mc_LocalShutdown cfg) \<noteq> 0 \<longrightarrow>
      findKey root [''local_shutdown'', ''emergency_runtime_minutes'']) \<and>
    (nu_Host (mc_NUT cfg) \<noteq> [] \<longrightarrow> findKey root [''nut'']))"

lemma loadYAML_Inr:
  "loadYAML content decode removed = Inr (root, cfg) \<longleftrightarrow>
    content = Inr (Inr root) \<and> removedKeyError root removed = None \<and> decode root = Inr cfg"
  by (auto simp: loadYAML_def split: sum.splits option.splits)

text \<open>The stages of a successful load, in order, and what each one leaves alone.\<close>

lemma LoadMasterConfig_stages:
  assumes "LoadMasterConfig pki decode content = Inr cfg"
  obtains root cfg0 cfg1 cfg2 cfg3 cfg4 cfg5 where
    "content = Inr (Inr root)" "decode root = Inr cfg0" "master_access cfg0 = Inr cfg1" "master_intervals cfg1 = Inr cfg2"
    "master_local root cfg2 = Inr cfg3" "tls_config_ok pki cfg3" "normalizeUPSSource root cfg3 = Inr cfg4"
    "master_unreachable cfg4 = Inr cfg5" "normalizeShutdownPolicies root cfg5 = Inr cfg"
  using assms by (auto simp: LoadMasterConfig_def andThen_Inr loadYAML_Inr master_tls_ok)

lemma master_access_keeps:
  "master_access cfg = Inr cfg' \<Longrightarrow> mc_LocalShutdown cfg' = mc_LocalShutdown cfg \<and> mc_NUT cfg' = mc_NUT cfg"
  by (auto simp: master_access_def Let_def)

lemma master_intervals_keeps:
  "master_intervals cfg = Inr cfg' \<Longrightarrow>
    \<exists>poll timeout after. cfg' = cfg\<lparr>mc_PollInterval := poll, mc_CommandTimeout := timeout, mc_OfflineAfter := after\<rparr>"
  unfolding master_intervals_def Let_def by (simp only: check_Inr sum.inject) blast

text \<open>No policy has a key under \<open>when\<close> for a condition that is not set.\<close>

definition conditions_as_written :: "yaml_node \<Rightarrow> ShutdownPolicySpec list \<Rightarrow> bool" where
  "conditions_as_written root ps \<longleftrightarrow> (\<forall>i < min (length ps) (length (sequenceItems root ''shutdown_policies'')).
     written_conditions_set (ps ! i) (sequenceItems root ''shutdown_policies'' ! i))"

lemma normalizeShutdownPolicies_ok:
  assumes "normalizeShutdownPolicies root cfg = Inr cfg'"
  obtains ps where "cfg' = cfg\<lparr>mc_ShutdownPolicies := ps\<rparr>" "ps \<noteq> []" "list_all (policy_ok (UsesNUT cfg)) ps" "distinct (map pol_Name ps)"
    "conditions_as_written root ps"
proof -
  obtain ps where ps: "normalizePolicies (UsesNUT cfg) (sequenceItems root ''shutdown_policies'') {} 0 (mc_ShutdownPolicies cfg) = Inr ps"
    "cfg' = cfg\<lparr>mc_ShutdownPolicies := ps\<rparr>" "mc_ShutdownPolicies cfg \<noteq> []"
    using assms by (auto simp: normalizeShutdownPolicies_def andThen_Inr split: if_splits)
  moreover have "conditions_as_written root ps"
    using normalizePolicies_written [OF ps(1)] by (auto simp: conditions_as_written_def)
  ultimately show ?thesis using normalizePolicies_ok [OF ps(1)] by (intro that [of ps]) auto
qed


lemma complete_config_accepted:
  assumes "master_config_ok pki cfg" "decode root = Inr cfg" "\<forall>key \<in> set removedMasterKeys. \<not> findKey root (rk_path key)"
    and "findKey root [''nut''] = UsesNUT cfg" "findKey root [''snmp''] = (\<not> UsesNUT cfg)"
    and "\<forall>i < length (mc_ShutdownPolicies cfg). i < length (sequenceItems root ''shutdown_policies'') \<longrightarrow>
      explicit_zero (pol_When (mc_ShutdownPolicies cfg ! i)) (Some (sequenceItems root ''shutdown_policies'' ! i)) = None"
  shows "LoadMasterConfig pki decode (Inr (Inr root)) = Inr cfg"
proof -
  note ok = assms(1) [unfolded master_config_ok_def]
  have "normalizePolicies (UsesNUT cfg) (sequenceItems root ''shutdown_policies'') {} 0 (mc_ShutdownPolicies cfg) = Inr (mc_ShutdownPolicies cfg)"
    using ok assms(6) by (intro normalizePolicies_id) auto
  then have "normalizeShutdownPolicies root cfg = Inr cfg" using ok by (simp add: normalizeShutdownPolicies_def)
  moreover have "loadYAML (Inr (Inr root)) decode removedMasterKeys = Inr (root, cfg)"
    using assms(2,3) by (simp add: loadYAML_Inr removedKeyError_None)
  moreover have "master_tls pki cfg = Inr cfg" using ok by (simp add: master_tls_ok)
  ultimately show ?thesis using ok assms(4,5)
    by (simp add: LoadMasterConfig_def master_access_id master_intervals_id master_local_def local_settings_id
        normalizeUPSSource_id master_unreachable_id)
qed

text \<open>
  Loading is the identity on complete configurations: whatever satisfies the conditions of
  the previous property, from a file without removed keys, with the key of its one source and
  without an explicit key for an unset policy condition, is accepted and nothing in it changes.
  In particular writing out a loaded configuration and loading it again gives the same one.
\<close>

theorem complete_config_unchanged:
  assumes "master_config_ok pki cfg" "decode root = Inr cfg" "\<forall>key \<in> set removedMasterKeys. \<not> findKey root (rk_path key)"
    and "findKey root [''nut''] = UsesNUT cfg" "findKey root [''snmp''] = (\<not> UsesNUT cfg)"
    and "\<forall>i < length (mc_ShutdownPolicies cfg). i < length (sequenceItems root ''shutdown_policies'') \<longrightarrow>
      explicit_zero (pol_When (mc_ShutdownPolicies cfg ! i)) (Some (sequenceItems root ''shutdown_policies'' ! i)) = None"
  shows "LoadMasterConfig pki decode (Inr (Inr root)) = Inr cfg"
  using assms by (rule complete_config_accepted)

section \<open>A loaded configuration\<close>

text \<open>The smallest configuration of a master that reads \<open>upsd\<close>, with every default filled in.\<close>

definition minimal_policy :: ShutdownPolicySpec where
  "minimal_policy = \<lparr>pol_Name = ''low'', pol_When = \<lparr>pw_ChargeBelow = 30, pw_RuntimeBelow = 0, pw_LowBattery = False, pw_UPSUnreachableFor = 0\<rparr>,
     pol_Duration = 0, pol_Target = \<lparr>pt_All = True, pt_Tags = [], pt_NodeIDs = []\<rparr>, pol_Reason = ''charge''\<rparr>"

definition minimal_local :: LocalShutdownConfig where
  "minimal_local = \<lparr>lc_Enabled = True, lc_Command = Some defaultShutdownCommand, lc_CommandTimeout = DefaultShutdownCommandTimeout,
     lc_MaxWait = 15 * minute, lc_EmergencyRuntimeMinutes = 15, lc_UnreachableAfter = 15 * minute\<rparr>"

definition zero_SNMP :: SNMPConfig where
  "zero_SNMP = \<lparr>sn_Target = [], sn_Port = 0, sn_Version = [], sn_TimeoutSeconds = 0, sn_Community = [], sn_Username = [],
     sn_SecurityLevel = [], sn_AuthProtocol = [], sn_AuthPassphrase = [], sn_PrivProtocol = [], sn_PrivPassphrase = [],
     sn_Profile = [], sn_OnBattery = None, sn_Charge = None, sn_Runtime = None\<rparr>"

definition minimal_config :: MasterConfig where
  "minimal_config = \<lparr>mc_ListenAddr = '':9000'', mc_AdminListenAddr = '':9001'', mc_AdminToken = ''s3cret'',
     mc_AdminTLS = \<lparr>at_CertFile = [], at_KeyFile = []\<rparr>, mc_PublicAddr = [], mc_InstallRepo = [], mc_InstallCAFile = [],
     mc_StateFile = ''state.json'', mc_EnrollmentTokens = [], mc_Enrollment = EnrollmentClosed, mc_PollInterval = 10 * second,
     mc_CommandTimeout = 30 * second, mc_OfflineAfter = 45 * second, mc_DryRun = False, mc_LogUPSStatus = False, mc_TLS = zero_TLS,
     mc_LocalShutdown = minimal_local, mc_ShutdownPolicies = [minimal_policy], mc_SNMP = zero_SNMP,
     mc_NUT = \<lparr>nu_Host = ''upsd'', nu_Port = defaultNUTPort, nu_UPS = ''ups'', nu_TimeoutSeconds = 2\<rparr>\<rparr>"

lemma minimal_config_ok: "master_config_ok pki minimal_config"
proof -
  have "secret_ok ''s3cret''" by (simp add: secret_ok_def) code_simp
  then have "access_config_ok minimal_config" by (simp add: access_config_ok_def minimal_config_def)
  moreover have "intervals_ok minimal_config" by (simp add: intervals_ok_def minimal_config_def duration_units)
  moreover have "local_config_ok (mc_LocalShutdown minimal_config)"
    by (simp add: local_config_ok_def minimal_config_def minimal_local_def defaultShutdownCommand_def
        DefaultShutdownCommandTimeout_def duration_units)
  moreover have "tls_config_ok pki minimal_config"
    by (simp add: tls_config_ok_def install_ca_ok_def minimal_config_def zero_TLS_def server_tls_ok_def)
  moreover have "nutUPSNamePattern ''ups''" by code_simp
  then have "source_ok minimal_config"
    by (simp add: source_ok_def UsesNUT_def minimal_config_def nut_ok_def)
  moreover have "policy_ok u minimal_policy" for u
    by (simp add: policy_ok_def conditions_ok_def minimal_policy_def)
  ultimately show ?thesis by (simp add: master_config_ok_def minimal_config_def)
qed

definition local_mapping :: yaml_node where
  "local_mapping = yaml_map [scalar ''max_wait'', scalar ''15m'', scalar ''emergency_runtime_minutes'', scalar ''15'']"

definition master_tree :: "yaml_node \<Rightarrow> yaml_node" where
  "master_tree loc = YamlNode DocumentNode [] 1 [yaml_map [scalar ''local_shutdown'', loc, scalar ''nut'', yaml_map []]]"

lemma lookup_master_tree:
  "p \<noteq> ''*'' \<Longrightarrow> lookupKey (master_tree loc) (p # ps) [] =
    (if p = ''local_shutdown'' then if ps = [] then Some (scalar p, p) else lookupKey loc ps p
     else if p = ''nut'' then if ps = [] then Some (scalar p, p) else lookupKey (yaml_map []) ps p
     else None)"
proof -
  let ?top = "yaml_map [scalar ''local_shutdown'', loc, scalar ''nut'', yaml_map []]"
  have top: "lookupKey (master_tree loc) path [] = lookupKey ?top path []" for path
    by (rule lookupKey_document) (simp_all add: master_tree_def)
  have loc: "mappingEntry ?top ''local_shutdown'' = Some (scalar ''local_shutdown'', loc)"
    and nut: "mappingEntry ?top ''nut'' = Some (scalar ''nut'', yaml_map [])"
    and other: "p \<noteq> ''local_shutdown'' \<Longrightarrow> p \<noteq> ''nut'' \<Longrightarrow> mappingEntry ?top p = None"
    and kind: "node_Kind ?top = MappingNode"
    by (auto simp: mappingEntry_def yaml_map_def scalar_def)
  assume "p \<noteq> ''*''"
  then show ?thesis unfolding top
    by (auto simp: lookupKey_entry [OF _ loc] lookupKey_entry [OF _ nut] lookupKey_missing [OF _ kind] other dot_def)
qed

lemma master_tree_keys:
  "findKey (master_tree loc) [''nut'']" "\<not> findKey (master_tree loc) [''snmp'']"
  "findKey (master_tree loc) [''local_shutdown'', k] = (lookupKey loc [k] ''local_shutdown'' \<noteq> None)"
  by (simp_all add: findKey_def lookup_master_tree)

lemma master_tree_policies: "sequenceItems (master_tree loc) ''shutdown_policies'' = []"
  by (simp add: sequenceItems_def master_tree_def yaml_map_def mappingEntry_def scalar_def)

lemma master_tree_removed: "key \<in> set removedMasterKeys \<Longrightarrow> \<not> findKey (master_tree loc) (rk_path key)"
  by (auto simp: removedMasterKeys_def findKey_def lookup_master_tree)

lemma plain_master_tree: "plain (master_tree loc) = plain loc"
  by (simp add: master_tree_def yaml_map_def scalar_def)

lemma local_mapping_keys:
  "lookupKey local_mapping [''max_wait''] l \<noteq> None" "lookupKey local_mapping [''emergency_runtime_minutes''] l \<noteq> None" "plain local_mapping"
proof -
  have "mappingEntry local_mapping ''max_wait'' = Some (scalar ''max_wait'', scalar ''15m'')"
    "mappingEntry local_mapping ''emergency_runtime_minutes'' = Some (scalar ''emergency_runtime_minutes'', scalar ''15'')"
    by (simp_all add: local_mapping_def yaml_map_def scalar_def mappingEntry_def)
  then show "lookupKey local_mapping [''max_wait''] l \<noteq> None" "lookupKey local_mapping [''emergency_runtime_minutes''] l \<noteq> None"
    by (simp_all add: lookupKey_entry)
  show "plain local_mapping" by (simp add: local_mapping_def yaml_map_def scalar_def)
qed

definition only_tree :: "yaml_node \<Rightarrow> MasterConfig \<Rightarrow> yaml_node \<Rightarrow> string + MasterConfig" where
  "only_tree root cfg = (\<lambda>r. if r = root then Inr cfg else Inl ''unknown document'')"

lemma minimal_config_loads:
  "LoadMasterConfig pki (only_tree (master_tree local_mapping) minimal_config) (Inr (Inr (master_tree local_mapping))) = Inr minimal_config"
  by (rule complete_config_accepted [OF minimal_config_ok])
    (simp_all add: only_tree_def master_tree_removed master_tree_keys master_tree_policies, simp_all add: minimal_config_def UsesNUT_def)


lemma only_tree_keys: "keys_present (only_tree (master_tree local_mapping) cfg)"
  by (auto simp: keys_present_def only_tree_def master_tree_keys local_mapping_keys split: if_splits)

definition no_files :: pki where
  "no_files = \<lparr>pki_ReadFile = (\<lambda>_. Inl ''no such file''), pki_hasCertificate = (\<lambda>_. False), pki_Decode = (\<lambda>_. None)\<rparr>"


theorem complete_config_unchanged_witness:
  "LoadMasterConfig no_files (\<lambda>_. Inr minimal_config) (Inr (Inr (master_tree (yaml_map [])))) = Inr minimal_config"
proof (rule complete_config_unchanged [OF minimal_config_ok])
  show "findKey (master_tree (yaml_map [])) [''nut''] = UsesNUT minimal_config"
    "findKey (master_tree (yaml_map [])) [''snmp''] = (\<not> UsesNUT minimal_config)"
    by (simp_all add: master_tree_keys UsesNUT_def minimal_config_def)
qed (simp_all add: master_tree_removed master_tree_policies)

section \<open>Merge keys\<close>

text \<open>\<open>local_shutdown: {<<: {max_wait: -5m}}\<close>: the decoder merges the inner mapping, the tree walk does not look into it.\<close>

definition merging_mapping :: yaml_node where
  "merging_mapping = yaml_map [scalar ''<<'', yaml_map [scalar ''max_wait'', scalar ''-5m'']]"

definition negative_wait :: MasterConfig where
  "negative_wait = minimal_config\<lparr>mc_LocalShutdown := minimal_local\<lparr>lc_MaxWait := - (5 * minute)\<rparr>\<rparr>"

lemma merging_mapping_keys: "k \<noteq> ''<<'' \<Longrightarrow> k \<noteq> ''*'' \<Longrightarrow> lookupKey merging_mapping [k] l = None"
  by (rule lookupKey_missing) (simp_all add: merging_mapping_def yaml_map_def scalar_def mappingEntry_def)

text \<open>
  The check that an explicit limit is positive only sees keys written in place: a
  \<open>max_wait\<close> that reaches \<open>local_shutdown\<close> through a merge key is decoded, is negative, and is
  loaded as it is, where the same value under its own key is refused.
\<close>

theorem merged_limit_unchecked:
  "LoadMasterConfig pki (\<lambda>_. Inr negative_wait) (Inr (Inr (master_tree merging_mapping))) = Inr negative_wait \<and>
   lc_MaxWait (mc_LocalShutdown negative_wait) < 0 \<and>
   LoadMasterConfig pki (\<lambda>_. Inr negative_wait) (Inr (Inr (master_tree local_mapping))) = Inl (NotPositive ''local_shutdown.max_wait'')"
proof -
  let ?loc = "minimal_local\<lparr>lc_MaxWait := - (5 * minute)\<rparr>"
  note ok = minimal_config_ok [of pki, unfolded master_config_ok_def]
  have parts: "access_config_ok negative_wait" "intervals_ok negative_wait" "tls_config_ok pki negative_wait" "source_ok negative_wait"
    "mc_LocalShutdown negative_wait = ?loc" "UsesNUT negative_wait" "list_all (policy_ok True) (mc_ShutdownPolicies negative_wait)"
    "mc_ShutdownPolicies negative_wait = [minimal_policy]"
    using ok by (auto simp: negative_wait_def access_config_ok_def intervals_ok_def tls_config_ok_def install_ca_ok_def source_ok_def
        UsesNUT_def minimal_config_def)
  have load: "loadYAML (Inr (Inr (master_tree loc))) (\<lambda>_. Inr negative_wait) removedMasterKeys = Inr (master_tree loc, negative_wait)" for loc
    by (simp add: loadYAML_Inr removedKeyError_None master_tree_removed)
  have loc: "lc_MaxWait ?loc < 0" "lc_Command ?loc = Some defaultShutdownCommand" "defaultShutdownCommand \<noteq> []"
    "lc_EmergencyRuntimeMinutes ?loc = 15" "lc_CommandTimeout ?loc > 0" "lc_UnreachableAfter ?loc > 0"
    by (simp_all add: minimal_local_def defaultShutdownCommand_def DefaultShutdownCommandTimeout_def duration_units)
  have "local_settings (master_tree merging_mapping) ?loc = Inr ?loc"
    using loc by (simp add: local_settings_def master_tree_keys merging_mapping_keys Let_def)
  then have "master_local (master_tree merging_mapping) negative_wait = Inr negative_wait"
    unfolding master_local_def parts(5) [symmetric] by simp
  moreover have "local_settings (master_tree local_mapping) ?loc = Inl (NotPositive ''local_shutdown.max_wait'')"
    using loc local_mapping_keys by (simp add: local_settings_def master_tree_keys unless_def Let_def)
  then have "master_local (master_tree local_mapping) negative_wait = Inl (NotPositive ''local_shutdown.max_wait'')"
    by (simp add: master_local_def parts(5))
  moreover have "master_tls pki negative_wait = Inr negative_wait" using parts(3) by (simp add: master_tls_ok)
  moreover have "master_unreachable negative_wait = Inr negative_wait"
    using loc parts by (simp add: master_unreachable_def Let_def)
  moreover have "normalizeShutdownPolicies (master_tree merging_mapping) negative_wait = Inr negative_wait"
    using normalizePolicies_id [of True "[minimal_policy]" "{}" 0 "[]"] parts
    by (simp add: normalizeShutdownPolicies_def master_tree_policies)
  ultimately show ?thesis using parts loc(1)
    by (simp add: LoadMasterConfig_def load master_access_id master_intervals_id normalizeUPSSource_id master_tree_keys)
qed

section \<open>The slave\<close>

definition slave_config_ok :: "SlaveConfig \<Rightarrow> bool" where
  "slave_config_ok cfg \<longleftrightarrow> sc_NodeID cfg \<noteq> [] \<and> sc_MasterAddr cfg \<noteq> [] \<and> secret_ok (sc_Token cfg) \<and>
    sc_ReconnectInterval cfg \<noteq> 0 \<and> sc_StateFile cfg \<noteq> [] \<and> ValidateClient (sc_TLS cfg) = None \<and>
    sc_ShutdownCommand cfg \<noteq> [] \<and> sc_ShutdownCommandTimeout cfg > 0"

lemma LoadSlaveConfig_Inr:
  "LoadSlaveConfig decode (Inr (Inr root)) = Inr cfg \<longleftrightarrow>
    (\<exists>raw. decode root = Inr raw \<and> sc_NodeID raw \<noteq> [] \<and> sc_MasterAddr raw \<noteq> [] \<and> secret_ok (sc_Token raw) \<and>
      ValidateClient (sc_TLS raw) = None \<and> \<not> (findKey root [''shutdown_command''] \<and> sc_ShutdownCommand raw = []) \<and>
      \<not> sc_ShutdownCommandTimeout raw < 0 \<and>
      cfg = raw\<lparr>sc_ReconnectInterval := default_to 0 (5 * second) (sc_ReconnectInterval raw),
        sc_StateFile := default_to [] ''data/slave-state.json'' (sc_StateFile raw),
        sc_ShutdownCommand := default_to [] defaultShutdownCommand (sc_ShutdownCommand raw),
        sc_ShutdownCommandTimeout := default_to 0 DefaultShutdownCommandTimeout (sc_ShutdownCommandTimeout raw)\<rparr>)"
  by (auto simp: LoadSlaveConfig_def andThen_Inr loadYAML_Inr Let_def dest: secret_ok_nonempty)

text \<open>
  A slave configuration loads to a complete one and only by filling in defaults: its
  identity, secret and TLS settings are those of the file, the shutdown command is the file's or
  the packaged default and never empty, and what is already complete is loaded as it is.
\<close>

theorem loaded_slave_config:
  "(LoadSlaveConfig decode (Inr (Inr root)) = Inr cfg \<longrightarrow>
     (\<exists>raw. decode root = Inr raw \<and> slave_config_ok cfg \<and> sc_NodeID cfg = sc_NodeID raw \<and> sc_Token cfg = sc_Token raw \<and>
        sc_TLS cfg = sc_TLS raw \<and> sc_MasterAddr cfg = sc_MasterAddr raw \<and>
        sc_ShutdownCommand cfg = (if sc_ShutdownCommand raw = [] then defaultShutdownCommand else sc_ShutdownCommand raw) \<and>
        \<not> (findKey root [''shutdown_command''] \<and> sc_ShutdownCommand raw = []))) \<and>
   (slave_config_ok cfg \<and> decode root = Inr cfg \<longrightarrow> LoadSlaveConfig decode (Inr (Inr root)) = Inr cfg)"
proof (intro conjI impI)
  assume "LoadSlaveConfig decode (Inr (Inr root)) = Inr cfg"
  then obtain raw where "decode root = Inr raw" "sc_NodeID raw \<noteq> []" "sc_MasterAddr raw \<noteq> []" "secret_ok (sc_Token raw)"
    "ValidateClient (sc_TLS raw) = None" "\<not> (findKey root [''shutdown_command''] \<and> sc_ShutdownCommand raw = [])"
    "\<not> sc_ShutdownCommandTimeout raw < 0"
    "cfg = raw\<lparr>sc_ReconnectInterval := default_to 0 (5 * second) (sc_ReconnectInterval raw),
        sc_StateFile := default_to [] ''data/slave-state.json'' (sc_StateFile raw),
        sc_ShutdownCommand := default_to [] defaultShutdownCommand (sc_ShutdownCommand raw),
        sc_ShutdownCommandTimeout := default_to 0 DefaultShutdownCommandTimeout (sc_ShutdownCommandTimeout raw)\<rparr>"
    unfolding LoadSlaveConfig_Inr by blast
  then show "\<exists>raw. decode root = Inr raw \<and> slave_config_ok cfg \<and> sc_NodeID cfg = sc_NodeID raw \<and> sc_Token cfg = sc_Token raw \<and>
      sc_TLS cfg = sc_TLS raw \<and> sc_MasterAddr cfg = sc_MasterAddr raw \<and>
      sc_ShutdownCommand cfg = (if sc_ShutdownCommand raw = [] then defaultShutdownCommand else sc_ShutdownCommand raw) \<and>
      \<not> (findKey root [''shutdown_command''] \<and> sc_ShutdownCommand raw = [])"
    by (intro exI [of _ raw])
      (auto simp: slave_config_ok_def default_to_def duration_units DefaultShutdownCommandTimeout_def defaultShutdownCommand_def)
next
  assume "slave_config_ok cfg \<and> decode root = Inr cfg"
  then show "LoadSlaveConfig decode (Inr (Inr root)) = Inr cfg"
    unfolding LoadSlaveConfig_Inr by (intro exI [of _ cfg]) (simp add: slave_config_ok_def)
qed

definition minimal_slave_config :: SlaveConfig where
  "minimal_slave_config = \<lparr>sc_NodeID = ''web'', sc_MasterAddr = ''master:9000'', sc_Token = ''s3cret'', sc_Tags = None,
     sc_StateFile = [], sc_MetricsListenAddr = [], sc_ReconnectInterval = 0, sc_DryRun = False, sc_TLS = zero_TLS,
     sc_ShutdownCommand = [], sc_ShutdownCommandTimeout = 0\<rparr>"

theorem loaded_slave_config_witness:
  "\<exists>cfg. LoadSlaveConfig (\<lambda>_. Inr minimal_slave_config) (Inr (Inr (yaml_map []))) = Inr cfg \<and> slave_config_ok cfg \<and>
     sc_ShutdownCommand cfg = defaultShutdownCommand"
proof -
  have "secret_ok ''s3cret''" by (simp add: secret_ok_def) code_simp
  moreover have "\<not> findKey (yaml_map []) [''shutdown_command'']"
    by (simp add: findKey_def lookupKey_missing yaml_map_def mappingEntry_def)
  ultimately obtain cfg where "LoadSlaveConfig (\<lambda>_. Inr minimal_slave_config) (Inr (Inr (yaml_map []))) = Inr cfg"
    by (simp add: LoadSlaveConfig_Inr minimal_slave_config_def zero_TLS_def ValidateClient_def EnabledForClient_def)
  with loaded_slave_config [of "\<lambda>_. Inr minimal_slave_config" "yaml_map []" cfg] show ?thesis
    by (auto simp: minimal_slave_config_def)
qed

end
