(* ===== verification/SelfCheck.thy ===== *)
theory SelfCheck
  imports ConfigLoad
begin

text \<open>
  \<open>internal/shutdowncheck\<close>: whether the configured shutdown command could run, asked without
  running it. The runner (\<open>sudo -l\<close>), the file information and the user id are arguments.
\<close>

section \<open>Paths\<close>

text \<open>\<open>filepath.Base\<close> and \<open>filepath.IsAbs\<close> on Unix.\<close>

definition Base :: "string \<Rightarrow> string" where
  "Base path =
    (if path = [] then ''.''
     else let p = rev (takeWhile (\<lambda>c. c \<noteq> CHR ''/'') (dropWhile (\<lambda>c. c = CHR ''/'') (rev path)))
          in if p = [] then ''/'' else p)"

definition IsAbs :: "string \<Rightarrow> bool" where
  "IsAbs path = HasPrefix path ''/''"

record FileInfo =
  fi_regular :: bool
  fi_perm :: "32 word"

datatype check_error =
    EmptyCommand
  | NeedsRoot "string list"
  | NotAbsolute string
  | StatFailed string string
  | NotRegular string
  | NotExecutable string
  | OptionNeedsValue string
  | OptionNotSupported string
  | NoTargetCommand "string list"
  | SudoRefused "string list" string

section \<open>The sudo command line\<close>

definition sudoRunAsOptions :: "(string, string) gomap" where
  "sudoRunAsOptions = [(''-u'', ''-u''), (''--user'', ''-u''), (''-g'', ''-g''), (''--group'', ''-g'')]"

definition rootOnlyCommands :: "string list" where
  "rootOnlyCommands = [''shutdown'', ''poweroff'', ''halt'', ''reboot'', ''systemctl'']"

definition splitAttachedValue :: "string \<Rightarrow> (string \<times> string) option" where
  "splitAttachedValue arg =
    (case Cut arg (CHR ''='') of
       (name, val, found) \<Rightarrow>
        if found \<and> HasPrefix arg ''--'' then
          (case map_of sudoRunAsOptions name of
             Some opt \<Rightarrow> if val \<noteq> [] then Some (opt, val) else None
           | None \<Rightarrow> None)
        else if length arg > 2 \<and> \<not> HasPrefix arg ''--'' then
          map_option (\<lambda>opt. (opt, drop 2 arg)) (map_of sudoRunAsOptions (take 2 arg))
        else None)"

text \<open>The loop of \<open>splitSudoArgs\<close>, with the options kept so far.\<close>

fun splitSudoArgs :: "string list \<Rightarrow> string list \<Rightarrow> check_error + (string list \<times> string list)" where
  "splitSudoArgs kept [] = Inr (kept, [])"
| "splitSudoArgs kept (arg # rest) =
    (if arg = ''--'' then Inr (kept, rest)
     else if \<not> HasPrefix arg ''-'' then Inr (kept, arg # rest)
     else if arg = ''-n'' then splitSudoArgs kept rest
     else case map_of sudoRunAsOptions arg of
       Some opt \<Rightarrow>
        (case rest of
           [] \<Rightarrow> Inl (OptionNeedsValue arg)
         | v # rest' \<Rightarrow> splitSudoArgs (kept @ [opt, v]) rest')
     | None \<Rightarrow>
        (case splitAttachedValue arg of
           None \<Rightarrow> Inl (OptionNotSupported arg)
         | Some (opt, v) \<Rightarrow> splitSudoArgs (kept @ [opt, v]) rest))"

text \<open>\<open>run\<close> gives the error of a command, or nothing when it exits with status 0.\<close>

type_synonym runner = "string \<Rightarrow> string list \<Rightarrow> string option"

definition checkSudo :: "string list \<Rightarrow> runner \<Rightarrow> check_error option" where
  "checkSudo argv run =
    (case splitSudoArgs [] (tl argv) of
       Inl e \<Rightarrow> Some e
     | Inr (kept, target) \<Rightarrow>
        if target = [] then Some (NoTargetCommand argv)
        else map_option (SudoRefused target) (run (hd argv) ([''-n'', ''-l''] @ kept @ target)))"

definition checkExecutable :: "(string \<Rightarrow> string + FileInfo) \<Rightarrow> string \<Rightarrow> check_error option" where
  "checkExecutable stat path =
    (if \<not> IsAbs path then Some (NotAbsolute path)
     else case stat path of
       Inl err \<Rightarrow> Some (StatFailed path err)
     | Inr info \<Rightarrow>
        if \<not> fi_regular info then Some (NotRegular path)
        else if and (fi_perm info) 73 = 0 then Some (NotExecutable path)
        else None)"

definition Check ::
  "(string \<Rightarrow> string + FileInfo) \<Rightarrow> int \<Rightarrow> runner \<Rightarrow> string list \<Rightarrow> check_error option" where
  "Check stat geteuid run argv =
    (case argv of
       [] \<Rightarrow> Some EmptyCommand
     | name # _ \<Rightarrow>
        if Base name \<noteq> ''sudo'' then
          (if Base name \<in> set rootOnlyCommands \<and> geteuid \<noteq> 0 then Some (NeedsRoot argv)
           else checkExecutable stat name)
        else checkSudo argv run)"

section \<open>The command line it understands\<close>

text \<open>
  The part of sudo's command line the check supports: \<open>-n\<close>, the run-as options with their value
  as the next argument or attached, and the command, which \<open>--\<close> may precede.
\<close>

inductive sudo_line :: "string list \<Rightarrow> (string \<times> string) list \<Rightarrow> string list \<Rightarrow> bool" where
  no_command: "sudo_line [] [] []"
| after_dashes: "sudo_line (''--'' # target) [] target"
| command: "\<not> prefix ''-'' name \<Longrightarrow> sudo_line (name # args) [] (name # args)"
| non_interactive: "sudo_line args as target \<Longrightarrow> sudo_line (''-n'' # args) as target"
| separate: "(opt, short) \<in> set sudoRunAsOptions \<Longrightarrow> sudo_line args as target \<Longrightarrow>
    sudo_line (opt # v # args) ((short, v) # as) target"
| attached_short: "short \<in> {''-u'', ''-g''} \<Longrightarrow> v \<noteq> [] \<Longrightarrow> sudo_line args as target \<Longrightarrow>
    sudo_line ((short @ v) # args) ((short, v) # as) target"
| attached_long: "(opt, short) \<in> {(''--user'', ''-u''), (''--group'', ''-g'')} \<Longrightarrow> v \<noteq> [] \<Longrightarrow> sudo_line args as target \<Longrightarrow>
    sudo_line ((opt @ ''='' @ v) # args) ((short, v) # as) target"

definition flatten :: "(string \<times> string) list \<Rightarrow> string list" where
  "flatten as = concat (map (\<lambda>(opt, v). [opt, v]) as)"

lemma flatten_simps [simp]: "flatten [] = []" "flatten ((opt, v) # as) = opt # v # flatten as"
  by (simp_all add: flatten_def)

lemma runAs_iff: "map_of sudoRunAsOptions opt = Some short \<longleftrightarrow> (opt, short) \<in> set sudoRunAsOptions"
  by (auto simp: sudoRunAsOptions_def)

lemma splitAttachedValue_short: "short \<in> {''-u'', ''-g''} \<Longrightarrow> v \<noteq> [] \<Longrightarrow> splitAttachedValue (short @ v) = Some (short, v)"
proof -
  assume short: "short \<in> {''-u'', ''-g''}" and "v \<noteq> []"
  from short have "map_of sudoRunAsOptions short = Some short" "length short = 2"
    by (auto simp: runAs_iff, auto simp: sudoRunAsOptions_def)
  moreover from short have "\<not> HasPrefix (short @ v) ''--''" by (auto simp: HasPrefix_def)
  ultimately show ?thesis using \<open>v \<noteq> []\<close> by (simp add: splitAttachedValue_def split: prod.split)
qed

lemma splitAttachedValue_long:
  assumes "(opt, short) \<in> {(''--user'', ''-u''), (''--group'', ''-g'')}" "v \<noteq> []"
  shows "splitAttachedValue (opt @ ''='' @ v) = Some (short, v)"
proof -
  have "Cut (opt @ CHR ''='' # v) (CHR ''='') = (opt, v, True)" using assms by (intro Cut_found) auto
  moreover have "HasPrefix (opt @ CHR ''='' # v) ''--''" using assms(1) by (auto simp: HasPrefix_def)
  moreover have "map_of sudoRunAsOptions opt = Some short" unfolding runAs_iff using assms(1) by (auto simp: sudoRunAsOptions_def)
  ultimately show ?thesis using assms(2) by (simp add: splitAttachedValue_def)
qed

lemma splitAttachedValue_cases:
  assumes "splitAttachedValue arg = Some (short, v)"
  obtains (short) "short \<in> {''-u'', ''-g''}" "v \<noteq> []" "arg = short @ v"
    | (long) opt where "(opt, short) \<in> {(''--user'', ''-u''), (''--group'', ''-g'')}" "v \<noteq> []" "arg = opt @ ''='' @ v"
proof (cases "snd (snd (Cut arg (CHR ''=''))) \<and> HasPrefix arg ''--''")
  case True
  with assms obtain opt where opt: "Cut arg (CHR ''='') = (opt, v, True)" "map_of sudoRunAsOptions opt = Some short" "v \<noteq> []"
    by (auto simp: splitAttachedValue_def split: prod.splits option.splits if_splits)
  have arg: "arg = opt @ CHR ''='' # v" using Cut_eq_found [OF opt(1)] by simp
  have "(opt, short) \<in> {(''--user'', ''-u''), (''--group'', ''-g'')}"
    using opt(2) [unfolded runAs_iff] True by (auto simp: arg sudoRunAsOptions_def HasPrefix_def)
  with opt(3) arg show ?thesis by (intro long) simp_all
next
  case False
  with assms have *: "length arg > 2" "map_of sudoRunAsOptions (take 2 arg) = Some short" "v = drop 2 arg"
    by (auto simp: splitAttachedValue_def split: prod.splits if_splits)
  have "length (take 2 arg) = 2" using *(1) by simp
  with *(2) [unfolded runAs_iff] have "take 2 arg = short" "short \<in> {''-u'', ''-g''}" by (auto simp: sudoRunAsOptions_def simp del: length_take)
  moreover have "arg = take 2 arg @ drop 2 arg" by simp
  ultimately show ?thesis using * by (intro short) (simp_all del: append_take_drop_id)
qed

text \<open>The loop accepts exactly these command lines, with their options in order.\<close>

lemma splitSudoArgs_sound:
  "splitSudoArgs kept args = Inr (kept', target) \<Longrightarrow> \<exists>as. kept' = kept @ flatten as \<and> sudo_line args as target"
proof (induction kept args arbitrary: kept' rule: splitSudoArgs.induct)
  case (2 kept arg rest)
  consider (dashes) "arg = ''--''" | (command) "\<not> HasPrefix arg ''-''" | (n) "arg = ''-n''"
    | (option) short v rest' where "arg \<noteq> ''--''" "HasPrefix arg ''-''" "arg \<noteq> ''-n''" "map_of sudoRunAsOptions arg = Some short" "rest = v # rest'"
    | (attached) short v where "arg \<noteq> ''--''" "HasPrefix arg ''-''" "arg \<noteq> ''-n''" "map_of sudoRunAsOptions arg = None"
        "splitAttachedValue arg = Some (short, v)"
    using "2.prems" by (fastforce split: if_splits option.splits list.splits)
  then show ?case
  proof cases
    case dashes
    with "2.prems" show ?thesis by (auto intro: after_dashes exI [of _ "[]"])
  next
    case command
    then have "arg \<noteq> ''--''" by (auto simp: HasPrefix_def)
    with "2.prems" command have "kept' = kept" "target = arg # rest" by simp_all
    with command show ?thesis by (auto simp: HasPrefix_def intro: sudo_line.command exI [of _ "[]"])
  next
    case n
    with 2 show ?thesis by (fastforce simp: HasPrefix_def intro: non_interactive)
  next
    case (option short v rest')
    with "2.prems" "2.IH"(3) [of short v rest'] obtain as where "kept' = kept @ flatten ((short, v) # as)" "sudo_line rest' as target"
      by (auto simp: HasPrefix_def)
    with option show ?thesis by (auto simp: runAs_iff intro!: exI [of _ "(short, v) # as"] separate)
  next
    case (attached short v)
    with "2.prems" "2.IH"(2) [of "(short, v)" short v] obtain as
      where as: "kept' = kept @ flatten ((short, v) # as)" "sudo_line rest as target" by (auto simp: HasPrefix_def)
    from attached(5) have "sudo_line (arg # rest) ((short, v) # as) target"
    proof (cases rule: splitAttachedValue_cases)
      case short
      with attached_short [OF short(1,2) as(2)] show ?thesis by simp
    next
      case (long opt)
      with attached_long [OF long(1,2) as(2)] show ?thesis by simp
    qed
    with as show ?thesis by blast
  qed
qed (auto intro: no_command exI [of _ "[]"])

lemma splitSudoArgs_complete: "sudo_line args as target \<Longrightarrow> splitSudoArgs kept args = Inr (kept @ flatten as, target)"
proof (induction args as target arbitrary: kept rule: sudo_line.induct)
  case (separate opt short args as target v)
  then have "map_of sudoRunAsOptions opt = Some short" by (simp add: runAs_iff)
  moreover have "opt \<noteq> ''--''" "opt \<noteq> ''-n''" "HasPrefix opt ''-''"
    using separate(1) by (auto simp: sudoRunAsOptions_def HasPrefix_def)
  ultimately show ?case using separate.IH by simp
next
  case (attached_short short v args as target)
  then have "short @ v \<noteq> ''--''" "short @ v \<noteq> ''-n''" "HasPrefix (short @ v) ''-''" "map_of sudoRunAsOptions (short @ v) = None"
    by (auto simp: HasPrefix_def sudoRunAsOptions_def)
  then show ?case using attached_short splitAttachedValue_short by simp
next
  case (attached_long opt short v args as target)
  then have "opt @ ''='' @ v \<noteq> ''--''" "opt @ ''='' @ v \<noteq> ''-n''" "HasPrefix (opt @ ''='' @ v) ''-''"
    "map_of sudoRunAsOptions (opt @ ''='' @ v) = None"
    by (auto simp: HasPrefix_def sudoRunAsOptions_def)
  then show ?case using attached_long splitAttachedValue_long by simp
qed (auto simp: HasPrefix_def)

text \<open>
  The self-check reads a sudo command line exactly as the supported grammar does, and what
  it asks sudo is about the same command: for a command line of the grammar with run-as options
  \<open>as\<close> and command \<open>target\<close>, the check passes exactly when there is a command and \<open>sudo -n -l\<close>
  with those options and that command succeeds; every other command line is refused without
  asking.
\<close>

theorem self_check_asks_the_same:
  assumes "Base sudo = ''sudo''"
  shows "(\<forall>as target. sudo_line args as target \<longrightarrow>
      (Check stat uid run (sudo # args) = None \<longleftrightarrow>
        target \<noteq> [] \<and> run sudo ([''-n'', ''-l''] @ flatten as @ target) = None)) \<and>
    ((\<nexists>as target. sudo_line args as target) \<longrightarrow>
      (\<exists>e. \<forall>run. Check stat uid run (sudo # args) = Some e))"
proof (intro conjI allI impI)
  fix as target
  assume "sudo_line args as target"
  then have "splitSudoArgs [] args = Inr (flatten as, target)" using splitSudoArgs_complete [of args as target "[]"] by simp
  then show "Check stat uid run (sudo # args) = None \<longleftrightarrow>
      target \<noteq> [] \<and> run sudo ([''-n'', ''-l''] @ flatten as @ target) = None"
    using assms by (simp add: Check_def checkSudo_def)
next
  assume "\<nexists>as target. sudo_line args as target"
  then obtain e where "splitSudoArgs [] args = Inl e"
    using splitSudoArgs_sound [of "[]" args] by (cases "splitSudoArgs [] args") auto
  then show "\<exists>e. \<forall>run. Check stat uid run (sudo # args) = Some e" using assms by (simp add: Check_def checkSudo_def)
qed

lemma Base_sudo: "Base ''/usr/bin/sudo'' = ''sudo''"
  by (simp add: Base_def)

text \<open>The default command of \<open>internal/config\<close>: the check passes when sudo allows \<open>/sbin/shutdown -h now\<close>.\<close>

theorem self_check_asks_the_same_witness:
  "Check (\<lambda>_. Inl ''ENOENT'') 1000 (\<lambda>name args. if args = [''-n'', ''-l'', ''/sbin/shutdown'', ''-h'', ''now''] then None else Some ''denied'')
     defaultShutdownCommand = None"
proof -
  have "sudo_line [''-n'', ''/sbin/shutdown'', ''-h'', ''now''] [] [''/sbin/shutdown'', ''-h'', ''now'']"
    by (intro non_interactive command) simp
  with self_check_asks_the_same [OF Base_sudo] show ?thesis by (fastforce simp: defaultShutdownCommand_def)
qed

end
