(* ===== verification/GoNet.thy ===== *)
theory GoNet
  imports GoStrings
begin

text \<open>
  The parts of Go's \<open>net\<close>, \<open>strconv\<close>, \<open>strings\<close> and \<open>encoding/base64\<close> that the install script
  uses. Where the source only asks whether a call fails, the error is \<open>None\<close>.
\<close>

abbreviation newline :: char where "newline \<equiv> CHR 0x0A"

definition digits :: string where "digits = ''0123456789''"

definition digit_value :: "char \<Rightarrow> nat" where
  "digit_value c = of_char c - 48"

definition decimal_value :: "string \<Rightarrow> nat" where
  "decimal_value s = foldl (\<lambda>n c. n * 10 + digit_value c) 0 s"

text \<open>\<open>strconv.Atoi\<close>: an optional sign and decimal digits, within 64 bits.\<close>

definition Atoi :: "string \<Rightarrow> int option" where
  "Atoi s =
    (let (neg, ds) = (case s of c # t \<Rightarrow> if c = CHR ''-'' then (True, t) else if c = CHR ''+'' then (False, t) else (False, s)
                      | [] \<Rightarrow> (False, []));
         n = (if neg then - int (decimal_value ds) else int (decimal_value ds))
     in if ds \<noteq> [] \<and> list_all (\<lambda>c. c \<in> set digits) ds \<and> - (2 ^ 63) \<le> n \<and> n < 2 ^ 63 then Some n else None)"

section \<open>Host and port\<close>

definition SplitHostPort :: "string \<Rightarrow> (string \<times> string) option" where
  "SplitHostPort s =
    (case s of
       [] \<Rightarrow> None
     | c # t \<Rightarrow>
        if c = CHR ''['' then
          (case Cut t (CHR '']'') of
             (host, rest, found) \<Rightarrow>
              if \<not> found then None
              else case rest of
                [] \<Rightarrow> None
              | d # port \<Rightarrow>
                 if d = CHR '':'' \<and> CHR '':'' \<notin> set port \<and> CHR ''['' \<notin> set t \<and> CHR '']'' \<notin> set port
                 then Some (host, port) else None)
        else (case Cut s (CHR '':'') of
             (host, port, found) \<Rightarrow>
              if found \<and> CHR '':'' \<notin> set port \<and> CHR ''['' \<notin> set s \<and> CHR '']'' \<notin> set s
              then Some (host, port) else None))"

definition JoinHostPort :: "string \<Rightarrow> string \<Rightarrow> string" where
  "JoinHostPort host port =
    (if CHR '':'' \<in> set host then ''['' @ host @ '']:'' @ port else host @ '':'' @ port)"

section \<open>IP addresses\<close>

text \<open>An address is its 16 bytes.\<close>

fun split_on :: "char \<Rightarrow> string \<Rightarrow> string list" where
  "split_on c [] = [[]]"
| "split_on c (x # xs) =
    (if x = c then [] # split_on c xs
     else case split_on c xs of [] \<Rightarrow> [[x]] | p # ps \<Rightarrow> (x # p) # ps)"

definition octet :: "string \<Rightarrow> bool" where
  "octet f \<longleftrightarrow> f \<noteq> [] \<and> list_all (\<lambda>c. c \<in> set digits) f \<and> (hd f = CHR ''0'' \<longrightarrow> length f = 1) \<and> decimal_value f \<le> 255"

definition parseIPv4Fields :: "string \<Rightarrow> nat list option" where
  "parseIPv4Fields s =
    (let fs = split_on (CHR ''.'') s
     in if length fs = 4 \<and> list_all octet fs then Some (map decimal_value fs) else None)"

definition hex_digits :: string where "hex_digits = ''0123456789abcdefABCDEF''"

definition hex_value :: "char \<Rightarrow> nat" where
  "hex_value c =
    (if c \<in> set digits then of_char c - 48 else if of_char c \<ge> (97 :: nat) then of_char c - 87 else of_char c - 55)"

text \<open>
  The loop of \<open>parseIPv6\<close>: \<open>bs\<close> are the bytes so far and \<open>ell\<close> the place of the ellipsis. It
  ends when the string or the 16 bytes are used up, and gives both with what is left.
\<close>

function ipv6_groups :: "string \<Rightarrow> nat list \<Rightarrow> nat option \<Rightarrow> (string \<times> nat list \<times> nat option) option" where
  "ipv6_groups s bs ell =
    (if length bs \<ge> 16 then Some (s, bs, ell)
     else let g = takeWhile (\<lambda>c. c \<in> set hex_digits) s;
              rest = drop (length g) s;
              acc = foldl (\<lambda>n c. n * 16 + hex_value c) 0 g
          in if g = [] \<or> length g > 4 then None
             else if rest \<noteq> [] \<and> hd rest = CHR ''.'' then
               (if (ell = None \<and> length bs \<noteq> 12) \<or> length bs + 4 > 16 then None
                else map_option (\<lambda>v4. ([], bs @ v4, ell)) (parseIPv4Fields s))
             else let bs' = bs @ [acc div 256, acc mod 256]
                  in case rest of
                    [] \<Rightarrow> Some ([], bs', ell)
                  | [_] \<Rightarrow> None
                  | c # d # more_s \<Rightarrow>
                     if c \<noteq> CHR '':'' then None
                     else if d = CHR '':'' then
                       (if ell \<noteq> None then None
                        else if more_s = [] then Some ([], bs', Some (length bs'))
                        else ipv6_groups more_s bs' (Some (length bs')))
                     else ipv6_groups (d # more_s) bs' ell)"
  by pat_completeness auto
termination
proof (relation "measure (\<lambda>(s, _, _). length s)", goal_cases)
  case (2 s bs ell g rest acc bs' c x d more_s)
  then have "length (drop (length g) s) = length (c # d # more_s)" by (simp del: length_drop)
  then show ?case by simp
next
  case (3 s bs ell g rest acc bs' c x d more_s)
  then have "length (drop (length g) s) = length (c # d # more_s)" by (simp del: length_drop)
  then show ?case by simp
qed simp

declare ipv6_groups.simps [simp del]

definition parseIPv6 :: "string \<Rightarrow> nat list option" where
  "parseIPv6 s =
    (if s = ''::'' then Some (replicate 16 0)
     else case (if prefix ''::'' s then ipv6_groups (drop 2 s) [] (Some 0) else ipv6_groups s [] None) of
       None \<Rightarrow> None
     | Some (rest, bs, ell) \<Rightarrow>
        if rest \<noteq> [] then None
        else (case ell of
           None \<Rightarrow> if length bs < 16 then None else Some bs
         | Some e \<Rightarrow> if length bs < 16 then Some (take e bs @ replicate (16 - length bs) 0 @ drop e bs) else None))"

text \<open>\<open>net.ParseIP\<close>: no zones; the first of \<open>.\<close>, \<open>:\<close> and \<open>%\<close> decides.\<close>

definition ParseIP :: "string \<Rightarrow> nat list option" where
  "ParseIP s =
    (case dropWhile (\<lambda>c. c \<notin> {CHR ''.'', CHR '':'', CHR ''%''}) s of
       [] \<Rightarrow> None
     | c # _ \<Rightarrow>
        if c = CHR ''.'' then map_option (\<lambda>v4. replicate 10 0 @ [255, 255] @ v4) (parseIPv4Fields s)
        else if c = CHR '':'' \<and> CHR ''%'' \<notin> set s then parseIPv6 s
        else None)"

definition IsLoopback :: "nat list \<Rightarrow> bool" where
  "IsLoopback ip =
    (if take 12 ip = replicate 10 0 @ [255, 255] then ip ! 12 = 127 else ip = replicate 15 0 @ [1])"

section \<open>Case folding\<close>

text \<open>
  \<open>strings.EqualFold\<close> against a pattern of lower-case letters. Besides ASCII case, the long s
  (U+017F) folds to \<open>s\<close> and the Kelvin sign (U+212A) to \<open>k\<close>.
\<close>

definition upper :: "char \<Rightarrow> char" where
  "upper c = char_of (of_char c - 32 :: nat)"

fun EqualFold :: "string \<Rightarrow> string \<Rightarrow> bool" where
  "EqualFold s [] = (s = [])"
| "EqualFold s (p # ps) =
    (case s of
       [] \<Rightarrow> False
     | c # t \<Rightarrow>
        if c = p \<or> c = upper p then EqualFold t ps
        else if p = CHR ''s'' \<and> prefix [CHR 0xC5, CHR 0xBF] s then EqualFold (drop 2 s) ps
        else if p = CHR ''k'' \<and> prefix [CHR 0xE2, CHR 0x84, CHR 0xAA] s then EqualFold (drop 3 s) ps
        else False)"

section \<open>Base64\<close>

definition base64_alphabet :: string where
  "base64_alphabet = ''ABCDEFGHIJKLMNOPQRSTUVWXYZabcdefghijklmnopqrstuvwxyz0123456789+/''"

definition b64 :: "nat \<Rightarrow> char" where
  "b64 n = base64_alphabet ! n"

text \<open>\<open>base64.StdEncoding.EncodeToString\<close>.\<close>

fun base64_encode :: "string \<Rightarrow> string" where
  "base64_encode [] = []"
| "base64_encode [a] = [b64 (of_char a div 4), b64 (of_char a mod 4 * 16), CHR ''='', CHR ''='']"
| "base64_encode [a, b] =
    [b64 (of_char a div 4), b64 (of_char a mod 4 * 16 + of_char b div 16), b64 (of_char b mod 16 * 4), CHR ''='']"
| "base64_encode (a # b # c # rest) =
    b64 (of_char a div 4) # b64 (of_char a mod 4 * 16 + of_char b div 16) #
    b64 (of_char b mod 16 * 4 + of_char c div 64) # b64 (of_char c mod 64) # base64_encode rest"

text \<open>A reader of base64: blocks of four, padding in the last one only.\<close>

definition b64_value :: "char \<Rightarrow> nat" where
  "b64_value c = length (takeWhile (\<lambda>x. x \<noteq> c) base64_alphabet)"

fun base64_decode :: "string \<Rightarrow> string option" where
  "base64_decode [] = Some []"
| "base64_decode (w # x # y # z # rest) =
    (let a = b64_value w * 4 + b64_value x div 16;
         b = b64_value x mod 16 * 16 + b64_value y div 4;
         c = b64_value y mod 4 * 64 + b64_value z
     in if y = CHR ''='' \<and> z = CHR ''='' then (if rest = [] then Some [char_of a] else None)
        else if z = CHR ''='' then (if rest = [] then Some [char_of a, char_of b] else None)
        else map_option (\<lambda>t. char_of a # char_of b # char_of c # t) (base64_decode rest))"
| "base64_decode _ = None"

lemma base64_alphabet_facts: "distinct base64_alphabet" "length base64_alphabet = 64" "CHR ''='' \<notin> set base64_alphabet"
  "newline \<notin> set base64_alphabet" "CHR ''_'' \<notin> set base64_alphabet"
  by (simp_all add: base64_alphabet_def)

lemma b64_in: "n < 64 \<Longrightarrow> b64 n \<in> set base64_alphabet"
  by (simp add: b64_def base64_alphabet_facts)

lemma b64_value_b64 [simp]: "n < 64 \<Longrightarrow> b64_value (b64 n) = n"
proof -
  assume n: "n < 64"
  have "takeWhile (\<lambda>x. x \<noteq> b64 n) base64_alphabet = take n base64_alphabet"
    using n base64_alphabet_facts(1,2)
    by (intro takeWhile_eq_take_P_nth) (auto simp: b64_def nth_eq_iff_index_eq)
  with n show ?thesis by (simp add: b64_value_def base64_alphabet_facts)
qed

lemma b64_not_pad [simp]: "n < 64 \<Longrightarrow> b64 n \<noteq> CHR ''=''" "n < 64 \<Longrightarrow> CHR ''='' \<noteq> b64 n"
  using b64_in [of n] base64_alphabet_facts(3) by metis+

lemma char_parts:
  fixes c :: char
  defines "n \<equiv> (of_char c :: nat)"
  shows "n div 4 < 64" "n div 16 < 16" "n div 64 < 4" "n mod 4 < 4" "n mod 16 < 16" "n mod 64 < 64"
  using of_char_less_256 [of c] by (simp_all add: n_def less_mult_imp_div_less)

lemma six_bits:
  "(of_char a :: nat) div 4 < 64" "(of_char a :: nat) mod 4 * 16 + of_char b div 16 < 64"
  "(of_char b :: nat) mod 16 * 4 + of_char c div 64 < 64" "(of_char c :: nat) mod 64 < 64"
  "(of_char a :: nat) mod 4 * 16 < 64" "(of_char b :: nat) mod 16 * 4 < 64"
  using char_parts [of a] char_parts [of b] char_parts [of c] by linarith+

lemma base64_roundtrip: "base64_decode (base64_encode s) = Some s"
  by (induction s rule: base64_encode.induct)
    (simp_all add: Let_def six_bits char_parts)

lemma set_base64_encode: "set (base64_encode s) \<subseteq> insert (CHR ''='') (set base64_alphabet)"
  by (induction s rule: base64_encode.induct) (auto intro!: b64_in six_bits)

end
