(* ===== verification/Install.thy ===== *)
theory Install
  imports AdminHttp ConfigLoad GoNet
begin

text \<open>
  \<open>internal/master/install.go\<close>: the script that installs a slave, and the checks before a node's
  token is replaced. Reading files and PEM come from the parameters of \<open>ConfigLoad\<close>;
  \<open>internal/version\<close> gives the release tag.
\<close>

section \<open>Addresses and names\<close>

definition defaultInstallRepo :: string where [consts_simps]: "defaultInstallRepo = ''riofutab/nut-server''"
definition maxInstallNodeIDLen :: nat where "maxInstallNodeIDLen = 128"
definition devReleaseTag :: string where [consts_simps]: "devReleaseTag = ''latest''"
definition installTokenDelimiter :: string where [consts_simps]: "installTokenDelimiter = ''NUT_TOKEN_EOF''"
definition installCADelimiter :: string where [consts_simps]: "installCADelimiter = ''NUT_CA_EOF''"
definition installCALineWidth :: nat where "installCALineWidth = 76"

definition ReleaseTag :: "string \<Rightarrow> string" where
  "ReleaseTag Version = (if Version = [] \<or> Version = ''dev'' then ''latest'' else Version)"

text \<open>A loop over runes that accepts ASCII only: a byte of 128 or more is part of a refused rune.\<close>

definition isInstallScriptName :: "string \<Rightarrow> bool" where
  "isInstallScriptName s \<longleftrightarrow> s \<noteq> [] \<and> list_all nut_name_char s"

definition isValidInstallNodeID :: "string \<Rightarrow> bool" where
  "isValidInstallNodeID nodeID \<longleftrightarrow> length nodeID \<le> maxInstallNodeIDLen \<and> isInstallScriptName nodeID"

definition isValidInstallMasterAddr :: "string \<Rightarrow> bool" where
  "isValidInstallMasterAddr addr =
    (case SplitHostPort addr of
       None \<Rightarrow> False
     | Some (host, port) \<Rightarrow>
        if CHR '':'' \<in> set host \<and> ParseIP host = None then False
        else if CHR '':'' \<notin> set host \<and> \<not> isInstallScriptName host then False
        else if TrimCut port (set digits) \<noteq> [] then False
        else (case Atoi port of None \<Rightarrow> False | Some n \<Rightarrow> n > 0 \<and> n \<le> 65535))"

definition isLoopbackHost :: "string \<Rightarrow> bool" where
  "isLoopbackHost host =
    (if EqualFold host ''localhost'' then True
     else case ParseIP host of None \<Rightarrow> False | Some ip \<Rightarrow> IsLoopback ip)"

definition requestHostWithoutPort :: "string \<Rightarrow> string" where
  "requestHostWithoutPort hostHeader =
    (let h = TrimSpace hostHeader
     in if h = [] then []
        else case SplitHostPort h of Some (host, _) \<Rightarrow> host | None \<Rightarrow> h)"

definition listenAddrPort :: "string \<Rightarrow> string" where
  "listenAddrPort addr =
    (if addr = [] then []
     else case SplitHostPort addr of
       Some (_, port) \<Rightarrow> port
     | None \<Rightarrow> if HasPrefix addr '':'' then TrimPrefix addr '':'' else [])"

definition resolveMasterAddr :: "string \<Rightarrow> string \<Rightarrow> string \<Rightarrow> string" where
  "resolveMasterAddr publicAddr listenAddr requestHost =
    (if TrimSpace publicAddr \<noteq> [] then TrimSpace publicAddr
     else let host = requestHostWithoutPort requestHost
          in if host = [] then []
             else let port = listenAddrPort listenAddr
                  in if port = [] then [] else JoinHostPort host port)"

section \<open>The script\<close>

record installScriptParams =
  is_repo :: string
  is_releaseTag :: string
  is_nodeID :: string
  is_masterAddr :: string
  is_token :: string
  is_serverName :: string
  is_caPEM :: "string option"

text \<open>\<open>strings.ReplaceAll(s, "'", `'\''`)\<close> between quotes.\<close>

definition quote :: char where "quote = CHR 0x27"
definition backslash :: char where "backslash = CHR 0x5C"

definition shellQuote :: "string \<Rightarrow> string" where
  "shellQuote s = [quote] @ concat (map (\<lambda>c. if c = quote then [quote, backslash, quote, quote] else [c]) s) @ [quote]"

text \<open>The loop of \<open>wrapBase64\<close> over the encoded text.\<close>

function wrap_lines :: "string \<Rightarrow> string" where
  "wrap_lines encoded =
    (if length encoded > installCALineWidth
     then take installCALineWidth encoded @ [newline] @ wrap_lines (drop installCALineWidth encoded)
     else encoded @ [newline])"
  by pat_completeness auto
termination by (relation "measure length") (auto simp: installCALineWidth_def)

declare wrap_lines.simps [simp del]

definition wrapBase64 :: "string \<Rightarrow> string" where
  "wrapBase64 data = wrap_lines (base64_encode data)"

definition certificatePEM :: "pki \<Rightarrow> (string \<times> string \<Rightarrow> string) \<Rightarrow> string \<Rightarrow> string option" where
  "certificatePEM pki pemEncode data =
    (let out = concat (map pemEncode (filter (\<lambda>(type, bytes). type = certificate_block) (pem_blocks (pki_Decode pki) data)))
     in if out = [] then None else Some out)"

definition line :: "string \<Rightarrow> string" where "line s = s @ [newline]"

definition script_head :: string where
  "script_head = line ''#!/usr/bin/env bash'' @ line ''set -euo pipefail'' @ line ''umask 077'' @
     line ''work_dir=$(mktemp -d)'' @ line (''trap '' @ [quote] @ ''rm -rf \"$work_dir\"'' @ [quote] @ '' EXIT'')"

definition heredoc :: "string \<Rightarrow> string \<Rightarrow> string \<Rightarrow> string" where
  "heredoc cmd delim body = line (cmd @ '' <<'' @ [quote] @ delim @ [quote]) @ body @ line delim"

definition scriptURL :: "installScriptParams \<Rightarrow> string" where
  "scriptURL p = ''https://raw.githubusercontent.com/'' @ is_repo p @ ''/'' @ is_releaseTag p @ ''/scripts/install-online.sh''"

definition tls_args :: "installScriptParams \<Rightarrow> string" where
  "tls_args p =
    (case is_caPEM p of
       None \<Rightarrow> '' --disable-tls''
     | Some _ \<Rightarrow> '' --tls-server-name '' @ shellQuote (is_serverName p) @ '' --tls-ca-file \"$work_dir/ca.crt\"'')"

definition script_commands :: "installScriptParams \<Rightarrow> string" where
  "script_commands p =
    line (''curl -fsSL '' @ shellQuote (scriptURL p) @ '' -o \"$work_dir/install-online.sh\"'') @
    line (''sudo bash \"$work_dir/install-online.sh\" --role slave --version '' @ shellQuote (is_releaseTag p) @
      '' --repo '' @ shellQuote (is_repo p) @ '' -- '' @ [backslash]) @
    line (''  --node-id '' @ shellQuote (is_nodeID p) @ '' --master-addr '' @ shellQuote (is_masterAddr p) @
      '' --token-file \"$work_dir/token\"'' @ tls_args p)"

definition renderInstallScript :: "installScriptParams \<Rightarrow> string" where
  "renderInstallScript p =
    script_head @
    heredoc ''cat > \"$work_dir/token\"'' installTokenDelimiter (line (is_token p)) @
    (case is_caPEM p of
       None \<Rightarrow> []
     | Some ca \<Rightarrow> heredoc ''base64 -d > \"$work_dir/ca.crt\"'' installCADelimiter (wrapBase64 ca)) @
    script_commands p"

section \<open>The handler\<close>

definition name_chars :: string where
  "name_chars = ''alphanumerics, '' @ Join (map (\<lambda>c. [quote, c, quote]) ''-_.'') '', ''"

text \<open>The CA to embed, or the error when it cannot be had.\<close>

definition install_ca :: "pki \<Rightarrow> (string \<times> string \<Rightarrow> string) \<Rightarrow> MasterConfig \<Rightarrow> response + string option" where
  "install_ca pki pemEncode mc =
    (if \<not> EnabledForServer (mc_TLS mc) then Inr None
     else let caFile = (if mc_InstallCAFile mc = [] then tls_CertFile (mc_TLS mc) else mc_InstallCAFile mc)
          in case pki_ReadFile pki caFile of
               Inl err \<Rightarrow> Inl (500, ErrorBody ''cannot read the CA for the install script (install_ca_file or tls.cert_file)'')
             | Inr content \<Rightarrow>
                (case certificatePEM pki pemEncode content of
                   None \<Rightarrow> Inl (500, ErrorBody ''the CA for the install script (install_ca_file or tls.cert_file) contains no certificate'')
                 | Some ca \<Rightarrow> Inr (Some ca)))"

text \<open>The checks before anything changes: the error, or the parameters of the script without the token.\<close>

definition install_params ::
  "pki \<Rightarrow> (string \<times> string \<Rightarrow> string) \<Rightarrow> string \<Rightarrow> string \<Rightarrow> string \<Rightarrow> MasterConfig \<Rightarrow> response + installScriptParams" where
  "install_params pki pemEncode Version host nodeID mc =
    (if \<not> isValidInstallNodeID nodeID then Inl (400, ErrorBody (''node_id must contain only '' @ name_chars))
     else let releaseTag = ReleaseTag Version
          in if releaseTag = devReleaseTag then Inl (503, ErrorBody ''master is a development build without a release tag; install scripts cannot be pinned to a release'')
             else let masterAddr = resolveMasterAddr (mc_PublicAddr mc) (mc_ListenAddr mc) host
                  in if masterAddr = [] then Inl (503, ErrorBody ''cannot determine master_addr; set public_addr in master.yaml'')
                     else if \<not> isValidInstallMasterAddr masterAddr then Inl (400, ErrorBody (''master_addr must be host:port or [ipv6]:port with a host of only '' @ name_chars))
                     else if isLoopbackHost (requestHostWithoutPort masterAddr)
                     then Inl (503, ErrorBody ''master_addr resolves to loopback; set public_addr in master.yaml'')
                     else andThen (install_ca pki pemEncode mc) (\<lambda>ca.
                       Inr \<lparr>is_repo = (if mc_InstallRepo mc = [] then defaultInstallRepo else mc_InstallRepo mc),
                         is_releaseTag = releaseTag, is_nodeID = nodeID, is_masterAddr = masterAddr, is_token = [],
                         is_serverName = (if ca = None then [] else requestHostWithoutPort masterAddr), is_caPEM = ca\<rparr>))"

definition handleInstallScript ::
  "pki \<Rightarrow> (string \<times> string \<Rightarrow> string) \<Rightarrow> string \<Rightarrow> string \<Rightarrow> string \<Rightarrow> string \<Rightarrow> Server \<Rightarrow> response \<times> Server" where
  "handleInstallScript pki pemEncode Version host nodeID rnd s =
    (case install_params pki pemEncode Version host nodeID (cfg s) of
       Inl err \<Rightarrow> (err, s)
     | Inr params \<Rightarrow>
        (case install_node nodeID rnd s of
           (token, s1) \<Rightarrow> ((200, PlainBody (renderInstallScript (params\<lparr>is_token := token\<rparr>))), s1)))"

section \<open>How a shell reads it\<close>

text \<open>
  A reader for the part of the shell language the script uses. A word is made of single-quoted
  text, double-quoted text (kept as written: the one parameter in it stands for one word),
  escaped characters and plain characters; blanks separate words, a newline ends a command and
  a backslash before it continues the line.
\<close>

lemma Cut_shorter: "(a, b, True) = Cut s c \<Longrightarrow> length b < length s"
  using Cut_eq_found [of s c a b] by auto

definition plain_char :: "char \<Rightarrow> bool" where
  "plain_char c \<longleftrightarrow> nut_name_char c \<or> c = CHR ''/'' \<or> c = CHR '':''"

function sh_word :: "string \<Rightarrow> string \<Rightarrow> (string \<times> string) option" where
  "sh_word acc [] = Some (acc, [])"
| "sh_word acc (c # s) =
    (if c = quote \<or> c = CHR 0x22 then
       (case Cut s c of (inner, rest, found) \<Rightarrow> if found then sh_word (acc @ inner) rest else None)
     else if c = backslash then (case s of [] \<Rightarrow> None | d # rest \<Rightarrow> sh_word (if d = newline then acc else acc @ [d]) rest)
     else if c = CHR '' '' \<or> c = newline then Some (acc, c # s)
     else if plain_char c then sh_word (acc @ [c]) s
     else None)"
  by pat_completeness auto
termination by (relation "measure (\<lambda>(acc, s). length s)") (auto dest: Cut_shorter)

declare sh_word.simps [simp del]

function sh_command :: "string \<Rightarrow> (string list \<times> string) option" where
  "sh_command s =
    (case s of
       [] \<Rightarrow> Some ([], [])
     | c # t \<Rightarrow>
        if c = CHR '' '' then sh_command t
        else if c = newline then Some ([], t)
        else if c = backslash \<and> t \<noteq> [] \<and> hd t = newline then sh_command (tl t)
        else case sh_word [] s of
          None \<Rightarrow> None
        | Some (w, rest) \<Rightarrow>
           if length rest < length s then map_option (\<lambda>(ws, r). (w # ws, r)) (sh_command rest) else None)"
  by pat_completeness auto
termination by (relation "measure length") auto

declare sh_command.simps [simp del]

text \<open>A quoted here-document: everything up to the line that is the delimiter.\<close>

function read_heredoc :: "string \<Rightarrow> string \<Rightarrow> (string \<times> string) option" where
  "read_heredoc delim s =
    (case Cut s newline of
       (l, rest, found) \<Rightarrow>
        if l = delim then Some ([], rest)
        else if found then map_option (\<lambda>(body, r). (line l @ body, r)) (read_heredoc delim rest)
        else None)"
  by pat_completeness auto
termination by (relation "measure (\<lambda>(_, s). length s)") (auto dest: Cut_shorter)

declare read_heredoc.simps [simp del]

end
