(* ===== verification/InstallScript.thy ===== *)
theory InstallScript
  imports Install
begin

text \<open>
  What the install script does to a shell, whatever the configured and requested names are, and
  what handing it out changes.
\<close>

section \<open>Words\<close>

lemma special_chars [simp]:
  "quote \<noteq> CHR '' ''" "quote \<noteq> newline" "quote \<noteq> backslash" "backslash \<noteq> quote" "backslash \<noteq> CHR '' ''" "backslash \<noteq> newline"
  "backslash \<noteq> CHR 0x22" "newline \<noteq> quote" "CHR '' '' \<noteq> quote" "CHR '' '' \<noteq> backslash" "newline \<noteq> backslash"
  by (simp_all add: quote_def backslash_def)

lemma plain_char_facts: "plain_char c \<Longrightarrow> c \<notin> {quote, CHR 0x22, backslash, CHR '' '', newline}"
  by (auto simp: plain_char_def nut_name_char_def between_def quote_def backslash_def)

lemma sh_word_quoted:
  "c = quote \<or> c = CHR 0x22 \<Longrightarrow> c \<notin> set w \<Longrightarrow> sh_word acc (c # w @ c # rest) = sh_word (acc @ w) rest"
  by (simp add: sh_word.simps Cut_found)

lemma sh_word_escape: "c \<noteq> newline \<Longrightarrow> sh_word acc (backslash # c # rest) = sh_word (acc @ [c]) rest"
  by (simp add: sh_word.simps)

lemma sh_word_plain: "list_all plain_char w \<Longrightarrow> sh_word acc (w @ rest) = sh_word (acc @ w) rest"
proof (induction w arbitrary: acc)
  case (Cons c w)
  then have "sh_word acc (c # w @ rest) = sh_word (acc @ [c]) (w @ rest)"
    using plain_char_facts [of c] by (simp add: sh_word.simps)
  with Cons show ?case by simp
qed simp

lemma sh_word_stop: "r = [] \<or> hd r \<in> {CHR '' '', newline} \<Longrightarrow> sh_word acc r = Some (acc, r)"
  by (cases r) (auto simp: sh_word.simps quote_def backslash_def)

text \<open>The text between the outer quotes of \<open>shellQuote\<close>.\<close>

definition escaped :: "string \<Rightarrow> string" where
  "escaped s = concat (map (\<lambda>c. if c = quote then [quote, backslash, quote, quote] else [c]) s)"

lemma escaped_append: "escaped (s @ t) = escaped s @ escaped t"
  by (simp add: escaped_def)

lemma escaped_plain: "quote \<notin> set s \<Longrightarrow> escaped s = s"
  by (induction s) (auto simp: escaped_def)

lemma sh_word_shellQuote: "sh_word acc (shellQuote s @ rest) = sh_word (acc @ s) rest"
proof -
  have "sh_word acc (quote # escaped s @ quote # rest) = sh_word (acc @ s) rest"
  proof (induction s arbitrary: acc rule: measure_induct_rule [of length])
    case (less s)
    show ?case
    proof (cases "quote \<in> set s")
      case True
      then obtain a b where s: "s = a @ quote # b" "quote \<notin> set a" by (auto dest: split_list_first)
      have "escaped s = a @ [quote, backslash, quote, quote] @ escaped b"
        using s by (simp add: escaped_append escaped_plain) (simp add: escaped_def)
      then have "sh_word acc (quote # escaped s @ quote # rest) =
          sh_word (acc @ a) (backslash # quote # quote # escaped b @ quote # rest)"
        using sh_word_quoted [of quote a acc "backslash # quote # quote # escaped b @ quote # rest"] s by simp
      also have "\<dots> = sh_word (acc @ a @ [quote]) (quote # escaped b @ quote # rest)" by (simp add: sh_word_escape)
      also have "\<dots> = sh_word (acc @ s) rest" using less.IH [of b] s by simp
      finally show ?thesis .
    qed (use sh_word_quoted [of quote s acc rest] in \<open>simp add: escaped_plain\<close>)
  qed
  then show ?thesis by (simp add: shellQuote_def escaped_def [symmetric])
qed

section \<open>Commands\<close>

text \<open>A src that the shell reads as one word.\<close>

definition reads :: "string \<Rightarrow> string \<Rightarrow> bool" where
  "reads src w \<longleftrightarrow> src \<noteq> [] \<and> hd src \<notin> {CHR '' '', newline, backslash} \<and> (\<forall>r. sh_word [] (src @ r) = sh_word w r)"

lemma reads_shellQuote [simp]: "reads (shellQuote s) s"
  using sh_word_shellQuote [of "[]" s] by (simp add: reads_def) (simp add: shellQuote_def)

lemma reads_plain: "w \<noteq> [] \<Longrightarrow> list_all plain_char w \<Longrightarrow> reads w w"
  using plain_char_facts [of "hd w"] sh_word_plain [of w "[]"] by (cases w) (auto simp: reads_def)

lemma reads_double: "CHR 0x22 \<notin> set w \<Longrightarrow> reads (CHR 0x22 # w @ [CHR 0x22]) w"
  using sh_word_quoted [of "CHR 0x22" w "[]"] by (auto simp: reads_def backslash_def)

lemma sh_command_word:
  assumes "reads src w" "r = [] \<or> hd r \<in> {CHR '' '', newline}"
  shows "sh_command (src @ r) = map_option (\<lambda>(ws, r'). (w # ws, r')) (sh_command r)"
proof -
  from assms(1) obtain c t where src: "src = c # t" "c \<noteq> CHR '' ''" "c \<noteq> newline" "c \<noteq> backslash"
    by (cases src) (auto simp: reads_def)
  have "sh_word [] (src @ r) = Some (w, r)" using assms sh_word_stop by (simp add: reads_def)
  then show ?thesis using src by (simp add: sh_command.simps [of "c # t @ r"])
qed

lemma sh_command_blank: "sh_command (CHR '' '' # r) = sh_command r"
  by (simp add: sh_command.simps [of "CHR '' '' # r"])

lemma sh_command_newline: "sh_command (newline # r) = Some ([], r)"
  by (simp add: sh_command.simps [of "newline # r"])

lemma sh_command_continued: "sh_command (backslash # newline # r) = sh_command r"
  by (simp add: sh_command.simps [of "backslash # newline # r"])

lemma sh_command_words:
  "list_all2 reads srcs ws \<Longrightarrow> r = [] \<or> hd r \<in> {CHR '' '', newline} \<Longrightarrow>
    sh_command (Join srcs '' '' @ r) = map_option (\<lambda>(ws', r'). (ws @ ws', r')) (sh_command r)"
proof (induction srcs ws rule: list_all2_induct)
  case Nil
  then show ?case by (cases "sh_command r") auto
next
  case (Cons src srcs w ws)
  show ?case
  proof (cases srcs)
    case Nil
    with Cons show ?thesis using sh_command_word [of src w r] by (cases "sh_command r") auto
  next
    case (Cons src' srcs')
    have "sh_command (Join (src # srcs) '' '' @ r) = sh_command (src @ CHR '' '' # Join srcs '' '' @ r)"
      by (simp add: local.Cons)
    also have "\<dots> = map_option (\<lambda>(ws, r'). (w # ws, r')) (sh_command (Join srcs '' '' @ r))"
      using Cons.hyps(1) sh_command_word [of src w] by (simp add: sh_command_blank)
    finally show ?thesis using Cons.IH Cons.prems by (cases "sh_command r") (auto simp: option.map_comp)
  qed
qed

section \<open>Here-documents\<close>

lemma line_append: "line l @ r = l @ newline # r"
  by (simp add: line_def)

lemma read_heredoc_line:
  "newline \<notin> set l \<Longrightarrow> read_heredoc delim (line l @ r) =
    (if l = delim then Some ([], r) else map_option (\<lambda>(body, r). (line l @ body, r)) (read_heredoc delim r))"
proof -
  assume "newline \<notin> set l"
  then have "Cut (line l @ r) newline = (l, r, True)" by (simp add: line_append Cut_found)
  then show ?thesis by (simp add: read_heredoc.simps [of delim "line l @ r"])
qed

lemma read_heredoc_lines:
  "newline \<notin> set delim \<Longrightarrow> (\<And>l. l \<in> set ls \<Longrightarrow> newline \<notin> set l \<and> l \<noteq> delim) \<Longrightarrow>
    read_heredoc delim (concat (map line ls) @ line delim @ rest) = Some (concat (map line ls), rest)"
  by (induction ls) (simp_all add: read_heredoc_line)

lemma wrap_lines_chunks:
  "\<exists>ls. wrap_lines s = concat (map line ls) \<and> concat ls = s \<and> (\<forall>l \<in> set ls. length l \<le> installCALineWidth)"
proof (induction s rule: wrap_lines.induct)
  case (1 s)
  show ?case
  proof (cases "length s > installCALineWidth")
    case True
    with 1 obtain ls where "wrap_lines (drop installCALineWidth s) = concat (map line ls)" "concat ls = drop installCALineWidth s"
      "\<forall>l \<in> set ls. length l \<le> installCALineWidth" by auto
    with True show ?thesis
      by (intro exI [of _ "take installCALineWidth s # ls"]) (simp add: wrap_lines.simps [of s] line_append)
  next
    case False
    then show ?thesis by (intro exI [of _ "[s]"]) (simp add: wrap_lines.simps [of s] line_def)
  qed
qed

lemma filter_newlines: "newline \<notin> set (concat ls) \<Longrightarrow> filter (\<lambda>c. c \<noteq> newline) (concat (map line ls)) = concat ls"
proof (induction ls)
  case (Cons l ls)
  then have "filter (\<lambda>c. c \<noteq> newline) l = l" by (intro filter_True) auto
  with Cons show ?case by (simp add: line_def)
qed simp

lemma read_wrapped:
  "read_heredoc installCADelimiter (wrapBase64 ca @ line installCADelimiter @ rest) = Some (wrapBase64 ca, rest)"
  "base64_decode (filter (\<lambda>c. c \<noteq> newline) (wrapBase64 ca)) = Some ca"
proof -
  obtain ls where ls: "wrapBase64 ca = concat (map line ls)" "concat ls = base64_encode ca"
    using wrap_lines_chunks [of "base64_encode ca"] by (auto simp: wrapBase64_def)
  have chars: "newline \<notin> set (base64_encode ca)" "CHR ''_'' \<notin> set (base64_encode ca)"
    using set_base64_encode [of ca] base64_alphabet_facts(4,5) by auto
  have "newline \<notin> set l \<and> l \<noteq> installCADelimiter" if "l \<in> set ls" for l
    using that chars by (auto simp: ls(2) [symmetric] installCADelimiter_def)
  moreover have "newline \<notin> set installCADelimiter" by (simp add: installCADelimiter_def)
  ultimately show "read_heredoc installCADelimiter (wrapBase64 ca @ line installCADelimiter @ rest) = Some (wrapBase64 ca, rest)"
    unfolding ls(1) by (intro read_heredoc_lines)
  show "base64_decode (filter (\<lambda>c. c \<noteq> newline) (wrapBase64 ca)) = Some ca"
    using chars(1) filter_newlines [of ls] by (simp add: ls base64_roundtrip)
qed

lemma read_token:
  assumes "set token \<subseteq> set ''0123456789abcdef''"
  shows "read_heredoc installTokenDelimiter (line token @ line installTokenDelimiter @ rest) = Some (line token, rest)"
proof -
  have "newline \<notin> set token" "CHR ''_'' \<notin> set token" using assms by auto
  then have "token \<noteq> installTokenDelimiter" by (auto simp: installTokenDelimiter_def)
  with \<open>newline \<notin> set token\<close> show ?thesis
    using read_heredoc_lines [of installTokenDelimiter "[token]" rest] by (simp add: installTokenDelimiter_def)
qed

section \<open>The script as a whole\<close>

definition curl_command :: "installScriptParams \<Rightarrow> string list" where
  "curl_command p = [''curl'', ''-fsSL'', scriptURL p, ''-o'', ''$work_dir/install-online.sh'']"

definition tls_words :: "installScriptParams \<Rightarrow> string list" where
  "tls_words p = (case is_caPEM p of None \<Rightarrow> [''--disable-tls'']
     | Some _ \<Rightarrow> [''--tls-server-name'', is_serverName p, ''--tls-ca-file'', ''$work_dir/ca.crt''])"

definition install_command :: "installScriptParams \<Rightarrow> string list" where
  "install_command p =
    [''sudo'', ''bash'', ''$work_dir/install-online.sh'', ''--role'', ''slave'', ''--version'', is_releaseTag p, ''--repo'', is_repo p,
     ''--'', ''--node-id'', is_nodeID p, ''--master-addr'', is_masterAddr p, ''--token-file'', ''$work_dir/token''] @ tls_words p"

definition dquote :: "string \<Rightarrow> string" where "dquote w = CHR 0x22 # w @ [CHR 0x22]"

lemma script_commands_words:
  "script_commands p =
    Join [''curl'', ''-fsSL'', shellQuote (scriptURL p), ''-o'', dquote ''$work_dir/install-online.sh''] '' '' @ newline #
    Join [''sudo'', ''bash'', dquote ''$work_dir/install-online.sh'', ''--role'', ''slave'', ''--version'', shellQuote (is_releaseTag p),
      ''--repo'', shellQuote (is_repo p), ''--''] '' '' @ CHR '' '' # backslash # newline # CHR '' '' # CHR '' '' #
    Join ([''--node-id'', shellQuote (is_nodeID p), ''--master-addr'', shellQuote (is_masterAddr p), ''--token-file'', dquote ''$work_dir/token''] @
      (case is_caPEM p of None \<Rightarrow> [''--disable-tls'']
       | Some _ \<Rightarrow> [''--tls-server-name'', shellQuote (is_serverName p), ''--tls-ca-file'', dquote ''$work_dir/ca.crt''])) '' '' @ [newline]"
  by (simp add: script_commands_def line_def tls_args_def dquote_def split: option.split)

lemma reads_words [simp]:
  "reads ''curl'' ''curl''" "reads ''-fsSL'' ''-fsSL''" "reads ''-o'' ''-o''" "reads ''sudo'' ''sudo''" "reads ''bash'' ''bash''"
  "reads ''--role'' ''--role''" "reads ''slave'' ''slave''" "reads ''--version'' ''--version''" "reads ''--repo'' ''--repo''"
  "reads ''--'' ''--''" "reads ''--node-id'' ''--node-id''" "reads ''--master-addr'' ''--master-addr''"
  "reads ''--token-file'' ''--token-file''" "reads ''--disable-tls'' ''--disable-tls''" "reads ''--tls-server-name'' ''--tls-server-name''"
  "reads ''--tls-ca-file'' ''--tls-ca-file''"
  by (rule reads_plain; simp add: plain_char_def nut_name_char_def between_def)+

lemma reads_dquote: "CHR 0x22 \<notin> set w \<Longrightarrow> reads (dquote w) w"
  unfolding dquote_def by (rule reads_double)

lemma script_commands_read:
  "\<exists>r. sh_command (script_commands p) = Some (curl_command p, r) \<and> sh_command r = Some (install_command p, [])"
proof -
  define r3 where "r3 = Join ([''--node-id'', shellQuote (is_nodeID p), ''--master-addr'', shellQuote (is_masterAddr p), ''--token-file'',
      dquote ''$work_dir/token''] @ (case is_caPEM p of None \<Rightarrow> [''--disable-tls'']
       | Some _ \<Rightarrow> [''--tls-server-name'', shellQuote (is_serverName p), ''--tls-ca-file'', dquote ''$work_dir/ca.crt''])) '' '' @ [newline]"
  define r2 where "r2 = Join [''sudo'', ''bash'', dquote ''$work_dir/install-online.sh'', ''--role'', ''slave'', ''--version'',
      shellQuote (is_releaseTag p), ''--repo'', shellQuote (is_repo p), ''--''] '' '' @ CHR '' '' # backslash # newline # CHR '' '' # CHR '' '' # r3"
  have 1: "script_commands p = Join [''curl'', ''-fsSL'', shellQuote (scriptURL p), ''-o'', dquote ''$work_dir/install-online.sh''] '' '' @ newline # r2"
    unfolding script_commands_words r2_def r3_def by (rule refl)
  have "list_all2 reads [''curl'', ''-fsSL'', shellQuote (scriptURL p), ''-o'', dquote ''$work_dir/install-online.sh''] (curl_command p)"
    by (simp add: curl_command_def reads_dquote)
  from sh_command_words [OF this] have "sh_command (script_commands p) = Some (curl_command p, r2)"
    unfolding 1 by (simp add: sh_command_newline del: Join.simps)
  moreover have "list_all2 reads [''sudo'', ''bash'', dquote ''$work_dir/install-online.sh'', ''--role'', ''slave'', ''--version'',
      shellQuote (is_releaseTag p), ''--repo'', shellQuote (is_repo p), ''--''] (take 10 (install_command p))"
    by (simp add: install_command_def reads_dquote)
  from sh_command_words [OF this] have "sh_command r2 = map_option (\<lambda>(ws, r). (take 10 (install_command p) @ ws, r)) (sh_command r3)"
    unfolding r2_def by (simp add: sh_command_blank sh_command_continued del: Join.simps)
  moreover have "list_all2 reads ([''--node-id'', shellQuote (is_nodeID p), ''--master-addr'', shellQuote (is_masterAddr p), ''--token-file'',
      dquote ''$work_dir/token''] @ (case is_caPEM p of None \<Rightarrow> [''--disable-tls'']
       | Some _ \<Rightarrow> [''--tls-server-name'', shellQuote (is_serverName p), ''--tls-ca-file'', dquote ''$work_dir/ca.crt'']))
      (drop 10 (install_command p))"
    by (simp add: install_command_def tls_words_def reads_dquote split: option.split)
  from sh_command_words [OF this] have "sh_command r3 = Some (drop 10 (install_command p), [])"
    unfolding r3_def by (simp add: sh_command_newline del: Join.simps append.simps)
  ultimately show ?thesis by (simp del: take_Suc_Cons drop_Suc_Cons)
qed

text \<open>
  C32. The install script says to a shell exactly what the master meant, whatever bytes the
  configured and requested names contain: its first here-document is the token, the second one
  (with TLS) decodes to the CA's bytes, and the commands after them are read as the download and
  the installer call with each name as one argument. So no name can end a quotation, add an
  argument or start a command.
\<close>

theorem install_script_reads_back:
  assumes "set (is_token p) \<subseteq> set ''0123456789abcdef''"
  shows "\<exists>t1 t2 t3. renderInstallScript p =
      script_head @ line (''cat > \"$work_dir/token\" <<'' @ [quote] @ installTokenDelimiter @ [quote]) @ t1 \<and>
    read_heredoc installTokenDelimiter t1 = Some (line (is_token p), t2) \<and>
    (case is_caPEM p of
       None \<Rightarrow> t2 = t3
     | Some ca \<Rightarrow> \<exists>t body. t2 = line (''base64 -d > \"$work_dir/ca.crt\" <<'' @ [quote] @ installCADelimiter @ [quote]) @ t \<and>
         read_heredoc installCADelimiter t = Some (body, t3) \<and> base64_decode (filter (\<lambda>c. c \<noteq> newline) body) = Some ca) \<and>
    (\<exists>r. sh_command t3 = Some (curl_command p, r) \<and> sh_command r = Some (install_command p, []))"
proof -
  define ca where "ca = (case is_caPEM p of None \<Rightarrow> []
    | Some ca \<Rightarrow> heredoc ''base64 -d > \"$work_dir/ca.crt\"'' installCADelimiter (wrapBase64 ca))"
  have "renderInstallScript p = script_head @ line (''cat > \"$work_dir/token\" <<'' @ [quote] @ installTokenDelimiter @ [quote]) @
      line (is_token p) @ line installTokenDelimiter @ ca @ script_commands p"
    unfolding renderInstallScript_def ca_def heredoc_def by (simp only: append_assoc append.simps)
  moreover have "case is_caPEM p of None \<Rightarrow> ca @ script_commands p = script_commands p
     | Some c \<Rightarrow> \<exists>t body. ca @ script_commands p = line (''base64 -d > \"$work_dir/ca.crt\" <<'' @ [quote] @ installCADelimiter @ [quote]) @ t \<and>
         read_heredoc installCADelimiter t = Some (body, script_commands p) \<and> base64_decode (filter (\<lambda>c. c \<noteq> newline) body) = Some c"
    using read_wrapped(1) [of _ "script_commands p"] read_wrapped(2)
    by (cases "is_caPEM p") (simp_all add: ca_def heredoc_def)
  ultimately show ?thesis using read_token [OF assms] script_commands_read [of p] by blast
qed

definition hostile_params :: installScriptParams where
  "hostile_params = \<lparr>is_repo = ''me/fork'' @ [quote] @ ''; rm -rf /'', is_releaseTag = ''v1'', is_nodeID = ''web'', is_masterAddr = ''10.0.0.1:9000'',
     is_token = newNodeToken ''abc'', is_serverName = [], is_caPEM = None\<rparr>"

theorem install_script_reads_back_witness:
  "\<exists>t1 t2 r. renderInstallScript hostile_params =
      script_head @ line (''cat > \"$work_dir/token\" <<'' @ [quote] @ installTokenDelimiter @ [quote]) @ t1 \<and>
    read_heredoc installTokenDelimiter t1 = Some (line (is_token hostile_params), t2) \<and>
    sh_command t2 = Some (curl_command hostile_params, r) \<and> sh_command r = Some (install_command hostile_params, [])"
proof -
  have "set (is_token hostile_params) \<subseteq> set ''0123456789abcdef''"
    using set_hex_encode [of "''abc''"] by (simp add: hostile_params_def newNodeToken_def)
  moreover have "is_caPEM hostile_params = None" by (simp add: hostile_params_def)
  ultimately show ?thesis using install_script_reads_back [of hostile_params] by (simp only: option.case) blast
qed

section \<open>Handing it out\<close>

lemma certificatePEM_blocks:
  "certificatePEM pki pemEncode data = Some ca \<Longrightarrow>
    \<exists>blocks. ca = concat (map pemEncode blocks) \<and> (\<forall>b \<in> set blocks. fst b = certificate_block)"
  by (auto simp: certificatePEM_def Let_def split: if_splits
      intro!: exI [of _ "filter (\<lambda>(type, bytes). type = certificate_block) (pem_blocks (pki_Decode pki) data)"])

lemma install_ca_certificates:
  assumes "install_ca pki pemEncode mc = Inr ca"
  shows "ca = None \<longleftrightarrow> \<not> EnabledForServer (mc_TLS mc)"
    and "\<And>c. ca = Some c \<Longrightarrow> \<exists>blocks. c = concat (map pemEncode blocks) \<and> (\<forall>b \<in> set blocks. fst b = certificate_block)"
  using assms by (auto simp: install_ca_def Let_def split: if_splits sum.splits option.splits intro: certificatePEM_blocks)
    (metis+)

lemma install_params_checks:
  assumes "install_params pki pemEncode Version host nodeID mc = Inr params"
  shows "isValidInstallNodeID nodeID" "is_nodeID params = nodeID" "is_releaseTag params \<noteq> devReleaseTag"
    "isValidInstallMasterAddr (is_masterAddr params)" "\<not> isLoopbackHost (requestHostWithoutPort (is_masterAddr params))"
    "is_caPEM params = None \<longleftrightarrow> \<not> EnabledForServer (mc_TLS mc)"
    "\<forall>ca. is_caPEM params = Some ca \<longrightarrow> (\<exists>blocks. ca = concat (map pemEncode blocks) \<and> (\<forall>b \<in> set blocks. fst b = certificate_block))"
proof -
  obtain ca where ca: "install_ca pki pemEncode mc = Inr ca" and params: "is_caPEM params = ca" "is_nodeID params = nodeID"
      "is_releaseTag params = ReleaseTag Version" "is_masterAddr params = resolveMasterAddr (mc_PublicAddr mc) (mc_ListenAddr mc) host"
    and guards: "isValidInstallNodeID nodeID" "ReleaseTag Version \<noteq> devReleaseTag"
      "isValidInstallMasterAddr (resolveMasterAddr (mc_PublicAddr mc) (mc_ListenAddr mc) host)"
      "\<not> isLoopbackHost (requestHostWithoutPort (resolveMasterAddr (mc_PublicAddr mc) (mc_ListenAddr mc) host))"
    using assms by (auto simp: install_params_def Let_def andThen_Inr split: if_splits)
  then show "isValidInstallNodeID nodeID" "is_nodeID params = nodeID" "is_releaseTag params \<noteq> devReleaseTag"
    "isValidInstallMasterAddr (is_masterAddr params)" "\<not> isLoopbackHost (requestHostWithoutPort (is_masterAddr params))"
    by simp_all
  show "is_caPEM params = None \<longleftrightarrow> \<not> EnabledForServer (mc_TLS mc)" using install_ca_certificates(1) [OF ca] params(1) by simp
  show "\<forall>ca. is_caPEM params = Some ca \<longrightarrow> (\<exists>blocks. ca = concat (map pemEncode blocks) \<and> (\<forall>b \<in> set blocks. fst b = certificate_block))"
    using install_ca_certificates(2) [OF ca] params(1) by simp
qed

text \<open>
  C33. Handing out an install script replaces a token only when the script is really served: on
  every error the server is unchanged. When it is served, the script carries the new token, only
  that node's digest changes, the node id and the address passed the checks the installer
  repeats, the address is not a loopback one, and the CA in it consists of certificates only.
\<close>

theorem install_rotates_only_when_served:
  assumes "handleInstallScript pki pemEncode Version host nodeID rnd s = (resp, s')"
  shows "(fst resp \<noteq> 200 \<longrightarrow> s' = s) \<and>
    (fst resp = 200 \<longrightarrow> (\<exists>params. snd resp = PlainBody (renderInstallScript params) \<and>
      is_nodeID params = nodeID \<and> isValidInstallNodeID nodeID \<and> is_releaseTag params \<noteq> devReleaseTag \<and>
      isValidInstallMasterAddr (is_masterAddr params) \<and> \<not> isLoopbackHost (requestHostWithoutPort (is_masterAddr params)) \<and>
      is_token params = newNodeToken rnd \<and>
      nodeTokens s' = mput nodeID (hashToken s (newNodeToken rnd)) (nodeTokens s) \<and>
      (is_caPEM params = None \<longleftrightarrow> \<not> EnabledForServer (mc_TLS (cfg s))) \<and>
      (\<forall>ca. is_caPEM params = Some ca \<longrightarrow>
        (\<exists>blocks. ca = concat (map pemEncode blocks) \<and> (\<forall>b \<in> set blocks. fst b = certificate_block)))))"
proof (cases "install_params pki pemEncode Version host nodeID (cfg s)")
  case (Inl err)
  have "fst err \<noteq> 200" using Inl
    by (auto simp: install_params_def install_ca_def Let_def andThen_def split: if_splits sum.splits option.splits)
  with Inl assms show ?thesis by (auto simp: handleInstallScript_def)
next
  case (Inr params)
  let ?params = "params\<lparr>is_token := newNodeToken rnd\<rparr>"
  have token: "fst (install_node nodeID rnd s) = newNodeToken rnd"
    "nodeTokens (snd (install_node nodeID rnd s)) = mput nodeID (hashToken s (newNodeToken rnd)) (nodeTokens s)"
    by (simp_all add: install_node_def nodeTokens_issue) (simp add: issueNodeToken_def Let_def)
  have served: "resp = (200, PlainBody (renderInstallScript ?params))" "s' = snd (install_node nodeID rnd s)"
    using assms Inr token(1) by (auto simp: handleInstallScript_def split: prod.splits)
  note checks = install_params_checks [OF Inr]
  show ?thesis using served token(2) checks by (auto intro!: exI [of _ ?params])
qed

definition unused_pki :: pki where
  "unused_pki = \<lparr>pki_ReadFile = (\<lambda>_. Inl ''no such file''), pki_hasCertificate = (\<lambda>_. False), pki_Decode = (\<lambda>_. None)\<rparr>"

lemmas net_eval = SplitHostPort_def Cut_def JoinHostPort_def TrimSpace_def strip_all.simps strip_one_def unicode_spaces_def
  HasPrefix_def TrimPrefix_def TrimCut_def TrimRight_def Atoi_def digits_def decimal_value_def digit_value_def ParseIP_def
  parseIPv4Fields_def octet_def parseIPv6_def ipv6_groups.simps hex_digits_def hex_value_def upper_def Let_def
  isInstallScriptName_def nut_name_char_def between_def

lemma example_node: "isValidInstallNodeID ''web''"
  by (simp add: isValidInstallNodeID_def isInstallScriptName_def nut_name_char_def between_def maxInstallNodeIDLen_def)

lemma example_hosts:
  "requestHostWithoutPort ''10.0.0.1:9001'' = ''10.0.0.1''" "requestHostWithoutPort ''10.0.0.1:9000'' = ''10.0.0.1''"
  "requestHostWithoutPort ''[2001:db8::1]:80'' = ''2001:db8::1''" "requestHostWithoutPort ''[2001:db8::1]:9000'' = ''2001:db8::1''"
  "requestHostWithoutPort ''[2001:db8::1]'' = ''[2001:db8::1]''" "listenAddrPort '':9000'' = ''9000''"
  by (simp_all add: requestHostWithoutPort_def listenAddrPort_def net_eval)

lemma example_ips:
  "ParseIP ''10.0.0.1'' = Some (replicate 10 0 @ [255, 255, 10, 0, 0, 1])"
  "ParseIP ''2001:db8::1'' = Some ([32, 1, 13, 184] @ replicate 10 0 @ [0, 1])"
  by (simp_all add: net_eval)

lemma example_not_loopback: "\<not> isLoopbackHost ''10.0.0.1''" "\<not> isLoopbackHost ''2001:db8::1''"
proof -
  have "\<not> EqualFold ''10.0.0.1'' ''localhost''" "\<not> EqualFold ''2001:db8::1'' ''localhost''" by (simp_all add: upper_def)
  then show "\<not> isLoopbackHost ''10.0.0.1''" "\<not> isLoopbackHost ''2001:db8::1''"
    by (simp_all add: isLoopbackHost_def example_ips IsLoopback_def numeral_eq_Suc)
qed

lemma example_address:
  "resolveMasterAddr [] '':9000'' ''10.0.0.1:9001'' = ''10.0.0.1:9000''" "isValidInstallMasterAddr ''10.0.0.1:9000''"
  "\<not> isLoopbackHost (requestHostWithoutPort ''10.0.0.1:9000'')"
  "resolveMasterAddr [] '':9000'' ''[2001:db8::1]:80'' = ''[2001:db8::1]:9000''" "isValidInstallMasterAddr ''[2001:db8::1]:9000''"
  "\<not> isLoopbackHost (requestHostWithoutPort ''[2001:db8::1]:9000'')"
  "resolveMasterAddr [] '':9000'' ''[2001:db8::1]'' = ''[[2001:db8::1]]:9000''" "\<not> isValidInstallMasterAddr ''[[2001:db8::1]]:9000''"
  by (simp_all add: example_hosts example_not_loopback resolveMasterAddr_def JoinHostPort_def TrimSpace_def isValidInstallMasterAddr_def
      net_eval)

theorem install_rotates_only_when_served_witness:
  "\<exists>resp s'. handleInstallScript unused_pki snd ''v0.6.0'' ''10.0.0.1:9001'' ''web'' ''abc'' example_server = (resp, s') \<and>
     nodeTokens s' = [(''web'', newNodeToken ''abc'')]"
proof -
  have "\<exists>params. install_params unused_pki snd ''v0.6.0'' ''10.0.0.1:9001'' ''web'' (cfg example_server) = Inr params"
    using example_node example_address
    by (simp add: install_params_def example_server_def example_config_def Let_def ReleaseTag_def devReleaseTag_def
        install_ca_def EnabledForServer_def zero_TLS_def)
  then obtain resp s' where run: "handleInstallScript unused_pki snd ''v0.6.0'' ''10.0.0.1:9001'' ''web'' ''abc'' example_server = (resp, s')"
    and "fst resp = 200"
    by (cases "install_node ''web'' ''abc'' example_server") (auto simp: handleInstallScript_def)
  with install_rotates_only_when_served [OF run] show ?thesis by (auto simp: example_server_def)
qed

section \<open>An IPv6 literal without a port\<close>

text \<open>
  A request whose Host is an IPv6 literal with a port gets its script, but the same address
  without the port (what a client sends for port 80 or 443) is refused as an invalid address:
  the brackets are kept and a second pair is put around them.
\<close>

theorem ipv6_host_needs_port:
  "(\<exists>params. install_params unused_pki snd ''v0.6.0'' ''[2001:db8::1]:80'' ''web'' example_config = Inr params \<and>
     is_masterAddr params = ''[2001:db8::1]:9000'') \<and>
   (\<exists>text. install_params unused_pki snd ''v0.6.0'' ''[2001:db8::1]'' ''web'' example_config = Inl (400, ErrorBody text))"
  using example_node example_address
  by (simp add: install_params_def example_config_def Let_def ReleaseTag_def devReleaseTag_def install_ca_def EnabledForServer_def zero_TLS_def)

end
