(* ===== verification/AdminApi.thy ===== *)
theory AdminApi
  imports Install
begin

text \<open>
  The routes of the admin API (\<open>adminMux\<close> and \<open>limitRequestBody\<close> in
  \<open>internal/master/admin_http.go\<close>) over the handlers of \<open>AdminHttp\<close>, \<open>Enrollment\<close> and \<open>Install\<close>.
\<close>

definition maxAdminRequestBody :: nat where "maxAdminRequestBody = 64 * 1024"

text \<open>A request: the method, the segments of the cleaned path, the Authorization and Host headers, the body.\<close>

record admin_request =
  rq_method :: string
  rq_path :: "string list"
  rq_auth :: string
  rq_host :: string
  rq_body :: string

text \<open>
  What the handlers take from outside: the JSON decoders (of the bytes read and whether the body
  was cut off), the clock, the next command id and random bytes, the version and the PEM functions,
  and the two pages that are generated elsewhere.
\<close>

record admin_env =
  env_decodeShutdown :: "string \<times> bool \<Rightarrow> string + ShutdownRequest"
  env_decodeExpect :: "string \<times> bool \<Rightarrow> string + expectNodeRequest"
  env_now :: time
  env_commandID :: string
  env_rnd :: string
  env_Version :: string
  env_pki :: pki
  env_pemEncode :: "string \<times> string \<Rightarrow> string"
  env_index :: "string + string"
  env_metrics :: "Server \<Rightarrow> string"

definition limitRequestBody :: "string \<Rightarrow> string \<times> bool" where
  "limitRequestBody body = (take maxAdminRequestBody body, length body > maxAdminRequestBody)"

definition method_not_allowed :: "Server \<Rightarrow> response \<times> Server" where
  "method_not_allowed s = ((405, PlainBody ''Method Not Allowed''), s)"

text \<open>A pattern with method GET also serves HEAD.\<close>

definition on_method :: "string \<Rightarrow> admin_request \<Rightarrow> (Server \<Rightarrow> response \<times> Server) \<Rightarrow> Server \<Rightarrow> response \<times> Server" where
  "on_method want rq handler =
    (if rq_method rq = want \<or> (want = ''GET'' \<and> rq_method rq = ''HEAD'') then handler else method_not_allowed)"

definition handleIndex :: "admin_env \<Rightarrow> Server \<Rightarrow> response \<times> Server" where
  "handleIndex env s = ((case env_index env of Inl err \<Rightarrow> (500, PlainBody err) | Inr page \<Rightarrow> (200, PlainBody page)), s)"

definition revoke_response :: "string \<Rightarrow> Server \<Rightarrow> response \<times> Server" where
  "revoke_response nodeID s =
    (case handleRevokeToken nodeID s of
       (status, s1) \<Rightarrow> ((status, if status = 204 then NoBody else ErrorBody ''node has no issued token''), s1))"

definition adminMux :: "admin_env \<Rightarrow> admin_request \<Rightarrow> Server \<Rightarrow> response \<times> Server" where
  "adminMux env rq =
    (let admin = requireAdminToken (rq_auth rq);
         body = limitRequestBody (rq_body rq);
         m = rq_method rq
     in case rq_path rq of
       [] \<Rightarrow> on_method ''GET'' rq (handleIndex env)
     | [p] \<Rightarrow>
        if p = ''healthz'' then on_method ''GET'' rq (\<lambda>s. (handleHealthz s, s))
        else if p = ''readyz'' then on_method ''GET'' rq (\<lambda>s. (handleReadyz s, s))
        else if p = ''metrics'' then on_method ''GET'' rq (\<lambda>s. ((200, PlainBody (env_metrics env s)), s))
        else if p = ''status'' then admin (handleStatus m (env_now env))
        else (\<lambda>s. ((404, PlainBody ''404 page not found''), s))
     | [p, q] \<Rightarrow>
        if p = ''commands'' \<and> q = ''shutdown'' then
          admin (handleManualShutdown m (env_decodeShutdown env body) (env_now env) (env_commandID env))
        else if p = ''commands'' \<and> q = ''reset'' then admin (handleReset m)
        else if p = ''nodes'' \<and> q = ''expect'' \<and> m = ''POST'' then admin (handleExpectNode (env_decodeExpect env body))
        else if p = ''nodes'' then on_method ''DELETE'' rq (admin (handleDeleteNode q))
        else (\<lambda>s. ((404, PlainBody ''404 page not found''), s))
     | [p, nodeID, q] \<Rightarrow>
        if p = ''nodes'' \<and> q = ''expected'' then on_method ''DELETE'' rq (admin (handleUnsetExpected nodeID))
        else if p = ''nodes'' \<and> q = ''token'' then on_method ''DELETE'' rq (admin (revoke_response nodeID))
        else if p = ''nodes'' \<and> q = ''install-script'' then
          on_method ''POST'' rq (admin (handleInstallScript (env_pki env) (env_pemEncode env) (env_Version env) (rq_host rq) nodeID (env_rnd env)))
        else (\<lambda>s. ((404, PlainBody ''404 page not found''), s))
     | _ \<Rightarrow> (\<lambda>s. ((404, PlainBody ''404 page not found''), s)))"

section \<open>What an outsider can do\<close>

definition is_public :: "string list \<Rightarrow> bool" where
  "is_public path \<longleftrightarrow> path \<in> {[], [''healthz''], [''readyz''], [''metrics'']}"

definition authorized :: "string \<Rightarrow> Server \<Rightarrow> bool" where
  "authorized header s \<longleftrightarrow> mc_AdminToken (cfg s) \<noteq> [] \<and>
    (\<exists>t. header = ''Bearer '' @ t \<and> t \<noteq> [] \<and> hashToken s t = hashToken s (mc_AdminToken (cfg s)))"

text \<open>A handler that refuses everyone without the token, unless it is public, and changes nothing for them.\<close>

definition guarded :: "string \<Rightarrow> bool \<Rightarrow> (Server \<Rightarrow> response \<times> Server) \<Rightarrow> bool" where
  "guarded header public h \<longleftrightarrow>
    (\<forall>s. \<not> authorized header s \<longrightarrow> snd (h s) = s \<and> (public \<or> fst (fst (h s)) \<in> {401, 404, 405, 503}))"

lemma guarded_requireAdminToken [simp]: "guarded header public (requireAdminToken header h)"
  using requireAdminToken_exact [of header h] by (auto simp: guarded_def authorized_def split: if_splits)

lemma guarded_on_method [simp]: "guarded header public h \<Longrightarrow> guarded header public (on_method want rq h)"
  by (auto simp: guarded_def on_method_def method_not_allowed_def)

lemma guarded_public [simp]: "(\<And>s. snd (h s) = s) \<Longrightarrow> guarded header True h"
  by (simp add: guarded_def)

lemma guarded_missing [simp]: "guarded header public (\<lambda>s. ((404, b), s))" "guarded header public (Pair (404, b))"
  by (simp_all add: guarded_def)

lemma guarded_adminMux: "guarded (rq_auth rq) (is_public (rq_path rq)) (adminMux env rq)"
  by (simp add: adminMux_def is_public_def handleIndex_def Let_def split: list.split)

text \<open>A handler that keeps the invariant of the server, given a fresh command id.\<close>

definition keeps_inv :: "string \<Rightarrow> (Server \<Rightarrow> response \<times> Server) \<Rightarrow> bool" where
  "keeps_inv cid h \<longleftrightarrow> (\<forall>s. server_inv s \<longrightarrow> cid \<noteq> [] \<longrightarrow> cid \<notin> set (mkeys (commands s)) \<longrightarrow> server_inv (snd (h s)))"

lemma keeps_inv_wrappers [simp]:
  "keeps_inv cid h \<Longrightarrow> keeps_inv cid (requireAdminToken header h)"
  "keeps_inv cid h \<Longrightarrow> keeps_inv cid (on_method want rq h)"
  "keeps_inv cid (Pair r)" "keeps_inv cid (handleIndex env)" "keeps_inv cid (\<lambda>s. (f s, s))"
  by (simp_all add: keeps_inv_def requireAdminToken_def on_method_def method_not_allowed_def handleIndex_def)

lemma keeps_inv_handlers [simp]:
  "keeps_inv cid (handleStatus m now)" "keeps_inv cid (handleReset m)" "keeps_inv cid (handleExpectNode expect)"
  "keeps_inv cid (handleUnsetExpected n)" "keeps_inv cid (handleDeleteNode n)" "keeps_inv cid (handleManualShutdown m body now cid)"
  by (simp_all add: keeps_inv_def server_inv_admin server_inv_handleManualShutdown)

lemma keeps_inv_tokens [simp]:
  "keeps_inv cid (revoke_response n)" "keeps_inv cid (handleInstallScript pki pem v host n rnd)"
proof -
  show "keeps_inv cid (revoke_response n)"
    using server_inv_enrollment(4) [of _ n] by (simp add: keeps_inv_def revoke_response_def split_beta)
  show "keeps_inv cid (handleInstallScript pki pem v host n rnd)"
    using server_inv_admin(5) [of _ n rnd] by (simp add: keeps_inv_def handleInstallScript_def split_beta split: sum.split)
qed

lemma keeps_inv_adminMux: "keeps_inv (env_commandID env) (adminMux env rq)"
  by (simp add: adminMux_def Let_def split: list.split)

text \<open>
  C34. Whoever does not present the admin token as a bearer token changes nothing through the
  admin API, on any route and with any method, and gets nothing but the four public pages: every
  other request is answered 401, 404, 405 or 503. Requests with the token keep the invariant of
  the server.
\<close>

theorem admin_api_guarded:
  "(\<not> authorized (rq_auth rq) s \<longrightarrow>
     snd (adminMux env rq s) = s \<and>
     (rq_path rq \<in> {[], [''healthz''], [''readyz''], [''metrics'']} \<or> fst (fst (adminMux env rq s)) \<in> {401, 404, 405, 503})) \<and>
   (server_inv s \<and> env_commandID env \<noteq> [] \<and> env_commandID env \<notin> set (mkeys (commands s)) \<longrightarrow>
     server_inv (snd (adminMux env rq s)))"
  using guarded_adminMux [of rq env] keeps_inv_adminMux [of env rq] by (simp add: guarded_def is_public_def keeps_inv_def)

definition anonymous_reset :: admin_request where
  "anonymous_reset = \<lparr>rq_method = ''POST'', rq_path = [''commands'', ''reset''], rq_auth = ''Basic YWRtaW4='', rq_host = [], rq_body = []\<rparr>"

definition example_env :: admin_env where
  "example_env = \<lparr>env_decodeShutdown = (\<lambda>_. Inl ''EOF''), env_decodeExpect = (\<lambda>_. Inl ''EOF''), env_now = 0, env_commandID = ''c1'',
     env_rnd = ''abc'', env_Version = ''v0.6.0'',
     env_pki = \<lparr>pki_ReadFile = (\<lambda>_. Inl ''no such file''), pki_hasCertificate = (\<lambda>_. False), pki_Decode = (\<lambda>_. None)\<rparr>,
     env_pemEncode = snd, env_index = Inr [], env_metrics = (\<lambda>_. [])\<rparr>"

theorem admin_api_guarded_witness:
  "snd (adminMux example_env anonymous_reset example_server) = example_server \<and>
   fst (fst (adminMux example_env anonymous_reset example_server)) \<in> {401, 404, 405, 503}"
proof -
  have "\<not> authorized (rq_auth anonymous_reset) example_server" by (simp add: authorized_def anonymous_reset_def)
  moreover have "rq_path anonymous_reset \<notin> {[], [''healthz''], [''readyz''], [''metrics'']}" by (simp add: anonymous_reset_def)
  ultimately show ?thesis using admin_api_guarded [of anonymous_reset example_server example_env] by blast
qed

end
