(* ===== verification/Tls.thy ===== *)
theory Tls
  imports ConfigLoad
begin

text \<open>
  \<open>internal/config/tls.go\<close>: the TLS settings of the slave listener, the slave's connection and
  the admin API. Loading key pairs and certificate pools from files are parameters.
\<close>

datatype ClientAuthType = NoClientCert | RequireAndVerifyClientCert

text \<open>The fields of \<open>tls.Config\<close> the code sets, over a type of certificates and one of pools.\<close>

record ('cert, 'pool) tls_Config =
  tc_MinVersion :: "16 word"
  tc_Certificates :: "'cert list"
  tc_ClientAuth :: ClientAuthType
  tc_ClientCAs :: "'pool option"
  tc_RootCAs :: "'pool option"
  tc_ServerName :: string
  tc_InsecureSkipVerify :: bool

datatype tls_error = LoadKeyPair string | ReadCA string | NoCACertificates string | LoadAdminCertificate string

definition VersionTLS12 :: "16 word" where "VersionTLS12 = 0x0303"

definition base_Config :: "('cert, 'pool) tls_Config" where
  "base_Config = \<lparr>tc_MinVersion = VersionTLS12, tc_Certificates = [], tc_ClientAuth = NoClientCert, tc_ClientCAs = None,
     tc_RootCAs = None, tc_ServerName = [], tc_InsecureSkipVerify = False\<rparr>"

text \<open>\<open>loadCertPool\<close>: \<open>parse\<close> is the pool of a PEM file, or nothing when it has no certificate.\<close>

definition loadCertPool :: "(string \<Rightarrow> string + string) \<Rightarrow> (string \<Rightarrow> 'pool option) \<Rightarrow> string \<Rightarrow> tls_error + 'pool" where
  "loadCertPool readFile parse path =
    (case readFile path of
       Inl err \<Rightarrow> Inl (ReadCA err)
     | Inr content \<Rightarrow> (case parse content of None \<Rightarrow> Inl (NoCACertificates path) | Some pool \<Rightarrow> Inr pool))"

definition ServerTLSConfig ::
  "(string \<Rightarrow> string \<Rightarrow> string + 'cert) \<Rightarrow> (string \<Rightarrow> tls_error + 'pool) \<Rightarrow> TLSConfig \<Rightarrow> tls_error + ('cert, 'pool) tls_Config option" where
  "ServerTLSConfig keyPair loadPool c =
    (if \<not> EnabledForServer c then Inr None
     else case keyPair (tls_CertFile c) (tls_KeyFile c) of
       Inl err \<Rightarrow> Inl (LoadKeyPair err)
     | Inr cert \<Rightarrow>
        let conf = base_Config\<lparr>tc_Certificates := [cert]\<rparr>
        in if tls_RequireClientCert c then
             andThen (loadPool (tls_CAFile c)) (\<lambda>pool.
               Inr (Some (conf\<lparr>tc_ClientAuth := RequireAndVerifyClientCert, tc_ClientCAs := Some pool\<rparr>)))
           else Inr (Some conf))"

text \<open>The two optional parts of \<open>ClientTLSConfig\<close>.\<close>

definition add_key_pair ::
  "(string \<Rightarrow> string \<Rightarrow> string + 'cert) \<Rightarrow> TLSConfig \<Rightarrow> ('cert, 'pool) tls_Config \<Rightarrow> tls_error + ('cert, 'pool) tls_Config" where
  "add_key_pair keyPair c conf =
    (if tls_CertFile c \<noteq> [] \<or> tls_KeyFile c \<noteq> [] then
       (case keyPair (tls_CertFile c) (tls_KeyFile c) of
          Inl err \<Rightarrow> Inl (LoadKeyPair err)
        | Inr cert \<Rightarrow> Inr (conf\<lparr>tc_Certificates := [cert]\<rparr>))
     else Inr conf)"

definition add_root_CAs ::
  "(string \<Rightarrow> tls_error + 'pool) \<Rightarrow> TLSConfig \<Rightarrow> ('cert, 'pool) tls_Config \<Rightarrow> tls_error + ('cert, 'pool) tls_Config" where
  "add_root_CAs loadPool c conf =
    (if tls_CAFile c \<noteq> [] then andThen (loadPool (tls_CAFile c)) (\<lambda>pool. Inr (conf\<lparr>tc_RootCAs := Some pool\<rparr>)) else Inr conf)"

definition ClientTLSConfig ::
  "(string \<Rightarrow> string \<Rightarrow> string + 'cert) \<Rightarrow> (string \<Rightarrow> tls_error + 'pool) \<Rightarrow> TLSConfig \<Rightarrow> tls_error + ('cert, 'pool) tls_Config option" where
  "ClientTLSConfig keyPair loadPool c =
    (if \<not> EnabledForClient c then Inr None
     else let conf = base_Config\<lparr>tc_InsecureSkipVerify := tls_InsecureSkipVerify c,
                tc_ServerName := (if tls_ServerName c \<noteq> [] then tls_ServerName c else [])\<rparr>
          in andThen (add_key_pair keyPair c conf) (\<lambda>conf1.
             andThen (add_root_CAs loadPool c conf1) (\<lambda>conf2. Inr (Some conf2))))"

definition admin_TLSConfig ::
  "(string \<Rightarrow> string \<Rightarrow> string + 'cert) \<Rightarrow> AdminTLSConfig \<Rightarrow> tls_error + ('cert, 'pool) tls_Config option" where
  "admin_TLSConfig keyPair c =
    (if at_CertFile c = [] \<and> at_KeyFile c = [] then Inr None
     else case keyPair (at_CertFile c) (at_KeyFile c) of
       Inl err \<Rightarrow> Inl (LoadAdminCertificate err)
     | Inr cert \<Rightarrow> Inr (Some (base_Config\<lparr>tc_Certificates := [cert]\<rparr>)))"

lemma base_Config_fields [simp]:
  "tc_MinVersion base_Config = VersionTLS12" "tc_RootCAs base_Config = None" "tc_Certificates base_Config = []"
  by (simp_all add: base_Config_def)

lemma ServerTLSConfig_enforced:
  assumes "ValidateServer c = None" "ServerTLSConfig keyPair loadPool c = Inr (conf)"
  shows "tls_RequireClientCert c \<or> tls_BindNodeIDToCert c \<Longrightarrow>
      \<exists>conf' pool. conf = Some conf' \<and> tc_ClientAuth conf' = RequireAndVerifyClientCert \<and>
         tc_ClientCAs conf' = Some pool \<and> loadPool (tls_CAFile c) = Inr pool \<and> tls_CAFile c \<noteq> []"
    and "conf = Some conf' \<Longrightarrow> tc_MinVersion conf' = VersionTLS12 \<and>
      (\<exists>cert. tc_Certificates conf' = [cert] \<and> keyPair (tls_CertFile c) (tls_KeyFile c) = Inr cert)"
  using assms
  by (auto simp: ValidateServer_def ServerTLSConfig_def EnabledForServer_def Let_def andThen_Inr split: if_splits sum.splits)

lemma ClientTLSConfig_enforced:
  assumes "ValidateClient c = None" "ClientTLSConfig keyPair loadPool c = Inr conf"
  shows "conf = None \<longleftrightarrow> \<not> EnabledForClient c"
    and "conf = Some conf' \<Longrightarrow> tc_MinVersion conf' = VersionTLS12 \<and> tc_InsecureSkipVerify conf' = tls_InsecureSkipVerify c \<and>
      tc_ServerName conf' = tls_ServerName c \<and>
      (tls_CAFile c \<noteq> [] \<longrightarrow> \<not> tc_InsecureSkipVerify conf' \<and>
        (\<exists>pool. tc_RootCAs conf' = Some pool \<and> loadPool (tls_CAFile c) = Inr pool)) \<and>
      (tls_CAFile c = [] \<longrightarrow> tc_RootCAs conf' = None)"
proof -
  show "conf = None \<longleftrightarrow> \<not> EnabledForClient c"
    using assms(2) by (auto simp: ClientTLSConfig_def Let_def andThen_Inr split: if_splits)
next
  assume conf: "conf = Some conf'"
  then have enabled: "EnabledForClient c" using assms(2) by (auto simp: ClientTLSConfig_def split: if_splits)
  with conf assms(2) obtain conf1 where
    1: "add_key_pair keyPair c (base_Config\<lparr>tc_InsecureSkipVerify := tls_InsecureSkipVerify c,
          tc_ServerName := (if tls_ServerName c \<noteq> [] then tls_ServerName c else [])\<rparr>) = Inr conf1"
    and 2: "add_root_CAs loadPool c conf1 = Inr conf'"
    by (auto simp: ClientTLSConfig_def Let_def andThen_Inr)
  from 1 have "tc_MinVersion conf1 = VersionTLS12" "tc_InsecureSkipVerify conf1 = tls_InsecureSkipVerify c"
    "tc_ServerName conf1 = tls_ServerName c" "tc_RootCAs conf1 = None"
    by (auto simp: add_key_pair_def split: if_splits sum.splits)
  moreover have "tls_CAFile c \<noteq> [] \<Longrightarrow> \<not> tls_InsecureSkipVerify c"
    using assms(1) enabled by (auto simp: ValidateClient_def EnabledForClient_def split: if_splits)
  ultimately show "tc_MinVersion conf' = VersionTLS12 \<and> tc_InsecureSkipVerify conf' = tls_InsecureSkipVerify c \<and>
      tc_ServerName conf' = tls_ServerName c \<and>
      (tls_CAFile c \<noteq> [] \<longrightarrow> \<not> tc_InsecureSkipVerify conf' \<and>
        (\<exists>pool. tc_RootCAs conf' = Some pool \<and> loadPool (tls_CAFile c) = Inr pool)) \<and>
      (tls_CAFile c = [] \<longrightarrow> tc_RootCAs conf' = None)"
    using 2 by (auto simp: add_root_CAs_def andThen_Inr split: if_splits)
qed

text \<open>
  C40. Validated TLS settings mean what they say. On the master: with \<open>require_client_cert\<close> (and
  so whenever \<open>bind_node_id_to_cert\<close> is set) the listener never runs without verifying client
  certificates against the configured CA, and TLS 1.2 is the least version. On the slave: the
  server certificate is verified unless \<open>insecure_skip_verify\<close> asks otherwise, and against the
  configured CA when there is one.
\<close>

theorem validated_tls_enforced:
  assumes "ValidateServer srv = None" "ValidateClient cl = None"
    and "ServerTLSConfig keyPair loadPool srv = Inr sconf" "ClientTLSConfig keyPair loadPool cl = Inr cconf"
  shows "(tls_RequireClientCert srv \<or> tls_BindNodeIDToCert srv \<longrightarrow>
      (\<exists>conf pool. sconf = Some conf \<and> tc_ClientAuth conf = RequireAndVerifyClientCert \<and>
         tc_ClientCAs conf = Some pool \<and> loadPool (tls_CAFile srv) = Inr pool \<and> tls_CAFile srv \<noteq> [])) \<and>
    (\<forall>conf. sconf = Some conf \<longrightarrow> tc_MinVersion conf = VersionTLS12 \<and>
      (\<exists>cert. tc_Certificates conf = [cert] \<and> keyPair (tls_CertFile srv) (tls_KeyFile srv) = Inr cert)) \<and>
    (cconf = None \<longleftrightarrow> \<not> EnabledForClient cl) \<and>
    (\<forall>conf. cconf = Some conf \<longrightarrow> tc_MinVersion conf = VersionTLS12 \<and>
      tc_InsecureSkipVerify conf = tls_InsecureSkipVerify cl \<and> tc_ServerName conf = tls_ServerName cl \<and>
      (tls_CAFile cl \<noteq> [] \<longrightarrow> \<not> tc_InsecureSkipVerify conf \<and>
        (\<exists>pool. tc_RootCAs conf = Some pool \<and> loadPool (tls_CAFile cl) = Inr pool)) \<and>
      (tls_CAFile cl = [] \<longrightarrow> tc_RootCAs conf = None))"
  using ServerTLSConfig_enforced [OF assms(1,3)] ClientTLSConfig_enforced [OF assms(2,4)] by blast

definition mtls_settings :: TLSConfig where
  "mtls_settings = zero_TLS\<lparr>tls_Enabled := True, tls_CertFile := ''crt'', tls_KeyFile := ''key'', tls_CAFile := ''ca'',
     tls_RequireClientCert := True, tls_BindNodeIDToCert := True\<rparr>"

definition ca_settings :: TLSConfig where
  "ca_settings = zero_TLS\<lparr>tls_CAFile := ''ca''\<rparr>"

theorem validated_tls_enforced_witness:
  "\<exists>sconf cconf. ServerTLSConfig (\<lambda>c k. Inr (c, k)) (\<lambda>f. Inr f) mtls_settings = Inr (Some sconf) \<and>
     tc_ClientAuth sconf = RequireAndVerifyClientCert \<and>
     ClientTLSConfig (\<lambda>c k. Inr (c, k)) (\<lambda>f. Inr f) ca_settings = Inr (Some cconf) \<and> tc_RootCAs cconf = Some ''ca'' \<and>
     \<not> tc_InsecureSkipVerify cconf"
proof -
  have "ValidateServer mtls_settings = None" "ValidateClient ca_settings = None"
    by (simp_all add: mtls_settings_def ca_settings_def zero_TLS_def ValidateServer_def ValidateClient_def EnabledForServer_def EnabledForClient_def)
  moreover obtain sconf where s: "ServerTLSConfig (\<lambda>c k. Inr (c, k)) (\<lambda>f. Inr f) mtls_settings = Inr sconf"
    by (simp add: ServerTLSConfig_def mtls_settings_def zero_TLS_def EnabledForServer_def Let_def)
  moreover obtain cconf where c: "ClientTLSConfig (\<lambda>c k. Inr (c, k)) (\<lambda>f. Inr f) ca_settings = Inr (Some cconf)"
    by (simp add: ClientTLSConfig_def add_key_pair_def add_root_CAs_def ca_settings_def zero_TLS_def EnabledForClient_def Let_def)
  moreover have "tls_RequireClientCert mtls_settings" "tls_CAFile ca_settings = ''ca''"
    by (simp_all add: mtls_settings_def ca_settings_def zero_TLS_def)
  ultimately show ?thesis using validated_tls_enforced [OF _ _ s c] by auto
qed

end
