(* ===== verification/Listener.thy ===== *)
theory Listener
  imports Conn SelfCheck Tls GoNet
begin

text \<open>
  The start and the accept loop of \<open>Run\<close> in \<open>internal/master/server.go\<close>, and the warning of
  \<open>internal/master/admin_tls.go\<close>. What the handlers of accepted connections do is in \<open>Conn\<close>
  and \<open>Master\<close>.
\<close>

section \<open>Starting\<close>

text \<open>\<open>check\<close> is the result of \<open>shutdowncheck.Check\<close> on a command.\<close>

definition runLocalShutdownSelfCheck :: "(string list \<Rightarrow> check_error option) \<Rightarrow> Server \<Rightarrow> Server" where
  "runLocalShutdownSelfCheck checkShutdown s =
    (if \<not> lc_Enabled (mc_LocalShutdown (cfg s)) \<or> mc_DryRun (cfg s) then s
     else s\<lparr>localCommandReady := Some (checkShutdown (slice (lc_Command (mc_LocalShutdown (cfg s)))) = None)\<rparr>)"

definition isLoopbackListenAddr :: "string \<Rightarrow> bool" where
  "isLoopbackListenAddr addr =
    (case SplitHostPort addr of
       None \<Rightarrow> False
     | Some (host, _) \<Rightarrow>
        if host = ''localhost'' then True
        else (case ParseIP host of None \<Rightarrow> False | Some ip \<Rightarrow> IsLoopback ip))"

text \<open>Whether \<open>warnPlaintextAdmin\<close> warns.\<close>

definition warnPlaintextAdmin :: "string \<Rightarrow> 'conf option \<Rightarrow> bool" where
  "warnPlaintextAdmin listenAddr tlsConfig \<longleftrightarrow> \<not> (tlsConfig \<noteq> None \<or> isLoopbackListenAddr listenAddr)"

datatype run_error = RunConfig config_error | RunTLS tls_error | ListenFailed string

text \<open>
  \<open>listen\<close>: a plain or a TLS listener, whose settings are loaded once. \<open>bind\<close> is the error of
  opening the port.
\<close>

definition listen ::
  "(string \<Rightarrow> string \<Rightarrow> string + 'cert) \<Rightarrow> (string \<Rightarrow> tls_error + 'pool) \<Rightarrow> (string \<Rightarrow> string option) \<Rightarrow> Server \<Rightarrow>
    run_error + ('cert, 'pool) tls_Config option" where
  "listen keyPair loadPool bind s =
    (let open_port = (\<lambda>conf. case bind (mc_ListenAddr (cfg s)) of Some err \<Rightarrow> Inl (ListenFailed err) | None \<Rightarrow> Inr conf)
     in if \<not> EnabledForServer (mc_TLS (cfg s)) then open_port None
        else case ServerTLSConfig keyPair loadPool (mc_TLS (cfg s)) of
          Inl e \<Rightarrow> Inl (RunTLS e)
        | Inr conf \<Rightarrow> open_port conf)"

text \<open>
  \<open>Run\<close> up to its loop: the OIDs of a configuration built in code, the self-check, the TLS
  settings of the admin API, the listener. The result is the server that accepts, with the TLS
  settings of its listener.
\<close>

definition run_start ::
  "(string list \<Rightarrow> check_error option) \<Rightarrow> (string \<Rightarrow> string \<Rightarrow> string + 'cert) \<Rightarrow> (string \<Rightarrow> tls_error + 'pool) \<Rightarrow>
    (string \<Rightarrow> string option) \<Rightarrow> Server \<Rightarrow> run_error + (Server \<times> ('cert, 'pool) tls_Config option)" where
  "run_start checkShutdown keyPair loadPool bind s =
    (case (if UsesNUT (cfg s) then Inr (mc_SNMP (cfg s)) else ResolveSNMPVars (mc_SNMP (cfg s))) of
       Inl e \<Rightarrow> Inl (RunConfig e)
     | Inr snmp \<Rightarrow>
        let s1 = runLocalShutdownSelfCheck checkShutdown (s\<lparr>cfg := (cfg s)\<lparr>mc_SNMP := snmp\<rparr>\<rparr>)
        in case (admin_TLSConfig keyPair (mc_AdminTLS (cfg s1)) :: tls_error + ('cert, 'pool) tls_Config option) of
             Inl e \<Rightarrow> Inl (RunTLS e)
           | Inr _ \<Rightarrow> andThen (listen keyPair loadPool bind s1) (\<lambda>conf. Inr (s1\<lparr>ready := True\<rparr>, conf)))"

section \<open>Accepting\<close>

definition minAcceptRetryDelay :: duration where "minAcceptRetryDelay = 5 * millisecond"
definition maxAcceptRetryDelay :: duration where "maxAcceptRetryDelay = second"

definition nextAcceptRetryDelay :: "duration \<Rightarrow> duration" where
  "nextAcceptRetryDelay current =
    (if current = 0 then minAcceptRetryDelay else min (wrap64 (current * 2)) maxAcceptRetryDelay)"

text \<open>What \<open>Accept\<close> returns: a connection, an error, or an error after the listener was closed.\<close>

datatype accept_event = AcceptedConn nat | AcceptFailed | ListenerClosed

text \<open>The loop: the delays waited, whether it has returned, and the server.\<close>

fun accept_loop :: "duration \<Rightarrow> accept_event list \<Rightarrow> Server \<Rightarrow> duration list \<times> bool \<times> Server" where
  "accept_loop delay [] s = ([], False, s)"
| "accept_loop delay (ListenerClosed # events) s = ([], True, (closeActiveConns s)\<lparr>ready := False\<rparr>)"
| "accept_loop delay (AcceptFailed # events) s =
    (let d = nextAcceptRetryDelay delay in case accept_loop d events s of (ds, r) \<Rightarrow> (d # ds, r))"
| "accept_loop delay (AcceptedConn conn # events) s = accept_loop 0 events (trackConn conn s)"

section \<open>What it does\<close>

definition retry_delay :: "nat \<Rightarrow> duration" where
  "retry_delay k = min (minAcceptRetryDelay * 2 ^ k) maxAcceptRetryDelay"

lemma retry_delay_bounds: "minAcceptRetryDelay \<le> retry_delay k" "retry_delay k \<le> maxAcceptRetryDelay"
proof -
  have "(1::int) \<le> 2 ^ k" by simp
  then show "minAcceptRetryDelay \<le> retry_delay k"
    by (simp add: retry_delay_def minAcceptRetryDelay_def maxAcceptRetryDelay_def duration_units)
qed (simp add: retry_delay_def)

lemma nextAcceptRetryDelay_doubles: "nextAcceptRetryDelay 0 = retry_delay 0" "nextAcceptRetryDelay (retry_delay k) = retry_delay (Suc k)"
proof -
  show "nextAcceptRetryDelay 0 = retry_delay 0"
    by (simp add: nextAcceptRetryDelay_def retry_delay_def minAcceptRetryDelay_def maxAcceptRetryDelay_def duration_units)
  have "wrap64 (retry_delay k * 2) = retry_delay k * 2" "retry_delay k \<noteq> 0"
    using retry_delay_bounds [of k]
    by (auto intro!: wrap64_id simp: minDuration_def maxDuration_def minAcceptRetryDelay_def maxAcceptRetryDelay_def duration_units)
  moreover have "maxAcceptRetryDelay > 0" by (simp add: maxAcceptRetryDelay_def duration_units)
  ultimately show "nextAcceptRetryDelay (retry_delay k) = retry_delay (Suc k)"
    by (simp add: nextAcceptRetryDelay_def) (simp add: retry_delay_def min_def)
qed

lemma accept_failures:
  "accept_loop (if k = 0 then 0 else retry_delay (k - 1)) (replicate n AcceptFailed) s = (map retry_delay [k..<k + n], False, s)"
proof (induction n arbitrary: k)
  case (Suc n)
  have "nextAcceptRetryDelay (if k = 0 then 0 else retry_delay (k - 1)) = retry_delay k"
    using nextAcceptRetryDelay_doubles by (cases k) auto
  moreover have "[k..<k + Suc n] = k # [Suc k..<Suc k + n]" by (simp add: upt_conv_Cons del: upt_Suc)
  ultimately show ?case using Suc [of "Suc k"] by (simp add: Let_def del: upt_Suc)
qed simp

lemma accept_loop_bounds:
  "delay = 0 \<or> (\<exists>k. delay = retry_delay k) \<Longrightarrow> accept_loop delay events s = (ds, r) \<Longrightarrow> d \<in> set ds \<Longrightarrow> \<exists>k. d = retry_delay k"
proof (induction delay events s arbitrary: ds r rule: accept_loop.induct)
  case (3 delay events s)
  have "\<exists>k. nextAcceptRetryDelay delay = retry_delay k" using "3.prems"(1) nextAcceptRetryDelay_doubles by metis
  with 3 show ?case by (auto simp: Let_def split: prod.splits)
qed auto

lemma accept_loop_conns:
  "ListenerClosed \<notin> set events \<Longrightarrow> \<exists>ds s'. accept_loop delay (events @ [ListenerClosed]) s = (ds, True, s') \<and> \<not> ready s' \<and>
    set (conns s') = set (conns s) \<union> {c. AcceptedConn c \<in> set events} \<and> (\<forall>c \<in> set (conns s'). Closed c \<in> set (effects s'))"
proof (induction delay events s rule: accept_loop.induct)
  case (3 delay events s)
  then obtain ds s' where "accept_loop (nextAcceptRetryDelay delay) (events @ [ListenerClosed]) s = (ds, True, s')" "\<not> ready s'"
    "set (conns s') = set (conns s) \<union> {c. AcceptedConn c \<in> set events}" "\<forall>c \<in> set (conns s'). Closed c \<in> set (effects s')" by auto
  then show ?case by (simp add: Let_def)
next
  case (4 delay conn events s)
  then show ?case by (auto simp: trackConn_def)
qed (auto simp: closeActiveConns_def emit_def)

text \<open>
  Errors of \<open>Accept\<close> never stop the master: after \<open>n\<close> of them in a row it has waited 5 ms,
  10 ms, 20 ms and so on, never more than a second, and it goes on accepting until the listener
  is closed; then it returns, no longer ready, and every connection it accepted or already had
  has been closed.
\<close>

theorem listener_survives_errors:
  "fst (accept_loop 0 (replicate n AcceptFailed) s) = map retry_delay [0..<n] \<and>
   (ListenerClosed \<notin> set events \<longrightarrow>
     (\<exists>ds s'. accept_loop 0 (events @ [ListenerClosed]) s = (ds, True, s') \<and>
       (\<forall>d \<in> set ds. 0 < d \<and> d \<le> second) \<and> \<not> ready s' \<and>
       set (conns s') = set (conns s) \<union> {c. AcceptedConn c \<in> set events} \<and> (\<forall>c \<in> set (conns s'). Closed c \<in> set (effects s'))))"
proof (intro conjI impI)
  show "fst (accept_loop 0 (replicate n AcceptFailed) s) = map retry_delay [0..<n]" using accept_failures [of 0 n s] by simp
next
  assume "ListenerClosed \<notin> set events"
  from accept_loop_conns [OF this, of 0 s] obtain ds s' where run: "accept_loop 0 (events @ [ListenerClosed]) s = (ds, True, s')"
    and rest: "\<not> ready s'" "set (conns s') = set (conns s) \<union> {c. AcceptedConn c \<in> set events}"
      "\<forall>c \<in> set (conns s'). Closed c \<in> set (effects s')" by auto
  have "0 < d \<and> d \<le> second" if d: "d \<in> set ds" for d
  proof -
    obtain k where "d = retry_delay k" using accept_loop_bounds [OF _ run d] by auto
    then show ?thesis using retry_delay_bounds [of k]
      by (auto simp: minAcceptRetryDelay_def maxAcceptRetryDelay_def duration_units)
  qed
  with run rest show "\<exists>ds s'. accept_loop 0 (events @ [ListenerClosed]) s = (ds, True, s') \<and>
       (\<forall>d \<in> set ds. 0 < d \<and> d \<le> second) \<and> \<not> ready s' \<and>
       set (conns s') = set (conns s) \<union> {c. AcceptedConn c \<in> set events} \<and> (\<forall>c \<in> set (conns s'). Closed c \<in> set (effects s'))"
    by blast
qed

theorem listener_survives_errors_witness:
  "\<exists>ds s'. accept_loop 0 [AcceptFailed, AcceptedConn 7, ListenerClosed] example_server = (ds, True, s') \<and> Closed 7 \<in> set (effects s')"
  using listener_survives_errors [of 0 example_server "[AcceptFailed, AcceptedConn 7]"] by auto

end
