(* ===== verification/Metrics.thy ===== *)
theory Metrics
  imports AdminHttp
begin

text \<open>
  \<open>internal/master/metrics.go\<close>: the gauges computed from the server at each scrape, and the
  labels and guards of the counters. The Prometheus client is not modelled: a scrape is the list
  of metrics sent to it. Values are the integers the code converts to \<open>float64\<close>.
\<close>

record metric =
  mt_name :: string
  mt_label :: "string option"
  mt_value :: int

definition gauge :: "string \<Rightarrow> int \<Rightarrow> metric" where
  "gauge name v = \<lparr>mt_name = name, mt_label = None, mt_value = v\<rparr>"

definition labelled :: "string \<Rightarrow> string \<Rightarrow> int \<Rightarrow> metric" where
  "labelled name label v = \<lparr>mt_name = name, mt_label = Some label, mt_value = v\<rparr>"

definition boolToFloat :: "bool \<Rightarrow> int" where
  "boolToFloat b = (if b then 1 else 0)"

text \<open>Seconds from Go's zero time to the Unix epoch.\<close>

definition unix_epoch :: int where "unix_epoch = 62135596800"

definition timeToUnix :: "time option \<Rightarrow> int" where
  "timeToUnix t = (case t of None \<Rightarrow> 0 | Some x \<Rightarrow> if x = 0 then 0 else x div second - unix_epoch)"

text \<open>The first part of \<open>Collect\<close>: the UPS view, each reading only when it is known.\<close>

definition ups_metrics :: "UPSStatusView \<Rightarrow> metric list" where
  "ups_metrics v =
    (case uv_OnBattery v of None \<Rightarrow> [] | Some b \<Rightarrow> [gauge ''nut_master_ups_on_battery'' (boolToFloat b)]) @
    (case uv_LowBattery v of None \<Rightarrow> [] | Some b \<Rightarrow> [gauge ''nut_master_ups_low_battery'' (boolToFloat b)]) @
    (case uv_BatteryCharge v of None \<Rightarrow> [] | Some c \<Rightarrow> [gauge ''nut_master_ups_battery_charge_percent'' c]) @
    (case uv_RuntimeMinutes v of None \<Rightarrow> [] | Some r \<Rightarrow> [gauge ''nut_master_ups_runtime_minutes'' r]) @
    [gauge ''nut_master_ups_last_success_timestamp_seconds'' (timeToUnix (uv_LastSuccessAt v)),
     gauge ''nut_master_ups_last_error_timestamp_seconds'' (timeToUnix (uv_LastErrorAt v))]"

definition nodes_metric :: string where "nodes_metric = ''nut_master_nodes''"
definition phase_metric :: string where "phase_metric = ''nut_master_local_shutdown_phase''"

text \<open>\<open>stateCounts[n.State]++\<close> on a map that has the three states from the start.\<close>

definition count_state :: "NodeStatus \<Rightarrow> (string, int) gomap \<Rightarrow> (string, int) gomap" where
  "count_state n m = mput (ns_State n) ((case map_of m (ns_State n) of None \<Rightarrow> 0 | Some c \<Rightarrow> c) + 1) m"

definition stateCounts :: "NodeStatus list \<Rightarrow> (string, int) gomap" where
  "stateCounts nodes = fold count_state nodes [(NodeStateOnline, 0), (NodeStateOffline, 0), (NodeStateNeverSeen, 0)]"

definition phases :: "string list" where
  "phases = [PhaseIdle, PhaseWaitingRemote, PhaseWaitExpired, PhaseEmergency, PhaseExecuting, PhaseCompleted, PhaseFailed]"

definition metrics_Collect :: "time \<Rightarrow> Server \<Rightarrow> metric list" where
  "metrics_Collect now s =
    (case currentUPSStatus s of None \<Rightarrow> [] | Some v \<Rightarrow> ups_metrics v) @
    [gauge ''nut_master_registered_slaves'' (int (length (reg_List (registry s))))] @
    (let status = Status now s
     in map (\<lambda>(state, count). labelled nodes_metric state count) (stateCounts (sr_Nodes status)) @
        [gauge ''nut_master_shutdown_active'' (boolToFloat (shutdownIssued s))] @
        (case sr_LocalShutdown status of
           None \<Rightarrow> []
         | Some l \<Rightarrow> map (\<lambda>phase. labelled phase_metric phase (if lv_Phase l = phase then 1 else 0)) phases))"

section \<open>Counters\<close>

text \<open>The counters and histograms; a histogram is the list of its observations by label.\<close>

record master_counters =
  mk_upsPolls :: "(string, nat) gomap"
  mk_shutdownsIssued :: nat
  mk_shutdownAcks :: "(string, nat) gomap"
  mk_ackLatency :: "(string \<times> int) list"
  mk_pollDuration :: "int list"
  mk_registerAttempts :: "(string, nat) gomap"

definition recordUPSPollResult :: "bool \<Rightarrow> master_counters \<Rightarrow> master_counters" where
  "recordUPSPollResult success k =
    (if success then k\<lparr>mk_upsPolls := inc_label ''success'' (mk_upsPolls k)\<rparr>
     else k\<lparr>mk_upsPolls := inc_label ''error'' (mk_upsPolls k)\<rparr>)"

definition recordShutdownIssued :: "master_counters \<Rightarrow> master_counters" where
  "recordShutdownIssued k = k\<lparr>mk_shutdownsIssued := Suc (mk_shutdownsIssued k)\<rparr>"

definition counted_statuses :: "string list" where
  "counted_statuses = [StatusAccepted, StatusExecuting, StatusExecuted, StatusSimulated, StatusFailed, StatusTimeout]"

definition recordShutdownAck :: "string \<Rightarrow> master_counters \<Rightarrow> master_counters" where
  "recordShutdownAck status k =
    (if status = [] then k
     else if status \<in> set counted_statuses then k\<lparr>mk_shutdownAcks := inc_label status (mk_shutdownAcks k)\<rparr>
     else k\<lparr>mk_shutdownAcks := inc_label ''unknown'' (mk_shutdownAcks k)\<rparr>)"

definition recordRegisterAttempt :: "string \<Rightarrow> master_counters \<Rightarrow> master_counters" where
  "recordRegisterAttempt result k = k\<lparr>mk_registerAttempts := inc_label result (mk_registerAttempts k)\<rparr>"

definition recordShutdownAckLatency :: "string \<Rightarrow> int \<Rightarrow> master_counters \<Rightarrow> master_counters" where
  "recordShutdownAckLatency status seconds k =
    (if status = [] \<or> seconds < 0 then k else k\<lparr>mk_ackLatency := mk_ackLatency k @ [(status, seconds)]\<rparr>)"

definition recordUPSPollDuration :: "int \<Rightarrow> master_counters \<Rightarrow> master_counters" where
  "recordUPSPollDuration seconds k =
    (if seconds < 0 then k else k\<lparr>mk_pollDuration := mk_pollDuration k @ [seconds]\<rparr>)"

text \<open>Whatever a slave sends as its status, the labels of the counter stay among seven.\<close>

lemma ack_labels_bounded:
  "set (mkeys (mk_shutdownAcks k)) \<subseteq> insert ''unknown'' (set counted_statuses) \<Longrightarrow>
    set (mkeys (mk_shutdownAcks (recordShutdownAck status k))) \<subseteq> insert ''unknown'' (set counted_statuses)"
  by (simp add: recordShutdownAck_def inc_label_def mkeys_mput del: set_map)

section \<open>Descriptions\<close>

record metric_desc =
  ds_name :: string
  ds_labels :: "string list"

definition NewDesc :: "string \<Rightarrow> string list \<Rightarrow> metric_desc" where
  "NewDesc name labels = \<lparr>ds_name = name, ds_labels = labels\<rparr>"

text \<open>The descriptions \<open>newMasterSnapshotCollector\<close> makes, in the order \<open>Describe\<close> sends them.\<close>

definition master_Describe :: "metric_desc list" where
  "master_Describe =
    [NewDesc ''nut_master_ups_on_battery'' [], NewDesc ''nut_master_ups_low_battery'' [],
     NewDesc ''nut_master_ups_battery_charge_percent'' [], NewDesc ''nut_master_ups_runtime_minutes'' [],
     NewDesc ''nut_master_ups_last_success_timestamp_seconds'' [], NewDesc ''nut_master_ups_last_error_timestamp_seconds'' [],
     NewDesc ''nut_master_registered_slaves'' [], NewDesc ''nut_master_nodes'' [''state''],
     NewDesc ''nut_master_shutdown_active'' [], NewDesc ''nut_master_local_shutdown_phase'' [''phase'']]"

text \<open>Everything \<open>buildMasterRegistry\<close> registers: the counters, histograms and the collector's descriptions.\<close>

definition buildMasterRegistry :: "metric_desc list" where
  "buildMasterRegistry =
    [NewDesc ''nut_master_ups_poll_total'' [''result''], NewDesc ''nut_master_shutdowns_issued_total'' [],
     NewDesc ''nut_master_shutdown_acks_total'' [''status''], NewDesc ''nut_master_shutdown_ack_latency_seconds'' [''status''],
     NewDesc ''nut_master_ups_poll_duration_seconds'' [], NewDesc ''nut_master_register_attempts_total'' [''result''],
     NewDesc ''nut_master_build_info'' []] @ master_Describe"

text \<open>A metric fits a description: the name, and one label value for each label.\<close>

definition fits :: "metric \<Rightarrow> metric_desc \<Rightarrow> bool" where
  "fits m d \<longleftrightarrow> mt_name m = ds_name d \<and> length (ds_labels d) = (if mt_label m = None then 0 else 1)"

section \<open>The gauges agree with the status page\<close>

definition values_of :: "string \<Rightarrow> metric list \<Rightarrow> (string option \<times> int) list" where
  "values_of name ms = map (\<lambda>m. (mt_label m, mt_value m)) (filter (\<lambda>m. mt_name m = name) ms)"

lemma values_of_simps [simp]:
  "values_of name [] = []" "values_of name (xs @ ys) = values_of name xs @ values_of name ys"
  "values_of name (gauge n v # ms) = (if n = name then [(None, v)] else []) @ values_of name ms"
  by (simp_all add: values_of_def gauge_def)

lemma values_of_labelled: "values_of name (map (\<lambda>x. labelled n (l x) (v x)) xs) = (if n = name then map (\<lambda>x. (Some (l x), v x)) xs else [])"
  by (simp add: values_of_def labelled_def o_def)

definition node_states :: "string list" where "node_states = [NodeStateOnline, NodeStateOffline, NodeStateNeverSeen]"

definition in_state :: "NodeStatus list \<Rightarrow> string \<Rightarrow> int" where
  "in_state nodes state = int (length (filter (\<lambda>n. ns_State n = state) nodes))"

lemma node_state_names [simp]:
  "NodeStateOnline \<noteq> NodeStateOffline" "NodeStateOffline \<noteq> NodeStateOnline" "NodeStateOnline \<noteq> NodeStateNeverSeen"
  "NodeStateNeverSeen \<noteq> NodeStateOnline" "NodeStateOffline \<noteq> NodeStateNeverSeen" "NodeStateNeverSeen \<noteq> NodeStateOffline"
  by (simp_all add: consts_simps)

lemma count_states:
  "(\<And>n. n \<in> set nodes \<Longrightarrow> ns_State n \<in> set node_states) \<Longrightarrow>
    fold count_state nodes [(NodeStateOnline, a), (NodeStateOffline, b), (NodeStateNeverSeen, c)] =
      [(NodeStateOnline, a + in_state nodes NodeStateOnline), (NodeStateOffline, b + in_state nodes NodeStateOffline),
       (NodeStateNeverSeen, c + in_state nodes NodeStateNeverSeen)]"
proof (induction nodes arbitrary: a b c)
  case (Cons n nodes)
  then consider "ns_State n = NodeStateOnline" | "ns_State n = NodeStateOffline" | "ns_State n = NodeStateNeverSeen"
    by (auto simp: node_states_def)
  then show ?case using Cons by cases (simp_all add: count_state_def in_state_def)
qed (simp add: in_state_def)

lemma in_states_total:
  "(\<And>n. n \<in> set nodes \<Longrightarrow> ns_State n \<in> set node_states) \<Longrightarrow> sum_list (map (in_state nodes) node_states) = int (length nodes)"
proof (induction nodes)
  case (Cons n nodes)
  then consider "ns_State n = NodeStateOnline" | "ns_State n = NodeStateOffline" | "ns_State n = NodeStateNeverSeen"
    by (auto simp: node_states_def)
  then show ?case using Cons by cases (auto simp: in_state_def node_states_def)
qed (simp add: in_state_def node_states_def)

lemma node_state_known: "node_state now after n \<in> set node_states"
  by (simp add: node_state_def node_states_def split: option.split)

lemma status_states: "n \<in> set (sr_Nodes (Status now s)) \<Longrightarrow> ns_State n \<in> set node_states"
  by (auto simp: Status_def status_node_def Let_def node_state_known)

lemma status_local: "sr_LocalShutdown (Status now s) = localShutdownStatusLocked s"
  by (simp add: Status_def)

lemma filter_single: "distinct xs \<Longrightarrow> x \<in> set xs \<Longrightarrow> filter ((=) x) xs = [x]"
  by (induction xs) (auto simp: filter_empty_conv)

lemma phases_distinct: "distinct phases"
  by (simp add: phases_def consts_simps)

lemma metric_names: "nodes_metric \<noteq> phase_metric" "values_of nodes_metric (ups_metrics v) = []" "values_of phase_metric (ups_metrics v) = []"
  by (simp_all add: nodes_metric_def phase_metric_def ups_metrics_def split: option.split)

lemma local_phase_known: "server_inv s \<Longrightarrow> localShutdownStatusLocked s = Some l \<Longrightarrow> lv_Phase l \<in> set phases"
  by (auto simp: localShutdownStatusLocked_def server_inv_def core_ok_def local_ok_def local_state_ok_def known_phases_def phases_def Let_def
      split: if_splits option.splits)

text \<open>
  The gauges of a scrape agree with the status page taken at the same moment: there is one
  node gauge per state, each counting the nodes the page shows in that state, and together they
  count every node once; when local shutdown is enabled exactly one phase gauge is 1, the one of
  the current phase.
\<close>

theorem metrics_match_status:
  assumes "server_inv s"
  shows "values_of nodes_metric (metrics_Collect now s) = map (\<lambda>state. (Some state, in_state (sr_Nodes (Status now s)) state)) node_states \<and>
    sum_list (map snd (values_of nodes_metric (metrics_Collect now s))) = int (length (known_nodes s)) \<and>
    (case localShutdownStatusLocked s of
       None \<Rightarrow> values_of phase_metric (metrics_Collect now s) = []
     | Some l \<Rightarrow> filter (\<lambda>x. snd x \<noteq> 0) (values_of phase_metric (metrics_Collect now s)) = [(Some (lv_Phase l), 1)])"
proof -
  let ?nodes = "sr_Nodes (Status now s)"
  have counts: "stateCounts ?nodes = map (\<lambda>state. (state, in_state ?nodes state)) node_states"
    using count_states [of ?nodes 0 0 0] status_states by (simp add: stateCounts_def node_states_def)
  have nodes: "values_of nodes_metric (metrics_Collect now s) = map (\<lambda>state. (Some state, in_state ?nodes state)) node_states"
    by (simp add: metrics_Collect_def counts metric_names values_of_labelled o_def Let_def split: option.split)
      (simp add: nodes_metric_def phase_metric_def)
  have "sum_list (map snd (values_of nodes_metric (metrics_Collect now s))) = int (length ?nodes)"
    using in_states_total [of ?nodes] status_states by (simp add: nodes o_def)
  then have "sum_list (map snd (values_of nodes_metric (metrics_Collect now s))) = int (length (known_nodes s))" by (simp add: Status_def)
  moreover have "values_of phase_metric (metrics_Collect now s) = (case localShutdownStatusLocked s of None \<Rightarrow> []
     | Some l \<Rightarrow> map (\<lambda>phase. (Some phase, if lv_Phase l = phase then 1 else 0)) phases)"
    by (simp add: metrics_Collect_def counts metric_names values_of_labelled o_def Let_def status_local split: option.split)
      (simp add: nodes_metric_def phase_metric_def)
  moreover have "filter (\<lambda>x. snd x \<noteq> 0) (map (\<lambda>phase. (Some phase, if lv_Phase l = phase then 1 else 0 :: int)) phases) = [(Some (lv_Phase l), 1)]"
    if "localShutdownStatusLocked s = Some l" for l
  proof -
    have "filter ((=) (lv_Phase l)) phases = [lv_Phase l]"
      using phases_distinct local_phase_known [OF assms that] by (rule filter_single)
    then show ?thesis by (simp add: filter_map o_def)
  qed
  ultimately show ?thesis using nodes by (auto split: option.split)
qed

theorem metrics_match_status_witness:
  "sum_list (map snd (values_of nodes_metric (metrics_Collect 9 example_server))) = int (length (known_nodes example_server))"
  using metrics_match_status [OF example_inv, of 9] by blast

section \<open>A scrape is consistent\<close>

definition metric_key :: "metric \<Rightarrow> string \<times> string option" where
  "metric_key m = (mt_name m, mt_label m)"

definition desc_names :: "string list" where
  "desc_names = map ds_name master_Describe"

lemma desc_names_distinct: "distinct desc_names"
  by code_simp

lemma stateCounts_Status:
  "stateCounts (sr_Nodes (Status now s)) = map (\<lambda>state. (state, in_state (sr_Nodes (Status now s)) state)) node_states"
  using count_states [of "sr_Nodes (Status now s)" 0 0 0] status_states by (simp add: stateCounts_def node_states_def)

lemma metrics_Collect_list:
  "metrics_Collect now s =
    (case currentUPSStatus s of None \<Rightarrow> [] | Some v \<Rightarrow> ups_metrics v) @
    gauge ''nut_master_registered_slaves'' (int (length (reg_List (registry s)))) #
    map (\<lambda>state. labelled nodes_metric state (in_state (sr_Nodes (Status now s)) state)) node_states @
    gauge ''nut_master_shutdown_active'' (boolToFloat (shutdownIssued s)) #
    (case sr_LocalShutdown (Status now s) of None \<Rightarrow> []
     | Some l \<Rightarrow> map (\<lambda>phase. labelled phase_metric phase (if lv_Phase l = phase then 1 else 0)) phases)"
  by (simp add: metrics_Collect_def Let_def stateCounts_Status comp_def)

text \<open>The names a scrape uses without a label, in order; the readings may be missing.\<close>

lemma ups_metric_names: "subseq (map mt_name (ups_metrics v)) (take 6 desc_names)"
  by (simp add: ups_metrics_def desc_names_def master_Describe_def NewDesc_def gauge_def split: option.split)

lemma ups_metric_labels: "m \<in> set (ups_metrics v) \<Longrightarrow> mt_label m = None"
  by (auto simp: ups_metrics_def gauge_def split: option.splits)

lemma map_key_gauges: "(\<And>m. m \<in> set ms \<Longrightarrow> mt_label m = None) \<Longrightarrow> map metric_key ms = map (\<lambda>n. (n, None)) (map mt_name ms)"
  by (induction ms) (simp_all add: metric_key_def)

lemma metric_key_simps [simp]:
  "metric_key (gauge n v) = (n, None)" "metric_key (labelled n l v) = (n, Some l)"
  by (simp_all add: metric_key_def gauge_def labelled_def)

lemma metric_names_desc:
  "desc_names = take 6 desc_names @ [''nut_master_registered_slaves'', nodes_metric, ''nut_master_shutdown_active'', phase_metric]"
  by (simp add: desc_names_def master_Describe_def NewDesc_def nodes_metric_def phase_metric_def)

lemma ups_names_distinct: "distinct (map mt_name (ups_metrics v))"
  using distinct_subseq [OF ups_metric_names] desc_names_distinct distinct_take by blast

lemma ups_names_known: "set (map mt_name (ups_metrics v)) \<subseteq> set (take 6 desc_names)"
  using ups_metric_names [of v] by (rule subseq_subset)

lemma metric_fits:
  assumes "m \<in> set (metrics_Collect now s)"
  shows "\<exists>d \<in> set master_Describe. fits m d"
proof -
  have plain: "\<exists>d \<in> set master_Describe. fits m d" if "mt_label m = None" "mt_name m \<in> set (take 6 desc_names)" for m
    using that by (auto simp: fits_def desc_names_def master_Describe_def NewDesc_def)
  have gauges: "\<exists>d \<in> set master_Describe. fits (gauge n k) d"
    if "n = ''nut_master_registered_slaves'' \<or> n = ''nut_master_shutdown_active''" for n k
    using that by (auto simp: fits_def gauge_def master_Describe_def NewDesc_def)
  have labels: "\<exists>d \<in> set master_Describe. fits (labelled n l k) d" if "n = nodes_metric \<or> n = phase_metric" for n l k
    using that by (auto simp: fits_def labelled_def nodes_metric_def phase_metric_def master_Describe_def NewDesc_def)
  have ups: "\<exists>d \<in> set master_Describe. fits m d" if "m \<in> set (ups_metrics v)" for v
    using that ups_metric_labels ups_names_known [of v] by (intro plain) auto
  from assms show ?thesis
    unfolding metrics_Collect_list by (auto split: option.splits intro: ups gauges labels)
qed

text \<open>
  A scrape of the master never fails on its own metrics: every metric it sends fits one of
  the descriptions it announced, with as many label values as labels (otherwise the constructor
  panics), and no two metrics of a scrape have the same name and label (otherwise the whole scrape
  is refused), whatever the nodes, the UPS readings and the local shutdown are; and no two collectors
  of the registry have the same name (otherwise the registration panics).
\<close>

theorem scrape_consistent:
  "list_all (\<lambda>m. list_ex (fits m) master_Describe) (metrics_Collect now s) \<and>
   distinct (map metric_key (metrics_Collect now s)) \<and> distinct (map ds_name buildMasterRegistry)"
proof (intro conjI)
  show "list_all (\<lambda>m. list_ex (fits m) master_Describe) (metrics_Collect now s)"
    using metric_fits by (simp add: list_all_iff list_ex_iff)
  show "distinct (map ds_name buildMasterRegistry)" by code_simp
  have dist: "distinct (take 6 desc_names @ [''nut_master_registered_slaves'', nodes_metric, ''nut_master_shutdown_active'', phase_metric])"
    using desc_names_distinct by (simp only: metric_names_desc [symmetric])
  define ups where "ups = (case currentUPSStatus s of None \<Rightarrow> [] | Some v \<Rightarrow> ups_metrics v)"
  have ups: "distinct (map mt_name ups)" "set (map mt_name ups) \<subseteq> set (take 6 desc_names)" "map metric_key ups = map (\<lambda>n. (n, None)) (map mt_name ups)"
    using ups_names_distinct ups_names_known map_key_gauges [of "ups_metrics v" for v, OF ups_metric_labels]
    by (cases "currentUPSStatus s"; simp add: ups_def del: set_map map_map)+
  then have "distinct (map metric_key ups)" by (simp add: distinct_map inj_on_def)
  moreover have "(n, l) \<notin> set (map metric_key ups)" if "n \<notin> set (take 6 desc_names)" for n l
    using that ups(2) by (auto simp: ups(3) simp del: map_map)
  moreover have "(n, l) \<in> set (map (\<lambda>x. (phase_metric, Some x)) phases) \<longleftrightarrow> n = phase_metric \<and> (\<exists>x \<in> set phases. l = Some x)" for n l
    by auto
  moreover have phase_keys: "distinct (map (\<lambda>x. (phase_metric, Some x)) phases)"
    using phases_distinct by (simp add: distinct_map inj_on_def)
  ultimately show "distinct (map metric_key (metrics_Collect now s))"
    using dist phases_distinct unfolding metrics_Collect_list ups_def [symmetric]
    by (auto simp: node_states_def phase_keys comp_def simp del: set_map split: option.split)
qed

end
