(* ===== verification/AtomicFile.thy ===== *)
theory AtomicFile
  imports GoStrings
begin

text \<open>
  \<open>internal/atomicfile\<close>: replacing a file through a synced temporary file. The operating system
  is an argument: which calls succeed. A run is the result and the calls made, in order.
\<close>

datatype file_call =
    MkdirAll string
  | CreateTemp string
  | Chmod string nat
  | WriteData string string
  | SyncFile string
  | CloseFile string
  | Rename string string
  | RemoveFile string
  | OpenDir string
  | SyncDir string
  | CloseDir string

datatype write_error = EnsureDir | CreateTempFailed | ChmodTemp | WriteTemp | SyncTemp | CloseTemp | RenameTemp

text \<open>
  \<open>WriteFile\<close>. \<open>ok\<close> says which calls succeed (a short write counts as a failure, as in
  \<open>os.File.Write\<close>); \<open>dir\<close> is \<open>filepath.Dir(path)\<close> and \<open>tmp\<close> the name \<open>os.CreateTemp\<close> gives.
\<close>

definition WriteFile :: "(file_call \<Rightarrow> bool) \<Rightarrow> string \<Rightarrow> string \<Rightarrow> string \<Rightarrow> string \<Rightarrow> nat \<Rightarrow> write_error option \<times> file_call list" where
  "WriteFile ok dir tmp path data perm =
    (let made = [MkdirAll dir]; created = made @ [CreateTemp tmp]; chmoded = created @ [Chmod tmp perm];
         written = chmoded @ [WriteData tmp data]; synced = written @ [SyncFile tmp]; closed = synced @ [CloseFile tmp];
         renamed = closed @ [Rename tmp path]
     in if \<not> ok (MkdirAll dir) then (Some EnsureDir, made)
        else if \<not> ok (CreateTemp tmp) then (Some CreateTempFailed, created)
        else if \<not> ok (Chmod tmp perm) then (Some ChmodTemp, chmoded @ [CloseFile tmp, RemoveFile tmp])
        else if \<not> ok (WriteData tmp data) then (Some WriteTemp, written @ [CloseFile tmp, RemoveFile tmp])
        else if \<not> ok (SyncFile tmp) then (Some SyncTemp, synced @ [CloseFile tmp, RemoveFile tmp])
        else if \<not> ok (CloseFile tmp) then (Some CloseTemp, closed @ [RemoveFile tmp])
        else if \<not> ok (Rename tmp path) then (Some RenameTemp, renamed @ [RemoveFile tmp])
        else (None, renamed @ (if ok (OpenDir dir) then [OpenDir dir, SyncDir dir, CloseDir dir] else [OpenDir dir])))"

section \<open>The calls as an atomic replacement\<close>

text \<open>
  What a call does to the files of the directory. A file is its contents and whether they have
  been synced: writing makes them unsynced, syncing keeps them across a power loss, and a
  rename moves a file to its new name in one step.
\<close>

type_synonym files = "string \<rightharpoonup> (string \<times> bool)"

fun run_call :: "file_call \<Rightarrow> files \<Rightarrow> files" where
  "run_call (CreateTemp f) fs = fs(f \<mapsto> ([], False))"
| "run_call (WriteData f d) fs = fs(f \<mapsto> (d, False))"
| "run_call (SyncFile f) fs = fs(f := map_option (\<lambda>(d, _). (d, True)) (fs f))"
| "run_call (Rename f g) fs = (fs(g := fs f))(f := None)"
| "run_call (RemoveFile f) fs = fs(f := None)"
| "run_call _ fs = fs"

text \<open>A failed write may have written part of the data; other failed calls change nothing.\<close>

fun fail_call :: "nat \<Rightarrow> file_call \<Rightarrow> files \<Rightarrow> files" where
  "fail_call n (WriteData f d) fs = fs(f \<mapsto> (take n d, False))"
| "fail_call n _ fs = fs"

definition run_calls :: "(file_call \<Rightarrow> bool) \<Rightarrow> nat \<Rightarrow> file_call list \<Rightarrow> files \<Rightarrow> files" where
  "run_calls ok n cs fs = fold (\<lambda>c fs. if ok c then run_call c fs else fail_call n c fs) cs fs"

lemma run_calls_simps [simp]:
  "run_calls ok n [] fs = fs"
  "run_calls ok n (c # cs) fs = run_calls ok n cs (if ok c then run_call c fs else fail_call n c fs)"
  "run_calls ok n (cs @ ds) fs = run_calls ok n ds (run_calls ok n cs fs)"
  by (simp_all add: run_calls_def)

text \<open>A call leaves a file alone unless it names it.\<close>

fun touches :: "string \<Rightarrow> file_call \<Rightarrow> bool" where
  "touches f (CreateTemp g) = (f = g)"
| "touches f (WriteData g _) = (f = g)"
| "touches f (SyncFile g) = (f = g)"
| "touches f (Rename g h) = (f = g \<or> f = h)"
| "touches f (RemoveFile g) = (f = g)"
| "touches f _ = False"

lemma run_call_keeps: "\<not> touches f c \<Longrightarrow> run_call c fs f = fs f \<and> fail_call n c fs f = fs f"
  by (cases c) auto

lemma run_calls_keep:
  "(\<And>c. c \<in> set cs \<Longrightarrow> \<not> touches f c \<or> (\<not> ok c \<and> (\<exists>g h. c = Rename g h))) \<Longrightarrow> run_calls ok n cs fs f = fs f"
proof (induction cs arbitrary: fs)
  case (Cons c cs)
  have "(if ok c then run_call c fs else fail_call n c fs) f = fs f"
    using Cons.prems [of c] run_call_keeps [of f c fs n] by auto
  with Cons show ?case by simp
qed simp

text \<open>Every run is either a failure that leaves \<open>path\<close> alone, or the whole sequence.\<close>

definition before_rename :: "string \<Rightarrow> string \<Rightarrow> string \<Rightarrow> nat \<Rightarrow> file_call list" where
  "before_rename dir tmp data perm = [MkdirAll dir, CreateTemp tmp, Chmod tmp perm, WriteData tmp data, SyncFile tmp, CloseFile tmp]"

lemma WriteFile_cases:
  assumes "WriteFile ok dir tmp path data perm = (r, cs)" "tmp \<noteq> path"
  obtains (fail) e where "r = Some e" "\<And>c. c \<in> set cs \<Longrightarrow> \<not> touches path c \<or> (\<not> ok c \<and> (\<exists>g h. c = Rename g h))"
    | (whole) post where "r = None" "cs = before_rename dir tmp data perm @ Rename tmp path # post" "ok (Rename tmp path)"
        "\<forall>c \<in> set (before_rename dir tmp data perm). ok c" "\<forall>c \<in> set post. \<not> touches path c \<and> \<not> touches tmp c"
proof (cases r)
  case None
  with assms(1) have "\<forall>c \<in> set (before_rename dir tmp data perm). ok c" "ok (Rename tmp path)"
    "cs = before_rename dir tmp data perm @ Rename tmp path # (if ok (OpenDir dir) then [OpenDir dir, SyncDir dir, CloseDir dir] else [OpenDir dir])"
    by (auto simp: WriteFile_def before_rename_def Let_def split: if_splits)
  with None show ?thesis by (intro whole) (auto split: if_splits)
next
  case (Some e)
  with assms show ?thesis by (intro fail [OF Some]) (auto simp: WriteFile_def Let_def split: if_splits)
qed

lemma before_rename_result:
  "\<forall>c \<in> set (before_rename dir tmp data perm). ok c \<Longrightarrow> run_calls ok n (before_rename dir tmp data perm) fs tmp = Some (data, True)"
  by (simp add: before_rename_def)

lemma before_rename_keeps: "f \<noteq> tmp \<Longrightarrow> c \<in> set (before_rename dir tmp data perm) \<Longrightarrow> \<not> touches f c"
  by (auto simp: before_rename_def)

text \<open>
  C35. Writing the state file is an atomic replacement. At every point of a run, whichever calls
  fail and wherever it is cut off, the file at \<open>path\<close> is the old one or the new contents whole
  and synced, never a part of them; the write reports success exactly when the new contents are
  there at the end, on failure the old file is still there, and no other file changes.
\<close>

theorem write_file_refines_replacement:
  assumes "WriteFile ok dir tmp path data perm = (r, cs)" "tmp \<noteq> path"
  shows "(\<forall>k. run_calls ok n (take k cs) fs path \<in> {fs path, Some (data, True)}) \<and>
    run_calls ok n cs fs path = (if r = None then Some (data, True) else fs path) \<and>
    (\<forall>f. f \<notin> {tmp, path} \<longrightarrow> run_calls ok n cs fs f = fs f)"
  using assms
proof (cases rule: WriteFile_cases)
  case (fail e)
  have "run_calls ok n (take k cs) fs path = fs path" for k
    using fail(2) by (intro run_calls_keep) (meson in_set_takeD)
  moreover have "run_calls ok n cs fs path = fs path" using fail(2) by (rule run_calls_keep)
  moreover have "run_calls ok n cs fs f = fs f" if "f \<notin> {tmp, path}" for f
    using that assms(1) by (intro run_calls_keep) (auto simp: WriteFile_def Let_def split: if_splits)
  ultimately show ?thesis using fail(1) by simp
next
  case (whole post)
  let ?pre = "before_rename dir tmp data perm"
  have new: "run_calls ok n (?pre @ Rename tmp path # take k post) fs path = Some (data, True)" for k
  proof -
    have "run_calls ok n (take k post) fs' path = fs' path" for fs'
      using whole(5) by (intro run_calls_keep) (meson in_set_takeD)
    then show ?thesis using whole(3,4) assms(2) before_rename_result [of dir tmp data perm ok n fs] by simp
  qed
  have "run_calls ok n (take k cs) fs path \<in> {fs path, Some (data, True)}" for k
  proof (cases "k \<le> length ?pre")
    case True
    have "run_calls ok n (take k ?pre) fs path = fs path"
      using assms(2) before_rename_keeps [of path tmp] by (intro run_calls_keep) (metis in_set_takeD)
    with True show ?thesis by (simp add: whole(2))
  next
    case False
    then obtain j where "take k cs = ?pre @ Rename tmp path # take j post"
      by (auto simp: whole(2) take_Cons' simp del: run_calls_simps)
    with new [of j] show ?thesis by simp
  qed
  moreover have "run_calls ok n cs fs path = Some (data, True)" using new [of "length post"] by (simp add: whole(2))
  moreover have "run_calls ok n cs fs f = fs f" if "f \<notin> {tmp, path}" for f
    using that assms(1) by (intro run_calls_keep) (auto simp: WriteFile_def Let_def split: if_splits)
  ultimately show ?thesis using whole(1) by simp
qed

text \<open>A run on a disk that is full: the data cannot be written.\<close>

theorem write_file_refines_replacement_witness:
  "run_calls (\<lambda>c. c \<noteq> WriteData ''d/.tmp-1'' ''new'') 1
     (snd (WriteFile (\<lambda>c. c \<noteq> WriteData ''d/.tmp-1'' ''new'') ''d'' ''d/.tmp-1'' ''d/state'' ''new'' 384)) [''d/state'' \<mapsto> (''old'', True)] ''d/state'' =
   Some (''old'', True)"
  using write_file_refines_replacement [of "\<lambda>c. c \<noteq> WriteData ''d/.tmp-1'' ''new''" "''d''" "''d/.tmp-1''" "''d/state''" "''new''" 384
      "Some WriteTemp" _ 1 "[''d/state'' \<mapsto> (''old'', True)]"]
  by (simp add: WriteFile_def)

end
