(* ===== verification/Reports.thy ===== *)
theory Reports
  imports Runs
begin

text \<open>
  Where the master's knowledge of its nodes comes from: apart from handling an acknowledgement,
  no step of the master makes it count a node as shut down.
\<close>

section \<open>Nodes counted as shut down\<close>

text \<open>The pairs of command and node whose stored report says \<open>executed\<close>.\<close>

definition executed_in :: "(string, shutdownCommandState) gomap \<Rightarrow> (string \<times> string) set" where
  "executed_in cs = {(cid, n). \<exists>c u. map_of cs cid = Some c \<and> map_of (cm_NodeUpdates c) n = Some u \<and>
     ack_Status u = StatusExecuted}"

text \<open>Those in memory and those in the state file all belong to \<open>D\<close>.\<close>

definition within :: "(string \<times> string) set \<Rightarrow> Server \<Rightarrow> bool" where
  "within D s \<longleftrightarrow> executed_in (commands s) \<subseteq> D \<and>
     (\<forall>p. disk (stateStore s) = Some p \<longrightarrow> executed_in (ps_Commands p) \<subseteq> D)"

lemma within_mono: "within D s \<Longrightarrow> D \<subseteq> E \<Longrightarrow> within E s"
  unfolding within_def by blast

lemma executed_in_Nil [simp]: "executed_in [] = {}"
  by (simp add: executed_in_def)

lemma executed_in_mput: "cm_NodeUpdates c = [] \<Longrightarrow> executed_in cs \<subseteq> D \<Longrightarrow> executed_in (mput cid c cs) \<subseteq> D"
  by (auto simp: executed_in_def split: if_splits)

lemma executed_in_madjust:
  "(\<And>c. map_of cs cid = Some c \<Longrightarrow> cm_NodeUpdates (f c) = cm_NodeUpdates c) \<Longrightarrow> executed_in (madjust cid f cs) = executed_in cs"
  by (fastforce simp: executed_in_def map_of_madjust split: if_splits)

lemma executed_in_filter: "distinct (mkeys cs) \<Longrightarrow> executed_in (filter P cs) \<subseteq> executed_in cs"
  by (auto simp: executed_in_def dest!: map_of_filter_SomeD)

lemma executed_mark:
  "map_of (cm_NodeUpdates (mark_command now cid c)) n = Some u \<Longrightarrow> ack_Status u = StatusExecuted \<Longrightarrow>
    map_of (cm_NodeUpdates c) n = Some u"
  by (auto simp: mark_command_def Let_def node_update_time_out timeout_ack_def consts_simps split: if_splits)

lemma executed_in_mark: "executed_in (map (\<lambda>(cid, c). (cid, mark_command now cid c)) cs) \<subseteq> executed_in cs"
  by (auto simp: executed_in_def map_of_map_val dest: executed_mark)

lemma executed_in_ack:
  assumes "map_of cs cid = Some c"
  shows "executed_in (madjust cid (\<lambda>_. ack_command now u c) cs) \<subseteq>
    executed_in cs \<union> (if ack_Status u = StatusExecuted then {(cid, ack_NodeID u)} else {})"
  using assms by (fastforce simp: executed_in_def map_of_madjust split: if_splits)

section \<open>Operations that report nothing\<close>

lemma within_fields [simp]:
  "within D (s\<lparr>registry := a\<rparr>) = within D s" "within D (s\<lparr>directory := b\<rparr>) = within D s"
  "within D (s\<lparr>shutdownIssued := i\<rparr>) = within D s" "within D (s\<lparr>ready := r\<rparr>) = within D s"
  "within D (s\<lparr>upsConfirmed := r\<rparr>) = within D s" "within D (s\<lparr>activeCommand := x\<rparr>) = within D s"
  "within D (s\<lparr>episode := e\<rparr>) = within D s" "within D (s\<lparr>lastNodeRetryAt := t\<rparr>) = within D s"
  "within D (s\<lparr>localShutdown := l\<rparr>) = within D s" "within D (s\<lparr>upsStatus := v\<rparr>) = within D s"
  "within D (s\<lparr>upsMissingWarned := w\<rparr>) = within D s" "within D (s\<lparr>conns := cn\<rparr>) = within D s"
  "within D (s\<lparr>nodeTokens := nt\<rparr>) = within D s" "within D (emit es s) = within D s"
  by (simp_all add: within_def)

lemma within_commands: "within D s \<Longrightarrow> executed_in cs \<subseteq> D \<Longrightarrow> within D (s\<lparr>commands := cs\<rparr>)"
  by (simp add: within_def)

lemma within_executed: "within D s \<Longrightarrow> executed_in (commands s) \<subseteq> D"
  by (simp add: within_def)

lemma within_adjust:
  "within D s \<Longrightarrow> (\<And>c. map_of (commands s) cid = Some c \<Longrightarrow> cm_NodeUpdates (f c) = cm_NodeUpdates c) \<Longrightarrow>
    within D (s\<lparr>commands := madjust cid f (commands s)\<rparr>)"
  by (intro within_commands) (simp_all add: executed_in_madjust within_executed)

lemma within_saveState [simp]: "within D s \<Longrightarrow> within D (saveState s)"
  by (auto simp: within_def stateStore_saveState disk_store_write persisted_of_def split: if_splits)

lemma within_sends [simp]:
  "within D (snd (sendShutdown m cs s)) = within D s" "within D (replayShutdownToNodes m ns s) = within D s"
  "within D (snd (client_Send c msg s)) = within D s" "within D (send_to c msg s) = within D s"
  by (simp_all add: within_def send_to_def)

lemma within_arm [simp]: "within D (armLocalShutdownLocked c now s) = within D s"
  by (simp add: armLocalShutdownLocked_def split: option.split)

lemma within_put [simp]:
  "within D s \<Longrightarrow> cm_NodeUpdates c = [] \<Longrightarrow> within D (s\<lparr>commands := mput cid c (commands s)\<rparr>)"
  by (intro within_commands executed_in_mput within_executed)

lemma within_UPS [simp]:
  "within D (recordUPSError err t s) = within D s" "within D (recordUPSSuccess st t s) = within D s"
  by (simp_all add: within_def)

lemma within_manual:
  assumes "within D s"
  shows "within D (snd (handleManualShutdown hm body t cid s))"
proof -
  have "within D (snd (TriggerShutdown request t cid s))" for request
    using assms by (auto simp: TriggerShutdown_def Let_def case_prod_beta intro!: within_saveState split: option.split)
  then show ?thesis using assms by (auto simp: handleManualShutdown_def split: sum.splits prod.splits) (metis snd_conv)+
qed

lemma within_prune:
  "distinct (mkeys (commands s)) \<Longrightarrow> within D s \<Longrightarrow> within D (snd (pruneCompletedCommandsLocked s))"
  using executed_in_filter by (fastforce simp: pruneCompletedCommandsLocked_def Let_def within_def)

lemma within_markTimedOut:
  assumes "distinct (mkeys (commands s))" and "within D s"
  shows "within D (markTimedOutCommands now s)"
proof -
  let ?s1 = "s\<lparr>commands := map (\<lambda>(cid, c). (cid, mark_command now cid c)) (commands s)\<rparr>"
  let ?s2 = "if mark_releases now s then ?s1\<lparr>activeCommand := [], shutdownIssued := False\<rparr> else ?s1"
  have "within D ?s1" using assms(2) executed_in_mark [of now "commands s"] within_executed [OF assms(2)]
    by (intro within_commands) auto
  then have "within D (snd (pruneCompletedCommandsLocked ?s2))"
    using assms(1) by (intro within_prune) (auto simp: case_prod_beta comp_def)
  then show ?thesis by (auto simp: markTimedOutCommands_def Let_def case_prod_beta)
qed

lemma within_disable [simp]:
  "within D s \<Longrightarrow> within D (s\<lparr>commands := madjust cid (\<lambda>c. c\<lparr>cm_ReplayDisabled := True\<rparr>) (commands s)\<rparr>)"
  by (rule within_adjust) simp_all

lemma within_reset: "within D s \<Longrightarrow> within D (snd (handleReset hm s))"
proof -
  assume s: "within D s"
  let ?d = "\<lambda>c :: shutdownCommandState. c\<lparr>cm_ReplayDisabled := True\<rparr>"
  have "within D (s\<lparr>commands := madjust b ?d (madjust a ?d (commands s))\<rparr>)" for a b
    using within_disable [OF within_disable [OF s, of a], of b] by simp
  with s show ?thesis
    by (auto simp: handleReset_def ResetActiveCommand_def Let_def split: option.splits)
qed

lemma within_retry:
  assumes "within D s"
  shows "within D (retryEpisodeShutdown now s)"
proof -
  have "within D (s\<lparr>lastNodeRetryAt := now, commands := madjust cid (\<lambda>_. reopenCommandLocked now s c1) (commands s)\<rparr>)"
    if "map_of (commands s) cid = Some c" "adoptMatchingClientsLocked c now s = (adopted, c1)" for cid c c1 adopted
    using within_adjust [of D "s\<lparr>lastNodeRetryAt := now\<rparr>" cid "\<lambda>_. reopenCommandLocked now s c1"] assms that
    by (simp add: adoptMatching_props(2) [OF that(2)])
  then show ?thesis using assms by (auto simp: retryEpisodeShutdown_def Let_def split: option.split prod.split)
qed

lemma within_apply:
  assumes s: "within D s" and "server_inv s"
  shows "within D (applyPolicyMatch pm now cid s)"
proof -
  have "within D (supersedeManualCommandLocked s)"
    using s by (auto simp: supersedeManualCommandLocked_def Let_def split: option.split)
  then have create: "within D s2" if "createEpisodeCommand e target reason now cid s = (c, toSend, s2)" for e target reason c toSend s2
    using that by (auto simp: createEpisodeCommand_def Let_def split: if_splits)
  have widen: "within D s2" if c: "map_of (commands s) k = Some existing"
    and w: "widenEpisodeCommand existing target reason now s = (c2, toSend, s2)" for k existing target reason c2 toSend s2
  proof -
    let ?m = "cm_Message existing"
    let ?c1 = "existing\<lparr>cm_Message := ?m\<lparr>sm_Target := mergeShutdownTargets (sm_Target ?m) target,
      sm_Reason := sm_Reason ?m @ ''; '' @ reason\<rparr>\<rparr>"
    let ?s1 = "s\<lparr>commands := madjust k (\<lambda>_. c2) (commands s)\<rparr>"
    have "sm_CommandID ?m = k"
      using assms(2) c by (auto simp: server_inv_def core_ok_def command_inv_def dest: commands_inv_lookup)
    with w have ad: "adoptMatchingClientsLocked ?c1 now s = (toSend, c2)" and s2: "s2 = ?s1 \<or> s2 = armLocalShutdownLocked c2 now ?s1"
      by (auto simp: widenEpisodeCommand_def Let_def split: prod.splits if_splits)
    have "within D ?s1" using s c by (intro within_adjust) (auto simp: adoptMatching_props(2) [OF ad])
    with s2 show ?thesis by auto
  qed
  from s create widen show ?thesis
    by (fastforce simp: applyPolicyMatch_def Let_def split: option.split prod.split)
qed

lemma within_episode:
  assumes "within D s"
  shows "within D (startEpisodeIfNeeded t s)" "within D (fst (evaluateEpisodePoliciesLocked reading t s))"
    "within D (endEpisodeOnLinePower s)"
proof -
  show "within D (startEpisodeIfNeeded t s)" using assms by (simp add: startEpisodeIfNeeded_def split: option.split)
  show "within D (fst (evaluateEpisodePoliciesLocked reading t s))"
    using assms by (auto simp: evaluateEpisodePoliciesLocked_def Let_def split: option.split prod.split)
  have "within D (closeEpisode e s)" for e
    using assms by (auto simp: closeEpisode_def Let_def split: option.splits)
  then show "within D (endEpisodeOnLinePower s)"
    using assms by (auto simp: endEpisodeOnLinePower_def Let_def split: option.split)
qed

lemma within_local:
  assumes "within D s"
  shows "within D (fst (evaluateLocalShutdownLocked t u s))"
    "within D (beginLocalShutdownFinish cid err s)" "within D (snd (beginLocalShutdownClaim cid tr t s))"
proof -
  have "within D (fst (startEmergency t em trusted s))" if "within D s" for em trusted s
    using that by (auto simp: startEmergency_def Let_def split: option.split)
  moreover have "within D (fst (advanceLocalShutdown t em trusted l s))" if "within D s" for em trusted l s
    using that by (auto simp: advanceLocalShutdown_def waitForRemote_def Let_def split: option.split)
  ultimately show "within D (fst (evaluateLocalShutdownLocked t u s))"
    using assms by (auto simp: evaluateLocalShutdownLocked_def Let_def split: option.split)
  show "within D (beginLocalShutdownFinish cid err s)"
    using assms by (auto simp: beginLocalShutdownFinish_def split: option.split)
  show "within D (snd (beginLocalShutdownClaim cid tr t s))"
    using assms by (auto simp: beginLocalShutdownClaim_def Let_def split: option.split)
qed

lemma within_nodes:
  assumes "within D s"
  shows "within D (snd (handleExpectNode request s))" "within D (snd (handleUnsetExpected n s))"
    "within D (snd (handleDeleteNode n s))" "within D (snd (handleRevokeToken n s))" "within D (snd (install_node n rnd s))"
    "within D (disconnectNode n s)"
  using assms
  by (auto simp: handleExpectNode_def handleUnsetExpected_def handleDeleteNode_def handleRevokeToken_def
      install_node_def issueNodeToken_def removeNodeToken_def saveStateForDirectoryChange_def disconnectNode_def Let_def
      split: sum.splits prod.splits delete_result.splits option.splits)

lemma within_replayPending:
  assumes "within D s"
  shows "within D (snd (replayPendingShutdown client t s))"
proof -
  have "within D (snd (replayableShutdownForNode client t s))"
    using assms by (auto simp: replayableShutdownForNode_def Let_def intro!: within_saveState within_adjust split: option.split)
  then show ?thesis using assms by (auto simp: replayPendingShutdown_def split: option.split prod.split)
qed

lemma within_conn:
  assumes "within D s"
  shows "conn_handshake conn r peer rnd s = (ph, s') \<Longrightarrow> within D s'"
    "conn_join conn reg tok h t s = (ph, s') \<Longrightarrow> within D s'" "conn_welcome conn reg tok t s = (ph, s') \<Longrightarrow> within D s'"
    "within D (touch conn n t s)"
proof -
  show "conn_handshake conn r peer rnd s = (ph, s') \<Longrightarrow> within D s'"
    using assms by (auto simp: conn_handshake_def split: sum.splits if_splits prod.splits)
  show "conn_join conn reg tok h t s = (ph, s') \<Longrightarrow> within D s'"
    using assms by (auto simp: conn_join_def registerIfTokenUnchanged_def registry_Set_def split: if_splits prod.splits)
  show "within D (touch conn n t s)" using assms by (simp add: touch_def)
  define s1 where "s1 = saveStateForDirectoryChange (s\<lparr>directory := welcome_directory reg t (directory s)\<rparr>)"
  define s2 where "s2 = snd (client_Send conn (RegisterAck \<lparr>ra_Accepted = True, ra_Message = ''registered'',
      ra_IssuedToken = tok\<rparr>) s1)"
  have "within D s2" using assms by (simp add: s2_def s1_def saveStateForDirectoryChange_def)
  moreover have "s' = s2 \<or> s' = snd (replayPendingShutdown (registered_client conn reg t) t s2)"
    if "conn_welcome conn reg tok t s = (ph, s')"
    using that by (auto simp: conn_welcome_def Let_def s1_def s2_def welcome_directory_def split: prod.splits bool.splits)
  ultimately show "conn_welcome conn reg tok t s = (ph, s') \<Longrightarrow> within D s'" using within_replayPending by auto
qed

lemma within_receive:
  assumes s: "within D s" and "\<And>env. r = Inr env \<Longrightarrow> env_Type env \<noteq> TypeShutdownAck"
    and "conn_receive rn t t conn n tok r s = (ph, s')"
  shows "within D s'"
proof (cases r)
  case (Inr env)
  let ?s = "touch conn n t s"
  have "within D ?s" using s by (rule within_conn(4))
  moreover from this have "within D (snd (confirmIssuedToken n tok ?s))"
    by (auto simp: confirmIssuedToken_def saveStateForDirectoryChange_def split: option.split)
  moreover have "within D (snd (handleEnvelope rn t t conn n env ?s))"
    using assms(2) [OF Inr] \<open>within D ?s\<close> by (auto simp: handleEnvelope_def Let_def case_prod_beta)
  moreover have "s' = ?s \<or> s' = snd (confirmIssuedToken n tok ?s) \<or> s' = snd (handleEnvelope rn t t conn n env ?s)"
    using assms(3) Inr by (auto simp: conn_receive_def Let_def touch_def split: if_splits bool.splits prod.splits)
  ultimately show ?thesis by auto
qed (use assms in \<open>auto simp: conn_receive_def\<close>)

section \<open>Steps\<close>

lemma quiet_step_within: "master_inv m \<Longrightarrow> quiet_step m m' \<Longrightarrow> within D (srv m) \<Longrightarrow> within D (srv m')"
proof (erule quiet_stepE)
  fix t err s' due
  assume "within D (srv m)" "evaluateEpisodePoliciesLocked None t (recordUPSError err t (srv m)) = (s', due)"
    "m' = m\<lparr>srv := s', firing := due\<rparr>"
  then show "within D (srv m')" using within_episode(2) [of D "recordUPSError err t (srv m)" None t] by simp
next
  fix st t s' due
  assume "within D (srv m)" "m' = m\<lparr>srv := s', firing := due\<rparr>" "evaluateEpisodePoliciesLocked (Some st) t
      ((startEpisodeIfNeeded t (recordUPSSuccess st t (srv m)))\<lparr>upsConfirmed := True\<rparr>) = (s', due)"
  then show "within D (srv m')"
    using within_episode(2) [of D "(startEpisodeIfNeeded t (recordUPSSuccess st t (srv m)))\<lparr>upsConfirmed := True\<rparr>" "Some st" t]
    by (simp add: within_episode(1))
next
  fix t u s' d
  assume "within D (srv m)" "evaluateLocalShutdownLocked t u (srv m) = (s', d)"
    "m' = decide_on (ld_commandID d) (ld_trigger d) (m\<lparr>srv := replay_decision d s'\<rparr>)"
  then show "within D (srv m')"
    using within_local(1) [of D "srv m" t u] by (simp add: replay_decision_def split: option.split)
next
  fix cid tr t s'
  assume "within D (srv m)" "beginLocalShutdownClaim cid tr t (srv m) = (None, s')"
    "m' = m\<lparr>srv := s', decided := remove1 (cid, tr) (decided m)\<rparr>"
  then show "within D (srv m')" using within_local(3) [of D "srv m" cid tr t] by simp
next
  fix cid tr t dry s'
  assume "within D (srv m)" "beginLocalShutdownClaim cid tr t (srv m) = (Some dry, s')"
    "m' = m\<lparr>srv := emit [Ran (slice (lc_Command (mc_LocalShutdown (cfg s')))) tr dry] s',
        decided := remove1 (cid, tr) (decided m), running := running m @ [cid]\<rparr>"
  then show "within D (srv m')" using within_local(3) [of D "srv m" cid tr t] by simp
next
  fix conn n tok r t ph s'
  assume "within D (srv m)" "\<And>env. r = Inr env \<Longrightarrow> env_Type env \<noteq> TypeShutdownAck"
    "conn_receive (\<lambda>_ _ _. None) t t conn n tok r (srv m) = (ph, s')" "m' = set_phase conn ph (m\<lparr>srv := s'\<rparr>)"
  then show "within D (srv m')" using within_receive [of D "srv m" r] by simp
qed (simp_all add: within_episode within_apply within_markTimedOut within_retry within_local(2) within_conn(4) within_manual
  within_reset within_nodes trackConn_def untrackConn_def conn_cleanup_def Let_def master_simps(1,5), (blast intro: within_conn)+)

lemma ack_step_within:
  assumes "within D (srv m)" and "ack_step n a m m'"
  shows "within (D \<union> (if ack_Status a = StatusExecuted then {(ack_CommandID a, n)} else {})) (srv m')"
  using assms(2)
proof cases
  case (acknowledge conn tok t start s')
  let ?E = "D \<union> (if ack_Status a = StatusExecuted then {(ack_CommandID a, n)} else {})"
  let ?s = "touch conn n t (srv m)" and ?u = "a\<lparr>ack_NodeID := n\<rparr>"
  have s: "within ?E ?s" using within_conn(4) [OF assms(1)] by (rule within_mono) auto
  have "within ?E (saveState (ack_state ?u (ack_command t ?u c) ?s))" if c: "map_of (commands ?s) (ack_CommandID a) = Some c" for c
  proof (rule within_saveState)
    have "executed_in (madjust (ack_CommandID a) (\<lambda>_. ack_command t ?u c) (commands ?s)) \<subseteq> ?E"
      using executed_in_ack [OF c, of t ?u] within_executed [OF s] by (auto split: if_splits)
    then show "within ?E (ack_state ?u (ack_command t ?u c) ?s)"
      using s by (simp add: ack_state_def Let_def within_commands)
  qed
  with s acknowledge(4) have "within ?E s'"
    by (auto simp: recordShutdownUpdateLocked_alt split: option.splits if_splits)
  then show ?thesis by (simp add: acknowledge(1))
qed

lemma boot_within:
  assumes "\<And>p. d = Some p \<Longrightarrow> executed_in (ps_Commands p) \<subseteq> D" and "master_boot c H d m"
  shows "within D (srv m)"
proof -
  from assms(2) obtain now wok sok where m: "m = started (NewServer c now H wok sok (file_of_disk d))"
    by (auto simp: master_boot_def)
  have "commands (NewServer c now H wok sok content) =
      (if mc_StateFile c = [] then [] else case content of Decoded p \<Rightarrow> ps_Commands p | _ \<Rightarrow> [])"
    "stateStore (NewServer c now H wok sok content) = \<lparr>persistSeq = 0, persistedSeq = 0, disk = disk_of_file content\<rparr>" for content
    by (simp_all add: NewServer_def loadState_def Let_def split: state_file.split)
  with assms(1) show ?thesis
    by (auto simp: m started_def within_def file_of_disk_def disk_of_file_def split: option.splits if_splits)
qed

end
