(* ===== verification/SlaveHistory.thy ===== *)
theory SlaveHistory
  imports SlaveBehaviour
begin

text \<open>
  The slave over all its incarnations: what it tells the master about a command is supported by
  what it did, in this process or in one before a restart.
\<close>

section \<open>A slave with its past\<close>

text \<open>
  The effects of the incarnations that ended, and the process that runs. Restarts keep the
  configuration \<open>cf\<close>.
\<close>

type_synonym slave_past = "slave_effect list \<times> slave_process"

definition slave_trace :: "slave_past \<Rightarrow> slave_effect list" where
  "slave_trace x = fst x @ sl_effects (pr_client (snd x))"

inductive past_step :: "SlaveConfig \<Rightarrow> slave_past \<Rightarrow> slave_past \<Rightarrow> bool" for cf where
  goes_on: "slave_step p q \<Longrightarrow> past_step cf (es, p) (es, q)"
| starts_again: "past_step cf (es, p) (es @ sl_effects (pr_client p),
    slave_boot cf hostname wok sok (slave_file_of_disk (disk (sl_store (pr_client p)))))"

definition past_boot :: "SlaveConfig \<Rightarrow> slave_past \<Rightarrow> bool" where
  "past_boot cf x \<longleftrightarrow> (\<exists>hostname wok sok. x = ([], slave_boot cf hostname wok sok Missing))"

section \<open>Supported reports\<close>

text \<open>
  A report of an execution is supported when the configured command was run for that shutdown
  command and succeeded; one of an execution under way only on a slave that is not in dry run.
\<close>

definition supported :: "SlaveConfig \<Rightarrow> slave_effect list \<Rightarrow> ShutdownAckMessage \<Rightarrow> bool" where
  "supported cf tr a \<longleftrightarrow>
     (ack_Status a = StatusExecuted \<longrightarrow> Executes (ack_CommandID a) (sc_ShutdownCommand cf) None \<in> set tr) \<and>
     (ack_Status a = StatusExecuting \<longrightarrow> \<not> sc_DryRun cf)"

lemma supported_mono: "supported cf tr a \<Longrightarrow> set tr \<subseteq> set tr' \<Longrightarrow> supported cf tr' a"
  by (auto simp: supported_def)

lemma supported_later: "supported cf (past @ xs) a \<Longrightarrow> set xs \<subseteq> set ys \<Longrightarrow> supported cf (past @ ys) a"
  by (auto simp: supported_def)

lemma supported_other: "ack_Status a \<noteq> StatusExecuted \<Longrightarrow> ack_Status a \<noteq> StatusExecuting \<Longrightarrow> supported cf tr a"
  by (simp add: supported_def)

definition client_supported :: "SlaveConfig \<Rightarrow> slave_effect list \<Rightarrow> slave_Client \<Rightarrow> bool" where
  "client_supported cf past c \<longleftrightarrow> sl_cfg c = cf \<and>
     (\<forall>x \<in> set (sl_commandStates c). supported cf (past @ sl_effects c) (snd x)) \<and>
     (\<forall>p. disk (sl_store c) = Some p \<longrightarrow> (\<forall>x \<in> set (sp_Commands p). supported cf (past @ sl_effects c) (snd x))) \<and>
     (\<forall>n a ok. Sends n (ShutdownAck a) ok \<in> set (past @ sl_effects c) \<longrightarrow> supported cf (past @ sl_effects c) a)"

definition handler_supported :: "SlaveConfig \<Rightarrow> slave_effect list \<Rightarrow> handler_pc \<Rightarrow> bool" where
  "handler_supported cf tr pc =
    (case pc of
       Rebind n sd a \<Rightarrow> supported cf tr a \<and> \<not> sc_DryRun cf
     | Sending n sd a k \<Rightarrow> supported cf tr a \<and> (k = ToBegin \<or> k = ToSpawn \<longrightarrow> \<not> sc_DryRun cf)
     | Beginning n sd \<Rightarrow> \<not> sc_DryRun cf
     | Spawning sd \<Rightarrow> \<not> sc_DryRun cf
     | _ \<Rightarrow> True)"

definition worker_supported :: "SlaveConfig \<Rightarrow> slave_effect list \<Rightarrow> ShutdownMessage \<times> worker_pc \<Rightarrow> bool" where
  "worker_supported cf tr x \<longleftrightarrow> \<not> sc_DryRun cf \<and>
     (case snd x of Recording u \<Rightarrow> supported cf tr u | Reporting u \<Rightarrow> supported cf tr u | _ \<Rightarrow> True)"

definition past_supported :: "SlaveConfig \<Rightarrow> slave_past \<Rightarrow> bool" where
  "past_supported cf x \<longleftrightarrow> client_supported cf (fst x) (pr_client (snd x)) \<and>
     handler_supported cf (slave_trace x) (pr_handler (snd x)) \<and>
     (\<forall>w \<in> set (pr_workers (snd x)). worker_supported cf (slave_trace x) w)"

lemma handler_supported_mono: "handler_supported cf tr pc \<Longrightarrow> set tr \<subseteq> set tr' \<Longrightarrow> handler_supported cf tr' pc"
  by (auto simp: handler_supported_def intro: supported_mono split: handler_pc.splits)

lemma worker_supported_mono: "worker_supported cf tr w \<Longrightarrow> set tr \<subseteq> set tr' \<Longrightarrow> worker_supported cf tr' w"
  by (auto simp: worker_supported_def intro: supported_mono split: worker_pc.splits)

section \<open>Preservation\<close>

text \<open>A change that adds supported states, writes what is in memory and reports only what is supported.\<close>

lemma client_supported_change:
  assumes c: "client_supported cf past c" and cfg: "sl_cfg c' = sl_cfg c"
    and st: "\<And>x. x \<in> set (sl_commandStates c') \<Longrightarrow> x \<in> set (sl_commandStates c) \<or> supported cf (past @ sl_effects c') (snd x)"
    and d: "disk (sl_store c') = disk (sl_store c) \<or> (\<exists>p. disk (sl_store c') = Some p \<and> sp_Commands p = sl_commandStates c')"
    and e: "sl_effects c' = sl_effects c @ es"
    and s: "\<And>n a ok. Sends n (ShutdownAck a) ok \<in> set es \<Longrightarrow> supported cf (past @ sl_effects c') a"
  shows "client_supported cf past c'"
proof -
  have mono: "supported cf (past @ sl_effects c) a \<Longrightarrow> supported cf (past @ sl_effects c') a" for a
    by (erule supported_mono) (auto simp: e)
  have states: "\<forall>x \<in> set (sl_commandStates c'). supported cf (past @ sl_effects c') (snd x)"
    using st c mono unfolding client_supported_def by blast
  moreover have "\<forall>p. disk (sl_store c') = Some p \<longrightarrow> (\<forall>x \<in> set (sp_Commands p). supported cf (past @ sl_effects c') (snd x))"
    using d states c mono unfolding client_supported_def by fastforce
  moreover have "supported cf (past @ sl_effects c') a" if "Sends n (ShutdownAck a) ok \<in> set (past @ sl_effects c')" for n a ok
    using that s c mono unfolding client_supported_def e by fastforce
  ultimately show ?thesis using c cfg by (simp add: client_supported_def)
qed

lemma client_supported_same:
  "client_supported cf past c \<Longrightarrow> sl_cfg c' = sl_cfg c \<Longrightarrow> sl_commandStates c' = sl_commandStates c \<Longrightarrow>
    sl_store c' = sl_store c \<Longrightarrow> sl_effects c' = sl_effects c \<Longrightarrow> client_supported cf past c'"
  by (simp add: client_supported_def)

lemma client_supported_emit:
  assumes "client_supported cf past c" and "\<And>n a ok. Sends n (ShutdownAck a) ok \<in> set es \<Longrightarrow> supported cf (past @ sl_effects c) a"
  shows "client_supported cf past (slave_emit es c)"
  by (rule client_supported_change [OF assms(1), where es = es]) (auto dest!: assms(2) elim: supported_mono)

lemma client_supported_Send:
  "client_supported cf past c \<Longrightarrow> supported cf (past @ sl_effects c) a \<Longrightarrow>
    client_supported cf past (snd (session_Send n (ShutdownAck a) c))"
  by (auto simp: session_Send_def Let_def intro: client_supported_emit)

lemma client_supported_Send_other:
  "client_supported cf past c \<Longrightarrow> \<forall>a. m \<noteq> ShutdownAck a \<Longrightarrow> client_supported cf past (snd (session_Send n m c))"
  by (auto simp: session_Send_def Let_def intro!: client_supported_emit)

lemma client_supported_save:
  "client_supported cf past c \<Longrightarrow> client_supported cf past (slave_save c)"
  using disk_slave_save [of c]
  by (rule_tac client_supported_change [where c = c]) (auto simp: slave_save_effects slave_persisted_of_def split: if_splits)

lemma client_supported_set:
  assumes "client_supported cf past c" and "supported cf (past @ sl_effects c) u"
  shows "client_supported cf past (setCommandState u c)"
  unfolding setCommandState_save
proof (rule client_supported_save, rule client_supported_change [OF assms(1), where es = "[]"])
  fix x assume "x \<in> set (sl_commandStates (slave_put u c))"
  then show "x \<in> set (sl_commandStates c) \<or> supported cf (past @ sl_effects (slave_put u c)) (snd x)"
    using set_mput [of "ack_CommandID u" u "sl_commandStates c"] assms(2) by (auto simp: slave_put_def prune_states)
qed simp_all

lemma client_supported_token:
  assumes "client_supported cf past c"
  shows "client_supported cf past (snd (setIssuedToken tok c))"
proof -
  have c: "client_supported cf past (c\<lparr>sl_issuedToken := t\<rparr>)" if "client_supported cf past c" for t c
    using that by (rule client_supported_same) simp_all
  show ?thesis using assms by (auto simp: setIssuedToken_save Let_def intro: c client_supported_save)
qed

lemma client_supported_register:
  assumes "client_supported cf past c" and h: "handleRegisterAck ack used n c = (err, c')"
  shows "client_supported cf past c'"
proof -
  define x where "x = setIssuedToken (ra_IssuedToken ack) c"
  have "c' = c \<or> c' = snd (setIssuedToken [] c) \<or> c' = snd x \<or> c' = snd (session_Send n TokenStored (snd x))"
    using h unfolding handleRegisterAck_def x_def [symmetric] by (auto split: if_splits prod.splits bool.splits)
  then show ?thesis
    using assms(1) by (auto simp: x_def intro!: client_supported_token client_supported_Send_other)
qed

lemma client_supported_lookup:
  "client_supported cf past c \<Longrightarrow> getCommandState cid c = Some a \<Longrightarrow> supported cf (past @ sl_effects c) a"
  by (auto simp: client_supported_def getCommandState_def dest!: map_of_SomeD)

lemma client_supported_executions:
  "client_supported cf past c \<Longrightarrow> client_supported cf past (c\<lparr>sl_executions := m\<rparr>)"
  by (erule client_supported_same) simp_all

text \<open>Nothing is taken from the trace.\<close>

lemma effects_save: "set (sl_effects c) \<subseteq> set (sl_effects (slave_save c))"
  by (auto simp: slave_save_effects)

lemma effects_set: "set (sl_effects c) \<subseteq> set (sl_effects (setCommandState u c))"
  using effects_save [of "slave_put u c"] by (simp add: setCommandState_save)

lemma effects_Send: "set (sl_effects c) \<subseteq> set (sl_effects (snd (session_Send n m c)))"
  by (auto simp: session_Send_def Let_def)

lemma effects_register:
  assumes "handleRegisterAck ack used n c = (err, c')"
  shows "set (sl_effects c) \<subseteq> set (sl_effects c')"
proof -
  define x where "x = setIssuedToken (ra_IssuedToken ack) c"
  have tok: "set (sl_effects c) \<subseteq> set (sl_effects (snd (setIssuedToken t c)))" for t
    using effects_save [of "c\<lparr>sl_issuedToken := t\<rparr>"] by (auto simp: setIssuedToken_save Let_def)
  have "c' = c \<or> c' = snd (setIssuedToken [] c) \<or> c' = snd x \<or> c' = snd (session_Send n TokenStored (snd x))"
    using assms unfolding handleRegisterAck_def x_def [symmetric] by (auto split: if_splits prod.splits bool.splits)
  then show ?thesis using tok effects_Send [of "snd x" n TokenStored] unfolding x_def by blast
qed

lemma effects_handler: "set (sl_effects c) \<subseteq> set (sl_effects (snd (handler_step now pc c)))"
  using effects_set effects_Send
  by (cases pc) (auto simp: Let_def session_Send_def beginOrRebindShutdownExecution_def split: option.splits bool.split)

lemma effects_worker: "set (sl_effects c) \<subseteq> set (sl_effects (snd (worker_step run t0 t1 sd w c)))"
  using effects_set
  by (cases w) (auto simp: Execute_def reportExecution_def finishShutdownExecution_def session_Send_def Let_def split: option.split)

lemma handler_supported_step:
  assumes c: "client_supported cf past c" and h: "handler_supported cf (past @ sl_effects c) pc"
    and step: "handler_step now pc c = (pc', c')"
  shows "client_supported cf past c' \<and> handler_supported cf (past @ sl_effects c') pc'"
proof -
  have cf: "sl_cfg c = cf" using c by (simp add: client_supported_def)
  have ack: "supported cf (past @ sl_effects c) (ackMessage cid st msg now c)"
    if "st = StatusExecuting \<longrightarrow> \<not> sc_DryRun cf" "st \<noteq> StatusExecuted" for cid st msg
    using that by (simp add: supported_def ackMessage_def)
  have later: "supported cf (past @ sl_effects c) a \<Longrightarrow> supported cf (past @ sl_effects c') a" for a
    using effects_handler [of c now pc] step by (auto intro: supported_later)
  show ?thesis
  proof (cases pc)
    case (Lookup n sd)
    with step show ?thesis
      using c client_supported_lookup [OF c, of "sm_CommandID sd"]
      by (auto simp: handler_supported_def supported_def split: option.splits if_splits)
  next
    case (Rebind n sd a)
    with step h show ?thesis
      using client_supported_executions [OF c] by (auto simp: beginOrRebindShutdownExecution_def handler_supported_def)
  next
    case (Sending n sd a k)
    with step h client_supported_Send [OF c, of a n] show ?thesis
      by (auto simp: session_Send_def Let_def handler_supported_def split: bool.splits handler_next.splits)
  next
    case (Accepting n sd)
    let ?a = "ackMessage (sm_CommandID sd) StatusAccepted ''shutdown command accepted'' now c"
    have "supported cf (past @ sl_effects c) ?a" by (rule ack) (simp_all add: consts_simps)
    with Accepting step client_supported_set [OF c this] later show ?thesis
      by (auto simp: Let_def handler_supported_def)
  next
    case (Resuming n sd)
    let ?s = "ackMessage (sm_CommandID sd) StatusSimulated ''dry-run shutdown simulated'' now c"
    let ?e = "ackMessage (sm_CommandID sd) StatusExecuting ''executing shutdown command'' now c"
    have s: "supported cf (past @ sl_effects c) ?s" by (rule ack) (simp_all add: consts_simps)
    have e: "supported cf (past @ sl_effects c) ?e" if "\<not> sc_DryRun cf"
      using that by (intro ack) (simp_all add: consts_simps)
    show ?thesis
      using Resuming step s e client_supported_set [OF c s] client_supported_set [OF c e] later
      by (auto simp: Let_def handler_supported_def cf split: if_splits)
  next
    case (Beginning n sd)
    with step h show ?thesis
      using client_supported_executions [OF c] by (auto simp: beginOrRebindShutdownExecution_def handler_supported_def)
  next
    case (Spawning sd)
    with step show ?thesis by (auto simp: spawn_def handler_supported_def intro: client_supported_emit [OF c])
  qed (use step c in \<open>auto simp: handler_supported_def\<close>)
qed

lemma worker_supported_step:
  assumes c: "client_supported cf past c" and w: "worker_supported cf (past @ sl_effects c) (sd, w)"
    and step: "worker_step run t0 t1 sd w c = (w', c')"
  shows "client_supported cf past c' \<and> (\<forall>w''. w' = Some w'' \<longrightarrow> worker_supported cf (past @ sl_effects c') (sd, w''))"
proof (cases w)
  case Running
  have cf: "sl_cfg c = cf" "\<not> sc_DryRun cf" using c w by (auto simp: client_supported_def worker_supported_def)
  show ?thesis
  proof (cases "sc_ShutdownCommand cf = []")
    case True
    with Running step cf c show ?thesis
      by (auto simp: Execute_def worker_supported_def execution_update_def supported_def ackMessage_def consts_simps)
  next
    case False
    with Running step cf c show ?thesis
      by (auto simp: Execute_def Let_def worker_supported_def execution_update_def supported_def ackMessage_def consts_simps
          intro!: client_supported_emit split: option.split)
  qed
next
  case (Recording u)
  with step w have "w' = Some (Reporting u)" "c' = setCommandState u c" "supported cf (past @ sl_effects c) u" "\<not> sc_DryRun cf"
    by (auto simp: worker_supported_def)
  then show ?thesis
    using client_supported_set [OF c] effects_set [of c u] by (auto simp: worker_supported_def intro: supported_later)
next
  case (Reporting u)
  with step w client_supported_Send [OF c, of u] c show ?thesis
    by (auto simp: worker_supported_def reportExecution_def split: option.splits)
next
  case Ending
  with step client_supported_executions [OF c] show ?thesis by (auto simp: finishShutdownExecution_def)
qed

lemma NewClient_states:
  "sl_commandStates (NewClient cf hostname wok sok content) =
    (if sc_StateFile cf = [] then [] else case content of Loaded p \<Rightarrow> sp_Commands p | _ \<Rightarrow> [])"
  by (simp add: NewClient_def slave_loadState_def split: slave_file.split)

lemma past_supported_start:
  assumes "\<And>p x. content = Loaded p \<Longrightarrow> x \<in> set (sp_Commands p) \<Longrightarrow> supported cf es (snd x)"
    and "\<And>n a ok. Sends n (ShutdownAck a) ok \<in> set es \<Longrightarrow> supported cf es a"
  shows "past_supported cf (es, slave_boot cf hostname wok sok content)"
  using assms
  by (auto simp: past_supported_def slave_boot_def client_supported_def handler_supported_def slave_trace_def
      NewClient_states slave_disk_of_file_def split: slave_file.splits if_splits)

lemma past_supported_boot: "past_boot cf x \<Longrightarrow> past_supported cf x"
  by (auto simp: past_boot_def intro: past_supported_start)

lemma past_supported_runs:
  assumes inv: "past_supported cf (es, p)" and "slave_step p q"
  shows "past_supported cf (es, q)"
proof -
  have c: "client_supported cf es (pr_client p)" and h: "handler_supported cf (es @ sl_effects (pr_client p)) (pr_handler p)"
    and w: "\<And>x. x \<in> set (pr_workers p) \<Longrightarrow> worker_supported cf (es @ sl_effects (pr_client p)) x"
    using inv by (auto simp: past_supported_def slave_trace_def)
  have same: "past_supported cf (es, q)" if "client_supported cf es (pr_client q)"
    "set (sl_effects (pr_client p)) \<subseteq> set (sl_effects (pr_client q))" "pr_handler q = pr_handler p"
    "set (pr_workers q) \<subseteq> set (pr_workers p)" for q
    using that h w by (force simp: past_supported_def slave_trace_def intro: handler_supported_mono worker_supported_mono)
  from assms(2) show ?thesis
  proof cases
    case (receive n sd)
    then show ?thesis using c w by (auto simp: past_supported_def slave_trace_def handler_supported_def)
  next
    case (handle now pc' c')
    note step = handler_supported_step [OF c h handle(2)]
    have "set (sl_effects (pr_client p)) \<subseteq> set (sl_effects c')" using effects_handler [of "pr_client p" now "pr_handler p"] handle(2) by simp
    then have later: "worker_supported cf (es @ sl_effects c') x" if "x \<in> set (pr_workers p)" for x
      using w [OF that] by (rule_tac worker_supported_mono) auto
    moreover have "worker_supported cf tr x" if "x \<in> set (spawned (pr_handler p))" for x tr
      using that h by (cases "pr_handler p") (auto simp: worker_supported_def handler_supported_def)
    ultimately show ?thesis using step by (auto simp: handle(1) past_supported_def slave_trace_def)
  next
    case (work ws1 sd wp ws2 run t0 t1 w' c')
    have "worker_supported cf (es @ sl_effects (pr_client p)) (sd, wp)" using w work(2) by simp
    note step = worker_supported_step [OF c this work(3)]
    have sub: "set (sl_effects (pr_client p)) \<subseteq> set (sl_effects c')"
      using effects_worker [of "pr_client p" run t0 t1 sd wp] work(3) by simp
    then have later: "worker_supported cf (es @ sl_effects c') x" if "x \<in> set (pr_workers p)" for x
      using w [OF that] by (rule_tac worker_supported_mono) auto
    moreover have "handler_supported cf (es @ sl_effects c') (pr_handler p)"
      using h by (rule handler_supported_mono) (use sub in auto)
    ultimately show ?thesis
      using step work(2) by (auto simp: work(1) past_supported_def slave_trace_def split: option.splits)
  next
    case (register ack n err c')
    let ?s = "session_Send n (Register (registerMessage (pr_client p))) (pr_client p)"
    have s: "client_supported cf es (snd ?s)" using c by (intro client_supported_Send_other) simp_all
    have "client_supported cf es c'" using client_supported_register [OF s register(3)] .
    moreover have "set (sl_effects (snd ?s)) \<subseteq> set (sl_effects c')" using effects_register [OF register(3)] .
    ultimately show ?thesis
      using effects_Send [of "pr_client p" n] by (intro same) (auto simp: register(1))
  next
    case (self_check check)
    have "client_supported cf es (runShutdownSelfCheck check (pr_client p))"
      using c by (rule client_supported_same) (simp_all add: runShutdownSelfCheck_def)
    then show ?thesis by (intro same) (auto simp: self_check runShutdownSelfCheck_def)
  qed
qed

lemma past_supported_step:
  assumes inv: "past_supported cf x" and "past_step cf x y"
  shows "past_supported cf y"
  using assms(2)
proof cases
  case (goes_on p q es)
  with inv show ?thesis by (auto intro: past_supported_runs)
next
  case (starts_again es p hostname wok sok)
  have c: "client_supported cf es (pr_client p)" using inv starts_again(1) by (simp add: past_supported_def)
  show ?thesis
    unfolding starts_again(2) using c
    by (intro past_supported_start) (fastforce simp: client_supported_def slave_file_of_disk_def split: option.splits)+
qed

interpretation history: transition_system "past_boot cf" "past_step cf" "past_supported cf" for cf
  by unfold_locales (auto intro: past_supported_boot past_supported_step)

lemma reported_execution_happened:
  assumes "past_boot cf x0" and "(past_step cf)\<^sup>*\<^sup>* x0 x"
    and "Sends n (ShutdownAck a) ok \<in> set (slave_trace x)" and "ack_Status a = StatusExecuted"
  shows "Executes (ack_CommandID a) (sc_ShutdownCommand cf) None \<in> set (slave_trace x)"
  using history.reachable_inv [OF assms(1,2)] assms(3,4)
  unfolding past_supported_def client_supported_def slave_trace_def supported_def by blast

section \<open>A changed configuration\<close>

text \<open>
  When the configuration does change the support is lost. A slave that went down while it ran
  its command is started again with \<open>dry_run\<close>: the replay of the command takes the branch of an
  execution under way, which does not look at the configuration, the executor skips the command
  and reports success, and the slave tells the master that the shutdown was executed, not that it
  was simulated, although nothing has run.
\<close>

theorem dry_run_restart_claims_execution:
  assumes "sc_DryRun cf" "sc_StateFile cf \<noteq> []" "sc_ShutdownCommand cf \<noteq> []"
    and "map_of (sp_Commands p) (sm_CommandID sd) = Some a" "ack_Status a = StatusExecuting"
    and "env_Type env = TypeShutdown" "as_shutdown env = Inr sd"
    and c1: "slave_handleEnvelope now now2 env n (NewClient cf hostname wok (\<lambda>_. True) (Loaded p)) = (err, c1)"
    and c2: "c2 = executeShutdown run t0 t1 sd c1"
  shows "err = None \<and> Spawns sd \<in> set (sl_effects c1) \<and> executed_commands c2 = [] \<and>
    (\<exists>u. Sends n (ShutdownAck u) True \<in> set (sl_effects c2) \<and> ack_CommandID u = sm_CommandID sd \<and>
      ack_Status u = StatusExecuted)"
proof -
  let ?c = "NewClient cf hostname wok (\<lambda>_. True) (Loaded p)"
  let ?b = "?c\<lparr>sl_executions := [(sm_CommandID sd, n)]\<rparr>"
  have "getCommandState (sm_CommandID sd) ?c = Some a"
    using assms(2,4) by (simp add: getCommandState_def NewClient_states)
  then have one: "err = None" "c1 = spawn sd (slave_emit [Sends n (ShutdownAck a) True] ?b)"
    using c1 assms(5-7)
    by (simp_all add: slave_handleEnvelope_def replayedShutdown_def beginOrRebindShutdownExecution_def session_Send_def
        Let_def consts_simps)
  let ?u = "ackMessage (sm_CommandID sd) StatusExecuted ''shutdown command completed'' t0 c1"
  have ids: "ack_CommandID ?u = sm_CommandID sd" "ack_Status ?u = StatusExecuted" by (simp_all add: ackMessage_def)
  have cfg: "sl_cfg c1 = cf" "sl_sendOK c1 = (\<lambda>_. True)" "sl_executions c1 = [(sm_CommandID sd, n)]"
    by (simp_all add: one spawn_def)
  then have "Execute (sm_CommandID sd) run c1 = (None, c1)" using assms(1,3) by (simp add: Execute_def Let_def)
  then have two: "c2 = finishShutdownExecution (sm_CommandID sd) (slave_emit [Sends n (ShutdownAck ?u) True] (setCommandState ?u c1))"
    by (simp add: c2 executeShutdown_def execution_update_def Let_def reportExecution_def shutdownExecutionSession_def cfg ids
        session_Send_def)
  have "executed_commands c2 = []"
    by (simp add: two finishShutdownExecution_def executed_commands_def setCommandState_save slave_save_effects one)
  moreover have "Sends n (ShutdownAck ?u) True \<in> set (sl_effects c2)" by (simp add: two finishShutdownExecution_def)
  ultimately show ?thesis using one ids by auto
qed

end
