(* ===== verification/Fleet.thy ===== *)
theory Fleet
  imports Reports SlaveHistory
begin

text \<open>
  The master and all its slaves together. The network is the weakest that still tells nodes
  apart: an acknowledgement handled on the connection of a node was sent by that node's slave
  at some time, in this process or one before a restart; it may be lost, delayed, duplicated or
  overtaken. What reaches a slave is arbitrary. A slave keeps its configuration over restarts:
  one restarted with \<open>dry_run\<close> can report an execution that never happened
  (\<open>dry_run_restart_claims_execution\<close> of \<open>SlaveHistory\<close>).
\<close>

section \<open>The system\<close>

record fleet =
  fl_master :: master
  fl_slave :: "string \<Rightarrow> slave_past"

text \<open>The acknowledgements the slave of a node has ever sent.\<close>

definition sent_acks :: "fleet \<Rightarrow> string \<Rightarrow> ShutdownAckMessage set" where
  "sent_acks f n = {a. \<exists>k ok. Sends k (ShutdownAck a) ok \<in> set (slave_trace (fl_slave f n))}"

text \<open>\<open>cf\<close> gives the configuration of each node's slave.\<close>

inductive fleet_step :: "(string \<Rightarrow> SlaveConfig) \<Rightarrow> fleet \<Rightarrow> fleet \<Rightarrow> bool" for cf where
  master_runs: "quiet_step (fl_master f) m' \<Longrightarrow> fleet_step cf f (f\<lparr>fl_master := m'\<rparr>)"
| master_restarts: "master_boot (cfg (srv (fl_master f))) (hashToken (srv (fl_master f))) (disk (stateStore (srv (fl_master f)))) m' \<Longrightarrow>
    fleet_step cf f (f\<lparr>fl_master := m'\<rparr>)"
| slave_moves: "past_step (cf n) (fl_slave f n) x \<Longrightarrow> fleet_step cf f (f\<lparr>fl_slave := (fl_slave f)(n := x)\<rparr>)"
| delivered: "a \<in> sent_acks f n \<Longrightarrow> ack_step n a (fl_master f) m' \<Longrightarrow> fleet_step cf f (f\<lparr>fl_master := m'\<rparr>)"

definition fleet_boot :: "(string \<Rightarrow> SlaveConfig) \<Rightarrow> fleet \<Rightarrow> bool" where
  "fleet_boot cf f \<longleftrightarrow> (\<exists>c. first_boot c (fl_master f)) \<and> (\<forall>n. sc_NodeID (cf n) = n \<and> past_boot (cf n) (fl_slave f n))"

section \<open>Invariant\<close>

text \<open>What the slaves have reported as executed.\<close>

definition reported_executed :: "fleet \<Rightarrow> (string \<times> string) set" where
  "reported_executed f = {(cid, n). \<exists>a \<in> sent_acks f n. ack_CommandID a = cid \<and> ack_Status a = StatusExecuted}"

definition fleet_inv :: "(string \<Rightarrow> SlaveConfig) \<Rightarrow> fleet \<Rightarrow> bool" where
  "fleet_inv cf f \<longleftrightarrow> master_inv (fl_master f) \<and> (\<forall>n. past_supported (cf n) (fl_slave f n)) \<and>
     within (reported_executed f) (srv (fl_master f))"

lemma effects_slave_step:
  assumes "slave_step p q"
  shows "set (sl_effects (pr_client p)) \<subseteq> set (sl_effects (pr_client q))"
  using assms
proof cases
  case (handle now pc' c')
  then show ?thesis using effects_handler [of "pr_client p" now "pr_handler p"] by simp
next
  case (work ws1 sd w ws2 run t0 t1 w' c')
  then show ?thesis using effects_worker [of "pr_client p" run t0 t1 sd w] by simp
next
  case (register ack n err c')
  show ?thesis
    using effects_register [OF register(3)] effects_Send [of "pr_client p" n "Register (registerMessage (pr_client p))"]
    by (simp add: register(1))
qed (simp_all add: runShutdownSelfCheck_def)

lemma trace_past_step: "past_step cf x y \<Longrightarrow> set (slave_trace x) \<subseteq> set (slave_trace y)"
  by (erule past_step.cases) (auto simp: slave_trace_def slave_boot_def dest: effects_slave_step)

lemma reported_mono: "(\<And>n. sent_acks f n \<subseteq> sent_acks f' n) \<Longrightarrow> reported_executed f \<subseteq> reported_executed f'"
  unfolding reported_executed_def by blast

lemma sent_acks_master [simp]: "sent_acks (f\<lparr>fl_master := m\<rparr>) n = sent_acks f n"
  by (simp add: sent_acks_def)

lemma reported_master [simp]: "reported_executed (f\<lparr>fl_master := m\<rparr>) = reported_executed f"
  by (simp add: reported_executed_def)

lemma fleet_step_inv:
  assumes inv: "fleet_inv cf f" and "fleet_step cf f f'"
  shows "fleet_inv cf f'"
proof -
  have m: "master_inv (fl_master f)" and w: "within (reported_executed f) (srv (fl_master f))"
    using inv by (auto simp: fleet_inv_def)
  from assms(2) show ?thesis
  proof cases
    case (master_runs m')
    have "master_inv m'" using m master_step.quiet [OF master_runs(2)] by (rule master_step_inv)
    with inv quiet_step_within [OF m master_runs(2) w] show ?thesis by (simp add: master_runs(1) fleet_inv_def)
  next
    case (master_restarts m')
    have "master_inv m'" using m process_step.restart [OF master_restarts(2)] by (rule process_step_inv)
    moreover have "within (reported_executed f) (srv m')"
      using w by (intro boot_within [OF _ master_restarts(2)]) (simp add: within_def)
    ultimately show ?thesis using inv by (simp add: master_restarts(1) fleet_inv_def)
  next
    case (slave_moves n x)
    have "sent_acks f k \<subseteq> sent_acks f' k" for k
      using trace_past_step [OF slave_moves(2)] by (auto simp: slave_moves(1) sent_acks_def)
    then have "reported_executed f \<subseteq> reported_executed f'" by (rule reported_mono)
    with w have "within (reported_executed f') (srv (fl_master f))" by (rule within_mono)
    moreover have "past_supported (cf n) x"
      using inv past_supported_step [OF _ slave_moves(2)] by (simp add: fleet_inv_def)
    ultimately show ?thesis using inv by (simp add: slave_moves(1) fleet_inv_def)
  next
    case (delivered a n m')
    have "master_inv m'" using m master_step.ack [OF delivered(3)] by (rule master_step_inv)
    moreover have "reported_executed f \<union> (if ack_Status a = StatusExecuted then {(ack_CommandID a, n)} else {}) \<subseteq> reported_executed f"
      using delivered(2) by (auto simp: reported_executed_def)
    then have "within (reported_executed f) (srv m')" using ack_step_within [OF w delivered(3)] by (rule within_mono [rotated])
    ultimately show ?thesis using inv by (simp add: delivered(1) fleet_inv_def)
  qed
qed

lemma fleet_boot_inv:
  assumes "fleet_boot cf f"
  shows "fleet_inv cf f"
proof -
  from assms obtain c H where "first_boot c (fl_master f)" "master_boot c H None (fl_master f)"
    by (auto simp: fleet_boot_def first_boot_def)
  then have "master_inv (fl_master f)" "within (reported_executed f) (srv (fl_master f))"
    by (auto intro: first_boot_inv boot_within)
  with assms show ?thesis by (auto simp: fleet_inv_def fleet_boot_def intro: past_supported_boot)
qed

interpretation fleet: transition_system "fleet_boot cf" "fleet_step cf" "fleet_inv cf" for cf
  by unfold_locales (auto intro: fleet_boot_inv fleet_step_inv)

text \<open>
  C2. The master never counts a node as shut down that is not. In every state the master and
  its slaves can reach together, through any interleaving of their goroutines, any loss, delay,
  duplication or reordering of acknowledgements and any number of restarts on either side: when
  the master's record of a command says that a node has executed it, then that node's slave has
  run its configured shutdown command for exactly this command, and it succeeded.
\<close>

theorem executed_means_executed:
  assumes "fleet_boot cf f0" and "(fleet_step cf)\<^sup>*\<^sup>* f0 f"
    and "map_of (commands (srv (fl_master f))) cid = Some c" and "map_of (cm_NodeUpdates c) n = Some u"
    and "ack_Status u = StatusExecuted"
  shows "Executes cid (sc_ShutdownCommand (cf n)) None \<in> set (slave_trace (fl_slave f n))"
proof -
  have inv: "fleet_inv cf f" using assms(1,2) by (rule fleet.reachable_inv)
  have "(cid, n) \<in> executed_in (commands (srv (fl_master f)))" using assms(3-5) by (auto simp: executed_in_def)
  with inv obtain a where "a \<in> sent_acks f n" "ack_CommandID a = cid" "ack_Status a = StatusExecuted"
    unfolding fleet_inv_def within_def reported_executed_def by blast
  with inv show ?thesis
    unfolding fleet_inv_def past_supported_def client_supported_def slave_trace_def supported_def sent_acks_def by blast
qed

section \<open>An example run\<close>

definition example_nodes :: "string \<Rightarrow> SlaveConfig" where
  "example_nodes n = example_slave_config\<lparr>sc_NodeID := n\<rparr>"

definition example_fleet :: fleet where
  "example_fleet = \<lparr>fl_master = example_boot,
     fl_slave = (\<lambda>n. ([], slave_boot (example_nodes n) ''web.local'' (\<lambda>_. True) (\<lambda>_. True) Missing))\<rparr>"

lemma example_fleet_boot: "fleet_boot example_nodes example_fleet"
  unfolding fleet_boot_def example_fleet_def past_boot_def
  using example_first_boot by (auto simp: example_nodes_def)

lemma fleet_slave_run:
  "(past_step (cf n))\<^sup>*\<^sup>* (fl_slave f n) x \<Longrightarrow> (fleet_step cf)\<^sup>*\<^sup>* f (f\<lparr>fl_slave := (fl_slave f)(n := x)\<rparr>)"
proof (induction rule: rtranclp_induct)
  case (step y z)
  from step(2) have "past_step (cf n) (fl_slave (f\<lparr>fl_slave := (fl_slave f)(n := y)\<rparr>) n) z" by simp
  from fleet_step.slave_moves [of cf n "f\<lparr>fl_slave := (fl_slave f)(n := y)\<rparr>" z, OF this]
  have "fleet_step cf (f\<lparr>fl_slave := (fl_slave f)(n := y)\<rparr>) (f\<lparr>fl_slave := (fl_slave f)(n := z)\<rparr>)" by simp
  with step(3) show ?case by (rule rtranclp.rtrancl_into_rtrancl)
qed simp

text \<open>The slave of the example executes its command and reports it.\<close>

lemma example_report:
  "\<exists>x k a ok. (past_step example_slave_config)\<^sup>*\<^sup>* ([], example_slave) x \<and> Sends k (ShutdownAck a) ok \<in> set (slave_trace x) \<and>
     ack_CommandID a = ''c1'' \<and> ack_Status a = StatusExecuted"
proof -
  let ?u = "execution_update 7 7 example_shutdown None (pr_client working_slave)"
  let ?p = executing_slave
  let ?q = "?p\<lparr>pr_client := setCommandState ?u (pr_client ?p), pr_workers := [(example_shutdown, Reporting ?u)]\<rparr>"
  let ?r = "?q\<lparr>pr_client := reportExecution ?u (pr_client ?q), pr_workers := [(example_shutdown, Ending)]\<rparr>"
  have workers: "pr_workers ?p = [] @ (example_shutdown, Recording ?u) # []" by (simp add: executing_slave_def)
  have "slave_step ?p ?q" using slave_step.work [OF workers, of "\<lambda>_. None" 7 7] by simp
  moreover have "slave_step ?q ?r" using slave_step.work [of ?q "[]" example_shutdown "Reporting ?u" "[]" "\<lambda>_. None" 7 7] by simp
  ultimately have steps: "slave_step\<^sup>*\<^sup>* example_slave ?r" using executing_steps by auto
  have "slave_life\<^sup>*\<^sup>* example_slave ?p" using executing_steps by (rule steps_life)
  with slave_example_boot have inv: "slave_inv ?p" by (rule slave.reachable_inv)
  have u: "ack_CommandID ?u = ''c1''" "ack_Status ?u = StatusExecuted"
    by (simp_all add: execution_update_def ackMessage_def example_shutdown_def)
  have "map_of (sl_executions (pr_client ?p)) ''c1'' \<noteq> None"
    by (rule slave_inv_running [OF inv]) (simp add: workers example_shutdown_def)
  then obtain k where "map_of (sl_executions (pr_client ?p)) ''c1'' = Some k" by auto
  then have "Sends k (ShutdownAck ?u) (sl_sendOK (pr_client ?q) (length (sl_effects (pr_client ?q)))) \<in> set (slave_trace ([], ?r))"
    using u by (simp add: slave_trace_def reportExecution_def shutdownExecutionSession_def session_Send_def Let_def)
  moreover have "(past_step cf)\<^sup>*\<^sup>* ([], p) ([], q)" if "slave_step\<^sup>*\<^sup>* p q" for cf p q
    using that by (induction rule: rtranclp_induct) (auto intro: past_step.goes_on rtranclp.rtrancl_into_rtrancl)
  ultimately show ?thesis using steps u by blast
qed

text \<open>The master of the example serves a connection of node \<open>web\<close> and has issued a command to it.\<close>

definition web_register :: RegisterMessage where
  "web_register = \<lparr>rg_NodeID = ''web'', rg_Hostname = ''web.local'', rg_Token = ''enroll'', rg_Tags = None, rg_DryRun = False,
     rg_ShutdownReady = None\<rparr>"

definition web_envelope :: Envelope where
  "web_envelope = \<lparr>env_Type = TypeRegister, as_register = Inr web_register, as_register_ack = Inl [], as_shutdown = Inl [],
     as_shutdown_ack = Inl [], as_error = Inl []\<rparr>"

definition boot_server :: Server where
  "boot_server = srv example_boot"

lemma boot_server_simps:
  "cfg boot_server = example_config" "registry boot_server = []" "directory boot_server = []" "commands boot_server = []"
  "activeCommand boot_server = []" "episode boot_server = None" "localShutdown boot_server = None" "nodeTokens boot_server = []"
  "hashToken boot_server = id" "enrollmentHashes boot_server = [''enroll'']" "sendOK boot_server = (\<lambda>_. True)"
  by (simp_all add: boot_server_def example_boot_def started_def NewServer_def loadState_def empty_server_def Let_def
      upsTarget_def UsesNUT_def hashTokens_def example_config_def NewRegistry_def NewNodeDirectory_def)

lemma web_handshake:
  "conn_handshake 4 (Inr web_envelope) None ''r'' (trackConn 4 boot_server) =
    (Authenticated web_register (hex_encode ''r'') [], trackConn 4 boot_server)"
  by (simp add: conn_handshake_def readRegister_def web_envelope_def web_register_def authenticateNode_def MatchToken_iff
      trackConn_def boot_server_simps newNodeToken_def verifyPeerIdentity_def example_config_def zero_TLS_def
      EnrollmentOpen_def EnrollmentClosed_def)

definition joined_server :: Server where
  "joined_server = (trackConn 4 boot_server)\<lparr>registry := [(''web'', registered_client 4 web_register 5)]\<rparr>"

lemma web_join: "conn_join 4 web_register tok [] 5 (trackConn 4 boot_server) = (Joined web_register tok, joined_server)"
  by (simp add: conn_join_def registerIfTokenUnchanged_def registry_Set_def reg_Set_def joined_server_def trackConn_def
      boot_server_simps registered_client_def web_register_def token_hash_def)

lemma web_welcome:
  "\<exists>s. conn_welcome 4 web_register tok 6 joined_server = (Serving ''web'' tok, s) \<and> cfg s = example_config \<and>
    registry s = [(''web'', registered_client 4 web_register 5)] \<and> commands s = [] \<and> activeCommand s = []"
  by (simp add: conn_welcome_def Let_def client_Send_def replayPendingShutdown_def replayableShutdownForNode_def
      saveStateForDirectoryChange_def joined_server_def trackConn_def boot_server_simps web_register_def)

lemma web_command:
  assumes "cfg s = example_config" "registry s = [(''web'', registered_client 4 web_register 5)]" "commands s = []" "activeCommand s = []"
  shows "\<exists>c. map_of (commands (snd (handleManualShutdown ''POST'' (Inr example_request) 7 ''c1'' s))) ''c1'' = Some c \<and>
    set (cm_TargetNodes c) = {''web''} \<and> cm_NodeUpdates c = []"
  by (simp add: handleManualShutdown_def TriggerShutdown_def request_timeout_def manual_message_def example_request_def
      example_config_def maxManualTimeoutSeconds_def selectTargets_def targetMatchesNode_def reg_List_def Let_def assms
      case_prod_beta registered_client_def web_register_def buildTargetNodeSet_def split: prod.split)

lemma example_issued:
  "\<exists>m tok c. quiet_step\<^sup>*\<^sup>* example_boot m \<and> map_of (handlers m) 4 = Some (Serving ''web'' tok) \<and>
    map_of (commands (srv m)) ''c1'' = Some c \<and> set (cm_TargetNodes c) = {''web''} \<and> cm_NodeUpdates c = []"
proof -
  let ?tok = "hex_encode ''r''"
  obtain s where w: "conn_welcome 4 web_register ?tok 6 joined_server = (Serving ''web'' ?tok, s)"
    and s: "cfg s = example_config" "registry s = [(''web'', registered_client 4 web_register 5)]" "commands s = []" "activeCommand s = []"
    using web_welcome by blast
  let ?m = "\<lambda>ph s. example_boot\<lparr>srv := s, handlers := [(4, ph)]\<rparr>"
  let ?s5 = "snd (handleManualShutdown ''POST'' (Inr example_request) 7 ''c1'' s)"
  have h: "handlers example_boot = []" "usedIDs example_boot = []"
    using boot_server_simps(4) by (simp_all add: example_boot_def started_def boot_server_def)
  have "quiet_step example_boot (?m Handshake (trackConn 4 boot_server))"
    using quiet_step.accept [of example_boot 4] by (simp add: h boot_server_def)
  moreover have "quiet_step (?m Handshake (trackConn 4 boot_server)) (?m (Authenticated web_register ?tok []) (trackConn 4 boot_server))"
    using quiet_step.handshake [of "?m Handshake (trackConn 4 boot_server)" 4 "Inr web_envelope" None "''r''"] web_handshake
    by (simp add: set_phase_def madjust_def)
  moreover have "quiet_step (?m (Authenticated web_register ?tok []) (trackConn 4 boot_server)) (?m (Joined web_register ?tok) joined_server)"
    using quiet_step.join [of "?m (Authenticated web_register ?tok []) (trackConn 4 boot_server)" 4 web_register ?tok "[]" 5] web_join
    by (simp add: set_phase_def madjust_def)
  moreover have "quiet_step (?m (Joined web_register ?tok) joined_server) (?m (Serving ''web'' ?tok) s)"
    using quiet_step.greet [of "?m (Joined web_register ?tok) joined_server" 4 web_register ?tok 6] w
    by (simp add: set_phase_def madjust_def)
  moreover have "quiet_step (?m (Serving ''web'' ?tok) s) ((?m (Serving ''web'' ?tok) s)\<lparr>srv := ?s5, usedIDs := [''c1'']\<rparr>)"
    using quiet_step.admin_shutdown [of "''c1''" "?m (Serving ''web'' ?tok) s" "''POST''" "Inr example_request" 7] by (simp add: h del: master.update_convs)
  ultimately have "quiet_step\<^sup>*\<^sup>* example_boot ((?m (Serving ''web'' ?tok) s)\<lparr>srv := ?s5, usedIDs := [''c1'']\<rparr>)"
    by (meson converse_rtranclp_into_rtranclp r_into_rtranclp)
  with web_command [OF s] show ?thesis by fastforce
qed

lemma fleet_master_run: "quiet_step\<^sup>*\<^sup>* (fl_master f) m \<Longrightarrow> (fleet_step cf)\<^sup>*\<^sup>* f (f\<lparr>fl_master := m\<rparr>)"
proof (induction rule: rtranclp_induct)
  case (step y z)
  have "fleet_step cf (f\<lparr>fl_master := y\<rparr>) (f\<lparr>fl_master := z\<rparr>)"
    using fleet_step.master_runs [of "f\<lparr>fl_master := y\<rparr>" z cf] step(2) by simp
  with step(3) show ?case by (rule rtranclp.rtrancl_into_rtrancl)
qed simp

lemma acknowledged:
  assumes "map_of (handlers m) conn = Some (Serving n tok)" and "map_of (commands (srv m)) (ack_CommandID a) = Some c"
    and "n \<in> set (cm_TargetNodes c)" "cm_NodeUpdates c = []" "isReportableShutdownStatus (ack_Status a)"
  shows "\<exists>m' c'. ack_step n a m m' \<and> map_of (commands (srv m')) (ack_CommandID a) = Some c' \<and>
    map_of (cm_NodeUpdates c') n = Some (a\<lparr>ack_NodeID := n\<rparr>)"
proof -
  let ?u = "a\<lparr>ack_NodeID := n\<rparr>" and ?s = "touch conn n 9 (srv m)"
  let ?c = "ack_command 9 ?u c"
  obtain start s' where r: "recordShutdownUpdateLocked 9 ?u ?s = (start, s')" by (cases "recordShutdownUpdateLocked 9 ?u ?s")
  have sc: "map_of (commands ?s) (ack_CommandID a) = Some c" using assms(2) by (simp add: touch_def)
  then have s': "s' = saveState (ack_state ?u ?c ?s)"
    using r assms(3,4) by (simp add: recordShutdownUpdateLocked_alt ack_accepted_def)
  have c': "map_of (commands s') (ack_CommandID a) = Some ?c"
    using sc by (simp add: s' ack_state_def Let_def map_of_madjust)
  let ?m = "decide_on (ack_CommandID a) (if start then TriggerRemoteComplete else []) (m\<lparr>srv := s'\<rparr>)"
  have "ack_step n a m ?m" using ack_step.acknowledge [OF assms(1,5) r] .
  moreover have "map_of (commands (srv ?m)) (ack_CommandID a) = Some ?c" using c' by simp
  moreover have "map_of (cm_NodeUpdates ?c) n = Some ?u" by simp
  ultimately show ?thesis by blast
qed

theorem executed_means_executed_witness:
  "\<exists>f c u. (fleet_step example_nodes)\<^sup>*\<^sup>* example_fleet f \<and> map_of (commands (srv (fl_master f))) ''c1'' = Some c \<and>
    map_of (cm_NodeUpdates c) ''web'' = Some u \<and> ack_Status u = StatusExecuted \<and>
    Executes ''c1'' (sc_ShutdownCommand (example_nodes ''web'')) None \<in> set (slave_trace (fl_slave f ''web''))"
proof -
  have web: "example_nodes ''web'' = example_slave_config" by (simp add: example_nodes_def example_slave_config_def)
  obtain m tok c where m: "quiet_step\<^sup>*\<^sup>* example_boot m" "map_of (handlers m) 4 = Some (Serving ''web'' tok)"
    and c: "map_of (commands (srv m)) ''c1'' = Some c" "set (cm_TargetNodes c) = {''web''}" "cm_NodeUpdates c = []"
    using example_issued by (elim exE conjE)
  obtain x k a ok where x: "(past_step example_slave_config)\<^sup>*\<^sup>* ([], example_slave) x"
    and a: "Sends k (ShutdownAck a) ok \<in> set (slave_trace x)" "ack_CommandID a = ''c1''" "ack_Status a = StatusExecuted"
    using example_report by (elim exE conjE)
  have "''web'' \<in> set (cm_TargetNodes c)" "isReportableShutdownStatus (ack_Status a)"
    using c(2) a(3) by (simp_all add: status_class_defs consts_simps)
  from acknowledged [OF m(2), of a c, unfolded a(2), OF c(1) this(1) c(3) this(2)] obtain m' c' where m': "ack_step ''web'' a m m'" "map_of (commands (srv m')) ''c1'' = Some c'"
    and u: "map_of (cm_NodeUpdates c') ''web'' = Some (a\<lparr>ack_NodeID := ''web''\<rparr>)"
    by (elim exE conjE)
  define f1 where "f1 = example_fleet\<lparr>fl_slave := (fl_slave example_fleet)(''web'' := x)\<rparr>"
  have f1: "fl_master f1 = example_boot" "fl_slave f1 ''web'' = x" by (simp_all add: f1_def example_fleet_def)
  have start: "fl_slave example_fleet ''web'' = ([], example_slave)"
    by (simp add: example_fleet_def example_slave_def web)
  have "(fleet_step example_nodes)\<^sup>*\<^sup>* example_fleet f1"
    unfolding f1_def by (rule fleet_slave_run) (simp only: start web x)
  moreover have "(fleet_step example_nodes)\<^sup>*\<^sup>* f1 (f1\<lparr>fl_master := m\<rparr>)"
    by (rule fleet_master_run) (simp only: f1 m(1))
  moreover have "fleet_step example_nodes (f1\<lparr>fl_master := m\<rparr>) (f1\<lparr>fl_master := m\<rparr>\<lparr>fl_master := m'\<rparr>)"
  proof (rule fleet_step.delivered)
    show "a \<in> sent_acks (f1\<lparr>fl_master := m\<rparr>) ''web''" using a(1) by (auto simp: sent_acks_def f1)
    show "ack_step ''web'' a (fl_master (f1\<lparr>fl_master := m\<rparr>)) m'" using m'(1) by simp
  qed
  then have "fleet_step example_nodes (f1\<lparr>fl_master := m\<rparr>) (f1\<lparr>fl_master := m'\<rparr>)" by simp
  ultimately have run: "(fleet_step example_nodes)\<^sup>*\<^sup>* example_fleet (f1\<lparr>fl_master := m'\<rparr>)"
    by (rule rtranclp_trans [OF _ rtranclp.rtrancl_into_rtrancl])
  have com: "map_of (commands (srv (fl_master (f1\<lparr>fl_master := m'\<rparr>)))) ''c1'' = Some c'" using m'(2) by simp
  have st: "ack_Status (a\<lparr>ack_NodeID := ''web''\<rparr>) = StatusExecuted" using a(3) by simp
  show ?thesis
    by (intro exI conjI) (rule run, rule com, rule u, rule st, rule executed_means_executed [OF example_fleet_boot run com u st])
qed

end
