(* ===== verification/SlaveSession.thy ===== *)
theory SlaveSession
  imports SlaveBehaviour Tls
begin

text \<open>
  The outside of a slave session: dialling and TLS, the deadlines and the ping ticker of
  \<open>internal/slave/client.go\<close>.
\<close>

section \<open>Dialling\<close>

definition registerAckReadDeadline :: duration where "registerAckReadDeadline = 10 * second"
definition writeDeadline :: duration where "writeDeadline = 5 * second"
definition pingInterval :: duration where "pingInterval = 15 * second"
definition readIdleTimeout :: duration where "readIdleTimeout = 3 * pingInterval"
definition defaultDialTimeout :: duration where "defaultDialTimeout = 10 * second"

datatype dial_error = DialTLS tls_error | DialNet string

text \<open>
  \<open>dial\<close>: the settings of a TLS connection are loaded once and kept in \<open>tlsConfig\<close>, here
  \<open>cached\<close>. \<open>connect\<close> is the network: address, TLS settings if any, and the timeout of connect and
  handshake give a connection or an error. The result comes with the kept settings.
\<close>

definition slave_dial ::
  "(string \<Rightarrow> string \<Rightarrow> string + 'cert) \<Rightarrow> (string \<Rightarrow> tls_error + 'pool) \<Rightarrow>
    (string \<Rightarrow> ('cert, 'pool) tls_Config option \<Rightarrow> duration \<Rightarrow> string + nat) \<Rightarrow>
    ('cert, 'pool) tls_Config option \<Rightarrow> slave_Client \<Rightarrow> (dial_error + nat) \<times> ('cert, 'pool) tls_Config option" where
  "slave_dial keyPair loadPool connect cached c =
    (let open_conn = (\<lambda>conf. case connect (sc_MasterAddr (sl_cfg c)) conf defaultDialTimeout of
           Inl err \<Rightarrow> Inl (DialNet err) | Inr conn \<Rightarrow> Inr conn)
     in if \<not> EnabledForClient (sc_TLS (sl_cfg c)) then (open_conn None, cached)
        else case cached of
          Some conf \<Rightarrow> (open_conn (Some conf), Some conf)
        | None \<Rightarrow>
            (case ClientTLSConfig keyPair loadPool (sc_TLS (sl_cfg c)) of
               Inl e \<Rightarrow> (Inl (DialTLS e), None)
             | Inr conf \<Rightarrow> (open_conn conf, conf)))"

section \<open>Deadlines\<close>

text \<open>\<open>setReadDeadline\<close>: no deadline for a timeout that is not positive.\<close>

definition setReadDeadline :: "time \<Rightarrow> duration \<Rightarrow> time option" where
  "setReadDeadline now timeout = (if timeout \<le> 0 then None else Some (time_Add now timeout))"

text \<open>
  What a read loop sees of the messages that arrive at given times, in their order: every read
  sets the deadline anew when it starts, at \<open>now\<close>; a message that comes later than that, or
  never, is a timeout at the deadline and ends the session. Handling takes no time here, and a
  message that has already arrived is read at once.
\<close>

fun timed_reads ::
  "(time \<Rightarrow> time option) \<Rightarrow> time \<Rightarrow> (time \<times> Envelope) list \<Rightarrow> (time \<times> time \<times> (string + Envelope)) list" where
  "timed_reads deadline now [] =
    (case deadline now of None \<Rightarrow> [] | Some d \<Rightarrow> [(d, d, Inl ''i/o timeout'')])"
| "timed_reads deadline now ((t, env) # arrivals) =
    (let at = max now t
     in case deadline now of
          None \<Rightarrow> (at, at, Inr env) # timed_reads deadline at arrivals
        | Some d \<Rightarrow> if d < at then [(d, d, Inl ''i/o timeout'')] else (at, at, Inr env) # timed_reads deadline at arrivals)"

definition slave_reads :: "time \<Rightarrow> (time \<times> Envelope) list \<Rightarrow> (time \<times> time \<times> (string + Envelope)) list" where
  "slave_reads = timed_reads (\<lambda>at. setReadDeadline at readIdleTimeout)"

text \<open>\<open>runPingLoop\<close>: the ticks of a ticker started at \<open>start\<close> send a ping each until a send fails.\<close>

fun ping_loop :: "time \<Rightarrow> nat \<Rightarrow> nat \<Rightarrow> slave_Client \<Rightarrow> bool \<times> slave_Client" where
  "ping_loop at session 0 c = (True, c)"
| "ping_loop at session (Suc ticks) c =
    (let tick = time_Add at pingInterval
     in case session_Send session (Ping tick) c of
          (True, c1) \<Rightarrow> (False, c1)
        | (False, c1) \<Rightarrow> ping_loop tick session ticks c1)"

section \<open>How the link is watched\<close>

lemma interval_values: "0 < pingInterval" "readIdleTimeout = 3 * pingInterval" "0 < readIdleTimeout"
  by (simp_all add: pingInterval_def readIdleTimeout_def second_def)

text \<open>Reads whose deadline is always \<open>timeout\<close> after their start.\<close>

definition reads_within :: "duration \<Rightarrow> time \<Rightarrow> (time \<times> Envelope) list \<Rightarrow> (time \<times> time \<times> (string + Envelope)) list" where
  "reads_within timeout = timed_reads (\<lambda>at. Some (at + timeout))"

lemma slave_reads_within: "slave_reads = reads_within readIdleTimeout"
  using interval_values(3) by (simp add: slave_reads_def reads_within_def setReadDeadline_def time_Add_def)

lemma reads_within_simps:
  "reads_within timeout now [] = [(now + timeout, now + timeout, Inl ''i/o timeout'')]"
  "reads_within timeout now ((t, env) # arrivals) =
    (if now + timeout < max now t then [(now + timeout, now + timeout, Inl ''i/o timeout'')]
     else (max now t, max now t, Inr env) # reads_within timeout (max now t) arrivals)"
  by (simp_all add: reads_within_def Let_def)

text \<open>When the last message was read.\<close>

definition last_read :: "time \<Rightarrow> (time \<times> time \<times> (string + Envelope)) list \<Rightarrow> time" where
  "last_read now reads = (if reads = [] then now else fst (last reads))"

lemma last_read_simps [simp]: "last_read now [] = now" "last_read now ((at, at', r) # reads) = last_read at reads"
  by (simp_all add: last_read_def)

lemma reads_within_end:
  "\<exists>reads. reads_within timeout now arrivals =
      reads @ [(last_read now reads + timeout, last_read now reads + timeout, Inl ''i/o timeout'')] \<and>
    (\<forall>(at, at', r) \<in> set reads. \<exists>env. r = Inr env)"
proof (induction arrivals arbitrary: now)
  case Nil
  show ?case by (intro exI [of _ "[]"]) (simp add: reads_within_simps)
next
  case (Cons a arrivals)
  obtain t env where a: "a = (t, env)" by (cases a)
  show ?case
  proof (cases "now + timeout < max now t")
    case True
    then show ?thesis by (intro exI [of _ "[]"]) (simp add: reads_within_simps a)
  next
    case False
    obtain reads where "reads_within timeout (max now t) arrivals = reads @ [(last_read (max now t) reads + timeout,
        last_read (max now t) reads + timeout, Inl ''i/o timeout'')]" "\<forall>(at, at', r) \<in> set reads. \<exists>env. r = Inr env"
      using Cons.IH by blast
    with False show ?thesis
      by (intro exI [of _ "(max now t, max now t, Inr env) # reads"]) (simp add: reads_within_simps a)
  qed
qed

lemma serve_ends: "serve (reads @ [(t, t', Inl err)]) session c = (e, c') \<Longrightarrow> e \<noteq> None"
  by (induction reads session c rule: serve.induct) (auto split: prod.splits option.splits)

text \<open>The pongs of a master that answers the \<open>k\<close>-th ping after \<open>delay k\<close>.\<close>

definition pong_arrivals :: "time \<Rightarrow> (nat \<Rightarrow> duration) \<Rightarrow> (nat \<Rightarrow> Envelope) \<Rightarrow> nat \<Rightarrow> nat \<Rightarrow> (time \<times> Envelope) list" where
  "pong_arrivals start delay pong k n = map (\<lambda>i. (start + (int i + 1) * pingInterval + delay i, pong i)) [k..<k + n]"

lemma pongs_read:
  assumes "\<And>i. k \<le> i \<Longrightarrow> i < k + n \<Longrightarrow> 0 \<le> delay i \<and> delay i \<le> 2 * pingInterval" and "\<And>i. env_Type (pong i) = TypePong"
    and "start + int k * pingInterval \<le> now"
  shows "length (slave_reads now (pong_arrivals start delay pong k n)) = Suc n \<and>
    serve (slave_reads now (pong_arrivals start delay pong k n)) session c = (Some (ReadError ''i/o timeout''), c)"
  using assms(1,3)
proof (induction n arbitrary: k now)
  case 0
  then show ?case by (simp add: pong_arrivals_def slave_reads_within reads_within_simps)
next
  case (Suc n)
  let ?t = "start + (int k + 1) * pingInterval + delay k"
  have cons: "pong_arrivals start delay pong k (Suc n) = (?t, pong k) # pong_arrivals start delay pong (Suc k) n"
    by (simp add: pong_arrivals_def upt_conv_Cons del: upt_Suc)
  have d: "0 \<le> delay k" "delay k \<le> 2 * pingInterval" using Suc.prems(1) [of k] by auto
  then have "?t \<le> now + readIdleTimeout" using Suc.prems(2) by (simp add: interval_values algebra_simps)
  then have t: "\<not> now + readIdleTimeout < max now ?t" using interval_values(3) by simp
  have "start + int (Suc k) * pingInterval \<le> max now ?t" using d by (simp add: algebra_simps max_def)
  note ih = Suc.IH [OF _ this]
  have "slave_handleEnvelope at at' (pong k) session c = (None, c)" for at at'
    by (simp add: slave_handleEnvelope_def assms(2) consts_simps)
  with ih Suc.prems(1) t show ?case unfolding cons slave_reads_within by (simp add: reads_within_simps)
qed

lemma pings_sent:
  "sl_sendOK c = (\<lambda>_. True) \<Longrightarrow>
    sl_effects (snd (ping_loop start session n c)) =
      sl_effects c @ map (\<lambda>i. Sends session (Ping (start + (int i + 1) * pingInterval)) True) [0..<n]"
proof (induction n arbitrary: start c)
  case (Suc n)
  let ?c = "slave_emit [Sends session (Ping (start + pingInterval)) True] c"
  have "sl_effects (snd (ping_loop (start + pingInterval) session n ?c)) =
      sl_effects ?c @ map (\<lambda>i. Sends session (Ping (start + pingInterval + (int i + 1) * pingInterval)) True) [0..<n]"
    using Suc.prems by (intro Suc.IH) simp
  moreover have "map (\<lambda>i. Sends session (Ping (start + (int i + 1) * pingInterval)) True) [0..<Suc n] =
      Sends session (Ping (start + pingInterval)) True #
      map (\<lambda>i. Sends session (Ping (start + pingInterval + (int i + 1) * pingInterval)) True) [0..<n]"
    by (simp add: upt_conv_Cons algebra_simps flip: map_Suc_upt del: upt_Suc)
  ultimately show ?case using Suc.prems
    by (simp add: session_Send_def Let_def time_Add_def del: upt_Suc)
qed simp

end
