(* ===== verification/SlaveMetrics.thy ===== *)
theory SlaveMetrics
  imports SlaveSession
begin

text \<open>
  \<open>internal/slave/metrics.go\<close>: the counters and flags of a slave, the handlers of \<open>client.go\<close>
  with their calls to them, what a scrape shows, and the probes of the metrics listener. The
  Prometheus client is not modelled: a counter vector is a map from labels to counts.
\<close>

section \<open>State\<close>

datatype shutdownReadyState = ShutdownReadyUnchecked | ShutdownReadyTrue | ShutdownReadyFalse

record slave_metrics =
  sx_connectAttempts :: "(string, nat) gomap"
  sx_shutdownsReceived :: nat
  sx_shutdownStatus :: "(string, nat) gomap"
  sx_connected :: bool
  sx_shutdownReady :: shutdownReadyState

definition zero_metrics :: slave_metrics where
  "zero_metrics = \<lparr>sx_connectAttempts = [], sx_shutdownsReceived = 0, sx_shutdownStatus = [], sx_connected = False,
     sx_shutdownReady = ShutdownReadyUnchecked\<rparr>"

definition recordConnectAttempt :: "string \<Rightarrow> slave_metrics \<Rightarrow> slave_metrics" where
  "recordConnectAttempt result m =
    (if result = [] then m else m\<lparr>sx_connectAttempts := inc_label result (sx_connectAttempts m)\<rparr>)"

definition recordShutdownReceived :: "slave_metrics \<Rightarrow> slave_metrics" where
  "recordShutdownReceived m = m\<lparr>sx_shutdownsReceived := Suc (sx_shutdownsReceived m)\<rparr>"

definition recordShutdownStatus :: "string \<Rightarrow> slave_metrics \<Rightarrow> slave_metrics" where
  "recordShutdownStatus status m =
    (if status = [] then m else m\<lparr>sx_shutdownStatus := inc_label status (sx_shutdownStatus m)\<rparr>)"

definition setConnected :: "bool \<Rightarrow> slave_metrics \<Rightarrow> slave_metrics" where
  "setConnected v m = m\<lparr>sx_connected := v\<rparr>"

definition setShutdownReady :: "bool \<Rightarrow> slave_metrics \<Rightarrow> slave_metrics" where
  "setShutdownReady b m = m\<lparr>sx_shutdownReady := (if b then ShutdownReadyTrue else ShutdownReadyFalse)\<rparr>"

section \<open>Scrapes and probes\<close>

text \<open>\<open>shutdownReadyCollector.Collect\<close>\<close>

definition shutdownReady_Collect :: "slave_metrics \<Rightarrow> (string \<times> string option \<times> int) list" where
  "shutdownReady_Collect m =
    (case sx_shutdownReady m of
       ShutdownReadyTrue \<Rightarrow> [(''nut_slave_shutdown_ready'', None, 1)]
     | ShutdownReadyFalse \<Rightarrow> [(''nut_slave_shutdown_ready'', None, 0)]
     | ShutdownReadyUnchecked \<Rightarrow> [])"

text \<open>What the collectors of \<open>buildSlaveRegistry\<close> show: name, label and value.\<close>

definition slave_scrape :: "slave_metrics \<Rightarrow> (string \<times> string option \<times> int) list" where
  "slave_scrape m =
    map (\<lambda>(l, k). (''nut_slave_connect_attempts_total'', Some l, int k)) (sx_connectAttempts m) @
    [(''nut_slave_shutdowns_received_total'', None, int (sx_shutdownsReceived m))] @
    map (\<lambda>(l, k). (''nut_slave_shutdown_status_total'', Some l, int k)) (sx_shutdownStatus m) @
    [(''nut_slave_build_info'', None, 1)] @ shutdownReady_Collect m @
    [(''nut_slave_connected'', None, if sx_connected m then 1 else 0)]"

text \<open>\<open>newMetricsServer\<close>: status and text of its two probes, by method and path; \<open>None\<close> is any other request.\<close>

definition writePlain :: "nat \<Rightarrow> string \<Rightarrow> nat \<times> string" where
  "writePlain status body = (status, body @ [CHR 0x0A])"

definition slave_probe :: "string \<Rightarrow> slave_metrics \<Rightarrow> (nat \<times> string) option" where
  "slave_probe path m =
    (if path = ''/healthz'' then Some (writePlain 200 ''ok'')
     else if path = ''/readyz'' then
       Some (if sx_connected m then writePlain 200 ''ready'' else writePlain 503 ''not ready'')
     else None)"

section \<open>The handlers with their metrics\<close>

definition metered_selfCheck :: "(string list \<Rightarrow> bool) \<Rightarrow> slave_Client \<times> slave_metrics \<Rightarrow> slave_Client \<times> slave_metrics" where
  "metered_selfCheck canRun x =
    (case x of (c, m) \<Rightarrow>
       if sc_DryRun (sl_cfg c) then (c, m)
       else let ready = canRun (sc_ShutdownCommand (sl_cfg c)) in (c\<lparr>sl_shutdownReady := Some ready\<rparr>, setShutdownReady ready m))"

definition metered_resume ::
  "time \<Rightarrow> ShutdownMessage \<Rightarrow> nat \<Rightarrow> slave_Client \<times> slave_metrics \<Rightarrow> slave_error option \<times> slave_Client \<times> slave_metrics" where
  "metered_resume now sd session x =
    (case x of (c, m) \<Rightarrow>
       if sm_DryRun sd \<or> sc_DryRun (sl_cfg c) then
         (let simulated = ackMessage (sm_CommandID sd) StatusSimulated ''dry-run shutdown simulated'' now c;
              c1 = setCommandState simulated c;
              m1 = recordShutdownStatus (ack_Status simulated) m
          in case session_Send session (ShutdownAck simulated) c1 of (err, c2) \<Rightarrow> (if err then Some SendError else None, c2, m1))
       else
         (let executing = ackMessage (sm_CommandID sd) StatusExecuting ''executing shutdown command'' now c;
              c1 = setCommandState executing c;
              m1 = recordShutdownStatus (ack_Status executing) m
          in case session_Send session (ShutdownAck executing) c1 of
               (True, c2) \<Rightarrow> (Some SendError, c2, m1)
             | (False, c2) \<Rightarrow> (None, beginExecution session sd c2, m1)))"

definition metered_replayed ::
  "time \<Rightarrow> ShutdownMessage \<Rightarrow> ShutdownAckMessage \<Rightarrow> nat \<Rightarrow> slave_Client \<times> slave_metrics \<Rightarrow>
    slave_error option \<times> slave_Client \<times> slave_metrics" where
  "metered_replayed now sd existing session x =
    (case x of (c, m) \<Rightarrow>
       (case (if ack_Status existing = StatusExecuting
              then beginOrRebindShutdownExecution (sm_CommandID sd) session c else (False, c)) of
          (start, c1) \<Rightarrow>
            (case session_Send session (ShutdownAck existing) c1 of
               (True, c2) \<Rightarrow> (Some SendError, c2, m)
             | (False, c2) \<Rightarrow>
                 if ack_Status existing = StatusAccepted \<or> ack_Status existing = StatusFailed
                 then metered_resume now sd session (c2, m)
                 else if ack_Status existing = StatusExecuting
                 then (None, if \<not> start then c2 else spawn sd c2, m)
                 else (None, c2, m))))"

definition metered_new ::
  "time \<Rightarrow> time \<Rightarrow> ShutdownMessage \<Rightarrow> nat \<Rightarrow> slave_Client \<times> slave_metrics \<Rightarrow> slave_error option \<times> slave_Client \<times> slave_metrics" where
  "metered_new now now2 sd session x =
    (case x of (c, m) \<Rightarrow>
       let m1 = recordShutdownReceived m;
           accepted = ackMessage (sm_CommandID sd) StatusAccepted ''shutdown command accepted'' now c
       in case session_Send session (ShutdownAck accepted) (setCommandState accepted c) of
            (True, c1) \<Rightarrow> (Some SendError, c1, m1)
          | (False, c1) \<Rightarrow> metered_resume now2 sd session (c1, m1))"

definition metered_handle ::
  "time \<Rightarrow> time \<Rightarrow> Envelope \<Rightarrow> nat \<Rightarrow> slave_Client \<times> slave_metrics \<Rightarrow> slave_error option \<times> slave_Client \<times> slave_metrics" where
  "metered_handle now now2 env session x =
    (if env_Type env = TypeShutdown then
       (case as_shutdown env of
          Inl err \<Rightarrow> (Some (PayloadError err), x)
        | Inr sd \<Rightarrow>
           (case getCommandState (sm_CommandID sd) (fst x) of
              Some existing \<Rightarrow> metered_replayed now2 sd existing session x
            | None \<Rightarrow> metered_new now now2 sd session x))
     else if env_Type env = TypePong then (None, x)
     else if env_Type env = TypeError then
       (case as_error env of
          Inl err \<Rightarrow> (Some (PayloadError err), x)
        | Inr msg \<Rightarrow> (Some (MasterError msg), x))
     else (None, x))"

fun metered_serve ::
  "(time \<times> time \<times> (string + Envelope)) list \<Rightarrow> nat \<Rightarrow> slave_Client \<times> slave_metrics \<Rightarrow>
    slave_error option \<times> slave_Client \<times> slave_metrics" where
  "metered_serve [] session x = (None, x)"
| "metered_serve ((now, now2, Inl err) # reads) session x = (Some (ReadError err), x)"
| "metered_serve ((now, now2, Inr env) # reads) session x =
    (case metered_handle now now2 env session x of
       (Some e, x1) \<Rightarrow> (Some e, x1)
     | (None, x1) \<Rightarrow> metered_serve reads session x1)"

text \<open>\<open>runOnce\<close>: the deferred \<open>setConnected(false)\<close> runs when it returns, that is when there is an error.\<close>

definition metered_runOnce ::
  "bool \<Rightarrow> nat \<Rightarrow> string + Envelope \<Rightarrow> (time \<times> time \<times> (string + Envelope)) list \<Rightarrow> slave_Client \<times> slave_metrics \<Rightarrow>
    slave_error option \<times> bool \<times> slave_Client \<times> slave_metrics" where
  "metered_runOnce dialOK session first reads x =
    (case x of (c, m) \<Rightarrow>
       if \<not> dialOK then (Some DialFailed, False, c, recordConnectAttempt ''dial_error'' m)
       else case session_Send session (Register (registerMessage c)) c of
         (True, c1) \<Rightarrow> (Some SendError, False, c1, recordConnectAttempt ''register_error'' m)
       | (False, c1) \<Rightarrow>
           (case expectRegisterAck first of
              Inl e \<Rightarrow> (Some e, False, c1, recordConnectAttempt ''register_error'' m)
            | Inr ack \<Rightarrow>
               (case handleRegisterAck ack (snd (registerToken c)) session c1 of
                  (Some e, c2) \<Rightarrow> (Some e, False, c2, recordConnectAttempt ''register_error'' m)
                | (None, c2) \<Rightarrow>
                    (case metered_serve reads session (c2, setConnected True (recordConnectAttempt ''success'' m)) of
                       (None, c3, m3) \<Rightarrow> (None, True, c3, m3)
                     | (Some e, c3, m3) \<Rightarrow> (Some e, True, c3, setConnected False m3)))))"

definition metered_execute ::
  "(string list \<Rightarrow> string option) \<Rightarrow> time \<Rightarrow> time \<Rightarrow> ShutdownMessage \<Rightarrow> slave_Client \<times> slave_metrics \<Rightarrow> slave_Client \<times> slave_metrics" where
  "metered_execute run t0 t1 sd x =
    (case x of (c, m) \<Rightarrow>
       case Execute (sm_CommandID sd) run c of
         (err, c1) \<Rightarrow>
           let update = execution_update t0 t1 sd err c1
           in (finishShutdownExecution (sm_CommandID sd) (reportExecution update (setCommandState update c1)),
               recordShutdownStatus (ack_Status update) m))"

section \<open>The metrics follow the client\<close>

text \<open>Without the metrics, the metered handlers are the handlers.\<close>

lemma metered_selfCheck_client: "fst (metered_selfCheck canRun (c, m)) = runShutdownSelfCheck canRun c"
  by (simp add: metered_selfCheck_def runShutdownSelfCheck_def Let_def)

lemma metered_execute_client: "fst (metered_execute run t0 t1 sd (c, m)) = executeShutdown run t0 t1 sd c"
  by (simp add: metered_execute_def executeShutdown_def Let_def split: prod.split)

definition forget :: "slave_error option \<times> slave_Client \<times> slave_metrics \<Rightarrow> slave_error option \<times> slave_Client" where
  "forget r = (fst r, fst (snd r))"

lemma forget_simps [simp]: "forget (e, c, m) = (e, c)"
  by (simp add: forget_def)

lemma forget_resume: "forget (metered_resume now sd session (c, m)) = resumeShutdown now sd session c"
  by (simp add: metered_resume_def resumeShutdown_def Let_def split: prod.split bool.split)

lemma forget_handle: "forget (metered_handle now now2 env session (c, m)) = slave_handleEnvelope now now2 env session c"
proof -
  have "forget (metered_replayed now2 sd a session (c, m)) = replayedShutdown now2 sd a session c" for sd a
    by (simp add: metered_replayed_def replayedShutdown_def forget_resume split: prod.split bool.split)
  moreover have "forget (metered_new now now2 sd session (c, m)) = newShutdown now now2 sd session c" for sd
    by (simp add: metered_new_def newShutdown_def forget_resume Let_def split: prod.split bool.split)
  ultimately show ?thesis
    by (simp add: metered_handle_def slave_handleEnvelope_def split: sum.split option.split)
qed

lemma forget_serve: "forget (metered_serve reads session (c, m)) = serve reads session c"
proof (induction reads session "(c, m)" arbitrary: c m rule: metered_serve.induct)
  case (3 now now2 env reads session)
  obtain e c1 m1 where h: "metered_handle now now2 env session (c, m) = (e, c1, m1)" by (metis prod_cases3)
  with forget_handle [of now now2 env session c m] have "slave_handleEnvelope now now2 env session c = (e, c1)" by simp
  with h 3 show ?case by (cases e) simp_all
qed simp_all

text \<open>Handling messages touches neither the attempts nor the connection flag.\<close>

definition session_flags :: "slave_metrics \<Rightarrow> (string, nat) gomap \<times> bool \<times> shutdownReadyState" where
  "session_flags m = (sx_connectAttempts m, sx_connected m, sx_shutdownReady m)"

lemma session_flags_records [simp]:
  "session_flags (recordShutdownReceived m) = session_flags m" "session_flags (recordShutdownStatus st m) = session_flags m"
  by (simp_all add: session_flags_def recordShutdownReceived_def recordShutdownStatus_def)

lemma flags_resume: "session_flags (snd (snd (metered_resume now sd session (c, m)))) = session_flags m"
  by (simp add: metered_resume_def Let_def split: prod.split bool.split)

lemma flags_handle: "session_flags (snd (snd (metered_handle now now2 env session (c, m)))) = session_flags m"
  by (simp add: metered_handle_def metered_replayed_def metered_new_def flags_resume Let_def
      split: sum.split option.split prod.split bool.split)

lemma flags_serve: "session_flags (snd (snd (metered_serve reads session (c, m)))) = session_flags m"
proof (induction reads session "(c, m)" arbitrary: c m rule: metered_serve.induct)
  case (3 now now2 env reads session)
  obtain e c1 m1 where h: "metered_handle now now2 env session (c, m) = (e, c1, m1)" by (metis prod_cases3)
  with flags_handle [of now now2 env session c m] have "session_flags m1 = session_flags m" by simp
  with h 3 show ?case by (cases e) simp_all
qed simp_all

definition attempts_total :: "slave_metrics \<Rightarrow> nat" where
  "attempts_total m = sum_list (map snd (sx_connectAttempts m))"

text \<open>How an attempt is counted.\<close>

definition attempt_result :: "bool \<Rightarrow> bool \<Rightarrow> string" where
  "attempt_result dialOK registered =
    (if registered then ''success'' else if dialOK then ''register_error'' else ''dial_error'')"

lemma runOnce_metrics:
  assumes "metered_runOnce dialOK session first reads (c, m) = (err, registered, c', m')" and "\<not> sx_connected m"
  shows "runOnce dialOK session first reads c = (err, registered, c')"
    "sx_connectAttempts m' = inc_label (attempt_result dialOK registered) (sx_connectAttempts m)"
    "sx_connected m' = (registered \<and> err = None)" "sx_shutdownReady m' = sx_shutdownReady m"
proof -
  have serve: "serve reads session c2 = (e, c3)" "sx_connectAttempts m3 = sx_connectAttempts m2" "sx_connected m3 = sx_connected m2"
    "sx_shutdownReady m3 = sx_shutdownReady m2"
    if "metered_serve reads session (c2, m2) = (e, c3, m3)" for c2 m2 e c3 m3
    using that forget_serve [of reads session c2 m2] flags_serve [of reads session c2 m2] by (simp_all add: session_flags_def)
  show "runOnce dialOK session first reads c = (err, registered, c')"
    using assms(1) by (auto simp: metered_runOnce_def runOnce_def dest: serve split: if_splits prod.splits bool.splits sum.splits option.splits)
  show "sx_connectAttempts m' = inc_label (attempt_result dialOK registered) (sx_connectAttempts m)"
    using assms(1) by (auto simp: metered_runOnce_def attempt_result_def recordConnectAttempt_def setConnected_def dest: serve
        split: if_splits prod.splits bool.splits sum.splits option.splits)
  show "sx_connected m' = (registered \<and> err = None)"
    using assms by (auto simp: metered_runOnce_def recordConnectAttempt_def setConnected_def dest: serve
        split: if_splits prod.splits bool.splits sum.splits option.splits)
  show "sx_shutdownReady m' = sx_shutdownReady m"
    using assms by (auto simp: metered_runOnce_def recordConnectAttempt_def setConnected_def dest: serve
        split: if_splits prod.splits bool.splits sum.splits option.splits)
qed

text \<open>
  The metrics of a slave tell what it does: leaving them out changes nothing, every attempt to
  reach the master is counted exactly once and under the right result, and the slave is shown as
  connected, by its gauge and by \<open>/readyz\<close>, exactly while it holds a registered session.
\<close>

theorem slave_metrics_truthful:
  assumes "metered_runOnce dialOK session first reads (c, m) = (err, registered, c', m')"
    and "\<not> sx_connected m" "distinct (mkeys (sx_connectAttempts m))"
  shows "runOnce dialOK session first reads c = (err, registered, c') \<and>
    attempts_total m' = Suc (attempts_total m) \<and>
    (\<forall>l. count_of l (sx_connectAttempts m') =
       count_of l (sx_connectAttempts m) + (if l = attempt_result dialOK registered then 1 else 0)) \<and>
    (''nut_slave_connected'', None, if registered \<and> err = None then 1 else 0) \<in> set (slave_scrape m') \<and>
    slave_probe ''/readyz'' m' =
      Some (if registered \<and> err = None then writePlain 200 ''ready'' else writePlain 503 ''not ready'')"
  using runOnce_metrics [OF assms(1,2)] assms(3)
  by (auto simp: attempts_total_def inc_label_total count_inc_label slave_scrape_def slave_probe_def)

theorem slave_metrics_truthful_witness:
  "attempts_total (snd (snd (snd (metered_runOnce False 1 (Inl []) [] (pr_client example_slave, zero_metrics))))) = 1"
proof -
  have run: "metered_runOnce False 1 (Inl []) [] (pr_client example_slave, zero_metrics) =
      (Some DialFailed, False, pr_client example_slave, recordConnectAttempt ''dial_error'' zero_metrics)"
    by (simp add: metered_runOnce_def)
  have "\<not> sx_connected zero_metrics" "distinct (mkeys (sx_connectAttempts zero_metrics))" "attempts_total zero_metrics = 0"
    by (simp_all add: zero_metrics_def attempts_total_def)
  with slave_metrics_truthful [OF run this(1,2)] show ?thesis by (simp add: metered_runOnce_def)
qed

end
