(* ===== verification/Commands.thy ===== *)
theory Commands
  imports SlaveSession Listener ConfigBehaviour
begin

text \<open>
  The two programs, \<open>cmd/nut-master/main.go\<close> and \<open>cmd/nut-slave/main.go\<close>: the exit codes, the
  order of start-up, and \<open>--check-config\<close>. The flags are given parsed; the files, the TLS
  material, the outcome of the shutdown self-check and the network are arguments, as in the
  theories of the parts.
\<close>

section \<open>The checks\<close>

datatype command_error = CommandConfig config_error | CommandTLS tls_error | CommandCheck check_error

text \<open>
  What the programs find on their machine: the certificates and YAML decoders that loading uses,
  the files by path, the key pairs and pools, \<open>shutdowncheck.Check\<close>, the error of opening a port,
  the clock, the hash, the outcomes of writes and sends, the host name and the two state files.
\<close>

record ('cert, 'pool) system =
  sy_pki :: pki
  sy_decodeMaster :: "yaml_node \<Rightarrow> string + MasterConfig"
  sy_decodeSlave :: "yaml_node \<Rightarrow> string + SlaveConfig"
  sy_file :: "string \<Rightarrow> string + (string + yaml_node)"
  sy_keyPair :: "string \<Rightarrow> string \<Rightarrow> string + 'cert"
  sy_loadPool :: "string \<Rightarrow> tls_error + 'pool"
  sy_Check :: "string list \<Rightarrow> check_error option"
  sy_bind :: "string \<Rightarrow> string option"
  sy_now :: time
  sy_hash :: "string \<Rightarrow> string"
  sy_writeOK :: "nat \<Rightarrow> bool"
  sy_sendOK :: "nat \<Rightarrow> bool"
  sy_hostname :: string
  sy_masterState :: state_file
  sy_slaveState :: slave_file

definition sy_serverTLS :: "('cert, 'pool) system \<Rightarrow> TLSConfig \<Rightarrow> tls_error + ('cert, 'pool) tls_Config option" where
  "sy_serverTLS y = ServerTLSConfig (sy_keyPair y) (sy_loadPool y)"

definition sy_adminTLS :: "('cert, 'pool) system \<Rightarrow> AdminTLSConfig \<Rightarrow> tls_error + ('cert, 'pool) tls_Config option" where
  "sy_adminTLS y = admin_TLSConfig (sy_keyPair y)"

definition sy_clientTLS :: "('cert, 'pool) system \<Rightarrow> TLSConfig \<Rightarrow> tls_error + ('cert, 'pool) tls_Config option" where
  "sy_clientTLS y = ClientTLSConfig (sy_keyPair y) (sy_loadPool y)"

text \<open>\<open>checkConfig\<close> of the two programs.\<close>

definition master_checkConfig :: "('cert, 'pool) system \<Rightarrow> string \<Rightarrow> command_error option" where
  "master_checkConfig y path =
    (case LoadMasterConfig (sy_pki y) (sy_decodeMaster y) (sy_file y path) of
       Inl e \<Rightarrow> Some (CommandConfig e)
     | Inr mc \<Rightarrow>
        (case sy_serverTLS y (mc_TLS mc) of
           Inl e \<Rightarrow> Some (CommandTLS e)
         | Inr _ \<Rightarrow>
            (case sy_adminTLS y (mc_AdminTLS mc) of
               Inl e \<Rightarrow> Some (CommandTLS e)
             | Inr _ \<Rightarrow>
                if \<not> lc_Enabled (mc_LocalShutdown mc) \<or> mc_DryRun mc then None
                else map_option CommandCheck (sy_Check y (slice (lc_Command (mc_LocalShutdown mc)))))))"

definition slave_checkConfig :: "('cert, 'pool) system \<Rightarrow> string \<Rightarrow> command_error option" where
  "slave_checkConfig y path =
    (case LoadSlaveConfig (sy_decodeSlave y) (sy_file y path) of
       Inl e \<Rightarrow> Some (CommandConfig e)
     | Inr sc \<Rightarrow>
        (case sy_clientTLS y (sc_TLS sc) of
           Inl e \<Rightarrow> Some (CommandTLS e)
         | Inr _ \<Rightarrow> if sc_DryRun sc then None else map_option CommandCheck (sy_Check y (sc_ShutdownCommand sc))))"

section \<open>The programs\<close>

text \<open>How \<open>main\<close> goes on: it exits, or the server or client runs until a signal stops it, and then exits with 0.\<close>

datatype 'a main_result = Exits nat | RunsUntilStopped 'a

definition master_main :: "('cert, 'pool) system \<Rightarrow> string \<Rightarrow> bool \<Rightarrow> (Server \<times> ('cert, 'pool) tls_Config option) main_result" where
  "master_main y configPath checkOnly =
    (if checkOnly then
       (case master_checkConfig y configPath of
          Some e \<Rightarrow> Exits 1
        | None \<Rightarrow> Exits 0)
     else case LoadMasterConfig (sy_pki y) (sy_decodeMaster y) (sy_file y configPath) of
       Inl e \<Rightarrow> Exits 1
     | Inr mc \<Rightarrow>
        let server = NewServer mc (sy_now y) (sy_hash y) (sy_writeOK y) (sy_sendOK y) (sy_masterState y)
        in (case run_start (sy_Check y) (sy_keyPair y) (sy_loadPool y) (sy_bind y) server of
              Inl e \<Rightarrow> Exits 1
            | Inr s \<Rightarrow> RunsUntilStopped s))"

text \<open>The client after \<open>NewClient\<close> and the self-check at the start of \<open>Run\<close>, which never fails.\<close>

definition slave_main :: "('cert, 'pool) system \<Rightarrow> string \<Rightarrow> bool \<Rightarrow> slave_Client main_result" where
  "slave_main y configPath checkOnly =
    (if checkOnly then
       (case slave_checkConfig y configPath of
          Some e \<Rightarrow> Exits 1
        | None \<Rightarrow> Exits 0)
     else case LoadSlaveConfig (sy_decodeSlave y) (sy_file y configPath) of
       Inl e \<Rightarrow> Exits 1
     | Inr sc \<Rightarrow>
        let client = NewClient sc (sy_hostname y) (sy_writeOK y) (sy_sendOK y) (sy_slaveState y)
        in RunsUntilStopped (runShutdownSelfCheck (\<lambda>argv. sy_Check y argv = None) client))"

section \<open>The check predicts the start\<close>

text \<open>The variables of a loaded SNMP source are resolved, so the second resolution at start changes nothing.\<close>

lemma loaded_source:
  assumes "LoadMasterConfig pki decode content = Inr mc"
  shows "UsesNUT mc \<or> ResolveSNMPVars (mc_SNMP mc) = Inr (mc_SNMP mc)"
  using assms
proof (rule LoadMasterConfig_stages)
  fix root cfg0 cfg1 cfg2 cfg3 cfg4 cfg5
  assume source: "normalizeUPSSource root cfg3 = Inr cfg4" and unreach: "master_unreachable cfg4 = Inr cfg5"
    and policies: "normalizeShutdownPolicies root cfg5 = Inr mc"
  obtain ps where mc: "mc = cfg5\<lparr>mc_ShutdownPolicies := ps\<rparr>" using normalizeShutdownPolicies_ok [OF policies] by blast
  have 5: "mc_SNMP cfg5 = mc_SNMP cfg4" "mc_NUT cfg5 = mc_NUT cfg4"
    using unreach by (auto simp: master_unreachable_def Let_def split: if_splits)
  have "UsesNUT cfg4 \<or> snmp_ok (mc_SNMP cfg4)"
  proof (cases "findKey root [''nut'']")
    case True
    with source obtain nut where "normalizeNUT (mc_NUT cfg3) = Inr nut" "cfg4 = cfg3\<lparr>mc_NUT := nut\<rparr>"
      by (auto simp: normalizeUPSSource_def andThen_Inr Let_def split: if_splits)
    then show ?thesis using nut_settings.accepted_ok by (auto simp: UsesNUT_def nut_ok_def)
  next
    case False
    with source obtain snmp where "normalizeSNMP (mc_SNMP cfg3) = Inr snmp" "cfg4 = cfg3\<lparr>mc_SNMP := snmp\<rparr>"
      by (auto simp: normalizeUPSSource_def andThen_Inr Let_def split: if_splits)
    then show ?thesis using snmp_settings.accepted_ok by auto
  qed
  moreover have "ResolveSNMPVars x = Inr x" if "snmp_ok x" for x
    using that by (intro snmp_vars.ok_unchanged) (simp add: snmp_ok_def)
  ultimately show ?thesis by (auto simp: mc 5 UsesNUT_def)
qed

text \<open>What \<open>Run\<close> does with a server whose source is resolved.\<close>

lemma run_start_resolved:
  assumes "UsesNUT (cfg s) \<or> ResolveSNMPVars (mc_SNMP (cfg s)) = Inr (mc_SNMP (cfg s))"
  shows "run_start canRun keyPair loadPool bind s =
    (case (admin_TLSConfig keyPair (mc_AdminTLS (cfg s)) :: tls_error + ('cert, 'pool) tls_Config option) of
       Inl e \<Rightarrow> Inl (RunTLS e)
     | Inr _ \<Rightarrow> andThen (listen keyPair loadPool bind s)
         (\<lambda>conf :: ('cert, 'pool) tls_Config option. Inr ((runLocalShutdownSelfCheck canRun s)\<lparr>ready := True\<rparr>, conf)))"
proof -
  have "(if UsesNUT (cfg s) then Inr (mc_SNMP (cfg s)) else ResolveSNMPVars (mc_SNMP (cfg s))) = Inr (mc_SNMP (cfg s))"
    using assms by auto
  moreover have "listen keyPair loadPool bind (runLocalShutdownSelfCheck canRun s) = listen keyPair loadPool bind s"
    by (simp add: listen_def runLocalShutdownSelfCheck_def Let_def split: sum.split)
  moreover have "cfg (runLocalShutdownSelfCheck canRun s) = cfg s" by (simp add: runLocalShutdownSelfCheck_def)
  ultimately show ?thesis by (simp add: run_start_def Let_def split: sum.split)
qed

lemma NewServer_start [simp]:
  "cfg (NewServer mc now H wok sok content) = mc" "localCommandReady (NewServer mc now H wok sok content) = None"
proof -
  have ready: "localCommandReady (normalizeLoadedLocalShutdown s) = localCommandReady s" for s
    by (auto simp: normalizeLoadedLocalShutdown_def split: option.split)
  have load: "cfg (loadState content s) = cfg s" "localCommandReady (loadState content s) = localCommandReady s" for s
    by (simp_all add: loadState_def Let_def ready split: state_file.split)
  have "localCommandReady (empty_server mc now H wok sok content) = None" by (simp add: empty_server_def)
  then show "cfg (NewServer mc now H wok sok content) = mc" "localCommandReady (NewServer mc now H wok sok content) = None"
    by (simp_all add: NewServer_def Let_def load)
qed

lemma master_started:
  assumes "LoadMasterConfig pki decode content = Inr mc"
  shows "run_start canRun keyPair loadPool bind (NewServer mc now H wok sok stored) =
    (case (admin_TLSConfig keyPair (mc_AdminTLS mc) :: tls_error + ('cert, 'pool) tls_Config option) of
       Inl e \<Rightarrow> Inl (RunTLS e)
     | Inr _ \<Rightarrow> andThen (listen keyPair loadPool bind (NewServer mc now H wok sok stored))
         (\<lambda>conf :: ('cert, 'pool) tls_Config option.
           Inr ((runLocalShutdownSelfCheck canRun (NewServer mc now H wok sok stored))\<lparr>ready := True\<rparr>, conf)))"
  using loaded_source [OF assms] by (subst run_start_resolved) simp_all

lemma listen_result:
  "listen keyPair loadPool bind s =
    (case (ServerTLSConfig keyPair loadPool (mc_TLS (cfg s)) :: tls_error + ('cert, 'pool) tls_Config option) of
       Inl e \<Rightarrow> Inl (RunTLS e)
     | Inr conf \<Rightarrow> (case bind (mc_ListenAddr (cfg s)) of Some err \<Rightarrow> Inl (ListenFailed err) | None \<Rightarrow> Inr conf))"
  by (simp add: listen_def ServerTLSConfig_def Let_def split: sum.split option.split)

lemma self_check_ready:
  "localCommandReady (runLocalShutdownSelfCheck canRun (NewServer mc now H wok sok stored)) =
    (if \<not> lc_Enabled (mc_LocalShutdown mc) \<or> mc_DryRun mc then None
     else Some (canRun (slice (lc_Command (mc_LocalShutdown mc))) = None))"
  by (simp add: runLocalShutdownSelfCheck_def)

text \<open>
  The slave's half: a configuration that passes the check never fails on its TLS settings when it
  dials, and the slave reports itself ready; of a slave that starts, the check fails only for the
  TLS settings or the shutdown command.
\<close>

lemma NewClient_start [simp]:
  "sl_cfg (NewClient sc hostname wok sok content) = sc" "sl_shutdownReady (NewClient sc hostname wok sok content) = None"
  by (simp_all add: NewClient_def slave_loadState_def split: slave_file.split)

lemma slave_check_predicts_dial:
  assumes "slave_main y path True = Exits 0"
  shows "\<exists>c. slave_main y path False = RunsUntilStopped c \<and> sl_shutdownReady c \<noteq> Some False \<and>
    (\<forall>connect e. fst (slave_dial (sy_keyPair y) (sy_loadPool y) connect None c) \<noteq> Inl (DialTLS e))"
proof -
  from assms obtain sc conf where sc: "LoadSlaveConfig (sy_decodeSlave y) (sy_file y path) = Inr sc"
    "ClientTLSConfig (sy_keyPair y) (sy_loadPool y) (sc_TLS sc) = Inr conf"
    "sc_DryRun sc \<or> sy_Check y (sc_ShutdownCommand sc) = None"
    by (auto simp: slave_main_def slave_checkConfig_def sy_clientTLS_def split: option.splits sum.splits if_splits)
  then show ?thesis
    by (auto simp: slave_main_def runShutdownSelfCheck_def slave_dial_def Let_def split: sum.split)
qed

text \<open>
  C30. \<open>--check-config\<close> tells what a start would do, on the same files and system: when the
  master's check passes, a start gets through everything but the opening of its port (a server
  with exactly the loaded configuration accepts, and its shutdown command is known to run if it
  will be needed), and with a port it cannot open it exits with 1; when the master does start,
  the check passes exactly unless the shutdown command cannot run. The slave's check is as good:
  after it the slave starts, reports its command ready, and no dial ever fails on the TLS
  settings.
\<close>

theorem check_config_predicts_start:
  "(master_main y path True = Exits 0 \<longrightarrow>
      (\<exists>mc. LoadMasterConfig (sy_pki y) (sy_decodeMaster y) (sy_file y path) = Inr mc \<and>
         (case sy_bind y (mc_ListenAddr mc) of
            Some err \<Rightarrow> master_main y path False = Exits 1
          | None \<Rightarrow> \<exists>s conf. master_main y path False = RunsUntilStopped (s, conf) \<and> cfg s = mc \<and> ready s \<and>
              localCommandReady s = (if \<not> lc_Enabled (mc_LocalShutdown mc) \<or> mc_DryRun mc then None else Some True)))) \<and>
    (\<forall>s conf. master_main y path False = RunsUntilStopped (s, conf) \<longrightarrow>
       (master_main y path True = Exits 0 \<longleftrightarrow> localCommandReady s \<noteq> Some False)) \<and>
    (slave_main y spath True = Exits 0 \<longrightarrow>
      (\<exists>c. slave_main y spath False = RunsUntilStopped c \<and> sl_shutdownReady c \<noteq> Some False \<and>
         (\<forall>connect e. fst (slave_dial (sy_keyPair y) (sy_loadPool y) connect None c) \<noteq> Inl (DialTLS e))))"
proof (intro conjI impI allI)
  assume "master_main y path True = Exits 0"
  then obtain mc conf aconf where mc: "LoadMasterConfig (sy_pki y) (sy_decodeMaster y) (sy_file y path) = Inr mc"
    and "sy_serverTLS y (mc_TLS mc) = Inr conf" "sy_adminTLS y (mc_AdminTLS mc) = Inr aconf"
    and "\<not> lc_Enabled (mc_LocalShutdown mc) \<or> mc_DryRun mc \<or> sy_Check y (slice (lc_Command (mc_LocalShutdown mc))) = None"
    by (auto simp: master_main_def master_checkConfig_def split: option.splits sum.splits if_splits)
  then show "\<exists>mc. LoadMasterConfig (sy_pki y) (sy_decodeMaster y) (sy_file y path) = Inr mc \<and>
         (case sy_bind y (mc_ListenAddr mc) of
            Some err \<Rightarrow> master_main y path False = Exits 1
          | None \<Rightarrow> \<exists>s conf. master_main y path False = RunsUntilStopped (s, conf) \<and> cfg s = mc \<and> ready s \<and>
              localCommandReady s = (if \<not> lc_Enabled (mc_LocalShutdown mc) \<or> mc_DryRun mc then None else Some True))"
    by (intro exI [of _ mc])
      (auto simp: master_main_def master_started [OF mc] listen_result self_check_ready sy_serverTLS_def sy_adminTLS_def
        runLocalShutdownSelfCheck_def split: option.split)
next
  fix s conf
  assume run: "master_main y path False = RunsUntilStopped (s, conf)"
  then obtain mc where mc: "LoadMasterConfig (sy_pki y) (sy_decodeMaster y) (sy_file y path) = Inr mc"
    by (auto simp: master_main_def split: sum.splits)
  with run obtain conf aconf where "sy_serverTLS y (mc_TLS mc) = Inr conf" "sy_adminTLS y (mc_AdminTLS mc) = Inr aconf"
    "s = (runLocalShutdownSelfCheck (sy_Check y)
      (NewServer mc (sy_now y) (sy_hash y) (sy_writeOK y) (sy_sendOK y) (sy_masterState y)))\<lparr>ready := True\<rparr>"
    by (auto simp: master_main_def master_started [OF mc] listen_result andThen_Inr sy_serverTLS_def sy_adminTLS_def
        split: sum.splits option.splits)
  with mc show "master_main y path True = Exits 0 \<longleftrightarrow> localCommandReady s \<noteq> Some False"
    by (auto simp: master_main_def master_checkConfig_def self_check_ready split: option.split)
qed (rule slave_check_predicts_dial)

text \<open>A machine with the smallest master configuration and a free port.\<close>

definition small_system :: "(string, string) system" where
  "small_system = \<lparr>sy_pki = no_files, sy_decodeMaster = (\<lambda>_. Inr minimal_config), sy_decodeSlave = (\<lambda>_. Inl ''no slave''),
     sy_file = (\<lambda>_. Inr (Inr (master_tree local_mapping))), sy_keyPair = (\<lambda>c k. Inr c), sy_loadPool = (\<lambda>f. Inr f),
     sy_Check = (\<lambda>_. None), sy_bind = (\<lambda>_. None), sy_now = 1, sy_hash = id, sy_writeOK = (\<lambda>_. True), sy_sendOK = (\<lambda>_. True),
     sy_hostname = ''ups'', sy_masterState = NoFile, sy_slaveState = Missing\<rparr>"

theorem check_config_predicts_start_witness:
  "\<exists>s conf. master_main small_system ''master.yaml'' False = RunsUntilStopped (s, conf) \<and> cfg s = minimal_config \<and> ready s"
proof -
  have load: "LoadMasterConfig (sy_pki small_system) (sy_decodeMaster small_system) (sy_file small_system ''master.yaml'') = Inr minimal_config"
    unfolding small_system_def system.simps
    by (rule complete_config_accepted [OF minimal_config_ok])
      (simp_all add: master_tree_removed master_tree_keys master_tree_policies, simp_all add: minimal_config_def UsesNUT_def)
  then have "master_main small_system ''master.yaml'' True = Exits 0"
    by (simp add: master_main_def master_checkConfig_def sy_serverTLS_def ServerTLSConfig_def sy_adminTLS_def admin_TLSConfig_def)
      (simp add: small_system_def minimal_config_def zero_TLS_def EnabledForServer_def)
  with check_config_predicts_start [of small_system "''master.yaml''" "[]"] load show ?thesis
    by (auto simp: small_system_def)
qed

end
