(* ===== verification/Endless.thy ===== *)
theory Endless
  imports Protocol Nut
begin

text \<open>
  The two readers of foreign input, \<open>readLimitedLine\<close> of \<open>internal/protocol/wire.go\<close> and
  \<open>readNUTVarList\<close> of \<open>internal/master/nut.go\<close>, on a peer that never stops sending. The readers
  of \<open>Protocol\<close> and \<open>Nut\<close> work on the bytes that come before the connection ends; here the
  source is endless, and the loops need not end by themselves.
\<close>

section \<open>Frames\<close>

text \<open>
  The bytes of the source by their position, the position read next, and the line so far. Not
  returning is \<open>None\<close>.
\<close>

partial_function (option) read_endless ::
  "nat \<Rightarrow> (nat \<Rightarrow> char) \<Rightarrow> nat \<Rightarrow> string \<Rightarrow> (wire_error + (string \<times> nat)) option" where
  "read_endless maxlen source pos buf =
    (if source pos = newline then Some (Inr (buf, Suc pos))
     else if length buf \<ge> maxlen then Some (Inl ErrEnvelopeTooLarge)
     else read_endless maxlen source (Suc pos) (buf @ [source pos]))"

text \<open>The next \<open>n\<close> bytes of a source.\<close>

definition upcoming :: "(nat \<Rightarrow> char) \<Rightarrow> nat \<Rightarrow> nat \<Rightarrow> string" where
  "upcoming source pos n = map source [pos..<pos + n]"

lemma upcoming_Suc: "upcoming source pos (Suc n) = source pos # upcoming source (Suc pos) n"
  by (simp add: upcoming_def upt_conv_Cons del: upt_Suc)

text \<open>
  The line that is read, with the position after it, told from the reader of finite input on the
  bytes \<open>[pos..<pos + n]\<close> and what it left over.
\<close>

definition as_endless :: "nat \<Rightarrow> nat \<Rightarrow> wire_error + (string \<times> string) \<Rightarrow> wire_error + (string \<times> nat)" where
  "as_endless pos n r = (case r of Inl e \<Rightarrow> Inl e | Inr (line, rest) \<Rightarrow> Inr (line, pos + n - length rest))"

lemma read_endless_finite:
  assumes "length buf + n = Suc maxlen" "length buf \<le> maxlen"
  shows "read_endless maxlen source pos buf = Some (as_endless pos n (readLimitedLine maxlen buf (upcoming source pos n)))"
  using assms
proof (induction n arbitrary: pos buf)
  case (Suc n)
  have "length (upcoming source (Suc pos) n) = n" by (simp add: upcoming_def)
  moreover have "read_endless maxlen source (Suc pos) (buf @ [source pos]) =
      Some (as_endless (Suc pos) n (readLimitedLine maxlen (buf @ [source pos]) (upcoming source (Suc pos) n)))"
    if "length buf < maxlen" using Suc that by (intro Suc.IH) simp_all
  ultimately show ?case
    by (subst read_endless.simps) (simp add: upcoming_Suc as_endless_def split: sum.split)
qed simp

text \<open>
  C21. No peer can keep the frame reader busy or make it buffer more than its limit: on any endless
  input it returns, with the line when a newline comes among the next \<open>MaxEnvelopeBytes + 1\<close>
  bytes, and with \<open>ErrEnvelopeTooLarge\<close> after exactly that many otherwise.
\<close>

theorem peer_cannot_hold_reader:
  "read_endless MaxEnvelopeBytes source pos [] = Some
    (let line = takeWhile (\<lambda>b. b \<noteq> newline) (upcoming source pos (Suc MaxEnvelopeBytes))
     in if length line \<le> MaxEnvelopeBytes then Inr (line, pos + Suc (length line)) else Inl ErrEnvelopeTooLarge)"
proof -
  let ?s = "upcoming source pos (Suc MaxEnvelopeBytes)"
  let ?line = "takeWhile (\<lambda>b. b \<noteq> newline) ?s"
  have len: "length ?s = Suc MaxEnvelopeBytes" by (simp add: upcoming_def)
  have "newline \<in> set ?s" if "length ?line \<le> MaxEnvelopeBytes"
  proof (rule ccontr)
    assume "newline \<notin> set ?s"
    then have "?line = ?s" by (auto simp: takeWhile_eq_all_conv)
    with that len show False by simp
  qed
  then have "readLimitedLine MaxEnvelopeBytes [] ?s =
      (if length ?line \<le> MaxEnvelopeBytes then Inr (?line, drop (Suc (length ?line)) ?s) else Inl ErrEnvelopeTooLarge)"
    by (simp add: readLimitedLine_gen Let_def not_less)
  then show ?thesis
    using read_endless_finite [of "[]" "Suc MaxEnvelopeBytes" MaxEnvelopeBytes source pos] len
    by (simp add: as_endless_def Let_def)
qed

section \<open>NUT replies\<close>

text \<open>The loop of \<open>readNUTVarList\<close> over the results of reading the lines, from line \<open>i\<close> on.\<close>

partial_function (option) readNUT_endless ::
  "string \<Rightarrow> (nat \<Rightarrow> ups_error + string) \<Rightarrow> nat \<Rightarrow> (string, string) gomap \<Rightarrow> (ups_error + (string, string) gomap) option" where
  "readNUT_endless ups source i vars =
    (case source i of
       Inl e \<Rightarrow> Some (Inl e)
     | Inr line \<Rightarrow>
        if line = ''END LIST VAR '' @ ups then Some (Inr vars)
        else (case CutPrefix line (''VAR '' @ ups @ '' '') of
            None \<Rightarrow> Some (Inl (UnexpectedLine line))
          | Some var \<Rightarrow>
             (case parseNUTVar var of
                Inl e \<Rightarrow> Some (Inl (ParseLine line e))
              | Inr (name, v) \<Rightarrow>
                  if length vars \<ge> maxNUTVars then Some (Inl TooManyVars)
                  else readNUT_endless ups source (Suc i) (mput name v vars))))"

text \<open>The variable a line names, when the loop goes on with it.\<close>

definition nut_variable :: "string \<Rightarrow> ups_error + string \<Rightarrow> (string \<times> string) option" where
  "nut_variable ups r =
    (case r of
       Inl e \<Rightarrow> None
     | Inr line \<Rightarrow>
        if line = ''END LIST VAR '' @ ups then None
        else (case CutPrefix line (''VAR '' @ ups @ '' '') of
            None \<Rightarrow> None
          | Some var \<Rightarrow> (case parseNUTVar var of Inl e \<Rightarrow> None | Inr x \<Rightarrow> Some x)))"

lemma readNUT_endless_step:
  "readNUT_endless ups source i vars =
    (case nut_variable ups (source i) of
       None \<Rightarrow> Some (case readNUT_endless ups source i vars of Some r \<Rightarrow> r | None \<Rightarrow> Inr vars)
     | Some (name, v) \<Rightarrow>
        if length vars \<ge> maxNUTVars then Some (Inl TooManyVars)
        else readNUT_endless ups source (Suc i) (mput name v vars))"
  by (subst (1 2) readNUT_endless.simps) (simp add: nut_variable_def split: sum.split option.split prod.split)

text \<open>The variables after \<open>k\<close> more lines.\<close>

primrec vars_after :: "string \<Rightarrow> (nat \<Rightarrow> ups_error + string) \<Rightarrow> nat \<Rightarrow> (string, string) gomap \<Rightarrow> (string, string) gomap" where
  "vars_after ups source 0 vars = vars"
| "vars_after ups source (Suc k) vars =
    (case nut_variable ups (source k) of
       None \<Rightarrow> vars_after ups source k vars
     | Some (name, v) \<Rightarrow> mput name v (vars_after ups source k vars))"

lemma vars_after_names:
  "distinct (mkeys (vars_after ups source k [])) \<and>
   set (mkeys (vars_after ups source k [])) = {name. \<exists>j < k. \<exists>v. nut_variable ups (source j) = Some (name, v)}"
proof (induction k)
  case (Suc k)
  show ?case
  proof (cases "nut_variable ups (source k)")
    case None
    with Suc show ?thesis by (auto simp: less_Suc_eq)
  next
    case (Some x)
    obtain name v where x: "x = (name, v)" by (cases x)
    have "set (mkeys (vars_after ups source (Suc k) [])) = insert name (set (mkeys (vars_after ups source k [])))"
      by (simp add: Some x mkeys_mput del: set_map)
    then show ?thesis using Suc Some by (auto simp: x less_Suc_eq distinct_update simp del: set_map)
  qed
qed simp

lemma vars_after_length:
  "length (vars_after ups source k []) = card {name. \<exists>j < k. \<exists>v. nut_variable ups (source j) = Some (name, v)}"
  using vars_after_names [of ups source k] distinct_card [of "mkeys (vars_after ups source k [])"] by simp

text \<open>The line at which the loop ends.\<close>

definition nut_ends :: "string \<Rightarrow> (nat \<Rightarrow> ups_error + string) \<Rightarrow> nat \<Rightarrow> bool" where
  "nut_ends ups source k \<longleftrightarrow> nut_variable ups (source k) = None \<or> maxNUTVars \<le> length (vars_after ups source k [])"

lemma nut_goes_on:
  "\<not> nut_ends ups source i \<Longrightarrow> readNUT_endless ups source i (vars_after ups source i []) =
    readNUT_endless ups source (Suc i) (vars_after ups source (Suc i) [])"
  by (subst readNUT_endless_step) (auto simp: nut_ends_def split: option.splits prod.splits)

lemma nut_returns:
  assumes "nut_ends ups source k" "i \<le> k"
  shows "\<exists>r. readNUT_endless ups source i (vars_after ups source i []) = Some r"
  using assms(2)
proof (induction rule: inc_induct)
  case base
  show ?case using assms(1) by (subst readNUT_endless_step) (auto simp: nut_ends_def split: option.split prod.split)
next
  case (step i)
  then show ?case by (cases "nut_ends ups source i") (auto simp: nut_goes_on, subst readNUT_endless_step,
      auto simp: nut_ends_def split: option.split prod.split)
qed

lemma nut_returned:
  assumes "readNUT_endless ups source i vars = Some r"
  shows "vars = vars_after ups source i [] \<longrightarrow> (\<exists>k. nut_ends ups source k)"
  using _ assms
proof (rule readNUT_endless.raw_induct [where P = "\<lambda>ups source i vars r. vars = vars_after ups source i [] \<longrightarrow> (\<exists>k. nut_ends ups source k)"])
  fix f ups source i vars r
  assume ih: "\<And>ups source i vars r. f ups source i vars = Some r \<Longrightarrow>
      vars = vars_after ups source i [] \<longrightarrow> (\<exists>k. nut_ends ups source k)"
    and body: "(case source i of
       Inl e \<Rightarrow> Some (Inl e)
     | Inr line \<Rightarrow>
        if line = ''END LIST VAR '' @ ups then Some (Inr vars)
        else (case CutPrefix line (''VAR '' @ ups @ '' '') of
            None \<Rightarrow> Some (Inl (UnexpectedLine line))
          | Some var \<Rightarrow>
             (case parseNUTVar var of
                Inl e \<Rightarrow> Some (Inl (ParseLine line e))
              | Inr (name, v) \<Rightarrow>
                  if length vars \<ge> maxNUTVars then Some (Inl TooManyVars)
                  else f ups source (Suc i) (mput name v vars)))) = Some r"
  show "vars = vars_after ups source i [] \<longrightarrow> (\<exists>k. nut_ends ups source k)"
  proof (intro impI, cases "nut_ends ups source i")
    assume vars: "vars = vars_after ups source i []"
    case False
    obtain name v where n: "nut_variable ups (source i) = Some (name, v)"
      using False by (cases "nut_variable ups (source i)") (auto simp: nut_ends_def)
    have "f ups source (Suc i) (mput name v vars) = Some r"
      using body n False vars by (auto simp: nut_variable_def nut_ends_def split: sum.splits option.splits if_splits prod.splits)
    from ih [OF this] show "\<exists>k. nut_ends ups source k" using n by (simp add: vars)
  qed blast
qed

text \<open>
  Exactly which \<open>upsd\<close> can keep the reply loop running until the deadline of its connection:
  only one that sends nothing but well-formed variables for ever and names fewer than
  \<open>maxNUTVars\<close> different ones. On any other endless reply the loop returns by itself, and in
  particular what it stores is bounded.
\<close>

theorem nut_reader_stops_iff:
  "readNUT_endless ups source 0 [] = None \<longleftrightarrow>
    (\<forall>i. nut_variable ups (source i) \<noteq> None) \<and>
    (\<forall>i. card {name. \<exists>j < i. \<exists>v. nut_variable ups (source j) = Some (name, v)} < maxNUTVars)"
proof -
  have "readNUT_endless ups source 0 [] = None \<longleftrightarrow> (\<forall>k. \<not> nut_ends ups source k)"
    using nut_returns [of ups source _ 0] nut_returned [of ups source 0 "[]"]
    by (metis le0 not_None_eq vars_after.simps(1))
  then show ?thesis by (auto simp: nut_ends_def vars_after_length not_le)
qed

end
