(* ===== verification/Link.thy ===== *)
theory Link
  imports Conn SlaveSession
begin

text \<open>
  Both ends of one connection in time: the deadlines of the master's side
  (\<open>internal/master/client.go\<close> and the read loop of \<open>conn.go\<close>) with the pings and reads of the
  slave. Clocks of the two machines are one clock here.
\<close>

section \<open>The master's deadlines\<close>

definition HandshakeReadDeadline :: duration where "HandshakeReadDeadline = 5 * second"
definition IdleReadDeadline :: duration where "IdleReadDeadline = 45 * second"
definition WriteDeadline :: duration where "WriteDeadline = 5 * second"

definition SetReadDeadline :: "time \<Rightarrow> duration \<Rightarrow> time option" where
  "SetReadDeadline now timeout = (if timeout \<le> 0 then None else Some (time_Add now timeout))"

definition master_reads :: "time \<Rightarrow> (time \<times> Envelope) list \<Rightarrow> (time \<times> time \<times> (string + Envelope)) list" where
  "master_reads = timed_reads (\<lambda>at. SetReadDeadline at IdleReadDeadline)"

text \<open>The envelopes among the reads, with their times: what \<open>conn_loop\<close> handles before its read fails.\<close>

definition read_envelopes :: "(time \<times> time \<times> (string + Envelope)) list \<Rightarrow> (time \<times> Envelope) list" where
  "read_envelopes reads = concat (map (\<lambda>(at, _, r). case r of Inl _ \<Rightarrow> [] | Inr env \<Rightarrow> [(at, env)]) reads)"

section \<open>Lemmas\<close>

lemma master_reads_within: "master_reads = reads_within IdleReadDeadline"
  by (simp add: master_reads_def reads_within_def SetReadDeadline_def IdleReadDeadline_def time_Add_def second_def)

text \<open>When a ticker started at \<open>start\<close> has sent its \<open>i\<close>-th ping.\<close>

definition ping_time :: "time \<Rightarrow> nat \<Rightarrow> time" where
  "ping_time start i = start + (int i + 1) * pingInterval"

lemma reads_in_time:
  assumes "\<And>i. k \<le> i \<Longrightarrow> i < k + n \<Longrightarrow> now i \<le> now (Suc i) \<and> now (Suc i) \<le> now i + timeout"
  shows "reads_within timeout (now k) (map (\<lambda>i. (now (Suc i), env i)) [k..<k + n]) =
    map (\<lambda>i. (now (Suc i), now (Suc i), Inr (env i))) [k..<k + n] @
      [(now (k + n) + timeout, now (k + n) + timeout, Inl ''i/o timeout'')]"
  using assms
proof (induction n arbitrary: k)
  case 0
  then show ?case by (simp add: reads_within_simps)
next
  case (Suc n)
  have "max (now k) (now (Suc k)) = now (Suc k)" "\<not> now k + timeout < now (Suc k)" using Suc.prems [of k] by auto
  moreover have "reads_within timeout (now (Suc k)) (map (\<lambda>i. (now (Suc i), env i)) [Suc k..<Suc k + n]) =
      map (\<lambda>i. (now (Suc i), now (Suc i), Inr (env i))) [Suc k..<Suc k + n] @
        [(now (Suc k + n) + timeout, now (Suc k + n) + timeout, Inl ''i/o timeout'')]"
    using Suc.prems by (intro Suc.IH) simp
  ultimately show ?case by (simp add: upt_conv_Cons reads_within_simps del: upt_Suc)
qed

lemma read_envelopes_reads:
  "read_envelopes (map (\<lambda>i. (t i, u i, Inr (env i))) is @ [(d, d', Inl err)]) = map (\<lambda>i. (t i, env i)) is"
  by (induction "is") (simp_all add: read_envelopes_def)

lemma pings_answered:
  assumes "\<And>x. x \<in> set reads \<Longrightarrow> env_Type (snd x) = TypePing" and "sendOK s conn"
  shows "effects (conn_loop runner attemptAt conn nodeID tok reads s) = effects s @ map (\<lambda>x. Sent conn (Pong (fst x))) reads \<and>
    commands (conn_loop runner attemptAt conn nodeID tok reads s) = commands s"
  using assms
proof (induction reads arbitrary: s)
  case (Cons x reads)
  obtain at env where x: "x = (at, env)" by (cases x)
  have "env_Type env = TypePing" using Cons.prems(1) [of x] by (simp add: x)
  then obtain s1 where "conn_receive runner attemptAt at conn nodeID tok (Inr env) s = (Serving nodeID tok, s1)"
    "effects s1 = effects s @ [Sent conn (Pong at)]" "sendOK s1 = sendOK s" "commands s1 = commands s"
    using Cons.prems(2)
    by (simp add: conn_receive_def handleEnvelope_def client_Send_def emit_def Let_def consts_simps)
  with Cons show ?case by (simp add: x)
qed (simp add: conn_receive_def)

text \<open>After the handler's cleanup the connection is not in the registry.\<close>

lemma cleaned_up:
  "nodeID \<noteq> [] \<Longrightarrow> (case reg_Get nodeID (registry (conn_cleanup conn nodeID s)) of None \<Rightarrow> True | Some cl \<Rightarrow> cl_conn cl \<noteq> conn)"
  by (auto simp: conn_cleanup_def reg_RemoveIfMatch_def reg_Get_def emit_def split: option.splits)

text \<open>A read loop of either end ends on its own, 45 seconds after the last message it read.\<close>

lemma reads_end:
  "\<exists>reads d. master_reads now arrivals = reads @ [(d, d, Inl ''i/o timeout'')] \<and>
    (\<forall>(at, at', r) \<in> set reads. \<exists>env. r = Inr env) \<and> d = last_read now reads + 45 * second"
  "\<exists>reads d. slave_reads now arrivals = reads @ [(d, d, Inl ''i/o timeout'')] \<and>
    (\<forall>(at, at', r) \<in> set reads. \<exists>env. r = Inr env) \<and> d = last_read now reads + 45 * second"
  using reads_within_end [of IdleReadDeadline now arrivals] reads_within_end [of readIdleTimeout now arrivals]
  by (auto simp: master_reads_within slave_reads_within IdleReadDeadline_def readIdleTimeout_def pingInterval_def)

lemma slave_session_ends: "fst (serve (slave_reads now arrivals) session c) \<noteq> None"
proof -
  obtain reads d where "slave_reads now arrivals = reads @ [(d, d, Inl ''i/o timeout'')]" using reads_end(2) by blast
  then show ?thesis by (metis serve_ends prod.collapse)
qed

text \<open>The times at which the master reads: the start of its loop, then the arrivals of the pings.\<close>

definition master_time :: "time \<Rightarrow> time \<Rightarrow> (nat \<Rightarrow> duration) \<Rightarrow> nat \<Rightarrow> time" where
  "master_time loopStart start up k = (case k of 0 \<Rightarrow> loopStart | Suc i \<Rightarrow> ping_time start i + up i)"

lemma master_time_steps:
  assumes "\<And>i. i < n \<Longrightarrow> 0 \<le> up i \<and> up i \<le> pingInterval"
    and "start \<le> loopStart + pingInterval" "loopStart \<le> start + pingInterval" "i < n"
  shows "master_time loopStart start up i \<le> master_time loopStart start up (Suc i)"
    "master_time loopStart start up (Suc i) \<le> master_time loopStart start up i + 3 * pingInterval"
proof -
  have "0 \<le> up i" "up i \<le> pingInterval" using assms(1,4) by auto
  moreover have "0 \<le> up (i - 1)" "up (i - 1) \<le> pingInterval" if "0 < i" using assms(1) [of "i - 1"] assms(4) that by auto
  ultimately show "master_time loopStart start up i \<le> master_time loopStart start up (Suc i)"
    "master_time loopStart start up (Suc i) \<le> master_time loopStart start up i + 3 * pingInterval"
    using assms(2,3) by (cases i; force simp: master_time_def ping_time_def algebra_simps)+
qed

text \<open>
  C26. Both ends watch the connection, and neither drops a live one. Whatever arrives and
  whenever, both read loops end 45 seconds after the last message they read, the slave's session
  then returns, and after the handler's cleanup the connection is no longer in the registry. But
  when the network delays every message by at most 15 seconds and the two loops start at most 15
  seconds apart, the master reads every ping in time and answers it with a pong at once, the slave
  reads every pong and nothing else happens to it, and both time out only after the last of them.
\<close>

theorem live_link_kept_dead_link_noticed:
  assumes "\<And>i. i < n \<Longrightarrow> 0 \<le> up i \<and> up i \<le> pingInterval" and "\<And>i. i < n \<Longrightarrow> 0 \<le> down i \<and> down i \<le> pingInterval"
    and "start \<le> loopStart + pingInterval" "loopStart \<le> start + pingInterval"
    and "\<And>i. env_Type (ping i) = TypePing" and "\<And>i. env_Type (pong i) = TypePong"
    and "sl_sendOK c = (\<lambda>_. True)" "sendOK s conn" "nodeID \<noteq> []"
    and pings: "pings = map (\<lambda>i. (ping_time start i + up i, ping i)) [0..<n]"
    and pongs: "pongs = map (\<lambda>i. (ping_time start i + up i + down i, pong i)) [0..<n]"
  shows "(\<exists>reads d. master_reads loopStart arrivals = reads @ [(d, d, Inl ''i/o timeout'')] \<and>
      (\<forall>(at, at', r) \<in> set reads. \<exists>env. r = Inr env) \<and> d = last_read loopStart reads + 45 * second) \<and>
    (case reg_Get nodeID (registry (conn_cleanup conn nodeID
        (conn_loop runner attemptAt conn nodeID tok (read_envelopes (master_reads loopStart arrivals)) s))) of
       None \<Rightarrow> True | Some cl \<Rightarrow> cl_conn cl \<noteq> conn) \<and>
    (\<exists>reads d. slave_reads start arrivals = reads @ [(d, d, Inl ''i/o timeout'')] \<and>
      (\<forall>(at, at', r) \<in> set reads. \<exists>env. r = Inr env) \<and> d = last_read start reads + 45 * second) \<and>
    fst (serve (slave_reads start arrivals) session c) \<noteq> None \<and>
    sl_effects (snd (ping_loop start session n c)) =
      sl_effects c @ map (\<lambda>i. Sends session (Ping (ping_time start i)) True) [0..<n] \<and>
    read_envelopes (master_reads loopStart pings) = pings \<and>
    effects (conn_loop runner attemptAt conn nodeID tok (read_envelopes (master_reads loopStart pings)) s) =
      effects s @ map (\<lambda>i. Sent conn (Pong (ping_time start i + up i))) [0..<n] \<and>
    length (slave_reads start pongs) = Suc n \<and>
    serve (slave_reads start pongs) session c = (Some (ReadError ''i/o timeout''), c)"
proof (intro conjI)
  have "reads_within (3 * pingInterval) (master_time loopStart start up 0)
      (map (\<lambda>i. (master_time loopStart start up (Suc i), ping i)) [0..<0 + n]) =
      map (\<lambda>i. (master_time loopStart start up (Suc i), master_time loopStart start up (Suc i), Inr (ping i))) [0..<0 + n] @
        [(master_time loopStart start up (0 + n) + 3 * pingInterval, master_time loopStart start up (0 + n) + 3 * pingInterval, Inl ''i/o timeout'')]"
    using master_time_steps [OF assms(1,3,4)] by (intro reads_in_time) auto
  then have "master_reads loopStart pings = map (\<lambda>i. (ping_time start i + up i, ping_time start i + up i, Inr (ping i))) [0..<n] @
      [(master_time loopStart start up n + 3 * pingInterval, master_time loopStart start up n + 3 * pingInterval, Inl ''i/o timeout'')]"
    by (simp add: master_reads_within IdleReadDeadline_def pings master_time_def pingInterval_def)
  then show read: "read_envelopes (master_reads loopStart pings) = pings" by (simp add: read_envelopes_reads pings)
  show "effects (conn_loop runner attemptAt conn nodeID tok (read_envelopes (master_reads loopStart pings)) s) =
      effects s @ map (\<lambda>i. Sent conn (Pong (ping_time start i + up i))) [0..<n]"
    unfolding read using pings_answered [of pings s conn runner attemptAt nodeID tok] assms(5,8) by (force simp: pings comp_def)
  have "0 \<le> up i + down i \<and> up i + down i \<le> 2 * pingInterval" if "i < n" for i using assms(1,2) [OF that] by simp
  moreover have "pongs = pong_arrivals start (\<lambda>i. up i + down i) pong 0 n"
    by (simp add: pongs pong_arrivals_def ping_time_def add.assoc)
  ultimately show "length (slave_reads start pongs) = Suc n"
    "serve (slave_reads start pongs) session c = (Some (ReadError ''i/o timeout''), c)"
    using pongs_read [of 0 n "\<lambda>i. up i + down i" pong start start session c] assms(6) by auto
qed (use reads_end pings_sent [OF assms(7)] cleaned_up [OF assms(9)] slave_session_ends in \<open>simp_all add: ping_time_def\<close>)

definition pong_envelope :: Envelope where
  "pong_envelope = \<lparr>env_Type = TypePong, as_register = Inl [], as_register_ack = Inl [], as_shutdown = Inl [],
     as_shutdown_ack = Inl [], as_error = Inl []\<rparr>"

theorem live_link_kept_dead_link_noticed_witness:
  "length (slave_reads 0 (map (\<lambda>i. (ping_time 0 i + 10 * second + 15 * second, pong_envelope)) [0..<3])) = 4"
  using live_link_kept_dead_link_noticed [of 3 "\<lambda>_. 10 * second" "\<lambda>_. 15 * second" 0 "2 * second" "\<lambda>_. pong_envelope\<lparr>env_Type := TypePing\<rparr>"
      "\<lambda>_. pong_envelope" "pr_client example_slave" example_server 4 "''web''"]
  by (simp add: pong_envelope_def pingInterval_def second_def example_slave_def slave_boot_def example_server_def)

end
