(* ===== verification/Floats.thy ===== *)
theory Floats
  imports Complex_Main
begin

text \<open>
  Floating-point numbers: the exact operations followed by a rounding \<open>rnd\<close>, of which only the
  error bound of IEEE doubles is used, and the conversion to integers.
\<close>

text \<open>The conversion of a float to an integer drops the fraction.\<close>

definition float_to_int :: "real \<Rightarrow> int" where
  "float_to_int x = (if 0 \<le> x then \<lfloor>x\<rfloor> else \<lceil>x\<rceil>)"

text \<open>The rounding of IEEE doubles to nearest, as far as it is used.\<close>

definition double_rounding :: "(real \<Rightarrow> real) \<Rightarrow> bool" where
  "double_rounding rnd \<longleftrightarrow> (\<forall>x. \<bar>rnd x - x\<bar> \<le> \<bar>x\<bar> / 2 ^ 53 + 1 / 2 ^ 1074)"

lemma rounding_errors:
  assumes "double_rounding rnd"
  shows "\<bar>x\<bar> \<le> 2 ^ 54 \<Longrightarrow> \<bar>rnd x - x\<bar> \<le> 3" "\<bar>x\<bar> \<le> 2 ^ 53 \<Longrightarrow> \<bar>rnd x - x\<bar> \<le> 3 / 2" "\<bar>x\<bar> \<le> 2 ^ 51 \<Longrightarrow> \<bar>rnd x - x\<bar> \<le> 1 / 2"
    "\<bar>x\<bar> \<le> 4 \<Longrightarrow> \<bar>rnd x - x\<bar> \<le> 1 / 2 ^ 50" "\<bar>x\<bar> \<le> 1 / 4 \<Longrightarrow> \<bar>rnd x - x\<bar> \<le> 1 / 2 ^ 54"
proof -
  have e: "\<bar>rnd x - x\<bar> \<le> \<bar>x\<bar> / 2 ^ 53 + 1 / 2 ^ 1074" using assms by (simp add: double_rounding_def)
  have t: "(1 :: real) / 2 ^ 1074 \<le> 1 / 2 ^ 60" by (rule divide_left_mono) (simp_all add: power_increasing)
  show "\<bar>rnd x - x\<bar> \<le> 3" if "\<bar>x\<bar> \<le> 2 ^ 54" using e t that by (simp add: field_simps)
  show "\<bar>rnd x - x\<bar> \<le> 3 / 2" if "\<bar>x\<bar> \<le> 2 ^ 53" using e t that by (simp add: field_simps)
  show "\<bar>rnd x - x\<bar> \<le> 1 / 2" if "\<bar>x\<bar> \<le> 2 ^ 51" using e t that by (simp add: field_simps)
  show "\<bar>rnd x - x\<bar> \<le> 1 / 2 ^ 50" if "\<bar>x\<bar> \<le> 4" using e t that by (simp add: field_simps)
  show "\<bar>rnd x - x\<bar> \<le> 1 / 2 ^ 54" if "\<bar>x\<bar> \<le> 1 / 4" using e t that by (simp add: field_simps)
qed

text \<open>The product of two rounded numbers.\<close>

lemma rounded_product:
  fixes F q :: real
  assumes rnd: "double_rounding rnd" and F: "0 \<le> F" "F \<le> 2 ^ 60" and q: "0 \<le> q" "q \<le> 2 ^ 42" and Fq: "F * q \<le> 2 ^ 42"
  shows "\<bar>rnd (rnd F * rnd q) - F * q\<bar> \<le> 1 / 100"
proof -
  have t: "(1 :: real) / 2 ^ 1074 \<le> 1 / 2 ^ 200" by (rule divide_left_mono) (simp_all add: power_increasing)
  have e: "\<bar>rnd x - x\<bar> \<le> \<bar>x\<bar> / 2 ^ 53 + 1 / 2 ^ 200" for x
    using rnd t order_trans [of "\<bar>rnd x - x\<bar>" "\<bar>x\<bar> / 2 ^ 53 + 1 / 2 ^ 1074"] unfolding double_rounding_def by fastforce
  have a: "\<bar>rnd F - F\<bar> \<le> F / 2 ^ 53 + 1 / 2 ^ 200" and b: "\<bar>rnd q - q\<bar> \<le> q / 2 ^ 53 + 1 / 2 ^ 200"
    using e [of F] e [of q] F(1) q(1) by simp_all
  have bq: "\<bar>rnd q\<bar> \<le> 2 * q + 1 / 2 ^ 200" using b q(1) by simp
  have "rnd F * rnd q - F * q = (rnd F - F) * rnd q + F * (rnd q - q)" by (simp add: algebra_simps)
  then have "\<bar>rnd F * rnd q - F * q\<bar> \<le> \<bar>rnd F - F\<bar> * \<bar>rnd q\<bar> + \<bar>F\<bar> * \<bar>rnd q - q\<bar>"
    by (metis abs_mult abs_triangle_ineq)
  also have "\<bar>rnd F - F\<bar> * \<bar>rnd q\<bar> \<le> (F / 2 ^ 53 + 1 / 2 ^ 200) * (2 * q + 1 / 2 ^ 200)"
    using a bq F(1) by (intro mult_mono) auto
  also have "\<dots> = 2 * (F * q) / 2 ^ 53 + F / 2 ^ 253 + 2 * q / 2 ^ 200 + 1 / 2 ^ 400" by (simp add: field_simps)
  also have "\<dots> \<le> 1 / 500" using F q Fq by (simp add: field_simps)
  also have "\<bar>F\<bar> * \<bar>rnd q - q\<bar> \<le> F * (q / 2 ^ 53 + 1 / 2 ^ 200)" using b F(1) by (simp add: mult_left_mono)
  also have "\<dots> = F * q / 2 ^ 53 + F / 2 ^ 200" by (simp add: field_simps)
  also have "\<dots> \<le> 1 / 1000" using F Fq by (simp add: field_simps)
  finally have p: "\<bar>rnd F * rnd q - F * q\<bar> \<le> 1 / 500 + 1 / 1000" by simp
  moreover have "0 \<le> F * q" using F(1) q(1) by simp
  moreover have "\<bar>x\<bar> \<le> c + 1" if "\<bar>x - y\<bar> \<le> 1 / 500 + 1 / 1000" "0 \<le> y" "y \<le> c" for x y c :: real
    using that by linarith
  ultimately have "\<bar>rnd F * rnd q\<bar> \<le> 2 ^ 42 + 1" using Fq by blast
  with e [of "rnd F * rnd q"] have "\<bar>rnd (rnd F * rnd q) - rnd F * rnd q\<bar> \<le> 1 / 1000" by (simp add: field_simps)
  moreover have "\<bar>z - y\<bar> \<le> 1 / 100" if "\<bar>z - x\<bar> \<le> 1 / 1000" "\<bar>x - y\<bar> \<le> 1 / 500 + 1 / 1000" for x y z :: real
    using that by linarith
  ultimately show ?thesis using p by blast
qed

end
