(* ===== verification/Reconnect.thy ===== *)
theory Reconnect
  imports SlaveBehaviour Floats
begin

text \<open>
  How long a slave waits between its attempts: \<open>jitterDuration\<close> and \<open>sleepWithContext\<close> of
  \<open>internal/slave/client.go\<close>. Floating-point operations are the exact ones followed by a rounding
  \<open>rnd\<close>, of which only the error bound of IEEE doubles is used; \<open>u\<close> is the result of
  \<open>rand.Float64\<close>, from 0 up to 1.
\<close>

section \<open>Waiting\<close>

definition backoffJitterFactor :: "(real \<Rightarrow> real) \<Rightarrow> real" where
  "backoffJitterFactor rnd = rnd (1 / 5)"

definition jitterDuration :: "(real \<Rightarrow> real) \<Rightarrow> real \<Rightarrow> duration \<Rightarrow> duration" where
  "jitterDuration rnd u d =
    (if d \<le> 0 then 0
     else
       let delta = rnd (rnd (of_int d) * backoffJitterFactor rnd);
           offset = rnd (rnd (rnd (u * 2) - 1) * delta);
           result = float_to_int (rnd (rnd (of_int d) + offset))
       in if result < 0 then 0 else result)"

text \<open>
  \<open>sleepWithContext\<close> with the time at which the context is cancelled, if ever: whether the slave
  goes on, and when.
\<close>

definition sleepWithContext :: "time option \<Rightarrow> time \<Rightarrow> duration \<Rightarrow> bool \<times> time" where
  "sleepWithContext cancelled now d =
    (if d \<le> 0 then (case cancelled of None \<Rightarrow> True | Some t \<Rightarrow> now < t, now)
     else case cancelled of
       None \<Rightarrow> (True, now + d)
     | Some t \<Rightarrow> if t < now + d then (False, max now t) else (True, now + d))"

text \<open>
  When the attempts of \<open>Run\<close> start, and when it returns, from the delays before jitter, the random
  numbers and how long each attempt takes. It returns once the context is cancelled; the
  end of the list is only the end of what is looked at.
\<close>

fun attempt_times ::
  "(real \<Rightarrow> real) \<Rightarrow> time option \<Rightarrow> time \<Rightarrow> (duration \<times> real \<times> duration) list \<Rightarrow> time list \<times> time" where
  "attempt_times rnd cancelled now [] = ([], now)"
| "attempt_times rnd cancelled now ((took, u, delay) # attempts) =
    (if (case cancelled of None \<Rightarrow> False | Some t \<Rightarrow> t \<le> now) then ([], now)
     else case sleepWithContext cancelled (now + took) (jitterDuration rnd u delay) of
       (False, t) \<Rightarrow> ([now], t)
     | (True, t) \<Rightarrow> (case attempt_times rnd cancelled t attempts of (later, returned) \<Rightarrow> (now # later, returned)))"

section \<open>The jitter\<close>

lemma near:
  fixes x y p a b :: real
  shows "\<bar>x - p\<bar> \<le> a \<Longrightarrow> \<bar>p - y\<bar> \<le> b \<Longrightarrow> \<bar>x - y\<bar> \<le> a + b"
    "\<bar>x - p\<bar> \<le> a \<Longrightarrow> \<bar>p\<bar> \<le> b \<Longrightarrow> \<bar>x\<bar> \<le> a + b"
    "\<bar>x - y\<bar> \<le> a \<Longrightarrow> \<bar>p\<bar> \<le> b \<Longrightarrow> \<bar>x + p - y\<bar> \<le> a + b"
  by linarith+

lemma offset_bound:
  assumes "\<bar>f - D\<bar> \<le> 3 / 2" "\<bar>c - 1 / 5\<bar> \<le> 1 / 2 ^ 54" "\<bar>delta - f * c\<bar> \<le> 1 / 2" "\<bar>v\<bar> \<le> 1 + 1 / 2 ^ 49"
    and "0 \<le> D" "D \<le> 2 ^ 53"
  shows "\<bar>v * delta\<bar> \<le> D / 5 + (5 :: real)"
proof -
  have "f * c - D / 5 = f * (c - 1 / 5) + (f - D) / 5" by (simp add: algebra_simps diff_divide_distrib)
  then have "\<bar>f * c - D / 5\<bar> \<le> \<bar>f * (c - 1 / 5)\<bar> + \<bar>f - D\<bar> / 5"
    using abs_triangle_ineq [of "f * (c - 1 / 5)" "(f - D) / 5"] by (simp only: abs_divide abs_numeral)
  also have "\<bar>f * (c - 1 / 5)\<bar> = \<bar>f\<bar> * \<bar>c - 1 / 5\<bar>" by (rule abs_mult)
  also have "\<bar>f\<bar> * \<bar>c - 1 / 5\<bar> \<le> (2 ^ 53 + 2) * (1 / 2 ^ 54)" (is "_ \<le> ?small")
  proof (rule mult_mono)
    show "\<bar>f\<bar> \<le> 2 ^ 53 + 2" using assms(1,5,6) by linarith
  qed (use assms(2) in simp_all)
  also have "?small \<le> 6 / 10" by simp
  finally have "\<bar>f * c - D / 5\<bar> \<le> 6 / 10 + \<bar>f - D\<bar> / 5" by simp
  then have "\<bar>f * c - D / 5\<bar> \<le> 9 / 10" using assms(1) by simp
  from near(1) [OF assms(3) this] have "\<bar>delta - D / 5\<bar> \<le> 3 / 2" by simp
  then have "\<bar>delta\<bar> \<le> D / 5 + 3 / 2" using assms(5) by linarith
  then have "\<bar>v\<bar> * \<bar>delta\<bar> \<le> (1 + 1 / 2 ^ 49) * (D / 5 + 3 / 2)"
    by (intro mult_mono) (use assms in auto)
  then show ?thesis using assms(5,6) by (simp add: abs_mult field_simps)
qed

lemma jitter_bounds:
  assumes "double_rounding rnd" "0 \<le> u" "u < 1" "0 < d" "d \<le> 2 ^ 53"
  shows "4 * d - 55 \<le> 5 * jitterDuration rnd u d" "5 * jitterDuration rnd u d \<le> 6 * d + 55" "0 \<le> jitterDuration rnd u d"
proof -
  let ?D = "of_int d :: real" and ?f = "rnd (of_int d)" and ?c = "rnd (1 / 5)"
  let ?v = "rnd (rnd (u * 2) - 1)" and ?delta = "rnd (rnd (of_int d) * rnd (1 / 5))"
  let ?offset = "rnd (?v * ?delta)" let ?r = "rnd (?f + ?offset)"
  have "?D \<le> of_int (2 ^ 53)" using assms(5) by (simp only: of_int_le_iff)
  then have D: "0 < ?D" "?D \<le> 2 ^ 53" using assms(4) by simp_all
  note r = rounding_errors [OF assms(1)]
  have f: "\<bar>?f - ?D\<bar> \<le> 3 / 2" using D by (intro r(2)) simp
  have c: "\<bar>?c - 1 / 5\<bar> \<le> 1 / 2 ^ 54" by (intro r(5)) simp
  have "\<bar>?c - 1 / 5\<bar> \<le> 1 / 1000" by (rule order_trans [OF c]) simp
  then have "\<bar>?f\<bar> \<le> 2 ^ 53 + 2" "\<bar>?c\<bar> \<le> 21 / 100" using f D by linarith+
  then have "\<bar>?f\<bar> * \<bar>?c\<bar> \<le> (2 ^ 53 + 2) * (21 / 100)" by (rule mult_mono) simp_all
  then have delta: "\<bar>?delta - ?f * ?c\<bar> \<le> 1 / 2" by (intro r(3)) (simp add: abs_mult)
  have w: "\<bar>rnd (u * 2) - u * 2\<bar> \<le> 1 / 2 ^ 50" using assms(2,3) by (intro r(4)) simp
  then have "\<bar>rnd (u * 2) - u * 2\<bar> \<le> 1 / 1000" by (rule order_trans) simp
  then have "\<bar>rnd (u * 2) - 1\<bar> \<le> 4" using assms(2,3) by linarith
  then have "\<bar>?v - (rnd (u * 2) - 1)\<bar> \<le> 1 / 2 ^ 50" by (rule r(4))
  moreover have "\<bar>v\<bar> \<le> 1 + 2 * e" if "\<bar>v - (x - 1)\<bar> \<le> e" "\<bar>x - u * 2\<bar> \<le> e" for v x e
    using that assms(2,3) by linarith
  ultimately have "\<bar>?v\<bar> \<le> 1 + 2 * (1 / 2 ^ 50)" using w by blast
  then have "\<bar>?v\<bar> \<le> 1 + 1 / 2 ^ 49" by simp
  then have q: "\<bar>?v * ?delta\<bar> \<le> ?D / 5 + 5" using offset_bound [OF f c delta] D by simp
  have "\<bar>?offset - ?v * ?delta\<bar> \<le> 1 / 2" using q D by (intro r(3)) simp
  from near(3) [OF f near(2) [OF this q]] have g: "\<bar>?f + ?offset - ?D\<bar> \<le> ?D / 5 + 7" by simp
  then have "\<bar>?f + ?offset\<bar> \<le> 2 ^ 54" using near(2) [OF g, of ?D] D by simp
  then have "\<bar>?r - (?f + ?offset)\<bar> \<le> 3" by (rule r(1))
  from near(1) [OF this g] have s: "\<bar>?r - ?D\<bar> \<le> ?D / 5 + 10" by simp
  have "\<bar>of_int (float_to_int ?r) - ?r\<bar> < 1" by (simp add: float_to_int_def abs_less_iff) linarith
  from near(1) [OF less_imp_le [OF this] s] have "\<bar>of_int (float_to_int ?r) - ?D\<bar> \<le> ?D / 5 + 11" by simp
  then have "4 * ?D - 55 \<le> 5 * of_int (float_to_int ?r)" "5 * of_int (float_to_int ?r) \<le> 6 * ?D + 55"
    by (simp_all add: abs_le_iff)
  then have "4 * d - 55 \<le> 5 * float_to_int ?r" "5 * float_to_int ?r \<le> 6 * d + 55" by linarith+
  then show "4 * d - 55 \<le> 5 * jitterDuration rnd u d" "5 * jitterDuration rnd u d \<le> 6 * d + 55" "0 \<le> jitterDuration rnd u d"
    using assms(4) by (auto simp: jitterDuration_def backoffJitterFactor_def Let_def)
qed

section \<open>The attempts\<close>

lemma jitter_nonneg: "0 \<le> jitterDuration rnd u d"
  by (simp add: jitterDuration_def Let_def)

lemma sleep_uncancelled: "sleepWithContext None now (jitterDuration rnd u d) = (True, now + jitterDuration rnd u d)"
  using jitter_nonneg [of rnd u d] by (simp add: sleepWithContext_def)

lemma attempt_times_gaps:
  "length (fst (attempt_times rnd None start xs)) = length xs"
  "Suc i < length xs \<Longrightarrow> xs ! i = (took, u, delay) \<Longrightarrow>
    fst (attempt_times rnd None start xs) ! Suc i = fst (attempt_times rnd None start xs) ! i + took + jitterDuration rnd u delay"
proof -
  show "length (fst (attempt_times rnd None start xs)) = length xs"
    by (induction xs arbitrary: start) (auto simp: sleep_uncancelled case_prod_beta)
  show "fst (attempt_times rnd None start xs) ! Suc i = fst (attempt_times rnd None start xs) ! i + took + jitterDuration rnd u delay"
    if "Suc i < length xs" "xs ! i = (took, u, delay)"
    using that
  proof (induction xs arbitrary: start i)
    case (Cons x xs)
    obtain a b c where x: "x = (a, b, c)" by (cases x)
    have first: "fst (attempt_times rnd None t ys) ! 0 = t" if "ys \<noteq> []" for t ys
      using that by (cases ys) (auto simp: sleep_uncancelled case_prod_beta)
    show ?case using Cons by (cases i) (auto simp: x sleep_uncancelled case_prod_beta first)
  qed simp
qed

lemma sleep_stopped:
  "0 \<le> w \<Longrightarrow> sleepWithContext (Some stop) now w =
    (if stop < now + w \<or> (w = 0 \<and> stop = now) then (False, max now stop) else (True, now + w))"
  by (auto simp: sleepWithContext_def)

lemma attempts_none_before:
  "stop \<le> start \<Longrightarrow> takeWhile (\<lambda>t. t < stop) (fst (attempt_times rnd None start xs)) = []"
  by (cases xs) (auto simp: sleep_uncancelled case_prod_beta)

lemma attempts_stopped:
  assumes "attempt_times rnd (Some stop) start xs = (ts, returned)"
  shows "ts = takeWhile (\<lambda>t. t < stop) (fst (attempt_times rnd None start xs))"
    "start < stop \<Longrightarrow> stop \<le> snd (attempt_times rnd None start xs) \<Longrightarrow>
      ts \<noteq> [] \<and> returned = max stop (last ts + fst (xs ! (length ts - 1)))"
proof -
  have "ts = takeWhile (\<lambda>t. t < stop) (fst (attempt_times rnd None start xs)) \<and>
    (start < stop \<and> stop \<le> snd (attempt_times rnd None start xs) \<longrightarrow>
      ts \<noteq> [] \<and> returned = max stop (last ts + fst (xs ! (length ts - 1))))"
    using assms
  proof (induction xs arbitrary: start ts returned)
    case (Cons x xs)
    obtain took u delay where x: "x = (took, u, delay)" by (cases x)
    let ?w = "jitterDuration rnd u delay" let ?next = "start + took + ?w"
    obtain later r where rec: "attempt_times rnd (Some stop) ?next xs = (later, r)"
      by (cases "attempt_times rnd (Some stop) ?next xs")
    consider "stop \<le> start" | "start < stop" "stop < ?next \<or> (?w = 0 \<and> stop = start + took)"
      | "start < stop" "?next \<le> stop" "\<not> (?w = 0 \<and> stop = start + took)" by linarith
    then show ?case
    proof cases
      case 1
      with Cons.prems attempts_none_before [of stop start rnd "x # xs"] show ?thesis by (simp add: x)
    next
      case 2
      with Cons.prems attempts_none_before [of stop ?next rnd xs] show ?thesis
        by (auto simp: x sleep_stopped [OF jitter_nonneg] sleep_uncancelled case_prod_beta split: if_splits)
    next
      case 3
      then have ts: "ts = start # later" "returned = r"
        using Cons.prems by (auto simp: x sleep_stopped [OF jitter_nonneg] rec split: if_splits)
      from Cons.IH [OF rec] jitter_nonneg [of rnd u delay] 3 show ?thesis
        by (cases "?next = stop"; cases xs) (use rec in \<open>auto simp: ts x sleep_uncancelled case_prod_beta\<close>)
    qed
  qed simp
  then show "ts = takeWhile (\<lambda>t. t < stop) (fst (attempt_times rnd None start xs))"
    "start < stop \<Longrightarrow> stop \<le> snd (attempt_times rnd None start xs) \<Longrightarrow>
      ts \<noteq> [] \<and> returned = max stop (last ts + fst (xs ! (length ts - 1)))" by blast+
qed

text \<open>
  C28. A slave that cannot reach its master keeps trying, at the right pace, until it is stopped.
  After the first failed attempt it waits the configured interval, after the \<open>i\<close>-th more the
  interval doubled \<open>i\<close> times but at most 60 seconds, give or take a fifth of it (and eleven nanoseconds of
  rounding), whatever the random numbers are; so never longer than 73 seconds, except for an
  interval that is itself configured longer than 60 seconds, which the first wait takes in full. Intervals
  up to \<open>2 ^ 53\<close> nanoseconds (104 days) are covered. Stopped at any time, it has started exactly the
  attempts due before, and it returns at once: when it is stopped, or when the attempt then
  under way ends.
\<close>

theorem reconnect_attempts_paced:
  assumes "double_rounding rnd" "0 < d" "d \<le> 2 ^ 53" "list_all (\<lambda>a. fst a = False) attempts"
    and "length tooks = length attempts" "length us = length attempts" "list_all (\<lambda>u. 0 \<le> u \<and> u < 1) us"
    and xs: "xs = zip tooks (zip us (fst (slave_Run attempts d c)))"
    and starts: "attempt_times rnd None start xs = (starts, later)"
  shows "length starts = length attempts \<and>
    (\<forall>i. Suc i < length attempts \<longrightarrow>
      (let base = (if i = 0 then d else min (2 ^ i * d) (60 * second)); wait = starts ! Suc i - (starts ! i + tooks ! i)
       in 4 * base - 55 \<le> 5 * wait \<and> 5 * wait \<le> 6 * base + 55 \<and> (base \<le> 60 * second \<longrightarrow> wait \<le> 73 * second))) \<and>
    (\<forall>stop started returned. attempt_times rnd (Some stop) start xs = (started, returned) \<longrightarrow>
      started = takeWhile (\<lambda>t. t < stop) starts \<and>
      (start < stop \<and> stop \<le> later \<longrightarrow>
        started \<noteq> [] \<and> returned = max stop (last started + tooks ! (length started - 1))))"
proof -
  let ?base = "\<lambda>i. if i = 0 then d else min (2 ^ i * d) (60 * second)"
  have "d \<le> maxDuration" using assms(3) by (simp add: maxDuration_def)
  then have delays: "fst (slave_Run attempts d c) = map ?base [0..<length attempts]"
    using assms(2,4) by (subst backoff_doubles_to_cap) (auto simp: list_all_iff maxReconnectInterval_def)
  have xsi: "xs ! i = (tooks ! i, us ! i, ?base i)" if "i < length attempts" for i
    using that assms(5,6) by (simp add: xs delays)
  have len: "length xs = length attempts" using assms(5,6) by (simp add: xs delays)
  have gap: "let base = ?base i; wait = starts ! Suc i - (starts ! i + tooks ! i)
      in 4 * base - 55 \<le> 5 * wait \<and> 5 * wait \<le> 6 * base + 55 \<and> (base \<le> 60 * second \<longrightarrow> wait \<le> 73 * second)"
    if i: "Suc i < length attempts" for i
  proof -
    have "starts ! Suc i - (starts ! i + tooks ! i) = jitterDuration rnd (us ! i) (?base i)"
      using attempt_times_gaps(2) [of i xs "tooks ! i" "us ! i" "?base i" rnd start] xsi [of i] i starts by (simp add: len)
    moreover have "0 \<le> us ! i \<and> us ! i < 1" using i assms(6,7) by (simp add: list_all_length)
    moreover have "0 < ?base i" "?base i \<le> 2 ^ 53" using assms(2,3) by (simp_all add: second_def min.coboundedI2)
    ultimately show ?thesis
      using jitter_bounds [OF assms(1), of "us ! i" "?base i"] by (simp only: Let_def) (simp add: second_def)
  qed
  have "fst (xs ! (length started - 1)) = tooks ! (length started - 1)"
    if "started = takeWhile (\<lambda>t. t < stop) starts" "started \<noteq> []" for started stop
  proof -
    have "length started - 1 < length attempts"
      using that length_takeWhile_le [of "\<lambda>t. t < stop" starts] attempt_times_gaps(1) [of rnd start xs] starts len
      by (cases "length started") auto
    from xsi [OF this] show ?thesis by (simp only: fst_conv)
  qed
  then show ?thesis
    using gap attempt_times_gaps(1) [of rnd start xs] attempts_stopped [of rnd _ start xs] len
    by (simp add: starts) metis
qed

definition example_attempts :: "(bool \<times> nat \<times> (string + Envelope) \<times> (time \<times> time \<times> (string + Envelope)) list) list" where
  "example_attempts = replicate 3 (False, 1, Inl [], [])"

definition example_delays :: "(duration \<times> real \<times> duration) list" where
  "example_delays = zip [5, 5, 5] (zip [0, 1 / 2, 3 / 4] (fst (slave_Run example_attempts (10 * second) (pr_client example_slave))))"

text \<open>Exact arithmetic is a rounding of this kind.\<close>

theorem reconnect_attempts_paced_witness:
  "\<exists>starts later. attempt_times id None 0 example_delays = (starts, later) \<and> length starts = 3 \<and>
   starts ! 2 - (starts ! 1 + 5) \<le> 73 * second"
proof -
  have rnd: "double_rounding id" by (simp add: double_rounding_def)
  have d: "0 < 10 * second" "10 * second \<le> 2 ^ 53" by (simp_all add: second_def)
  have us: "list_all (\<lambda>u. 0 \<le> u \<and> u < 1) [0, 1 / 2, 3 / 4 :: real]" by simp
  have as: "list_all (\<lambda>a. fst a = False) example_attempts" "length example_attempts = 3" by (simp_all add: example_attempts_def list_all_iff)
  have three: "length [5, 5, 5 :: int] = length example_attempts" "length [0, 1 / 2, 3 / 4 :: real] = length example_attempts"
    by (simp_all add: as)
  obtain starts later where r: "attempt_times id None 0 example_delays = (starts, later)" by fastforce
  note paced = reconnect_attempts_paced [OF rnd d as(1) three us example_delays_def r]
  have "length starts = 3" using paced unfolding as(2) by (elim conjE)
  moreover have "starts ! Suc 1 - (starts ! 1 + [5, 5, 5] ! 1) \<le> 73 * second"
    using paced [THEN conjunct2, THEN conjunct1, THEN spec, of 1] by (simp add: as Let_def)
  ultimately show ?thesis using r by (simp add: numeral_2_eq_2)
qed

end
