(* ===== verification/Polling.thy ===== *)
theory Polling
  imports Runs Behaviour Nut Snmp
begin

text \<open>
  The loops of the master as the code runs them when no other goroutine comes in between: a poll
  of the UPS (\<open>readUPS\<close>, \<open>runPollingLoop\<close> of \<open>ups.go\<close>), a tick of the command watcher
  (\<open>runCommandWatcher\<close> of \<open>local_shutdown.go\<close>) and the handling of a report (\<open>conn.go\<close>), and how
  they relate to the step relation of \<open>Master\<close>, which cuts them at their critical sections.
\<close>

section \<open>Polls\<close>

text \<open>
  One attempt to read the UPS: what the network does for each of the two sources, and the text
  of their errors.
\<close>

record ups_link =
  ul_ParseFloat :: "string \<Rightarrow> float64"
  ul_dialOK :: bool
  ul_sendOK :: bool
  ul_reply :: string
  ul_Connect :: "snmp_client \<Rightarrow> bool"
  ul_Get :: "snmp_client \<Rightarrow> string list \<Rightarrow> SnmpPacket option"
  ul_nutText :: "ups_error \<Rightarrow> string"
  ul_snmpText :: "snmp_error \<Rightarrow> string"

definition readUPS :: "ups_link \<Rightarrow> Server \<Rightarrow> string + UPSStatus" where
  "readUPS link s =
    (if UsesNUT (cfg s) then
       (case ReadNUTStatus (ul_ParseFloat link) (ul_dialOK link) (ul_sendOK link) (ul_reply link) (mc_NUT (cfg s)) of
          Inl e \<Rightarrow> Inl (ul_nutText link e) | Inr status \<Rightarrow> Inr status)
     else
       (case ReadSNMPStatus (ul_Connect link) (ul_Get link) (mc_SNMP (cfg s)) of
          Inl e \<Rightarrow> Inl (ul_snmpText link e) | Inr status \<Rightarrow> Inr status))"

text \<open>The polls until the context is cancelled: their times, what the network did, and a fresh command id for each.\<close>

fun runPollingLoop :: "(time \<times> ups_link \<times> string) list \<Rightarrow> Server \<Rightarrow> Server" where
  "runPollingLoop [] s = s"
| "runPollingLoop ((polledAt, link, cid) # polls) s = runPollingLoop polls (evaluateUPS polledAt (readUPS link s) cid s)"

section \<open>The goroutines one at a time\<close>

text \<open>A poll, a tick of the watcher, or a report that a connection serving \<open>nodeID\<close> has read.\<close>

datatype event =
    Poll time ups_link string
  | Tick time time
  | Report nat string string Envelope time time

fun handle_event :: "(string list \<Rightarrow> string \<Rightarrow> bool \<Rightarrow> string option) \<Rightarrow> event \<Rightarrow> Server \<Rightarrow> Server" where
  "handle_event runner (Poll polledAt link cid) s = evaluateUPS polledAt (readUPS link s) cid s"
| "handle_event runner (Tick attemptAt now) s = watcherTick runner attemptAt now s"
| "handle_event runner (Report conn nodeID tok env attemptAt now) s =
    snd (conn_receive runner attemptAt now conn nodeID tok (Inr env) s)"

text \<open>The ids of the polls are fresh, and the reports come in on serving connections.\<close>

fun event_ok :: "(nat, conn_phase) gomap \<Rightarrow> event \<Rightarrow> bool" where
  "event_ok hs (Poll polledAt link cid) = (cid \<noteq> [])"
| "event_ok hs (Tick attemptAt now) = True"
| "event_ok hs (Report conn nodeID tok env attemptAt now) =
    (env_Type env = TypeShutdownAck \<and> map_of hs conn = Some (Serving nodeID tok))"

fun drawn_ids :: "event list \<Rightarrow> string list" where
  "drawn_ids [] = []"
| "drawn_ids (Poll polledAt link cid # es) = cid # drawn_ids es"
| "drawn_ids (_ # es) = drawn_ids es"

text \<open>No goroutine of the polling loop, the watcher or the local shutdown is in the middle of something.\<close>

definition idle :: "master \<Rightarrow> bool" where
  "idle m \<longleftrightarrow> firing m = [] \<and> decided m = [] \<and> running m = []"

section \<open>Every event is a run\<close>

abbreviation runs_to :: "master \<Rightarrow> master \<Rightarrow> bool" where
  "runs_to \<equiv> master_step\<^sup>*\<^sup>*"

lemma quiet_run: "quiet_step m m' \<Longrightarrow> runs_to m m'"
  by (auto intro: master_step.quiet)

text \<open>\<open>m'\<close> is \<open>m\<close> with another server, idle as before, and at most the given ids drawn.\<close>

definition settles :: "string set \<Rightarrow> master \<Rightarrow> Server \<Rightarrow> master \<Rightarrow> bool" where
  "settles ids m s m' \<longleftrightarrow> runs_to m m' \<and> srv m' = s \<and> idle m' \<and> handlers m' = handlers m \<and>
     set (usedIDs m') \<subseteq> ids \<union> set (usedIDs m)"

lemma settles_step:
  "runs_to m m1 \<Longrightarrow> handlers m1 = handlers m \<Longrightarrow> set (usedIDs m1) \<subseteq> ids \<union> set (usedIDs m) \<Longrightarrow> settles ids m1 s m' \<Longrightarrow> settles ids m s m'"
  by (auto simp: settles_def)

lemma policies_run:
  assumes step: "\<And>s' due. evaluateEpisodePoliciesLocked reading t s = (s', due) \<Longrightarrow> quiet_step m (m\<lparr>srv := s', firing := due\<rparr>)"
    and "idle m" "cid \<noteq> []" "cid \<notin> set (usedIDs m)"
  shows "\<exists>m'. settles {cid} m (evaluateEpisodePolicies reading t cid s) m'"
proof -
  obtain s' due where l: "evaluateEpisodePoliciesLocked reading t s = (s', due)" by (cases "evaluateEpisodePoliciesLocked reading t s")
  have c: "cfg s' = cfg s" using l
    by (auto simp: evaluateEpisodePoliciesLocked_def Let_def split: if_splits option.splits prod.splits)
  let ?m = "m\<lparr>srv := s', firing := due\<rparr>"
  have first: "runs_to m ?m" using step [OF l] by (rule quiet_run)
  show ?thesis
  proof (cases "due = []")
    case True
    with first assms(2) show ?thesis by (intro exI [of _ ?m]) (auto simp: evaluateEpisodePolicies_def l settles_def idle_def)
  next
    case False
    have "quiet_step ?m (?m\<lparr>srv := applyPolicyMatch (buildPolicyMatch (mc_ShutdownPolicies (cfg (srv ?m))) (firing ?m)) t cid (srv ?m),
        firing := [], usedIDs := cid # usedIDs ?m\<rparr>)"
      using False assms by (intro quiet_step.fire) simp_all
    from rtranclp_trans [OF first quiet_run [OF this]] assms(2) show ?thesis
      by (intro exI) (auto simp: evaluateEpisodePolicies_def l False c settles_def idle_def)
  qed
qed

lemma poll_run:
  assumes "idle m" "cid \<noteq> []" "cid \<notin> set (usedIDs m)"
  shows "\<exists>m'. settles {cid} m (evaluateUPS t r cid (srv m)) m'"
proof -
  have firing: "firing m = []" using assms(1) by (simp add: idle_def)
  consider err where "r = Inl err" | st where "r = Inr st" "ups_OnBattery st" | st where "r = Inr st" "\<not> ups_OnBattery st"
    by (cases r) auto
  then show ?thesis
  proof cases
    case (1 err)
    have "\<exists>m'. settles {cid} m (evaluateEpisodePolicies None t cid (recordUPSError err t (srv m))) m'"
      using quiet_step.poll_failed [OF firing] assms by (rule policies_run)
    then show ?thesis by (simp add: evaluateUPS_def 1)
  next
    case (2 st)
    have "\<exists>m'. settles {cid} m (evaluateEpisodePolicies (Some st) t cid
        ((startEpisodeIfNeeded t (recordUPSSuccess st t (srv m)))\<lparr>upsConfirmed := True\<rparr>)) m'"
      using quiet_step.poll_battery [OF firing 2(2)] assms by (rule policies_run)
    then show ?thesis by (simp add: evaluateUPS_def 2 Let_def)
  next
    case (3 st)
    let ?s = "(endEpisodeOnLinePower (recordUPSSuccess st t (srv m)))\<lparr>upsConfirmed := True\<rparr>"
    have "runs_to m (m\<lparr>srv := ?s\<rparr>)" by (rule quiet_run [OF quiet_step.poll_line [OF firing 3(2)]])
    then have "settles {cid} m ?s (m\<lparr>srv := ?s\<rparr>)" using assms(1) by (auto simp: settles_def idle_def)
    then show ?thesis by (auto simp: evaluateUPS_def 3 Let_def)
  qed
qed

text \<open>A decision is claimed, run and finished.\<close>

lemma execution_run:
  assumes "idle m"
  shows "\<exists>m'. settles {} (decide_on cid tr m) (if tr \<noteq> [] then beginLocalShutdownExecution runner cid tr attemptAt (srv m) else srv m) m'"
proof (cases "tr = []")
  case True
  with assms show ?thesis by (intro exI [of _ m]) (simp add: decide_on_def settles_def)
next
  case False
  let ?m = "m\<lparr>decided := [(cid, tr)]\<rparr>" and ?command = "slice (lc_Command (mc_LocalShutdown (cfg (srv m))))"
  have d: "decide_on cid tr m = ?m" using False assms by (simp add: decide_on_def idle_def)
  obtain res s' where claim: "beginLocalShutdownClaim cid tr attemptAt (srv m) = (res, s')" by (cases "beginLocalShutdownClaim cid tr attemptAt (srv m)")
  have c: "cfg s' = cfg (srv m)" using claim by (auto simp: beginLocalShutdownClaim_def Let_def split: option.splits if_splits)
  show ?thesis
  proof (cases res)
    case None
    have "quiet_step ?m (?m\<lparr>srv := s', decided := remove1 (cid, tr) (decided ?m)\<rparr>)"
      using claim None by (intro quiet_step.claim_lost [where t = attemptAt]) simp_all
    from quiet_run [OF this] assms show ?thesis
      unfolding d by (intro exI) (auto simp: settles_def idle_def beginLocalShutdownExecution_def claim None False)
  next
    case (Some dry)
    let ?m1 = "?m\<lparr>srv := emit [Ran (slice (lc_Command (mc_LocalShutdown (cfg s')))) tr dry] s',
        decided := remove1 (cid, tr) (decided ?m), running := running ?m @ [cid]\<rparr>"
    have "quiet_step ?m ?m1" using claim Some by (intro quiet_step.claim [where t = attemptAt]) simp_all
    moreover have "quiet_step ?m1 (?m1\<lparr>srv := beginLocalShutdownFinish cid (runner ?command tr dry) (srv ?m1),
        running := remove1 cid (running ?m1)\<rparr>)"
      by (intro quiet_step.finish) simp
    ultimately show ?thesis using assms False unfolding d
      by (intro exI [of _ "?m1\<lparr>srv := beginLocalShutdownFinish cid (runner ?command tr dry) (srv ?m1), running := []\<rparr>"])
        (auto simp: settles_def idle_def beginLocalShutdownExecution_def claim Some c Let_def
          intro: rtranclp_trans [OF quiet_run quiet_run])
  qed
qed

lemma tick_run:
  assumes "idle m"
  shows "\<exists>m'. settles {} m (watcherTick runner attemptAt now (srv m)) m'"
proof -
  let ?s = "retryEpisodeShutdown now (markTimedOutCommands now (srv m))"
  let ?u = "latestSuccessfulUPSStatus ?s" and ?m = "m\<lparr>srv := ?s\<rparr>"
  have "quiet_step m (m\<lparr>srv := markTimedOutCommands now (srv m)\<rparr>)" by (rule quiet_step.sweep)
  moreover have "quiet_step (m\<lparr>srv := markTimedOutCommands now (srv m)\<rparr>) ?m"
    using quiet_step.retry [of "m\<lparr>srv := markTimedOutCommands now (srv m)\<rparr>" now] by simp
  ultimately have first: "runs_to m ?m" by (auto intro: rtranclp_trans [OF quiet_run quiet_run])
  show ?thesis
  proof (cases "lc_Enabled (mc_LocalShutdown (cfg ?s))")
    case False
    with first assms show ?thesis
      by (intro exI [of _ ?m]) (auto simp: settles_def idle_def watcherTick_def evaluateLocalShutdown_def Let_def)
  next
    case True
    obtain s' d where l: "evaluateLocalShutdownLocked now ?u ?s = (s', d)" by (cases "evaluateLocalShutdownLocked now ?u ?s")
    let ?m1 = "?m\<lparr>srv := replay_decision d s'\<rparr>"
    have step: "quiet_step ?m (decide_on (ld_commandID d) (ld_trigger d) ?m1)"
      using True l by (intro quiet_step.local_check) simp_all
    have "idle ?m1" using assms by (simp add: idle_def)
    then obtain m' where m': "settles {} (decide_on (ld_commandID d) (ld_trigger d) ?m1)
        (if ld_trigger d \<noteq> [] then beginLocalShutdownExecution runner (ld_commandID d) (ld_trigger d) attemptAt (srv ?m1) else srv ?m1) m'"
      using execution_run by blast
    have "watcherTick runner attemptAt now (srv m) =
        (if ld_trigger d \<noteq> [] then beginLocalShutdownExecution runner (ld_commandID d) (ld_trigger d) attemptAt (srv ?m1) else srv ?m1)"
      using True l by (simp add: watcherTick_def evaluateLocalShutdown_def replay_decision_def Let_def)
    with settles_step [OF rtranclp_trans [OF first quiet_run [OF step]] _ _ m'] show ?thesis
      by (auto simp: decide_on_def)
  qed
qed

lemma report_run:
  assumes "idle m" "env_Type env = TypeShutdownAck" "map_of (handlers m) conn = Some (Serving nodeID tok)"
  shows "\<exists>m'. settles {} m (snd (conn_receive runner attemptAt now conn nodeID tok (Inr env) (srv m))) m'"
proof -
  let ?s = "touch conn nodeID now (srv m)"
  have received: "snd (conn_receive runner attemptAt now conn nodeID tok (Inr env) (srv m)) =
      (case as_shutdown_ack env of
         Inl err \<Rightarrow> ?s
       | Inr ack \<Rightarrow> if \<not> isReportableShutdownStatus (ack_Status ack) then ?s
                   else recordShutdownUpdate runner attemptAt now (ack\<lparr>ack_NodeID := nodeID\<rparr>) ?s)"
    using assms(2) by (simp add: conn_receive_def handleEnvelope_def touch_def Let_def consts_simps split: sum.split)
  show ?thesis
  proof (cases "\<exists>ack. as_shutdown_ack env = Inr ack \<and> isReportableShutdownStatus (ack_Status ack)")
    case False
    have "runs_to m (m\<lparr>srv := ?s\<rparr>)" by (rule quiet_run [OF quiet_step.ignore_ack [OF assms(3)]])
    then show ?thesis using False assms(1) unfolding received
      by (intro exI [of _ "m\<lparr>srv := ?s\<rparr>"]) (auto simp: settles_def idle_def split: sum.split)
  next
    case True
    then obtain ack where ack: "as_shutdown_ack env = Inr ack" "isReportableShutdownStatus (ack_Status ack)" by blast
    obtain start s' where l: "recordShutdownUpdateLocked now (ack\<lparr>ack_NodeID := nodeID\<rparr>) ?s = (start, s')"
      by (cases "recordShutdownUpdateLocked now (ack\<lparr>ack_NodeID := nodeID\<rparr>) ?s")
    let ?tr = "if start then TriggerRemoteComplete else []" and ?m1 = "m\<lparr>srv := s'\<rparr>"
    have step: "runs_to m (decide_on (ack_CommandID ack) ?tr ?m1)"
      using ack_step.acknowledge [OF assms(3) ack(2) l] by (intro r_into_rtranclp master_step.ack)
    have "idle ?m1" using assms(1) by (simp add: idle_def)
    then obtain m' where m': "settles {} (decide_on (ack_CommandID ack) ?tr ?m1)
        (if ?tr \<noteq> [] then beginLocalShutdownExecution runner (ack_CommandID ack) ?tr attemptAt (srv ?m1) else srv ?m1) m'"
      using execution_run by blast
    have "snd (conn_receive runner attemptAt now conn nodeID tok (Inr env) (srv m)) =
        (if ?tr \<noteq> [] then beginLocalShutdownExecution runner (ack_CommandID ack) ?tr attemptAt (srv ?m1) else srv ?m1)"
      unfolding received using ack l by (simp add: recordShutdownUpdate_def consts_simps)
    with settles_step [OF step _ _ m'] show ?thesis by (auto simp: decide_on_def)
  qed
qed

lemma event_run:
  assumes "idle m" "event_ok (handlers m) e" "set (drawn_ids [e]) \<inter> set (usedIDs m) = {}"
  shows "\<exists>m'. settles (set (drawn_ids [e])) m (handle_event runner e (srv m)) m'"
  using assms by (cases e) (auto intro: poll_run tick_run report_run)

text \<open>
  C5. The step relation of the master covers the code as it is written: from any state with no
  goroutine under way, handling whole polls (from the bytes of the UPS on), whole ticks of the
  command watcher and whole reports of slaves one after the other, in any order and number, is a
  run of steps, which ends with no goroutine under way and in the state the code computes; so the
  invariant of the master holds in it.
\<close>

theorem whole_handlers_are_runs:
  assumes "idle m" "list_all (event_ok (handlers m)) es" "distinct (drawn_ids es)" "set (drawn_ids es) \<inter> set (usedIDs m) = {}"
    and "master_inv m"
  shows "\<exists>m'. master_step\<^sup>*\<^sup>* m m' \<and> srv m' = fold (handle_event runner) es (srv m) \<and> idle m' \<and> master_inv m'"
  using assms
proof (induction es arbitrary: m)
  case (Cons e es)
  have ids: "drawn_ids (e # es) = drawn_ids [e] @ drawn_ids es" by (cases e) simp_all
  obtain m1 where m1: "runs_to m m1" "srv m1 = handle_event runner e (srv m)" "idle m1" "handlers m1 = handlers m"
    "set (usedIDs m1) \<subseteq> set (drawn_ids [e]) \<union> set (usedIDs m)"
    using event_run [OF Cons.prems(1), of e runner] Cons.prems(2,4) unfolding ids by (auto simp: settles_def)
  have "master_inv m1" using m1(1) Cons.prems(5) lifetime.reachable_inv by blast
  moreover have "set (drawn_ids es) \<inter> set (usedIDs m1) = {}" using m1(5) Cons.prems(3,4) unfolding ids by auto
  ultimately obtain m' where "runs_to m1 m'" "srv m' = fold (handle_event runner) es (srv m1)" "idle m'" "master_inv m'"
    using Cons.IH [of m1] m1(3,4) Cons.prems(2,3) unfolding ids by auto
  with m1 show ?case by (auto intro: rtranclp_trans)
qed auto

lemma runPollingLoop_events: "runPollingLoop polls s = fold (handle_event runner) (map (\<lambda>(t, link, cid). Poll t link cid) polls) s"
  by (induction polls s rule: runPollingLoop.induct) simp_all

definition silent_link :: ups_link where
  "silent_link = \<lparr>ul_ParseFloat = (\<lambda>_. ParseError), ul_dialOK = False, ul_sendOK = False, ul_reply = [], ul_Connect = (\<lambda>_. False),
     ul_Get = (\<lambda>_ _. None), ul_nutText = (\<lambda>_. ''nut''), ul_snmpText = (\<lambda>_. ''snmp'')\<rparr>"

theorem whole_handlers_are_runs_witness:
  "\<exists>m'. master_step\<^sup>*\<^sup>* example_boot m' \<and>
    srv m' = fold (handle_event (\<lambda>_ _ _. None)) [Poll 5 silent_link ''c7'', Tick 6 6, Poll 7 silent_link ''c8''] (srv example_boot)"
proof -
  have "master_inv example_boot" using process.init_inv example_first_boot by blast
  moreover have "idle example_boot" "usedIDs example_boot = []" "handlers example_boot = []"
    by (simp_all add: idle_def example_boot_def started_def NewServer_def loadState_def empty_server_def Let_def)
  ultimately show ?thesis
    using whole_handlers_are_runs [of example_boot "[Poll 5 silent_link ''c7'', Tick 6 6, Poll 7 silent_link ''c8'']" "\<lambda>_ _ _. None"]
    by (simp del: fold.simps) blast
qed

section \<open>From the bytes to the episode\<close>

lemma episode_policies: "(episode (evaluateEpisodePolicies reading t cid s) = None) = (episode s = None)"
proof -
  obtain s1 due where l: "evaluateEpisodePoliciesLocked reading t s = (s1, due)" by (cases "evaluateEpisodePoliciesLocked reading t s")
  have "(episode s1 = None) = (episode s = None)" "episode s = None \<Longrightarrow> due = []"
    using l by (auto simp: evaluateEpisodePoliciesLocked_def Let_def split: if_splits option.splits prod.splits)
  moreover have "episode (applyPolicyMatch pm t cid s1) \<noteq> None" if "episode s1 \<noteq> None" for pm
    using that fired_after_apply [of s1] by fastforce
  ultimately show ?thesis unfolding evaluateEpisodePolicies_def l prod.case by (metis (full_types))
qed

lemma episode_poll:
  "(episode (evaluateUPS t r cid s) = None) = (case r of Inl err \<Rightarrow> episode s = None | Inr st \<Rightarrow> \<not> ups_OnBattery st)"
  by (auto simp: evaluateUPS_def episode_policies startEpisodeIfNeeded_def Let_def split: sum.split option.split)

text \<open>The status value of a reply of \<open>upsd\<close> that gives a reading.\<close>

definition reported_status :: "ups_link \<Rightarrow> string \<Rightarrow> string option" where
  "reported_status link ups =
    (if \<not> ul_dialOK link \<or> \<not> ul_sendOK link then None
     else case readNUTVarList (ul_reply link) ups of
       Inl e \<Rightarrow> None
     | Inr vars \<Rightarrow> (case decodeNUTVars (ul_ParseFloat link) vars of Inl e \<Rightarrow> None | Inr st \<Rightarrow> map_of vars ''ups.status''))"

text \<open>
  C39. Whatever bytes \<open>upsd\<close> answers, a poll puts the master on battery exactly when they hold a
  complete reading whose status has the flag OB, and takes it off battery exactly when that status
  has OL and not OB; everything else, such as an error, a truncated or malformed reply or an unknown
  status, neither starts nor ends an episode.
\<close>

theorem bytes_decide_episode:
  assumes "UsesNUT (cfg s)" "s' = evaluateUPS t (readUPS link s) cid s"
  shows "(case reported_status link (nu_UPS (mc_NUT (cfg s))) of
      None \<Rightarrow> (episode s' = None) = (episode s = None)
    | Some v \<Rightarrow> (episode s' \<noteq> None) = (''OB'' \<in> set (Fields v)) \<and>
        (episode s' = None) = (''OL'' \<in> set (Fields v) \<and> ''OB'' \<notin> set (Fields v)))"
proof (cases "readUPS link s")
  case (Inl err)
  then have "reported_status link (nu_UPS (mc_NUT (cfg s))) = None"
    using assms(1) by (auto simp: readUPS_def ReadNUTStatus_def reported_status_def split: if_splits sum.splits)
  then show ?thesis by (simp add: assms(2) Inl episode_poll)
next
  case (Inr st)
  then obtain vars where vars: "ul_dialOK link" "ul_sendOK link" "readNUTVarList (ul_reply link) (nu_UPS (mc_NUT (cfg s))) = Inr vars"
    "decodeNUTVars (ul_ParseFloat link) vars = Inr st"
    using assms(1) by (auto simp: readUPS_def ReadNUTStatus_def split: if_splits sum.splits)
  from vars(4) obtain v where "map_of vars ''ups.status'' = Some v" "ups_OnBattery st = (''OB'' \<in> set (Fields v))"
    "''OB'' \<in> set (Fields v) \<or> ''OL'' \<in> set (Fields v)"
    by (rule decodeNUTVars_Inr)
  with vars show ?thesis by (auto simp: assms(2) Inr episode_poll reported_status_def)
qed

definition nut_server :: Server where
  "nut_server = example_server\<lparr>cfg := (cfg example_server)\<lparr>mc_NUT := (mc_NUT (cfg example_server))\<lparr>nu_Host := ''h'', nu_UPS := ''u''\<rparr>\<rparr>\<rparr>"

theorem bytes_decide_episode_witness:
  "(episode (evaluateUPS 9 (readUPS (silent_link\<lparr>ul_dialOK := True, ul_sendOK := True, ul_reply := ''ERR DATA-STALE''\<rparr>) nut_server) ''c1'' nut_server) = None) =
   (episode nut_server = None)"
proof -
  let ?link = "silent_link\<lparr>ul_dialOK := True, ul_sendOK := True, ul_reply := ''ERR DATA-STALE''\<rparr>"
  have "UsesNUT (cfg nut_server)" by (simp add: nut_server_def UsesNUT_def)
  moreover have "reported_status ?link (nu_UPS (mc_NUT (cfg nut_server))) = None"
    by (simp add: reported_status_def silent_link_def readNUTVarList_def readNUTLine_def maxNUTLineBytes_def)
  ultimately show ?thesis using bytes_decide_episode [of nut_server _ 9 ?link "''c1''", OF _ refl] by simp
qed

end
