(* ===== verification/Durations.thy ===== *)
theory Durations
  imports ConfigTree GoNet Floats
begin

text \<open>
  Durations in the configuration: \<open>Duration.UnmarshalYAML\<close> of \<open>internal/config/config.go\<close> with
  \<open>time.ParseDuration\<close>, on byte strings. Sums are kept in an unsigned 64-bit integer, whose
  wrap-around is written out. Fractions are computed in floating point, here as the exact
  operations followed by a rounding \<open>rnd\<close>. Decoding a YAML node into a string is a parameter.
\<close>

section \<open>Parsing\<close>

definition unitMap :: "(string, nat) gomap" where
  "unitMap = [(''ns'', 1), (''us'', 10 ^ 3), ([CHR 0xC2, CHR 0xB5, CHR ''s''], 10 ^ 3), ([CHR 0xCE, CHR 0xBC, CHR ''s''], 10 ^ 3),
     (''ms'', 10 ^ 6), (''s'', 10 ^ 9), (''m'', 60 * 10 ^ 9), (''h'', 3600 * 10 ^ 9)]"

fun leadingInt :: "nat \<Rightarrow> string \<Rightarrow> (nat \<times> string) option" where
  "leadingInt x [] = Some (x, [])"
| "leadingInt x (c # s) =
    (if c \<notin> set digits then Some (x, c # s)
     else if x > 2 ^ 63 div 10 then None
     else let y = x * 10 + digit_value c in if y > 2 ^ 63 then None else leadingInt y s)"

text \<open>The digits after the point: their value, how many count, and the rest; what does not fit is skipped.\<close>

fun leadingFraction :: "nat \<Rightarrow> nat \<Rightarrow> bool \<Rightarrow> string \<Rightarrow> nat \<times> nat \<times> string" where
  "leadingFraction x k overflow [] = (x, k, [])"
| "leadingFraction x k overflow (c # s) =
    (if c \<notin> set digits then (x, k, c # s)
     else if overflow \<or> x > (2 ^ 63 - 1) div 10 then leadingFraction x k True s
     else let y = x * 10 + digit_value c
          in if y > 2 ^ 63 then leadingFraction x k True s else leadingFraction y (Suc k) False s)"

text \<open>One number: the integer part, the fraction, its number of digits, and the rest.\<close>

definition duration_number :: "string \<Rightarrow> (nat \<times> nat \<times> nat \<times> string) option" where
  "duration_number s =
    (case leadingInt 0 s of
       None \<Rightarrow> None
     | Some (v, s1) \<Rightarrow>
        (case s1 of
           c # r \<Rightarrow>
             if c = CHR ''.'' then
               (case leadingFraction 0 0 False r of
                  (f, k, s2) \<Rightarrow> if length s1 = length s \<and> length s2 = length r then None else Some (v, f, k, s2))
             else if length s1 = length s then None else Some (v, 0, 0, s1)
         | [] \<Rightarrow> if length s1 = length s then None else Some (v, 0, 0, s1)))"

definition number_char :: "char \<Rightarrow> bool" where
  "number_char c \<longleftrightarrow> c = CHR ''.'' \<or> c \<in> set digits"

lemma leadingInt_length: "leadingInt x s = Some (v, r) \<Longrightarrow> length r \<le> length s"
  by (induction x s rule: leadingInt.induct) (auto simp: Let_def split: if_splits)

lemma leadingFraction_length: "leadingFraction x k ov s = (f, k', r) \<Longrightarrow> length r \<le> length s"
  by (induction x k ov s rule: leadingFraction.induct) (auto simp: Let_def split: if_splits)

lemma duration_number_length: "duration_number s = Some (v, f, k, r) \<Longrightarrow> length r \<le> length s"
  by (auto simp: duration_number_def dest!: leadingInt_length leadingFraction_length split: option.splits list.splits if_splits prod.splits)

lemma unit_shorter: "length b \<le> n \<Longrightarrow> takeWhile P b \<noteq> [] \<Longrightarrow> length b - length (takeWhile P b) < n"
  using length_takeWhile_le [of P b] by (cases "takeWhile P b") auto

text \<open>The loop over the numbers with their units.\<close>

function parse_parts :: "(real \<Rightarrow> real) \<Rightarrow> nat \<Rightarrow> string \<Rightarrow> nat option" where
  "parse_parts rnd d s =
    (if s = [] then Some d
     else if \<not> number_char (hd s) then None
     else case duration_number s of
       None \<Rightarrow> None
     | Some (v, f, k, s2) \<Rightarrow>
         let u = takeWhile (\<lambda>c. \<not> number_char c) s2
         in if u = [] then None
            else case map_of unitMap u of
              None \<Rightarrow> None
            | Some unit \<Rightarrow>
                if v > 2 ^ 63 div unit then None
                else
                  let v1 = v * unit;
                      v2 = (if f > 0 then (v1 + nat \<lfloor>rnd (rnd (of_nat f) * rnd (of_nat unit / 10 ^ k))\<rfloor>) mod 2 ^ 64 else v1)
                  in if f > 0 \<and> v2 > 2 ^ 63 then None
                     else let d1 = (d + v2) mod 2 ^ 64
                          in if d1 > 2 ^ 63 then None else parse_parts rnd d1 (drop (length u) s2))"
  by pat_completeness auto
termination
  by (relation "measure (\<lambda>(rnd, d, s). length s)") (auto dest!: duration_number_length intro!: unit_shorter)

declare parse_parts.simps [simp del]

definition ParseDuration :: "(real \<Rightarrow> real) \<Rightarrow> string \<Rightarrow> duration option" where
  "ParseDuration rnd s =
    (let neg = (s \<noteq> [] \<and> hd s = CHR ''-'');
         s1 = (if s \<noteq> [] \<and> (hd s = CHR ''-'' \<or> hd s = CHR ''+'') then tl s else s)
     in if s1 = ''0'' then Some 0
        else if s1 = [] then None
        else case parse_parts rnd 0 s1 of
          None \<Rightarrow> None
        | Some d \<Rightarrow>
            if neg then Some (wrap64 (- int d))
            else if int d > maxDuration then None else Some (int d))"

datatype duration_error = DurationNode string | DurationText string

definition Duration_UnmarshalYAML ::
  "(real \<Rightarrow> real) \<Rightarrow> (yaml_node \<Rightarrow> string + string) \<Rightarrow> yaml_node \<Rightarrow> duration_error + duration" where
  "Duration_UnmarshalYAML rnd decodeString node =
    (case decodeString node of
       Inl err \<Rightarrow> Inl (DurationNode err)
     | Inr raw \<Rightarrow> (case ParseDuration rnd raw of None \<Rightarrow> Inl (DurationText raw) | Some d \<Rightarrow> Inr d))"

section \<open>What a duration means\<close>

lemma digit_small: "c \<in> set digits \<Longrightarrow> digit_value c < 10"
  by (auto simp: digits_def digit_value_def)

lemma foldl_digits_mono: "x \<le> foldl (\<lambda>n c. n * 10 + digit_value c) x ds"
proof (induction ds arbitrary: x)
  case (Cons c ds)
  show ?case using Cons [of "x * 10 + digit_value c"] by simp
qed simp

text \<open>The integer part is exact, or refused.\<close>

lemma leadingInt_digits:
  assumes "set ds \<subseteq> set digits" "r = [] \<or> hd r \<notin> set digits" "x \<le> 2 ^ 63"
  shows "leadingInt x (ds @ r) =
    (let v = foldl (\<lambda>n c. n * 10 + digit_value c) x ds in if v \<le> 2 ^ 63 then Some (v, r) else None)"
  using assms
proof (induction ds arbitrary: x)
  case Nil
  then show ?case by (cases r) (auto simp: Let_def)
next
  case (Cons c ds)
  let ?y = "x * 10 + digit_value c"
  note mono = foldl_digits_mono [of ?y ds]
  show ?case
  proof (cases "?y \<le> 2 ^ 63")
    case True
    then show ?thesis using Cons by (auto simp: Let_def)
  next
    case False
    then show ?thesis using Cons.prems mono by (auto simp: Let_def)
  qed
qed

lemma leadingFraction_digits:
  assumes "set ds \<subseteq> set digits" "r = [] \<or> hd r \<notin> set digits" "x < 10 ^ k" "k + length ds \<le> 18"
  shows "leadingFraction x k False (ds @ r) = (foldl (\<lambda>n c. n * 10 + digit_value c) x ds, k + length ds, r)"
  using assms
proof (induction ds arbitrary: x k)
  case Nil
  then show ?case by (cases r) auto
next
  case (Cons c ds)
  have c: "c \<in> set digits" "digit_value c < 10" using Cons.prems(1) digit_small by auto
  have "(10 :: nat) ^ k \<le> 10 ^ 17" using Cons.prems(4) by (intro power_increasing) auto
  then have x: "x < 10 ^ 17" using Cons.prems(3) by simp
  have "x * 10 + digit_value c < 10 ^ Suc k" using Cons.prems(3) c(2) by simp
  from Cons.IH [OF _ Cons.prems(2) this] Cons.prems c x show ?case by (simp add: Let_def)
qed

text \<open>
  The texts of durations: numbers with their units, each the digits before the point, the point with the
  digits after it if there is one, and the unit.
\<close>

type_synonym duration_part = "string \<times> string option \<times> string"

fun fraction_digits :: "duration_part \<Rightarrow> string" where
  "fraction_digits (ds, fr, u) = (case fr of None \<Rightarrow> [] | Some fs \<Rightarrow> fs)"

fun show_part :: "duration_part \<Rightarrow> string" where
  "show_part (ds, fr, u) = ds @ (case fr of None \<Rightarrow> [] | Some fs \<Rightarrow> CHR ''.'' # fs) @ u"

definition microsecond_units :: "string list" where
  "microsecond_units = [''us'', [CHR 0xC2, CHR 0xB5, CHR ''s''], [CHR 0xCE, CHR 0xBC, CHR ''s'']]"

text \<open>The length of a unit in nanoseconds, independently of the table.\<close>

fun unit_of :: "duration_part \<Rightarrow> nat" where
  "unit_of (ds, fr, u) =
    (if u = ''h'' then 60 * 60 * 10 ^ 9 else if u = ''m'' then 60 * 10 ^ 9 else if u = ''s'' then 10 ^ 9
     else if u = ''ms'' then 10 ^ 6 else if u \<in> set microsecond_units then 10 ^ 3 else 1)"

fun part_text :: "duration_part \<Rightarrow> bool" where
  "part_text (ds, fr, u) \<longleftrightarrow> set ds \<subseteq> set digits \<and> set (fraction_digits (ds, fr, u)) \<subseteq> set digits \<and>
     length (fraction_digits (ds, fr, u)) \<le> 18 \<and> (ds \<noteq> [] \<or> fraction_digits (ds, fr, u) \<noteq> []) \<and>
     u \<in> set ([''h'', ''m'', ''s'', ''ms'', ''ns''] @ microsecond_units)"

text \<open>What a part means in nanoseconds, and what is computed for it.\<close>

definition part_meaning :: "duration_part \<Rightarrow> real" where
  "part_meaning p = (of_nat (decimal_value (fst p)) +
     of_nat (decimal_value (fraction_digits p)) / 10 ^ length (fraction_digits p)) * of_nat (unit_of p)"

definition fraction_value :: "(real \<Rightarrow> real) \<Rightarrow> duration_part \<Rightarrow> nat" where
  "fraction_value rnd p = (let f = decimal_value (fraction_digits p) in
     if f > 0 then nat \<lfloor>rnd (rnd (of_nat f) * rnd (of_nat (unit_of p) / 10 ^ length (fraction_digits p)))\<rfloor> else 0)"

definition part_value :: "(real \<Rightarrow> real) \<Rightarrow> duration_part \<Rightarrow> nat" where
  "part_value rnd p = decimal_value (fst p) * unit_of p + fraction_value rnd p"

lemma decimal_value_bound: "set ds \<subseteq> set digits \<Longrightarrow> decimal_value ds < 10 ^ length ds"
proof -
  have "foldl (\<lambda>n c. n * 10 + digit_value c) x ds < (x + 1) * 10 ^ length ds" if "set ds \<subseteq> set digits" for x
    using that
  proof (induction ds arbitrary: x)
    case (Cons c ds)
    have "digit_value c < 10" using Cons.prems digit_small by simp
    then have "(x * 10 + digit_value c + 1) * 10 ^ length ds \<le> ((x + 1) * 10) * 10 ^ length ds" by (intro mult_right_mono) simp_all
    with Cons.IH [of "x * 10 + digit_value c"] Cons.prems show ?case by (simp only: foldl.simps length_Cons power_Suc mult.assoc) simp
  qed simp
  from this [of 0] show "set ds \<subseteq> set digits \<Longrightarrow> decimal_value ds < 10 ^ length ds" by (simp add: decimal_value_def)
qed

lemma unit_chars:
  "part_text (ds, fr, u) \<Longrightarrow> u \<noteq> [] \<and> list_all (\<lambda>c. \<not> number_char c) u \<and> map_of unitMap u = Some (unit_of (ds, fr, u))"
  by (auto simp: unitMap_def microsecond_units_def number_char_def digits_def)

lemma unit_bounds: "part_text p \<Longrightarrow> 0 < unit_of p \<and> unit_of p \<le> 3600 * 10 ^ 9"
  by (cases p) simp

text \<open>The fraction is right to a nanosecond and a hundredth.\<close>

lemma fraction_value_near:
  assumes "double_rounding rnd" "part_text p"
  shows "\<bar>of_nat (fraction_value rnd p) -
      of_nat (decimal_value (fraction_digits p)) / 10 ^ length (fraction_digits p) * of_nat (unit_of p)\<bar> \<le> (101 / 100 :: real)"
    "fraction_digits p = [] \<Longrightarrow> fraction_value rnd p = 0" "fraction_value rnd p < 2 ^ 42"
proof -
  let ?k = "length (fraction_digits p)" let ?F = "of_nat (decimal_value (fraction_digits p)) :: real"
  let ?q = "of_nat (unit_of p) / 10 ^ ?k :: real"
  have "decimal_value (fraction_digits p) < 10 ^ ?k" using assms(2) by (intro decimal_value_bound) (cases p, auto)
  then have "?F < of_nat (10 ^ ?k)" by (simp only: of_nat_less_iff)
  then have F: "?F < 10 ^ ?k" "0 \<le> ?F" by simp_all
  have "?k \<le> 18" using assms(2) by (cases p) simp
  then have "(10 :: real) ^ ?k \<le> 10 ^ 18" by (rule power_increasing) simp
  with F(1) have "?F \<le> 10 ^ 18" by linarith
  then have F60: "?F \<le> 2 ^ 60" by (rule order_trans) simp
  have "of_nat (unit_of p) \<le> (of_nat (3600 * 10 ^ 9) :: real)" using unit_bounds [OF assms(2)] by (simp only: of_nat_le_iff)
  then have U: "of_nat (unit_of p) \<le> (3600 * 10 ^ 9 :: real)" by simp
  have "?q \<le> of_nat (unit_of p) / 1" by (intro divide_left_mono) simp_all
  then have q: "0 \<le> ?q" "?q \<le> 2 ^ 42" using U by simp_all
  have Fq: "?F * ?q = ?F / 10 ^ ?k * of_nat (unit_of p)" by simp
  have "?F / 10 ^ ?k \<le> 1" using F by simp
  then have "?F / 10 ^ ?k * of_nat (unit_of p) \<le> 1 * (3600 * 10 ^ 9)" using U F(2) by (intro mult_mono) simp_all
  then have Fq42: "?F * ?q \<le> 3600 * 10 ^ 9" unfolding Fq by simp
  have n: "\<bar>rnd (rnd ?F * rnd ?q) - ?F * ?q\<bar> \<le> 1 / 100"
    using Fq42 by (intro rounded_product assms(1) F(2) F60 q) simp
  have "\<bar>of_nat (nat \<lfloor>x\<rfloor>) - y\<bar> \<le> 101 / 100" if "\<bar>x - y\<bar> \<le> 1 / 100" "0 \<le> y" for x y :: real
    using that by linarith
  from this [OF n] F(2) q(1)
  show near: "\<bar>of_nat (fraction_value rnd p) - ?F / 10 ^ ?k * of_nat (unit_of p)\<bar> \<le> 101 / 100"
    unfolding Fq fraction_value_def Let_def by auto
  show "fraction_digits p = [] \<Longrightarrow> fraction_value rnd p = 0" by (simp add: fraction_value_def decimal_value_def)
  have "x \<le> c + 2" if "\<bar>x - y\<bar> \<le> 101 / 100" "y \<le> c" for x y c :: real using that by linarith
  from this [OF near Fq42 [unfolded Fq]] have "of_nat (fraction_value rnd p) < (of_nat (2 ^ 42) :: real)" by simp
  then show "fraction_value rnd p < 2 ^ 42" by (simp only: of_nat_less_iff)
qed

text \<open>Reading one part.\<close>

lemma parts_start: "list_all part_text ps \<Longrightarrow> ps \<noteq> [] \<Longrightarrow> \<exists>c r. concat (map show_part ps) = c # r \<and> number_char c"
proof (cases ps)
  case (Cons p qs)
  assume "list_all part_text ps"
  then have "part_text p" by (simp add: Cons)
  obtain ds fr u where p: "p = (ds, fr, u)" by (cases p)
  from \<open>part_text p\<close> show ?thesis
    by (cases ds; cases fr) (auto simp: Cons p number_char_def)
qed simp

lemma duration_number_part:
  assumes "part_text p"
  shows "duration_number (show_part p @ r) =
    (if decimal_value (fst p) \<le> 2 ^ 63
     then Some (decimal_value (fst p), decimal_value (fraction_digits p), length (fraction_digits p), snd (snd p) @ r) else None)"
proof -
  obtain ds fr u where p: "p = (ds, fr, u)" by (cases p)
  obtain b bs where u: "u = b # bs" "\<not> number_char b" using assms unit_chars [of ds fr u] by (cases u) (auto simp: p)
  then have b: "b \<noteq> CHR ''.''" "b \<notin> set digits" by (auto simp: number_char_def)
  have dot: "CHR ''.'' \<notin> set digits" by (simp add: digits_def)
  have int: "leadingInt 0 (ds @ s) = (if decimal_value ds \<le> 2 ^ 63 then Some (decimal_value ds, s) else None)"
    if "hd s \<notin> set digits" for s
    using that assms leadingInt_digits [of ds s 0] by (simp add: p Let_def decimal_value_def)
  show ?thesis
  proof (cases fr)
    case None
    with int [of "u @ r"] assms b show ?thesis by (auto simp: duration_number_def p u(1) decimal_value_def)
  next
    case (Some fs)
    have "leadingFraction 0 0 False (fs @ u @ r) = (decimal_value fs, length fs, u @ r)"
      using assms b leadingFraction_digits [of fs "u @ r" 0 0] by (simp add: p Some u(1) decimal_value_def)
    with int [of "CHR ''.'' # fs @ u @ r"] dot assms show ?thesis
      by (auto simp: duration_number_def p Some decimal_value_def)
  qed
qed

lemma parse_parts_step:
  assumes rnd: "double_rounding rnd" and p: "part_text p" and ps: "list_all part_text ps"
    and d: "d \<le> 2 ^ 63" and v: "part_value rnd p \<noteq> 2 ^ 63"
  shows "parse_parts rnd d (show_part p @ concat (map show_part ps)) =
    (if d + part_value rnd p \<le> 2 ^ 63 then parse_parts rnd (d + part_value rnd p) (concat (map show_part ps)) else None)"
proof -
  let ?r = "concat (map show_part ps)" let ?u = "snd (snd p)" let ?v = "decimal_value (fst p)" let ?f = "decimal_value (fraction_digits p)"
  let ?unit = "unit_of p"
  have u: "?u \<noteq> []" "list_all (\<lambda>c. \<not> number_char c) ?u" "map_of unitMap ?u = Some ?unit"
    using p unit_chars [of "fst p" "fst (snd p)" ?u] by simp_all
  have unit: "0 < ?unit" "?unit \<le> 3600 * 10 ^ 9" using unit_bounds [OF p] by simp_all
  have "takeWhile (\<lambda>c. \<not> number_char c) ?r = []" using parts_start [OF ps] by (cases "ps = []") auto
  then have word: "takeWhile (\<lambda>c. \<not> number_char c) (?u @ ?r) = ?u"
    using u(2) by (subst takeWhile_append2) (auto simp: list_all_iff)
  have start: "show_part p @ ?r \<noteq> []" "number_char (hd (show_part p @ ?r))"
    using parts_start [of "p # ps"] p ps by (auto simp del: append_is_Nil_conv)
  have big: "2 ^ 63 < part_value rnd p" if "2 ^ 63 div ?unit < ?v"
  proof -
    have "2 ^ 63 < ?v * ?unit" using that unit(1) by (simp add: div_less_iff_less_mult)
    then show ?thesis by (simp add: part_value_def)
  qed
  have "2 ^ 63 div ?unit < ?v" if "2 ^ 63 < ?v" using that div_le_dividend [of "2 ^ 63" ?unit] by linarith
  moreover have small: "?v * ?unit \<le> 2 ^ 63" if "\<not> 2 ^ 63 div ?unit < ?v"
    using that unit(1) by (simp add: less_eq_div_iff_mult_less_eq not_less)
  moreover have frac: "fraction_value rnd p < 2 ^ 42" by (rule fraction_value_near(3) [OF rnd p])
  ultimately have refused: "parse_parts rnd d (show_part p @ ?r) = None" if "2 ^ 63 div ?unit < ?v"
    using that start unfolding parse_parts.simps [of rnd d "show_part p @ ?r"] duration_number_part [OF p]
    by (simp add: word u Let_def)
  have taken: "parse_parts rnd d (show_part p @ ?r) =
      (if ?f > 0 \<and> part_value rnd p > 2 ^ 63 then None
       else let d1 = (d + part_value rnd p) mod 2 ^ 64
            in if d1 > 2 ^ 63 then None else parse_parts rnd d1 ?r)" if fits: "\<not> 2 ^ 63 div ?unit < ?v"
  proof -
    have v63: "?v \<le> 2 ^ 63" using fits div_le_dividend [of "2 ^ 63" ?unit] by linarith
    have "part_value rnd p mod 2 ^ 64 = part_value rnd p" using small [OF fits] frac by (simp add: part_value_def)
    then have sum: "(if ?f > 0 then (?v * ?unit + nat \<lfloor>rnd (rnd (of_nat ?f) * rnd (of_nat ?unit / 10 ^ length (fraction_digits p)))\<rfloor>) mod 2 ^ 64
        else ?v * ?unit) = part_value rnd p"
      by (cases "?f > 0") (simp_all add: part_value_def fraction_value_def Let_def)
    show ?thesis
      unfolding parse_parts.simps [of rnd d "show_part p @ ?r"] duration_number_part [OF p]
      using start v63 fits by (simp only: if_True if_False simp_thms option.case prod.case word u Let_def sum) (simp add: word u)
  qed
  show ?thesis
  proof (cases "2 ^ 63 div ?unit < ?v")
    case True
    with big refused show ?thesis by simp
  next
    case False
    have "?f = 0 \<Longrightarrow> part_value rnd p \<le> 2 ^ 63" using small [OF False] by (simp add: part_value_def fraction_value_def)
    with v d taken [OF False] show ?thesis by (auto simp: Let_def)
  qed
qed

lemma parts_not_zero:
  assumes "ps \<noteq> []" "list_all part_text ps"
  shows "concat (map show_part ps) \<noteq> ''0''"
proof -
  obtain ds fr u qs where p: "ps = (ds, fr, u) # qs" "part_text (ds, fr, u)" using assms by (cases ps) auto
  then obtain b bs where "u = b # bs" "\<not> number_char b" using unit_chars [OF p(2)] by (cases u) auto
  then have "b \<in> set (concat (map show_part ps))" "b \<notin> set ''0''" by (auto simp: p(1) number_char_def digits_def)
  then show ?thesis by metis
qed

lemma sum_meaning:
  assumes "double_rounding rnd" "list_all part_text ps"
  shows "\<bar>of_nat (sum_list (map (part_value rnd) ps)) - sum_list (map part_meaning ps)\<bar>
    \<le> (101 / 100 :: real) * of_nat (length (filter (\<lambda>p. fraction_digits p \<noteq> []) ps))"
  using assms(2)
proof (induction ps)
  case (Cons p ps)
  let ?n = "of_nat (length (filter (\<lambda>p. fraction_digits p \<noteq> []) ps)) :: real"
  have p: "part_text p" using Cons.prems by simp
  have meaning: "of_nat (part_value rnd p) - part_meaning p = of_nat (fraction_value rnd p) -
      of_nat (decimal_value (fraction_digits p)) / 10 ^ length (fraction_digits p) * of_nat (unit_of p)"
    by (simp add: part_value_def part_meaning_def algebra_simps)
  have "\<bar>of_nat (part_value rnd p) - part_meaning p\<bar> \<le> (if fraction_digits p = [] then 0 else 101 / 100)"
    using fraction_value_near(1,2) [OF assms(1) p] unfolding meaning by (auto simp: decimal_value_def)
  moreover have "\<bar>a + b - (x + y)\<bar> \<le> e + f" if "\<bar>a - x\<bar> \<le> e" "\<bar>b - y\<bar> \<le> f" for a b x y e f :: real
    using that by linarith
  ultimately have "\<bar>of_nat (part_value rnd p) + of_nat (sum_list (map (part_value rnd) ps)) - (part_meaning p + sum_list (map part_meaning ps))\<bar>
      \<le> (if fraction_digits p = [] then 0 else 101 / 100) + 101 / 100 * ?n"
    using Cons by simp
  then show ?case by (auto simp: algebra_simps)
qed simp

lemma parse_printed_parts:
  assumes "double_rounding rnd" "list_all part_text ps" "list_all (\<lambda>p. part_value rnd p \<noteq> 2 ^ 63) ps" "d \<le> 2 ^ 63"
  shows "parse_parts rnd d (concat (map show_part ps)) =
    (let total = d + sum_list (map (part_value rnd) ps) in if total \<le> 2 ^ 63 then Some total else None)"
  using assms(2-4)
proof (induction ps arbitrary: d)
  case Nil
  then show ?case by (simp add: parse_parts.simps)
next
  case (Cons p ps)
  then show ?case
    using parse_parts_step [OF assms(1), of p ps d] Cons.IH [of "d + part_value rnd p"] by (auto simp: Let_def add.assoc)
qed

text \<open>
  C31. A duration in the configuration means what it says, or the file is refused. The text is a sum of numbers
  with units, each with or without a point and up to 18 digits behind it, with or without a sign in front.
  What it is read as is the meant sum in nanoseconds, exactly when no number has a fraction and otherwise
  up to 1.01 nanoseconds for each that has one (the rest is dropped); a sum beyond the 64-bit range is
  refused, so no setting silently wraps around. (Excluded is a number that alone is
  \<open>2 ^ 63\<close> nanoseconds to the nanosecond, 292 years: the library adds two of them to zero.)
\<close>

theorem duration_setting_exact:
  assumes rnd: "double_rounding rnd"
    and raw: "decodeString node = Inr (sign @ concat (map show_part ps))" "sign \<in> {[], ''+'', ''-''}"
    and parts: "ps \<noteq> []" "list_all part_text ps" "list_all (\<lambda>p. part_value rnd p \<noteq> 2 ^ 63) ps"
  shows "\<exists>ns. 0 \<le> ns \<and>
    \<bar>of_int ns - sum_list (map part_meaning ps)\<bar> \<le> 101 / 100 * of_nat (length (filter (\<lambda>p. fraction_digits p \<noteq> []) ps)) \<and>
    Duration_UnmarshalYAML rnd decodeString node =
      (if sign = ''-'' then if minDuration \<le> - ns then Inr (- ns) else Inl (DurationText (sign @ concat (map show_part ps)))
       else if ns \<le> maxDuration then Inr ns else Inl (DurationText (sign @ concat (map show_part ps))))"
proof (intro exI conjI)
  let ?s = "concat (map show_part ps)" let ?ns = "int (sum_list (map (part_value rnd) ps))"
  show "0 \<le> ?ns" by simp
  show "\<bar>of_int ?ns - sum_list (map part_meaning ps)\<bar> \<le> 101 / 100 * of_nat (length (filter (\<lambda>p. fraction_digits p \<noteq> []) ps))"
    using sum_meaning [OF rnd parts(2)] by simp
  obtain c r where s: "?s = c # r" "number_char c" using parts_start [OF parts(2,1)] by blast
  have c: "c \<noteq> CHR ''-''" "c \<noteq> CHR ''+''" using s(2) by (auto simp: number_char_def digits_def)
  have zero: "?s \<noteq> ''0''" using parts(1,2) by (rule parts_not_zero)
  have "ParseDuration rnd (sign @ ?s) =
      (if sign = ''-'' then if minDuration \<le> - ?ns then Some (- ?ns) else None
       else if ?ns \<le> maxDuration then Some ?ns else None)"
    using parse_printed_parts [OF rnd parts(2,3), of 0] zero c s(1) raw(2) wrap64_id [of "- ?ns"]
    by (auto simp: ParseDuration_def Let_def minDuration_def maxDuration_def)
  then show "Duration_UnmarshalYAML rnd decodeString node =
      (if sign = ''-'' then if minDuration \<le> - ?ns then Inr (- ?ns) else Inl (DurationText (sign @ ?s))
       else if ?ns \<le> maxDuration then Inr ?ns else Inl (DurationText (sign @ ?s)))"
    by (simp add: Duration_UnmarshalYAML_def raw(1))
qed

text \<open>An hour and a half, with exact arithmetic for the fractions.\<close>

theorem duration_setting_exact_witness:
  "\<exists>ns. Duration_UnmarshalYAML id (\<lambda>n. Inr (node_Value n)) (YamlNode ScalarNode ''1.5h'' 1 []) = Inr ns \<and>
    \<bar>of_int ns - (of_int (90 * minute) :: real)\<bar> \<le> 101 / 100"
proof -
  let ?p = "(''1'', Some ''5'', ''h'')"
  have vals: "decimal_value ''1'' = 1" "decimal_value ''5'' = 5" "unit_of ?p = 3600 * 10 ^ 9" "fraction_digits ?p = ''5''"
    by (simp_all add: decimal_value_def digit_value_def unitMap_def)
  have "part_text ?p" by (simp add: digits_def unitMap_def)
  moreover have "part_value id ?p \<noteq> 2 ^ 63" by (simp add: part_value_def fraction_value_def vals Let_def del: unit_of.simps fraction_digits.simps)
  ultimately obtain ns where ns: "\<bar>of_int ns - part_meaning ?p\<bar> \<le> 101 / 100"
    "Duration_UnmarshalYAML id (\<lambda>n. Inr (node_Value n)) (YamlNode ScalarNode ''1.5h'' 1 []) =
      (if ns \<le> maxDuration then Inr ns else Inl (DurationText ''1.5h''))"
    using duration_setting_exact [of id "\<lambda>n. Inr (node_Value n)" "YamlNode ScalarNode ''1.5h'' 1 []" "[]" "[?p]"]
    by (auto simp: double_rounding_def)
  have m: "part_meaning ?p = of_int (90 * minute)" by (simp add: part_meaning_def vals minute_def second_def del: unit_of.simps fraction_digits.simps)
  have "ns \<le> 90 * minute + 2" using ns(1) unfolding m by linarith
  then have "ns \<le> maxDuration" by (simp add: minute_def second_def maxDuration_def)
  with ns m show ?thesis by auto
qed

end
