(* ===== verification/Spec2Isabelle.thy ===== *)
theory Spec2Isabelle
  imports Runs LocalBehaviour Enrolling Snmp ConfigBehaviour SelfCheck InstallScript AdminApi Listener Metrics AtomicFile
    Fleet SlaveMetrics Commands Endless Link Reconnect Polling Durations
begin

text \<open>
  A verification library for nut-server, a Go program that shuts machines down in order when a
  UPS runs on battery. The sources are under \<open>src/\<close>.

  \<^bold>\<open>The program.\<close> A \<^emph>\<open>master\<close> polls one UPS (over SNMP or from a NUT \<open>upsd\<close>), evaluates shutdown
  policies while the UPS is on battery, sends shutdown commands to the registered \<^emph>\<open>slaves\<close> over
  TCP or TLS, collects their acknowledgements, and finally powers itself off. Slaves keep a
  connection open, run a configured command when told to, and report. The state of both
  survives restarts in a JSON file. An admin API shows the status, issues manual commands, and
  hands out install scripts with per-node tokens.

  \<^bold>\<open>How the code is modelled.\<close> Every mutex-protected section of the code is one function on an
  explicit state record (\<open>Server\<close> for the master, \<open>slave_Client\<close> for the slave) with the guards,
  early returns and order of the source. Sent messages, file writes, closed connections and
  started commands are appended to a list of effects in the state. Go maps are association lists
  with an explicit order, nil-able slices and pointers are options, errors are sums or options,
  durations are integers with the 64-bit wrap-around written out, and times are nanoseconds since
  Go's zero time. All definitions are executable and total; loops over external input recurse on
  the input, so no fuel is needed, and the two readers of foreign input are given once more as
  partial functions on an endless source, where not returning is \<open>None\<close> (\<open>Endless\<close>). Interleaving
  is modelled above the functions: \<open>Master\<close> and \<open>SlaveRuns\<close> are step relations whose steps are the
  critical sections of the goroutines, and \<open>Fleet\<close> runs the master and all slaves together.

  \<^bold>\<open>Theories and sources.\<close>
  \<^item> \<open>Prelude\<close>, \<open>GoStrings\<close>, \<open>GoNet\<close>: Go maps, durations, the parts of \<open>strings\<close>, \<open>hex\<close>, \<open>net\<close>,
    \<open>strconv\<close> and \<open>base64\<close> that the code calls; the locales \<open>transition_system\<close> and
    \<open>ordered_transition_system\<close> (invariants and monotone facts over runs). \<open>Floats\<close>: rounding of floating-point operations.
  \<^item> \<open>Protocol\<close> (\<open>internal/protocol\<close>): messages, constants, newline framing with its size limit.
  \<^item> \<open>Security\<close> (\<open>internal/security\<close>): token comparison by digest.
  \<^item> \<open>Config\<close>, \<open>ConfigSources\<close>, \<open>ConfigTree\<close>, \<open>ConfigLoad\<close>, \<open>Tls\<close> (\<open>internal/config\<close>): the structs,
    the YAML tree walk, the defaults and validation of both loaders stage by stage, and the TLS
    settings. \<open>Durations\<close> parses duration settings. \<open>ConfigBehaviour\<close> has what loading guarantees. The locale \<open>normalizer\<close> (accepted
    settings satisfy a predicate, and what satisfies it is unchanged) is interpreted for each stage.
  \<^item> \<open>Registry\<close>, \<open>Directory\<close>, \<open>Store\<close> (\<open>registry.go\<close>, \<open>client.go\<close>, \<open>directory.go\<close>, the file writer of
    \<open>state.go\<close>): the tables and the ordered writes, with the locale \<open>connection_table\<close> for what a
    reconnecting client relies on.
  \<^item> \<open>Policy\<close> (\<open>policy.go\<close>, targets of \<open>episode.go\<close>), \<open>Nut\<close> (\<open>nut.go\<close>), \<open>Snmp\<close> (\<open>snmp.go\<close>), \<open>Ups\<close> (\<open>ups.go\<close>).
  \<^item> \<open>Server\<close> (\<open>server.go\<close>, \<open>status_class.go\<close>), \<open>Shutdown\<close> (\<open>shutdown.go\<close>), \<open>Episode\<close> (\<open>episode.go\<close>),
    \<open>LocalShutdown\<close> (\<open>local_shutdown.go\<close>), \<open>State\<close> (\<open>state.go\<close>): the command state machine; the locale
    \<open>status_classification\<close> states what the code relies on of the status table.
  \<^item> \<open>Enrollment\<close> (\<open>enrollment.go\<close>), \<open>Conn\<close> (\<open>conn.go\<close>), \<open>AdminHttp\<close>, \<open>AdminApi\<close> (\<open>admin_http.go\<close>,
    \<open>status.go\<close>), \<open>Install\<close>, \<open>InstallScript\<close> (\<open>install.go\<close>), \<open>Metrics\<close> (\<open>metrics.go\<close>), \<open>Listener\<close> (\<open>Run\<close> of
    \<open>server.go\<close>, \<open>admin_tls.go\<close>), \<open>SelfCheck\<close> (\<open>internal/shutdowncheck\<close>), \<open>AtomicFile\<close>
    (\<open>internal/atomicfile\<close>).
  \<^item> \<open>Slave\<close>, \<open>SlaveLemmas\<close>, \<open>SlaveRuns\<close>, \<open>SlaveBehaviour\<close> (\<open>internal/slave\<close>): the client and its runs.
    \<open>SlaveSession\<close>: dialling, read deadlines and the ping ticker of \<open>client.go\<close>. \<open>Reconnect\<close>: the
    jittered waits between attempts. \<open>Link\<close>: the deadlines of both ends of a connection. \<open>SlaveMetrics\<close>:
    \<open>internal/slave/metrics.go\<close>, the handlers with their counters, and the probes. \<open>SlaveHistory\<close>:
    what a slave has done over all its restarts.
  \<^item> \<open>Commands\<close> (\<open>cmd/nut-master\<close>, \<open>cmd/nut-slave\<close>): start-up, exit codes and \<open>--check-config\<close>.
  \<^item> \<open>Core\<close>, \<open>CoreSteps\<close>, \<open>Sections\<close>, \<open>Master\<close>, \<open>Runs\<close>: the invariant of the master, that every section
    keeps it, what no section takes back, the step relation and the theorems about all runs.
    \<open>Firing\<close>: the policies fired along a run. \<open>Behaviour\<close>, \<open>LocalBehaviour\<close>: what the single operations do. \<open>Enrolling\<close>: an enrollment seen
    from both ends. \<open>Polling\<close>: the loops of the master as whole handlers, from the bytes of the UPS,
    and that they are runs of the step relation.
  \<^item> \<open>Reports\<close>, \<open>Fleet\<close>: no section but the handling of an acknowledgement records an execution, and
    the composed system over a network that loses, delays, repeats and reorders.

  \<^bold>\<open>What is shown.\<close>
  \<^item> Runs of the master: that whole handlers are runs, the invariant of every reachable state over restarts, confirmed outcomes
    are never overwritten, at most one local shutdown runs.
  \<^item> The fleet: a node the master counts as executed has run its command (\<open>executed_means_executed\<close>).
  \<^item> Powering off: when the waiting master decides and why, emergencies at the next check, the mark
    on disk before the command, dry runs, a rebooted master.
  \<^item> Commands and episodes: exact effects of acknowledgements, replays, timeouts and line power, policies that fire once
    in an episode; restart round trip; ordered writes; registry and directory.
  \<^item> The slave: one execution per command over all interleavings and restarts, exact answers, only
    the configured command, tokens saved before they are confirmed, paced reconnects, dead links
    noticed and live ones kept (by both ends), metrics that count what happened.
  \<^item> Inputs: wire and \<open>upsd\<close> round trips, sound readings, agreement of the two sources but for the low-battery flag, which bytes
    start or end an episode, duration settings that never wrap around, and when the readers return on a peer that never stops.
  \<^item> Configuration: what a loaded configuration satisfies and that complete ones are unchanged,
    removed keys, TLS settings, the self-check against a grammar of sudo command lines, and that
    \<open>--check-config\<close> predicts what a start does.
  \<^item> The admin API: nothing without the token; install scripts read back by a shell; tokens replaced
    only when a script is served; the state file replaced atomically.
  \<^item> Five flaws are recorded: a replay whose answer fails blocks the execution of its command
    (\<open>interrupted_replay_never_executed\<close>), a local shutdown that fails after line power returned runs
    again (\<open>failed_local_shutdown_rerun_on_line_power\<close>), limits behind YAML merge keys are not checked
    (\<open>merged_limit_unchecked\<close>), an IPv6 Host header without a port is refused
    (\<open>ipv6_host_needs_port\<close>), and a slave restarted in dry-run mode answers a replay with an execution
    that never happened (\<open>dry_run_restart_claims_execution\<close>).

  \<^bold>\<open>Parameters.\<close> SHA-256, random bytes, clocks, JSON and YAML decoding, PEM and certificates, the SNMP
  library, \<open>strconv.ParseFloat\<close>, the outcome of sends, writes and other system calls, and the result
  of the shutdown command are arguments. Where a theorem needs something of them it is a named
  hypothesis (for example \<open>keys_present\<close> of the YAML decoder) with a witness.

  \<^bold>\<open>Floating point.\<close> The jitter and the fractions of durations are computed with the exact operations
  and a rounding function as an argument; the bounds use only the error of IEEE doubles
  (\<open>double_rounding\<close>). Whole durations are exact, a fraction is right to 1.01 nanoseconds.

  \<^bold>\<open>Where the model is coarser than the code.\<close> Whether sends on a connection succeed is one answer
  per connection for the whole process (\<open>sendOK\<close>), where in the code a later send may fail after an
  earlier one succeeded. \<open>saveState\<close> takes the snapshot and writes it in one step; that delayed writers
  do not overtake each other is shown in \<open>Store\<close> alone. \<open>conn_welcome\<close> is one step from the directory update
  to the replay. \<open>widenEpisodeCommand\<close> stores the widened command under its own id, which by the invariant is the
  key it was found under. In \<open>timed_reads\<close> a message that arrives exactly at its deadline is read,
  and handling a message takes no time. \<open>adminMux\<close> is given cleaned paths; the redirects of \<open>ServeMux\<close> for others
  are not modelled.

  \<^bold>\<open>Not modelled.\<close> Sockets below their deadlines, and TLS handshakes (runtime code); the Go memory
  model below the mutexes; the Prometheus client (counters are maps from labels to counts, a scrape is
  the list of metrics sent to it) and the HTTP servers around the handlers; log lines and
  \<open>internal/logging\<close>; flag parsing and signals; the web page, scripts and packaging, which are not Go
  code.
\<close>

end
